(* ===== verification/SynPrelude.thy ===== *)
theory SynPrelude
  imports Main "HOL-Library.Char_ord" "HOL-Library.List_Lexorder" "HOL-Library.Sublist"
begin

text \<open>
  What every component of the development shares: results that may be an exception, the
  pieces of Python's \<open>str\<close> the sources use (written over \<open>string\<close>, a list of the 256
  characters of HOL), decimal numerals, and the lemmas on them that the component proofs
  rewrite with. Nothing here is about SynQt.
\<close>

named_theorems res_simps "how the combinators on results compute"
named_theorems str_simps "how the Python string operations compute"

section \<open>Results\<close>

text \<open>
  A Python function that may raise returns a value of \<open>'e + 'a\<close>: \<open>Inl\<close> is the exception,
  \<open>Inr\<close> the returned value. The combinators run their parts in the order the source does
  and stop at the first exception.
\<close>

definition bindr :: "'e + 'a \<Rightarrow> ('a \<Rightarrow> 'e + 'b) \<Rightarrow> 'e + 'b" where
  "bindr r f = (case r of Inl e \<Rightarrow> Inl e | Inr x \<Rightarrow> f x)"

lemma bindr_Inl [simp, res_simps]: "bindr (Inl e) f = Inl e"
  by (simp add: bindr_def)

lemma bindr_Inr [simp, res_simps]: "bindr (Inr x) f = f x"
  by (simp add: bindr_def)

lemma bindr_eq_Inr: "bindr r f = Inr y \<longleftrightarrow> (\<exists>x. r = Inr x \<and> f x = Inr y)"
  by (cases r) auto

lemma bindr_eq_Inl: "bindr r f = Inl e \<longleftrightarrow> r = Inl e \<or> (\<exists>x. r = Inr x \<and> f x = Inl e)"
  by (cases r) auto

lemma bindr_cong [fundef_cong]:
  "r = r' \<Longrightarrow> (\<And>x. r' = Inr x \<Longrightarrow> f x = g x) \<Longrightarrow> bindr r f = bindr r' g"
  by (cases r') auto

fun mapr :: "('a \<Rightarrow> 'e + 'b) \<Rightarrow> 'a list \<Rightarrow> 'e + 'b list" where
  "mapr f [] = Inr []"
| "mapr f (x # xs) = bindr (f x) (\<lambda>y. bindr (mapr f xs) (\<lambda>ys. Inr (y # ys)))"

text \<open>The pieces of an output, in order: \<open>out += piece\<close> for each of them.\<close>

fun concatr :: "('e + 'a list) list \<Rightarrow> 'e + 'a list" where
  "concatr [] = Inr []"
| "concatr (p # ps) = bindr p (\<lambda>xs. bindr (concatr ps) (\<lambda>ys. Inr (xs @ ys)))"

definition is_ok :: "'e + 'a \<Rightarrow> bool" where
  "is_ok r \<longleftrightarrow> (\<exists>x. r = Inr x)"

lemma is_ok_simps [simp, res_simps]: "is_ok (Inr x)" "\<not> is_ok (Inl e)"
  by (simp_all add: is_ok_def)

lemma is_ok_code [code]: "is_ok r = (case r of Inl _ \<Rightarrow> False | Inr _ \<Rightarrow> True)"
  by (simp split: sum.split)

lemma is_okE: "is_ok r \<Longrightarrow> (\<And>x. r = Inr x \<Longrightarrow> P) \<Longrightarrow> P"
  by (auto simp: is_ok_def)

lemma is_ok_bindr: "is_ok (bindr r f) \<longleftrightarrow> is_ok r \<and> (\<forall>x. r = Inr x \<longrightarrow> is_ok (f x))"
  by (cases r) auto

lemma is_ok_mapr [simp]: "is_ok (mapr f xs) \<longleftrightarrow> (\<forall>x \<in> set xs. is_ok (f x))"
  by (induction xs) (auto simp: is_ok_bindr elim: is_okE)

lemma is_ok_concatr [simp]: "is_ok (concatr ps) \<longleftrightarrow> (\<forall>p \<in> set ps. is_ok p)"
  by (induction ps) (auto simp: is_ok_bindr elim: is_okE)

lemma mapr_eq_Inr: "mapr f xs = Inr ys \<Longrightarrow> list_all2 (\<lambda>x y. f x = Inr y) xs ys"
  by (induction xs arbitrary: ys) (auto simp: bindr_eq_Inr)

lemma mapr_length: "mapr f xs = Inr ys \<Longrightarrow> length ys = length xs"
  by (auto dest: mapr_eq_Inr simp: list_all2_lengthD)

lemma mapr_Inr [simp, res_simps]: "mapr (\<lambda>x. Inr (g x)) xs = Inr (map g xs)"
  by (induction xs) auto

lemma concatr_append:
  "concatr (ps @ qs) = bindr (concatr ps) (\<lambda>xs. bindr (concatr qs) (\<lambda>ys. Inr (xs @ ys)))"
proof (induction ps)
  case Nil
  show ?case by (cases "concatr qs") auto
next
  case (Cons p ps)
  then show ?case by (cases p; cases "concatr ps"; cases "concatr qs") auto
qed

lemma concatr_eq_Inr_set: "concatr ps = Inr xs \<Longrightarrow> Inr ys \<in> set ps \<Longrightarrow> set ys \<subseteq> set xs"
  by (induction ps arbitrary: xs) (auto simp: bindr_eq_Inr)

declare concatr.simps [simp del] mapr.simps [simp del]

section \<open>Python strings\<close>

abbreviation nl :: string where "nl \<equiv> ''\<newline>''"

fun join :: "string \<Rightarrow> string list \<Rightarrow> string" where
  "join sep [] = []"
| "join sep [x] = x"
| "join sep (x # y # zs) = x @ sep @ join sep (y # zs)"

lemma join_Cons: "join sep (x # xs) = (if xs = [] then x else x @ sep @ join sep xs)"
  by (cases xs) auto

lemma join_append:
  "xs \<noteq> [] \<Longrightarrow> ys \<noteq> [] \<Longrightarrow> join sep (xs @ ys) = join sep xs @ sep @ join sep ys"
  by (induction xs) (auto simp: join_Cons)

definition startswith :: "string \<Rightarrow> string \<Rightarrow> bool" where
  "startswith text p \<longleftrightarrow> take (length p) text = p"

lemma startswith_prefix: "startswith text p \<longleftrightarrow> prefix p text"
  by (metis append_take_drop_id prefixI startswith_def take_is_prefix append_eq_conv_conj prefixE)

lemma startswith_Cons [simp, str_simps]:
  "startswith text []" "\<not> startswith [] (x # xs)"
  "startswith (c # cs) (x # xs) \<longleftrightarrow> c = x \<and> startswith cs xs"
  by (auto simp: startswith_def)

text \<open>\<open>text.find(sub)\<close>: the first index, \<open>None\<close> for Python's \<open>-1\<close>.\<close>

fun find_sub :: "string \<Rightarrow> string \<Rightarrow> nat option" where
  "find_sub p [] = (if p = [] then Some 0 else None)"
| "find_sub p (c # cs) =
     (if startswith (c # cs) p then Some 0 else map_option Suc (find_sub p cs))"

lemma find_sub_bound: "find_sub p s = Some i \<Longrightarrow> i + length p \<le> length s"
proof (induction s arbitrary: i)
  case Nil
  then show ?case by (auto split: if_splits)
next
  case (Cons c cs)
  then show ?case
    by (auto split: if_splits simp: startswith_prefix dest: prefix_length_le)
qed

lemma find_sub_startswith: "find_sub p s = Some i \<Longrightarrow> startswith (drop i s) p"
  by (induction s arbitrary: i) (auto split: if_splits)

lemma find_sub_least: "find_sub p s = Some i \<Longrightarrow> j < i \<Longrightarrow> \<not> startswith (drop j s) p"
proof (induction s arbitrary: i j)
  case Nil
  then show ?case by (auto split: if_splits)
next
  case (Cons c cs)
  then show ?case by (cases j) (auto split: if_splits)
qed

definition rstrip_chars :: "string \<Rightarrow> string \<Rightarrow> string" where
  "rstrip_chars cs s = rev (dropWhile (\<lambda>c. c \<in> set cs) (rev s))"

definition lstrip_chars :: "string \<Rightarrow> string \<Rightarrow> string" where
  "lstrip_chars cs s = dropWhile (\<lambda>c. c \<in> set cs) s"

section \<open>Characters\<close>

definition is_lower :: "char \<Rightarrow> bool" where
  "is_lower c \<longleftrightarrow> CHR ''a'' \<le> c \<and> c \<le> CHR ''z''"

definition is_upper :: "char \<Rightarrow> bool" where
  "is_upper c \<longleftrightarrow> CHR ''A'' \<le> c \<and> c \<le> CHR ''Z''"

definition is_digit :: "char \<Rightarrow> bool" where
  "is_digit c \<longleftrightarrow> CHR ''0'' \<le> c \<and> c \<le> CHR ''9''"

text \<open>The classes \<open>[A-Za-z_]\<close> and \<open>[A-Za-z0-9_]\<close> of the sources' regular expressions.\<close>

definition ident_start :: "char \<Rightarrow> bool" where
  "ident_start c \<longleftrightarrow> is_lower c \<or> is_upper c \<or> c = CHR ''_''"

definition ident_char :: "char \<Rightarrow> bool" where
  "ident_char c \<longleftrightarrow> ident_start c \<or> is_digit c"

lemmas char_class_defs = is_lower_def is_upper_def is_digit_def ident_start_def ident_char_def
  less_eq_char_def

text \<open>A whole string that the regular expression \<open>[A-Za-z_][A-Za-z0-9_]*\<close> matches.\<close>

definition is_ident :: "string \<Rightarrow> bool" where
  "is_ident s \<longleftrightarrow> s \<noteq> [] \<and> ident_start (hd s) \<and> list_all ident_char s"

definition is_number :: "string \<Rightarrow> bool" where
  "is_number s \<longleftrightarrow> s \<noteq> [] \<and> list_all is_digit s"

lemma ident_start_ident_char: "ident_start c \<Longrightarrow> ident_char c"
  by (simp add: ident_char_def)

lemma ident_start_not_digit: "ident_start c \<Longrightarrow> \<not> is_digit c"
  by (auto simp: char_class_defs)

section \<open>Decimal numerals\<close>

definition digit_char :: "nat \<Rightarrow> char" where
  "digit_char d = char_of (48 + d)"

definition digit_val :: "char \<Rightarrow> nat" where
  "digit_val c = of_char c - 48"

text \<open>\<open>str(n)\<close> of a number that is not negative, and \<open>int(s)\<close> of a string of digits.\<close>

fun dec :: "nat \<Rightarrow> string" where
  "dec n = (if n < 10 then [digit_char n] else dec (n div 10) @ [digit_char (n mod 10)])"

declare dec.simps [simp del]

definition undec :: "string \<Rightarrow> nat" where
  "undec s = foldl (\<lambda>n c. 10 * n + digit_val c) 0 s"

lemma digit_val_digit_char [simp]: "d < 10 \<Longrightarrow> digit_val (digit_char d) = d"
  by (simp add: digit_val_def digit_char_def)

lemma is_digit_digit_char [simp]: "d < 10 \<Longrightarrow> is_digit (digit_char d)"
  by (simp add: is_digit_def digit_char_def less_eq_char_def)

lemma is_number_dec: "is_number (dec n)"
proof (induction n rule: dec.induct)
  case (1 n)
  then show ?case by (subst dec.simps) (auto simp: is_number_def)
qed

lemma undec_dec [simp]: "undec (dec n) = n"
proof (induction n rule: dec.induct)
  case (1 n)
  then show ?case by (subst dec.simps) (auto simp: undec_def)
qed

end
