(* ===== verification/SynTypes.thy ===== *)
theory SynTypes
  imports SynPrelude
begin

text \<open>
  The contract type vocabulary: \<open>synqtc/errors.py\<close> and \<open>synqtc/types.py\<close>. A written type
  is a name with an optional bound in brackets; \<open>parse_type\<close> splits it, \<open>cpp_type\<close> lowers it
  to its C++ spelling or raises, and \<open>measure\<close> says how the generated boundary weighs a value
  against the bound. The lemmas characterise which spellings are accepted and show that every
  accepted bound is one the generated code can measure.
\<close>

section \<open>errors.py\<close>

record syn_error =
  err_message :: string
  err_path :: string
  err_line :: nat
  err_col :: nat

text \<open>
  What a function of the contract compiler can raise. \<open>IndexError\<close> is what Python's own list
  indexing raises; the parser indexes its token list, so the model has to be able to say it.
  \<open>FileNotFoundError\<close> is what opening a file that is not there raises.
\<close>

datatype exn = SynError syn_error | IndexError | FileNotFoundError string

type_synonym 'a res = "exn + 'a"

definition syn_err :: "string \<Rightarrow> string \<Rightarrow> nat \<Rightarrow> nat \<Rightarrow> 'a res" where
  "syn_err message path line col =
     Inl (SynError \<lparr>err_message = message, err_path = path, err_line = line, err_col = col\<rparr>)"

definition format_error :: "syn_error \<Rightarrow> string" where
  "format_error e =
     (if err_line e > 0
      then err_path e @ '':'' @ dec (err_line e) @ '':'' @ dec (err_col e) @ '': error: '' @ err_message e
      else err_path e @ '': error: '' @ err_message e)"

definition quoted :: "string \<Rightarrow> string" where
  "quoted s = CHR 0x27 # s @ [CHR 0x27]"

section \<open>types.py: the tables\<close>

definition BUILTIN_TYPES :: "(string \<times> string) list" where
  "BUILTIN_TYPES =
     [(''bool'', ''bool''), (''date'', ''QDateTime''), (''double'', ''double''), (''int'', ''int''),
      (''list'', ''QVariantList''), (''real'', ''double''), (''string'', ''QString''),
      (''url'', ''QUrl''), (''var'', ''QVariant''), (''variant'', ''QVariant'')]"

definition SIZED_TYPES :: "(string \<times> string) list" where
  "SIZED_TYPES =
     [(''string'', ''characters''), (''url'', ''characters''), (''list'', ''elements''),
      (''var'', ''bytes''), (''variant'', ''bytes'')]"

definition MEASURES :: "(string \<times> (string \<Rightarrow> string)) list" where
  "MEASURES =
     [(''string'', \<lambda>expr. expr @ ''.size()''),
      (''url'', \<lambda>expr. expr @ ''.toString().size()''),
      (''list'', \<lambda>expr. expr @ ''.size()''),
      (''var'', \<lambda>expr. ''synqtVariantBytes('' @ expr @ '')''),
      (''variant'', \<lambda>expr. ''synqtVariantBytes('' @ expr @ '')'')]"

definition GENERIC_TYPES :: "string list" where
  "GENERIC_TYPES = [''var'', ''variant'']"

text \<open>
  The advice for each name that is no declaration, with \<open>{name}\<close> already replaced by
  \<open><name>\<close> as \<open>cpp_type\<close> does before it prints it.
\<close>

definition NOT_A_DECLARATION :: "(string \<times> string) list" where
  "NOT_A_DECLARATION =
     [(''void'', ''a slot with no return type is already void, so write ''
                 @ quoted ''slot <name>(...)''),
      (''enumeration'', ''an enumeration is not a value a contract can carry; send the ''
                 @ quoted ''int'' @ '' or the '' @ quoted ''string'' @ '' it stands for'')]"

definition has_key :: "('k \<times> 'v) list \<Rightarrow> 'k \<Rightarrow> bool" where
  "has_key table k \<longleftrightarrow> map_of table k \<noteq> None"

definition get_or :: "('k \<times> 'v) list \<Rightarrow> 'k \<Rightarrow> 'v \<Rightarrow> 'v" where
  "get_or table k d = (case map_of table k of None \<Rightarrow> d | Some v \<Rightarrow> v)"

section \<open>types.py: written types\<close>

record type_ref =
  ref_base :: string
  ref_size :: "nat option"

definition type_ref_str :: "type_ref \<Rightarrow> string" where
  "type_ref_str t =
     (case ref_size t of None \<Rightarrow> ref_base t | Some n \<Rightarrow> ref_base t @ ''['' @ dec n @ '']'')"

text \<open>
  The regular expression \<open>_TYPE_RE\<close>: a name, then optionally digits in brackets, then the end
  of the string. Python's \<open>$\<close> also matches before one newline that ends the string. The two
  groups are the name and the digits.
\<close>

definition re_end :: "string \<Rightarrow> bool" where
  "re_end s \<longleftrightarrow> s = [] \<or> s = nl"

definition TYPE_RE :: "string \<Rightarrow> (string \<times> string option) option" where
  "TYPE_RE s =
     (let name = takeWhile ident_char s; rest = dropWhile ident_char s in
      if \<not> is_ident name then None
      else if re_end rest then Some (name, None)
      else case rest of
        [] \<Rightarrow> None
      | c # r \<Rightarrow>
          if c \<noteq> CHR ''['' then None
          else let digits = takeWhile is_digit r; tail = dropWhile is_digit r in
               if digits = [] then None
               else case tail of
                 [] \<Rightarrow> None
               | d # e \<Rightarrow> if d = CHR '']'' \<and> re_end e then Some (name, Some digits) else None)"

definition parse_type :: "string \<Rightarrow> string \<Rightarrow> nat \<Rightarrow> nat \<Rightarrow> type_ref res" where
  "parse_type spelling path line col =
     (case TYPE_RE spelling of
        None \<Rightarrow> syn_err (quoted spelling @ '' is not a type'') path line col
      | Some (name, None) \<Rightarrow> Inr \<lparr>ref_base = name, ref_size = None\<rparr>
      | Some (name, Some digits) \<Rightarrow>
          (let bound = undec digits in
           if bound \<le> 0
           then syn_err (quoted spelling @ '' bounds the value at '' @ dec bound
                         @ ''; a bound is a positive number of '' @ get_or SIZED_TYPES name ''units'')
                  path line col
           else Inr \<lparr>ref_base = name, ref_size = Some bound\<rparr>))"

definition base_of :: "string \<Rightarrow> string" where
  "base_of spelling = (case TYPE_RE spelling of Some (name, _) \<Rightarrow> name | None \<Rightarrow> spelling)"

definition bound_of :: "string \<Rightarrow> nat option" where
  "bound_of spelling =
     (case TYPE_RE spelling of Some (_, Some digits) \<Rightarrow> Some (undec digits) | _ \<Rightarrow> None)"

definition is_generic :: "string \<Rightarrow> bool" where
  "is_generic spelling \<longleftrightarrow> base_of spelling \<in> set GENERIC_TYPES"

definition measure_of :: "string \<Rightarrow> string \<Rightarrow> string option" where
  "measure_of spelling expr =
     (if bound_of spelling = None then None
      else case map_of MEASURES (base_of spelling) of
             None \<Rightarrow> None
           | Some sizer \<Rightarrow> Some (sizer expr))"

definition unit_of :: "string \<Rightarrow> string" where
  "unit_of spelling = get_or SIZED_TYPES (base_of spelling) ''units''"

definition cpp_type :: "string \<Rightarrow> string list \<Rightarrow> string \<Rightarrow> nat \<Rightarrow> nat \<Rightarrow> string res" where
  "cpp_type syn_type record_names path line col =
     bindr (parse_type syn_type path line col) (\<lambda>reference.
       let known = sort (map fst BUILTIN_TYPES) @ sort record_names in
       if has_key NOT_A_DECLARATION (ref_base reference) \<and> ref_base reference \<notin> set record_names
       then syn_err (quoted (ref_base reference) @ '' is not a type a contract declares; ''
                     @ get_or NOT_A_DECLARATION (ref_base reference) []) path line col
       else if \<not> has_key BUILTIN_TYPES (ref_base reference) \<and> ref_base reference \<notin> set record_names
       then syn_err (''unknown type '' @ quoted (ref_base reference) @ '' (known types: ''
                     @ join '', '' known @ '')'') path line col
       else if ref_size reference \<noteq> None \<and> \<not> has_key SIZED_TYPES (ref_base reference)
       then syn_err (quoted (ref_base reference) @ '' takes no bound in brackets; the types that do are ''
                     @ join '', '' (map (\<lambda>(name, u). name @ ''[n] ('' @ u @ '')'')
                                         (sort_key fst SIZED_TYPES))) path line col
       else case map_of BUILTIN_TYPES (ref_base reference) of
              Some c \<Rightarrow> Inr c
            | None \<Rightarrow> Inr (ref_base reference))"

section \<open>Which spellings are types\<close>

lemma TYPE_RE_ident: "is_ident name \<Longrightarrow> TYPE_RE name = Some (name, None)"
proof -
  assume i: "is_ident name"
  then have tw: "takeWhile ident_char name = name" and dw: "dropWhile ident_char name = []"
    by (auto simp: is_ident_def list_all_iff)
  show ?thesis using i by (simp add: TYPE_RE_def re_end_def Let_def tw dw)
qed

lemma not_ident_char_simps [simp]:
  "\<not> ident_char (CHR ''['')" "\<not> ident_char (CHR '']'')" "\<not> is_digit (CHR '']'')"
  "\<not> is_digit (CHR ''['')"
  by (simp_all add: char_class_defs)

lemma TYPE_RE_bound:
  assumes "is_ident name" and "is_number digits"
  shows "TYPE_RE (name @ ''['' @ digits @ '']'') = Some (name, Some digits)"
proof -
  have "takeWhile ident_char (name @ CHR ''['' # digits @ '']'') = name"
       "dropWhile ident_char (name @ CHR ''['' # digits @ '']'') = CHR ''['' # digits @ '']''"
    using assms(1) by (auto simp: is_ident_def list_all_iff takeWhile_append2 dropWhile_append2)
  moreover have "takeWhile is_digit (digits @ '']'') = digits"
       "dropWhile is_digit (digits @ '']'') = '']''"
    using assms(2) by (auto simp: is_number_def list_all_iff takeWhile_append2 dropWhile_append2)
  ultimately show ?thesis
    using assms by (simp add: TYPE_RE_def re_end_def is_number_def)
qed

lemma TYPE_RE_name: "TYPE_RE s = Some (name, d) \<Longrightarrow> is_ident name"
  by (auto simp: TYPE_RE_def Let_def split: if_splits list.splits)

lemma TYPE_RE_digits: "TYPE_RE s = Some (name, Some d) \<Longrightarrow> is_number d"
  by (auto simp: TYPE_RE_def Let_def is_number_def list_all_iff dest: set_takeWhileD
           split: if_splits list.splits)

text \<open>A well-formed reference, the shape \<open>parse_type\<close> returns.\<close>

definition wf_type_ref :: "type_ref \<Rightarrow> bool" where
  "wf_type_ref t \<longleftrightarrow> is_ident (ref_base t) \<and> (\<forall>n. ref_size t = Some n \<longrightarrow> n > 0)"

lemma parse_type_wf: "parse_type s path line col = Inr t \<Longrightarrow> wf_type_ref t"
  by (auto simp: parse_type_def wf_type_ref_def syn_err_def Let_def
           split: option.splits if_splits; blast intro: TYPE_RE_name)

lemma parse_type_base_of: "parse_type s path line col = Inr t \<Longrightarrow> base_of s = ref_base t"
  by (auto simp: parse_type_def base_of_def syn_err_def Let_def split: option.splits if_splits)

lemma parse_type_bound_of: "parse_type s path line col = Inr t \<Longrightarrow> bound_of s = ref_size t"
  by (auto simp: parse_type_def bound_of_def syn_err_def Let_def split: option.splits if_splits)

lemma parse_type_error: "parse_type s path line col = Inl e \<Longrightarrow>
  \<exists>m. e = SynError \<lparr>err_message = m, err_path = path, err_line = line, err_col = col\<rparr>"
  by (auto simp: parse_type_def syn_err_def Let_def split: option.splits if_splits)

lemma cpp_type_error: "cpp_type s rs path line col = Inl e \<Longrightarrow>
  \<exists>m. e = SynError \<lparr>err_message = m, err_path = path, err_line = line, err_col = col\<rparr>"
  by (auto simp: cpp_type_def bindr_eq_Inl Let_def syn_err_def dest: parse_type_error
           split: if_splits option.splits)

lemma parse_type_str: "wf_type_ref t \<Longrightarrow> parse_type (type_ref_str t) path line col = Inr t"
  using TYPE_RE_bound is_number_dec
  by (cases t) (auto simp: parse_type_def type_ref_str_def wf_type_ref_def TYPE_RE_ident
                     split: option.splits)

text \<open>
  The declarative reading of \<open>cpp_type\<close>: what a contract that declares the records \<open>rs\<close> may
  write as a type.
\<close>

definition valid_type :: "string list \<Rightarrow> string \<Rightarrow> bool" where
  "valid_type rs s \<longleftrightarrow>
     TYPE_RE s \<noteq> None \<and> bound_of s \<noteq> Some 0 \<and>
     (has_key BUILTIN_TYPES (base_of s) \<or> base_of s \<in> set rs) \<and>
     (bound_of s \<noteq> None \<longrightarrow> has_key SIZED_TYPES (base_of s))"

definition cpp_spelling :: "string \<Rightarrow> string" where
  "cpp_spelling s = get_or BUILTIN_TYPES (base_of s) (base_of s)"

lemma builtin_is_declaration: "has_key NOT_A_DECLARATION b \<Longrightarrow> \<not> has_key BUILTIN_TYPES b"
  by (auto simp: has_key_def NOT_A_DECLARATION_def BUILTIN_TYPES_def split: if_splits)

lemma sized_has_measure: "has_key SIZED_TYPES b \<Longrightarrow> has_key MEASURES b"
  by (auto simp: has_key_def SIZED_TYPES_def MEASURES_def split: if_splits)

lemma parse_type_ok_iff:
  "parse_type s path line col = Inr t \<longleftrightarrow>
     TYPE_RE s \<noteq> None \<and> bound_of s \<noteq> Some 0 \<and> t = \<lparr>ref_base = base_of s, ref_size = bound_of s\<rparr>"
  by (auto simp: parse_type_def base_of_def bound_of_def syn_err_def Let_def
           split: option.splits if_splits)

lemma cpp_type_ok_iff:
  "cpp_type s rs path line col = Inr c \<longleftrightarrow> valid_type rs s \<and> c = cpp_spelling s"
  using builtin_is_declaration [of "base_of s"]
  by (auto simp: cpp_type_def bindr_eq_Inr parse_type_ok_iff valid_type_def cpp_spelling_def
                 get_or_def has_key_def syn_err_def Let_def split: if_splits option.splits)

lemma cpp_type_valid: "valid_type rs s \<Longrightarrow> cpp_type s rs path line col = Inr (cpp_spelling s)"
  by (simp add: cpp_type_ok_iff)

lemma is_ok_cpp_type [simp]: "is_ok (cpp_type s rs path line col) \<longleftrightarrow> valid_type rs s"
  by (auto simp: is_ok_def cpp_type_ok_iff)

lemma measure_of_valid:
  "valid_type rs s \<Longrightarrow> bound_of s = Some n \<Longrightarrow> \<exists>m. measure_of s expr = Some m"
  using sized_has_measure [of "base_of s"]
  by (auto simp: measure_of_def valid_type_def has_key_def)

section \<open>Properties\<close>

text \<open>
  C24. A type reference is exactly what its spelling parses back to: printing a reference and parsing
  the text returns it if and only if its base is an identifier and its bound, if any, is positive.
\<close>

theorem type_spelling_roundtrip:
  "parse_type (type_ref_str t) path line col = Inr t \<longleftrightarrow> wf_type_ref t"
  using parse_type_str parse_type_wf by blast

text \<open>
  \<open>cpp_type\<close> decides the type vocabulary: it returns exactly for a well-spelled type that is a
  builtin or a declared record, with a positive bound only where the type has a size, and what it
  raises otherwise is a \<open>SynError\<close> at the position it was given.
\<close>

theorem cpp_type_decides:
  "cpp_type s rs path line col = Inr (get_or BUILTIN_TYPES (base_of s) (base_of s)) \<and> valid_type rs s \<or>
   (\<exists>m. cpp_type s rs path line col = syn_err m path line col) \<and> \<not> valid_type rs s"
proof (cases "cpp_type s rs path line col")
  case (Inl e)
  then show ?thesis using cpp_type_error [OF Inl] cpp_type_ok_iff [of s rs path line col] by (auto simp: syn_err_def)
next
  case (Inr c)
  then show ?thesis by (simp add: cpp_type_ok_iff cpp_spelling_def)
qed

text \<open>
  Every bound the compiler accepts is one the generated code can weigh: the type has a measure
  exactly when it has a bound, and the bound is not zero. So no declared bound is silently ignored
  by \<open>_bound_guard\<close>.
\<close>

theorem accepted_bound_measured:
  assumes "cpp_type s rs path line col = Inr c"
  shows "(bound_of s = None \<longleftrightarrow> measure_of s expr = None) \<and> bound_of s \<noteq> Some 0"
proof -
  have "valid_type rs s" using assms by (simp add: cpp_type_ok_iff)
  then show ?thesis
    using measure_of_valid [of rs s _ expr] by (cases "bound_of s") (auto simp: measure_of_def valid_type_def)
qed

theorem accepted_bound_measured_witness:
  "cpp_type ''var[256]'' [] ''board.syn'' 1 1 = Inr ''QVariant'' \<and>
   (bound_of ''var[256]'' = None \<longleftrightarrow> measure_of ''var[256]'' ''extra'' = None) \<and> bound_of ''var[256]'' \<noteq> Some 0"
proof -
  have ok: "cpp_type ''var[256]'' [] ''board.syn'' 1 1 = Inr ''QVariant''" by code_simp
  show ?thesis using ok accepted_bound_measured [OF ok, of "''extra''"] by blast
qed

end
