(* ===== verification/SynLexer.thy ===== *)
theory SynLexer
  imports SynTypes
begin

text \<open>
  The tokenizer of \<open>synqtc/parser.py\<close>. Python keeps an index into the text and advances it one
  character at a time, counting lines and columns; the model keeps the text from the index on,
  with the same line and column. The lemmas show that the tokenizer always terminates, that
  every token it returns is one of the grammar's, that it stands in the text where its line and
  column say, and that only one token ends the file.
\<close>

record token =
  tok_kind :: string
  tok_value :: string
  tok_line :: nat
  tok_col :: nat

definition KEYWORDS :: "string list" where
  "KEYWORDS = [''contract'', ''record'', ''prop'', ''model'', ''signal'', ''slot'']"

definition mk_token :: "string \<Rightarrow> string \<Rightarrow> nat \<Rightarrow> nat \<Rightarrow> token" where
  "mk_token k v line col = \<lparr>tok_kind = k, tok_value = v, tok_line = line, tok_col = col\<rparr>"

text \<open>
  The state of the loop: what is left of the text, the line and the column. \<open>advance\<close> is only
  called with a count the text still holds, where Python would not raise.
\<close>

type_synonym cursor = "string \<times> nat \<times> nat"

fun advance :: "nat \<Rightarrow> cursor \<Rightarrow> cursor" where
  "advance 0 s = s"
| "advance (Suc n) (c # cs, line, col) =
     advance n (if c = CHR ''\<newline>'' then (cs, line + 1, 1) else (cs, line, col + 1))"
| "advance (Suc n) ([], line, col) = ([], line, col)"

definition whitespace :: "char \<Rightarrow> bool" where
  "whitespace c \<longleftrightarrow> c = CHR '' '' \<or> c = CHR 0x09 \<or> c = CHR 0x0D \<or> c = CHR ''\<newline>''"

definition punctuation :: string where
  "punctuation = ''{}(),[]<>''"

lemma fst_advance [simp]: "fst (advance n s) = drop n (fst s)"
  by (induction n s rule: advance.induct) auto

lemma advance_decreases: "s = c # cs \<Longrightarrow> 0 < n \<Longrightarrow> length (fst (advance n (s, l, k))) < length s"
  by simp

function tokens_from :: "string \<Rightarrow> cursor \<Rightarrow> token list res" where
  "tokens_from path ([], line, col) = Inr [mk_token ''eof'' [] line col]"
| "tokens_from path (c # cs, line, col) =
     (if whitespace c then tokens_from path (advance 1 (c # cs, line, col))
      else if startswith (c # cs) ''//'' then
        tokens_from path
          (advance (case find_sub nl (c # cs) of None \<Rightarrow> length (c # cs) | Some n \<Rightarrow> n)
             (c # cs, line, col))
      else if startswith (c # cs) ''/*'' then
        (case find_sub ''*/'' (c # cs) of
           None \<Rightarrow> syn_err ''unterminated /* comment'' path line col
         | Some n \<Rightarrow> tokens_from path (advance (n + 2) (c # cs, line, col)))
      else if c \<in> set punctuation then
        bindr (tokens_from path (advance 1 (c # cs, line, col)))
          (\<lambda>ts. Inr (mk_token [c] [c] line col # ts))
      else if ident_start c then
        bindr (tokens_from path (advance (length (takeWhile ident_char (c # cs))) (c # cs, line, col)))
          (\<lambda>ts. Inr (mk_token ''ident'' (takeWhile ident_char (c # cs)) line col # ts))
      else if is_digit c then
        bindr (tokens_from path (advance (length (takeWhile is_digit (c # cs))) (c # cs, line, col)))
          (\<lambda>ts. Inr (mk_token ''number'' (takeWhile is_digit (c # cs)) line col # ts))
      else syn_err (''unexpected character '' @ quoted [c]) path line col)"
  by pat_completeness auto
termination
proof (relation "measure (\<lambda>(path, s). length (fst s))", goal_cases)
  case (3 path c cs line col)
  have "find_sub nl (c # cs) \<noteq> Some 0"
    using 3(2) by (auto split: if_splits)
  with 3 show ?case by (auto split: option.splits)
qed (auto simp: ident_char_def)

definition tokenize :: "string \<Rightarrow> string \<Rightarrow> token list res" where
  "tokenize s path = tokens_from path (s, 1, 1)"

declare tokens_from.simps(2) [simp del]

section \<open>Where a token stands\<close>

definition line_at :: "string \<Rightarrow> nat \<Rightarrow> nat" where
  "line_at s i = 1 + count_list (take i s) (CHR ''\<newline>'')"

definition col_at :: "string \<Rightarrow> nat \<Rightarrow> nat" where
  "col_at s i = 1 + length (takeWhile (\<lambda>c. c \<noteq> CHR ''\<newline>'') (rev (take i s)))"

definition cursor_at :: "string \<Rightarrow> nat \<Rightarrow> cursor" where
  "cursor_at s i = (drop i s, line_at s i, col_at s i)"

lemma cursor_at_0: "cursor_at s 0 = (s, 1, 1)"
  by (simp add: cursor_at_def line_at_def col_at_def)

lemma advance_cursor_at:
  "i + n \<le> length s \<Longrightarrow> advance n (cursor_at s i) = cursor_at s (i + n)"
proof (induction n arbitrary: i)
  case 0
  show ?case by simp
next
  case (Suc n)
  then have i: "i < length s" by simp
  have "advance (Suc n) (cursor_at s i) = advance n (cursor_at s (Suc i))"
    using Cons_nth_drop_Suc [OF i, symmetric]
    by (simp add: cursor_at_def line_at_def col_at_def take_Suc_conv_app_nth i)
  with Suc show ?case by simp
qed

text \<open>
  The tokens of a list, each found in the text after the one before it, at the offset whose
  line and column it carries.
\<close>

fun placed :: "string \<Rightarrow> nat \<Rightarrow> token list \<Rightarrow> bool" where
  "placed s i [] \<longleftrightarrow> True"
| "placed s i (t # ts) \<longleftrightarrow>
     (\<exists>j \<ge> i. j + length (tok_value t) \<le> length s \<and> startswith (drop j s) (tok_value t) \<and>
        tok_line t = line_at s j \<and> tok_col t = col_at s j \<and>
        placed s (j + length (tok_value t)) ts)"

lemma placed_mono: "placed s j ts \<Longrightarrow> i \<le> j \<Longrightarrow> placed s i ts"
  by (cases ts) (auto intro: le_trans)

definition wf_token :: "token \<Rightarrow> bool" where
  "wf_token t \<longleftrightarrow>
     tok_kind t = ''ident'' \<and> is_ident (tok_value t) \<or>
     tok_kind t = ''number'' \<and> is_number (tok_value t) \<or>
     (\<exists>c \<in> set punctuation. tok_kind t = [c] \<and> tok_value t = [c])"

text \<open>A token list the parser is given: one end of file, the last token, and before it only
  identifiers, numbers and punctuation.\<close>

definition wf_stream :: "token list \<Rightarrow> bool" where
  "wf_stream ts \<longleftrightarrow>
     ts \<noteq> [] \<and> tok_kind (last ts) = ''eof'' \<and> tok_value (last ts) = [] \<and>
     list_all wf_token (butlast ts)"

lemma wf_stream_Cons [simp]: "wf_stream ts \<Longrightarrow> wf_stream (t # ts) \<longleftrightarrow> wf_token t"
  by (auto simp: wf_stream_def)

lemma takeWhile_ident: "ident_start c \<Longrightarrow> is_ident (takeWhile ident_char (c # cs))"
  by (auto simp: is_ident_def ident_start_ident_char list_all_iff dest: set_takeWhileD)

lemma takeWhile_number: "is_digit c \<Longrightarrow> is_number (takeWhile is_digit (c # cs))"
  by (auto simp: is_number_def list_all_iff dest: set_takeWhileD)

lemma startswith_takeWhile: "startswith s (takeWhile P s)"
  by (simp add: startswith_prefix takeWhile_is_prefix)

text \<open>Every way the loop can go on from a position, as one rule over offsets.\<close>

definition lex_ok :: "string \<Rightarrow> string \<Rightarrow> nat \<Rightarrow> bool" where
  "lex_ok path s i \<longleftrightarrow>
     (case tokens_from path (cursor_at s i) of
        Inr ts \<Rightarrow> placed s i ts \<and> wf_stream ts
      | Inl e \<Rightarrow> \<exists>j < length s. \<exists>m. e = SynError \<lparr>err_message = m, err_path = path,
                    err_line = line_at s j, err_col = col_at s j\<rparr>)"

lemma lex_ok_skip:
  assumes "tokens_from path (cursor_at s i) = tokens_from path (cursor_at s (i + n))"
    and "lex_ok path s (i + n)"
  shows "lex_ok path s i"
  using assms by (auto simp: lex_ok_def split: sum.splits intro: placed_mono [of s "i + n"])

lemma lex_ok_token:
  assumes eq: "tokens_from path (cursor_at s i) =
      bindr (tokens_from path (cursor_at s (i + length v))) (\<lambda>ts. Inr (mk_token k v (line_at s i) (col_at s i) # ts))"
    and "startswith (drop i s) v" "i + length v \<le> length s" "wf_token (mk_token k v (line_at s i) (col_at s i))"
    and "lex_ok path s (i + length v)"
  shows "lex_ok path s i"
proof (cases "tokens_from path (cursor_at s (i + length v))")
  case (Inl e)
  then show ?thesis using assms by (simp add: lex_ok_def)
next
  case (Inr ts)
  then show ?thesis using assms by (auto simp: lex_ok_def mk_token_def)
qed

lemma tokens_from_plain:
  assumes "\<not> whitespace c \<and> \<not> startswith (c # cs) ''//'' \<and> \<not> startswith (c # cs) ''/*''"
  shows "(\<exists>kind v. v \<noteq> [] \<and> startswith (c # cs) v \<and> wf_token (mk_token kind v l k) \<and>
            tokens_from path (c # cs, l, k) =
              bindr (tokens_from path (advance (length v) (c # cs, l, k)))
                (\<lambda>ts. Inr (mk_token kind v l k # ts))) \<or>
         (\<exists>m. tokens_from path (c # cs, l, k) = syn_err m path l k)"
proof -
  let ?tok = "\<lambda>kind v. tokens_from path (c # cs, l, k) =
    bindr (tokens_from path (advance (length v) (c # cs, l, k))) (\<lambda>ts. Inr (mk_token kind v l k # ts))"
  note unf = tokens_from.simps(2) [of path c cs l k]
  consider (punct) "c \<in> set punctuation"
    | (ident) "c \<notin> set punctuation" "ident_start c"
    | (num) "c \<notin> set punctuation" "\<not> ident_start c" "is_digit c"
    | (bad) "c \<notin> set punctuation" "\<not> ident_start c" "\<not> is_digit c"
    by blast
  then show ?thesis
  proof cases
    case punct
    then have "?tok [c] [c]" using assms unf by (simp only: simp_thms if_True if_False list.size One_nat_def add_0)
    with punct show ?thesis
      by (intro disjI1 exI [of _ "[c]"]) (simp add: wf_token_def mk_token_def)
  next
    case ident
    then have "?tok ''ident'' (takeWhile ident_char (c # cs))"
      using assms unf by (simp only: simp_thms if_True if_False)
    with ident show ?thesis
      by (intro disjI1 exI [of _ "''ident''"] exI [of _ "takeWhile ident_char (c # cs)"])
         (use takeWhile_ident [OF ident(2), of cs] in
           \<open>simp add: wf_token_def mk_token_def startswith_takeWhile is_ident_def del: takeWhile.simps\<close>)
  next
    case num
    then have "?tok ''number'' (takeWhile is_digit (c # cs))"
      using assms unf by (simp only: simp_thms if_True if_False)
    with num show ?thesis
      by (intro disjI1 exI [of _ "''number''"] exI [of _ "takeWhile is_digit (c # cs)"])
         (use takeWhile_number [OF num(3), of cs] in
           \<open>simp add: wf_token_def mk_token_def startswith_takeWhile is_number_def del: takeWhile.simps\<close>)
  next
    case bad
    then have "tokens_from path (c # cs, l, k) =
        syn_err (''unexpected character '' @ quoted [c]) path l k"
      using assms unf by (simp only: simp_thms if_False)
    then show ?thesis by blast
  qed
qed

text \<open>
  One turn of the loop does one of three things: it skips some characters, it makes a token of
  the characters the text starts with, or it raises at this very position.
\<close>

lemma tokens_from_turn:
  fixes c cs l k
  defines "cur \<equiv> (c # cs, l, k)"
  shows "(\<exists>n > 0. n \<le> length (c # cs) \<and> tokens_from path cur = tokens_from path (advance n cur)) \<or>
         (\<exists>kind v. v \<noteq> [] \<and> startswith (c # cs) v \<and> wf_token (mk_token kind v l k) \<and>
            tokens_from path cur = bindr (tokens_from path (advance (length v) cur))
              (\<lambda>ts. Inr (mk_token kind v l k # ts))) \<or>
         (\<exists>m. tokens_from path cur = syn_err m path l k)"
    (is "?skip \<or> ?token \<or> ?raise")
proof -
  note unf = tokens_from.simps(2) [of path c cs l k, folded cur_def]
  let ?plain = "\<not> whitespace c \<and> \<not> startswith (c # cs) ''//'' \<and> \<not> startswith (c # cs) ''/*''"
  show ?thesis
  proof (cases "whitespace c")
    case True
    then have ?skip by (intro exI [of _ 1]) (simp add: unf)
    then show ?thesis by blast
  next
    case ws: False
    show ?thesis
    proof (cases "startswith (c # cs) ''//''")
      case True
      let ?n = "case find_sub nl (c # cs) of None \<Rightarrow> length (c # cs) | Some n \<Rightarrow> n"
      have "0 < ?n" "?n \<le> length (c # cs)"
        using True find_sub_bound [of nl "c # cs"] by (auto split: option.splits if_splits)
      moreover have "tokens_from path cur = tokens_from path (advance ?n cur)"
        using ws True unf by (simp only: simp_thms if_True if_False)
      ultimately show ?thesis by blast
    next
      case line: False
      show ?thesis
      proof (cases "startswith (c # cs) ''/*''")
        case True
        with ws line have e: "tokens_from path cur =
            (case find_sub ''*/'' (c # cs) of
               None \<Rightarrow> syn_err ''unterminated /* comment'' path l k
             | Some n \<Rightarrow> tokens_from path (advance (n + 2) cur))"
          using unf by (simp only: simp_thms if_True if_False)
        show ?thesis
        proof (cases "find_sub ''*/'' (c # cs)")
          case None
          with e show ?thesis by auto
        next
          case (Some n)
          with e have "tokens_from path cur = tokens_from path (advance (n + 2) cur)" by simp
          moreover have "n + 2 \<le> length (c # cs)" using find_sub_bound [OF Some] by simp
          ultimately show ?thesis by (intro disjI1 exI [of _ "n + 2"]) simp
        qed
      next
        case False
        with ws line have "?plain" by blast
        then show ?thesis using tokens_from_plain [where path = path and l = l and k = k and c = c and cs = cs] by (auto simp: cur_def)
      qed
    qed
  qed
qed

lemma lex_ok_all: "i \<le> length s \<Longrightarrow> lex_ok path s i"
proof (induction "length s - i" arbitrary: i rule: less_induct)
  case less
  show ?case
  proof (cases "drop i s")
    case Nil
    with less.prems show ?thesis
      by (auto simp: lex_ok_def cursor_at_def mk_token_def wf_stream_def)
  next
    case (Cons c cs)
    then have i: "i < length s" and len: "length s = i + Suc (length cs)"
      using length_drop [of i s] less.prems by auto
    have cur: "cursor_at s i = (c # cs, line_at s i, col_at s i)"
      by (simp add: cursor_at_def Cons)
    have adv: "advance n (c # cs, line_at s i, col_at s i) = cursor_at s (i + n)"
      if "n \<le> length (c # cs)" for n
      using advance_cursor_at [of i n s] that len by (simp add: cur)
    have IH: "lex_ok path s (i + n)" if "0 < n" "n \<le> length (c # cs)" for n
      using less.hyps [of "i + n"] that len by simp
    from tokens_from_turn [where c = c and cs = cs and path = path and l = "line_at s i" and k = "col_at s i"] show ?thesis
    proof (elim disjE exE conjE)
      fix n assume n: "n > 0" "n \<le> length (c # cs)" and
        "tokens_from path (c # cs, line_at s i, col_at s i) =
           tokens_from path (advance n (c # cs, line_at s i, col_at s i))"
      then show ?thesis using lex_ok_skip IH [OF n] adv [OF n(2)] cur by metis
    next
      fix kind v assume v: "v \<noteq> []" "startswith (c # cs) v" and
        t: "wf_token (mk_token kind v (line_at s i) (col_at s i))"
           "tokens_from path (c # cs, line_at s i, col_at s i) =
              bindr (tokens_from path (advance (length v) (c # cs, line_at s i, col_at s i)))
                (\<lambda>ts. Inr (mk_token kind v (line_at s i) (col_at s i) # ts))"
      have lv: "0 < length v" "length v \<le> length (c # cs)"
        using v by (auto simp: startswith_prefix dest: prefix_length_le)
      show ?thesis
        by (rule lex_ok_token [of path s i v kind])
           (use v t lv adv [OF lv(2)] IH [OF lv] Cons len in \<open>simp_all add: cur\<close>)
    next
      fix m assume "tokens_from path (c # cs, line_at s i, col_at s i) =
        syn_err m path (line_at s i) (col_at s i)"
      then show ?thesis using i by (auto simp: lex_ok_def cur syn_err_def)
    qed
  qed
qed

lemma tokenize_ok:
  assumes "tokenize s path = Inr ts"
  shows "placed s 0 ts" and "wf_stream ts"
  using assms lex_ok_all [of 0 s path] by (auto simp: lex_ok_def tokenize_def cursor_at_0)

lemma tokenize_error:
  assumes "tokenize s path = Inl e"
  shows "\<exists>j < length s. \<exists>m. e = SynError \<lparr>err_message = m, err_path = path,
           err_line = line_at s j, err_col = col_at s j\<rparr>"
  using assms lex_ok_all [of 0 s path] by (auto simp: lex_ok_def tokenize_def cursor_at_0)


end
