(* ===== verification/ParserLogic.thy ===== *)
theory ParserLogic
  imports SynLexer
begin

text \<open>
  The primitives of \<open>synqtc/parser.py\<close>'s class \<open>Parser\<close>, and a logic for what is built from
  them. The class keeps the token list and an index that only moves forward, so a method is a
  function from the tokens from the index on to its result and the tokens that are left;
  \<open>_peek\<close> and \<open>_next\<close> are the only two that read the list. The tokens after the index are never
  empty on a stream the tokenizer made; on an empty one Python's indexing raises, and so does
  the model.
\<close>

type_synonym 'a parser = "token list \<Rightarrow> ('a \<times> token list) res"

section \<open>The primitives\<close>

definition peek_at :: "nat \<Rightarrow> token list \<Rightarrow> token res" where
  "peek_at ahead ts =
     (if ts = [] then Inl IndexError else Inr (ts ! min ahead (length ts - 1)))"

abbreviation peek :: "token list \<Rightarrow> token res" where
  "peek \<equiv> peek_at 0"

definition next_token :: "token parser" where
  "next_token ts =
     (case ts of
        [] \<Rightarrow> Inl IndexError
      | t # rest \<Rightarrow> if tok_kind t \<noteq> ''eof'' then Inr (t, rest) else Inr (t, ts))"

definition error_at :: "string \<Rightarrow> string \<Rightarrow> token \<Rightarrow> 'a res" where
  "error_at path message t = syn_err message path (tok_line t) (tok_col t)"

definition expect :: "string \<Rightarrow> string \<Rightarrow> string \<Rightarrow> token parser" where
  "expect path kind what ts =
     bindr (peek ts) (\<lambda>t.
       if tok_kind t \<noteq> kind
       then error_at path (''expected '' @ what @ '', got ''
              @ (if tok_kind t = ''eof'' then ''end of file'' else quoted (tok_value t))) t
       else next_token ts)"

definition expect_name :: "string \<Rightarrow> string \<Rightarrow> token parser" where
  "expect_name path what ts =
     bindr (expect path ''ident'' what ts) (\<lambda>(t, ts').
       if tok_value t \<in> set KEYWORDS
       then error_at path (quoted (tok_value t) @ '' is a reserved keyword and cannot be a '' @ what) t
       else Inr (t, ts'))"

section \<open>A logic for parsers\<close>

text \<open>
  Two contracts every parser of the grammar meets. \<open>eats b p\<close>: what \<open>p\<close> leaves is the stream
  less a prefix with no end of file in it, and less at least one token if \<open>b\<close>. \<open>meets path P Q p\<close>:
  on a stream of the tokenizer whose tokens stand at positions of \<open>P\<close>, \<open>p\<close> returns a result with
  \<open>Q\<close> and such a stream, or raises a \<open>SynError\<close> of the file \<open>path\<close> at a position of \<open>P\<close>; in
  particular it never runs off the token list.
\<close>

type_synonym positions = "(nat \<times> nat) set"

definition tok_pos :: "token \<Rightarrow> nat \<times> nat" where
  "tok_pos t = (tok_line t, tok_col t)"

definition good :: "positions \<Rightarrow> token list \<Rightarrow> bool" where
  "good P ts \<longleftrightarrow> wf_stream ts \<and> (\<forall>t \<in> set ts. tok_pos t \<in> P)"

definition located :: "string \<Rightarrow> positions \<Rightarrow> exn \<Rightarrow> bool" where
  "located path P e \<longleftrightarrow>
     (\<exists>m l c. e = SynError \<lparr>err_message = m, err_path = path, err_line = l, err_col = c\<rparr> \<and> (l, c) \<in> P)"

definition eats :: "bool \<Rightarrow> 'a parser \<Rightarrow> bool" where
  "eats b p \<longleftrightarrow>
     (\<forall>ts x ts'. p ts = Inr (x, ts') \<longrightarrow>
        (\<exists>used. ts = used @ ts' \<and> (\<forall>t \<in> set used. tok_kind t \<noteq> ''eof'') \<and> (b \<longrightarrow> used \<noteq> [])))"

definition okr :: "string \<Rightarrow> positions \<Rightarrow> ('a \<Rightarrow> bool) \<Rightarrow> ('a \<times> token list) res \<Rightarrow> bool" where
  "okr path P Q r \<longleftrightarrow>
     (case r of Inr (x, ts') \<Rightarrow> good P ts' \<and> Q x | Inl e \<Rightarrow> located path P e)"

definition meets :: "string \<Rightarrow> positions \<Rightarrow> ('a \<Rightarrow> bool) \<Rightarrow> 'a parser \<Rightarrow> bool" where
  "meets path P Q p \<longleftrightarrow> (\<forall>ts. good P ts \<longrightarrow> okr path P Q (p ts))"

named_theorems eats_intros "rules for eats"
named_theorems meets_intros "rules for meets"

lemma eats_shrinks: "eats True p \<Longrightarrow> p ts = Inr (x, ts') \<Longrightarrow> length ts' < length ts"
  unfolding eats_def by fastforce

lemma eats_weaken: "eats True p \<Longrightarrow> eats b p"
  unfolding eats_def by blast

lemma eats_return [eats_intros]: "eats False (\<lambda>ts. Inr (x, ts))"
  unfolding eats_def by auto

lemma eats_fail [eats_intros]: "eats b (\<lambda>ts. error_at path m t)"
  by (simp add: eats_def error_at_def syn_err_def)

lemma eats_bind:
  assumes "eats b p" and "\<And>x. eats b' (f x)"
  shows "eats (b \<or> b') (\<lambda>ts. bindr (p ts) (\<lambda>(x, ts'). f x ts'))"
proof -
  have "\<exists>used. ts = used @ ts'' \<and> (\<forall>t \<in> set used. tok_kind t \<noteq> ''eof'') \<and> (b \<or> b' \<longrightarrow> used \<noteq> [])"
    if p: "p ts = Inr (x, ts')" and f: "f x ts' = Inr (y, ts'')" for ts x ts' y ts''
  proof -
    from p assms(1) obtain u where "ts = u @ ts'" "\<forall>t \<in> set u. tok_kind t \<noteq> ''eof''" "b \<longrightarrow> u \<noteq> []"
      unfolding eats_def by blast
    moreover from f assms(2) obtain v where
      "ts' = v @ ts''" "\<forall>t \<in> set v. tok_kind t \<noteq> ''eof''" "b' \<longrightarrow> v \<noteq> []"
      unfolding eats_def by blast
    ultimately show ?thesis by (intro exI [of _ "u @ v"]) auto
  qed
  then show ?thesis by (auto simp: eats_def bindr_eq_Inr)
qed

lemma eats_bind_first [eats_intros]:
  "eats True p \<Longrightarrow> (\<And>x. eats False (f x)) \<Longrightarrow> eats True (\<lambda>ts. bindr (p ts) (\<lambda>(x, ts'). f x ts'))"
  using eats_bind [of True p False f] by simp

lemma eats_bind_any [eats_intros]:
  "eats False p \<Longrightarrow> (\<And>x. eats b (f x)) \<Longrightarrow> eats b (\<lambda>ts. bindr (p ts) (\<lambda>(x, ts'). f x ts'))"
  using eats_bind [of False p b f] by simp

lemma eats_peek [eats_intros]:
  "(\<And>t. eats b (f t)) \<Longrightarrow> eats b (\<lambda>ts. bindr (peek_at n ts) (\<lambda>t. f t ts))"
  unfolding eats_def by (auto simp: bindr_eq_Inr)

lemma eats_if [eats_intros]:
  "eats b p \<Longrightarrow> eats b q \<Longrightarrow> eats b (\<lambda>ts. if C then p ts else q ts)"
  by (cases C) simp_all

lemma eats_next_token [eats_intros]: "eats False next_token"
  by (auto simp: eats_def next_token_def split: if_splits list.splits)

lemma eats_expect [eats_intros]: "kind \<noteq> ''eof'' \<Longrightarrow> eats b (expect path kind what)"
  by (auto simp: eats_def expect_def bindr_eq_Inr peek_at_def next_token_def error_at_def syn_err_def
           split: if_splits list.splits)

lemma eats_expect_name [eats_intros]: "eats b (expect_name path what)"
  unfolding expect_name_def [abs_def]
  by (rule eats_weaken) (intro eats_intros; simp)

lemma good_hd: "good P ts \<Longrightarrow> \<exists>t rest. ts = t # rest \<and> tok_pos t \<in> P"
  by (cases ts) (auto simp: good_def wf_stream_def)

lemma good_tl: "good P (t # rest) \<Longrightarrow> tok_kind t \<noteq> ''eof'' \<Longrightarrow> good P rest \<and> wf_token t"
  by (cases rest) (auto simp: good_def wf_stream_def)

lemma okr_error_at [simp]: "tok_pos t \<in> P \<Longrightarrow> okr path P Q (error_at path m t)"
  by (auto simp: okr_def error_at_def syn_err_def located_def tok_pos_def)

lemma okr_Inr [simp]: "okr path P Q (Inr (x, ts)) \<longleftrightarrow> good P ts \<and> Q x"
  by (simp add: okr_def)

lemma okr_Inl [simp]: "okr path P Q (Inl e) \<longleftrightarrow> located path P e"
  by (simp add: okr_def)

lemma okr_bind:
  assumes "okr path P Q r"
    and "\<And>x ts'. r = Inr (x, ts') \<Longrightarrow> good P ts' \<Longrightarrow> Q x \<Longrightarrow> okr path P R (f x ts')"
  shows "okr path P R (bindr r (\<lambda>(x, ts'). f x ts'))"
  using assms by (cases r) auto

lemma meets_at: "meets path P Q p \<Longrightarrow> good P ts \<Longrightarrow> okr path P Q (p ts)"
  by (simp add: meets_def)

text \<open>A loop meets a contract if each turn does, given that the shorter streams do.\<close>

lemma meets_loop:
  assumes "\<And>ts t rest. good P ts \<Longrightarrow> ts = t # rest \<Longrightarrow> tok_pos t \<in> P \<Longrightarrow>
    (\<And>ts'. length ts' < length ts \<Longrightarrow> good P ts' \<Longrightarrow> okr path P Q (p ts')) \<Longrightarrow> okr path P Q (p ts)"
  shows "meets path P Q p"
proof -
  have "okr path P Q (p ts)" if "good P ts" for ts
    using that
  proof (induction "length ts" arbitrary: ts rule: less_induct)
    case less
    then show ?case using assms [of ts] good_hd [of P ts] by blast
  qed
  then show ?thesis by (simp add: meets_def)
qed

lemma meets_return [meets_intros]: "Q x \<Longrightarrow> meets path P Q (\<lambda>ts. Inr (x, ts))"
  by (simp add: meets_def)

lemma meets_fail [meets_intros]: "tok_pos t \<in> P \<Longrightarrow> meets path P Q (\<lambda>ts. error_at path m t)"
  by (simp add: meets_def)

lemma meets_bind:
  "meets path P Q p \<Longrightarrow> (\<And>x. Q x \<Longrightarrow> meets path P R (f x)) \<Longrightarrow>
   meets path P R (\<lambda>ts. bindr (p ts) (\<lambda>(x, ts'). f x ts'))"
  unfolding meets_def by (intro allI impI okr_bind) blast+

lemma meets_peek [meets_intros]:
  assumes "\<And>t. tok_pos t \<in> P \<Longrightarrow> meets path P Q (f t)"
  shows "meets path P Q (\<lambda>ts. bindr (peek_at n ts) (\<lambda>t. f t ts))"
proof -
  have "okr path P Q (bindr (peek_at n ts) (\<lambda>t. f t ts))" if g: "good P ts" for ts
  proof -
    have "ts \<noteq> []" using g by (auto simp: good_def wf_stream_def)
    moreover from this have "ts ! min n (length ts - 1) \<in> set ts" by (intro nth_mem) (cases ts, auto)
    ultimately show ?thesis using assms g by (simp add: peek_at_def good_def meets_def)
  qed
  then show ?thesis by (simp add: meets_def)
qed

lemma meets_if [meets_intros]:
  "(C \<Longrightarrow> meets path P Q p) \<Longrightarrow> (\<not> C \<Longrightarrow> meets path P Q q) \<Longrightarrow>
   meets path P Q (\<lambda>ts. if C then p ts else q ts)"
  by (cases C) simp_all

lemma meets_mono: "meets path P Q p \<Longrightarrow> (\<And>x. Q x \<Longrightarrow> R x) \<Longrightarrow> meets path P R p"
  by (fastforce simp: meets_def okr_def split: sum.splits)

lemma meets_expect:
  "kind \<noteq> ''eof'' \<Longrightarrow>
   meets path P (\<lambda>t. tok_pos t \<in> P \<and> tok_kind t = kind \<and> wf_token t) (expect path kind what)"
  by (rule meets_loop) (auto simp: expect_def peek_at_def next_token_def dest: good_tl)

lemma meets_next_token: "meets path P (\<lambda>t. tok_pos t \<in> P) next_token"
  by (rule meets_loop) (auto simp: next_token_def dest: good_tl)

text \<open>A name the parser accepts for anything the author names.\<close>

definition wf_name :: "string \<Rightarrow> bool" where
  "wf_name n \<longleftrightarrow> is_ident n \<and> n \<notin> set KEYWORDS"

definition name_token :: "positions \<Rightarrow> token \<Rightarrow> bool" where
  "name_token P t \<longleftrightarrow> tok_pos t \<in> P \<and> wf_name (tok_value t)"

lemma wf_token_ident: "wf_token t \<Longrightarrow> tok_kind t = ''ident'' \<Longrightarrow> is_ident (tok_value t)"
  by (auto simp: wf_token_def punctuation_def)

lemma meets_expect_name: "meets path P (name_token P) (expect_name path what)"
  unfolding expect_name_def [abs_def]
  by (rule meets_bind, rule meets_expect, simp)
     (auto intro!: meets_intros simp: name_token_def wf_name_def wf_token_ident)

section \<open>Comma-separated items\<close>

text \<open>
  The three loops \<open>while self._peek().kind == ","\<close> of the class (the scopes of a gate, the roles
  of a model, the parameters of a slot) differ only in the item they read. An item parser that
  meets the two contracts gives them to the loop over it.
\<close>

lemma next_token_le: "next_token ts = Inr (t, ts') \<Longrightarrow> length ts' \<le> length ts"
  by (auto simp: next_token_def split: list.splits if_splits)

locale item_parser =
  fixes path :: string and P :: positions and Q :: "'a \<Rightarrow> bool" and item :: "'a parser"
  assumes item_eats: "eats True item"
    and item_meets: "meets path P Q item"

locale comma_loop = item_parser path P Q item
  for path :: string and P :: positions and Q :: "'a \<Rightarrow> bool" and item :: "'a parser" +
  fixes tail :: "'a list parser"
  assumes tail_unfold: "\<And>ts. tail ts =
    bindr (peek ts) (\<lambda>t.
      if tok_kind t = '','' then
        bindr (next_token ts) (\<lambda>(c, ts1).
        bindr (item ts1) (\<lambda>(x, ts2).
        bindr (tail ts2) (\<lambda>(xs, ts3). Inr (x # xs, ts3))))
      else Inr ([], ts))"
begin

lemma tail_cases:
  assumes "tail ts = Inr (xs, ts')"
  obtains (stop) "xs = []" "ts' = ts"
    | (more) c ts1 x ts2 xs' where "next_token ts = Inr (c, ts1)" "item ts1 = Inr (x, ts2)"
        "tail ts2 = Inr (xs', ts')" "xs = x # xs'" "length ts2 < length ts"
proof -
  obtain t where t: "peek ts = Inr t"
    using assms by (subst (asm) tail_unfold) (auto simp: bindr_eq_Inr)
  show ?thesis
  proof (cases "tok_kind t = '',''")
    case False
    then show ?thesis using assms t by (subst (asm) tail_unfold) (auto intro: stop)
  next
    case True
    then obtain c ts1 x ts2 xs' where *: "next_token ts = Inr (c, ts1)" "item ts1 = Inr (x, ts2)"
        "tail ts2 = Inr (xs', ts')" "xs = x # xs'"
      using assms t by (subst (asm) tail_unfold) (auto simp: bindr_eq_Inr)
    moreover have "length ts2 < length ts"
      using eats_shrinks [OF item_eats *(2)] next_token_le [OF *(1)] by simp
    ultimately show ?thesis by (rule more)
  qed
qed

lemma tail_eats: "eats False tail"
proof -
  have "\<exists>used. ts = used @ ts' \<and> (\<forall>t \<in> set used. tok_kind t \<noteq> ''eof'')"
    if "tail ts = Inr (xs, ts')" for ts xs ts'
    using that
  proof (induction "length ts" arbitrary: ts xs rule: less_induct)
    case less
    from less.prems show ?case
    proof (cases rule: tail_cases)
      case stop
      then show ?thesis by simp
    next
      case (more c ts1 x ts2 xs')
      obtain u where "ts = u @ ts1" "\<forall>t \<in> set u. tok_kind t \<noteq> ''eof''"
        using more(1) eats_next_token unfolding eats_def by blast
      moreover obtain v where "ts1 = v @ ts2" "\<forall>t \<in> set v. tok_kind t \<noteq> ''eof''"
        using more(2) item_eats unfolding eats_def by blast
      moreover obtain w where "ts2 = w @ ts'" "\<forall>t \<in> set w. tok_kind t \<noteq> ''eof''"
        using less.hyps [OF more(5,3)] by blast
      ultimately show ?thesis by (intro exI [of _ "u @ v @ w"]) auto
    qed
  qed
  then show ?thesis unfolding eats_def by blast
qed

lemma tail_meets: "meets path P (list_all Q) tail"
proof (rule meets_loop)
  fix ts t rest
  assume g: "good P ts" and ts: "ts = t # rest"
    and IH: "\<And>ts'. length ts' < length ts \<Longrightarrow> good P ts' \<Longrightarrow> okr path P (list_all Q) (tail ts')"
  show "okr path P (list_all Q) (tail ts)"
  proof (cases "tok_kind t = '',''")
    case False
    then show ?thesis using g by (subst tail_unfold) (simp add: ts peek_at_def)
  next
    case True
    then have un: "tail ts = bindr (item rest) (\<lambda>(x, ts2).
        bindr (tail ts2) (\<lambda>(xs, ts3). Inr (x # xs, ts3)))"
      by (subst tail_unfold) (simp add: ts peek_at_def next_token_def)
    have "good P rest" using good_tl [of P t rest] g ts True by simp
    then show ?thesis
      unfolding un
    proof (rule okr_bind [OF meets_at [OF item_meets]])
      fix x ts2 assume i: "item rest = Inr (x, ts2)" "good P ts2" "Q x"
      have "length ts2 < length ts" using eats_shrinks [OF item_eats i(1)] ts by simp
      then show "okr path P (list_all Q) (bindr (tail ts2) (\<lambda>(xs, ts3). Inr (x # xs, ts3)))"
        using i by (intro okr_bind [OF IH]) auto
    qed
  qed
qed

end

end
