(* ===== verification/SynModel.thy ===== *)
theory SynModel
  imports SynTypes
begin

text \<open>
  The parsed contract, \<open>synqtc/model.py\<close>: one record per dataclass, a datatype for the union
  \<open>Member\<close>, and the views of a contract's members by kind. Every node keeps the line and the
  column it started on.
\<close>

record param =
  par_type :: string
  par_name :: string
  par_line :: nat
  par_col :: nat

type_synonym field = param

record syn_prop =
  prop_type :: string
  prop_name :: string
  prop_line :: nat
  prop_col :: nat
  prop_scope :: "string list"

record role =
  role_type :: string
  role_name :: string
  role_line :: nat
  role_col :: nat

record syn_model =
  model_name :: string
  model_roles :: "role list"
  model_line :: nat
  model_col :: nat
  model_scope :: "string list"

record syn_signal =
  signal_name :: string
  signal_params :: "param list"
  signal_line :: nat
  signal_col :: nat
  signal_scope :: "string list"

record syn_slot =
  slot_name :: string
  slot_params :: "param list"
  slot_return_type :: "string option"
  slot_line :: nat
  slot_col :: nat
  slot_scope :: "string list"
  slot_capture :: bool

datatype member = Prop syn_prop | Model syn_model | Signal syn_signal | Slot syn_slot

record contract =
  contract_name :: string
  members :: "member list"
  contract_line :: nat
  contract_col :: nat

record syn_record =
  record_name :: string
  record_fields :: "field list"
  record_line :: nat
  record_col :: nat

record syn_file =
  stem :: string
  records :: "syn_record list"
  contracts :: "contract list"
  forwards_session :: bool

fun member_name :: "member \<Rightarrow> string" where
  "member_name (Prop p) = prop_name p"
| "member_name (Model m) = model_name m"
| "member_name (Signal s) = signal_name s"
| "member_name (Slot s) = slot_name s"

fun member_line :: "member \<Rightarrow> nat" where
  "member_line (Prop p) = prop_line p"
| "member_line (Model m) = model_line m"
| "member_line (Signal s) = signal_line s"
| "member_line (Slot s) = slot_line s"

fun member_col :: "member \<Rightarrow> nat" where
  "member_col (Prop p) = prop_col p"
| "member_col (Model m) = model_col m"
| "member_col (Signal s) = signal_col s"
| "member_col (Slot s) = slot_col s"

fun member_scope :: "member \<Rightarrow> string list" where
  "member_scope (Prop p) = prop_scope p"
| "member_scope (Model m) = model_scope m"
| "member_scope (Signal s) = signal_scope s"
| "member_scope (Slot s) = slot_scope s"

fun with_scope :: "string list \<Rightarrow> member \<Rightarrow> member" where
  "with_scope sc (Prop p) = Prop (p\<lparr>prop_scope := sc\<rparr>)"
| "with_scope sc (Model m) = Model (m\<lparr>model_scope := sc\<rparr>)"
| "with_scope sc (Signal s) = Signal (s\<lparr>signal_scope := sc\<rparr>)"
| "with_scope sc (Slot s) = Slot (s\<lparr>slot_scope := sc\<rparr>)"

definition props :: "contract \<Rightarrow> syn_prop list" where
  "props c = List.map_filter (\<lambda>m. case m of Prop p \<Rightarrow> Some p | _ \<Rightarrow> None) (members c)"

definition models :: "contract \<Rightarrow> syn_model list" where
  "models c = List.map_filter (\<lambda>m. case m of Model p \<Rightarrow> Some p | _ \<Rightarrow> None) (members c)"

definition signals :: "contract \<Rightarrow> syn_signal list" where
  "signals c = List.map_filter (\<lambda>m. case m of Signal p \<Rightarrow> Some p | _ \<Rightarrow> None) (members c)"

definition slots :: "contract \<Rightarrow> syn_slot list" where
  "slots c = List.map_filter (\<lambda>m. case m of Slot p \<Rightarrow> Some p | _ \<Rightarrow> None) (members c)"

definition record_names :: "syn_file \<Rightarrow> string list" where
  "record_names syn = map record_name (records syn)"

section \<open>The views hold exactly the members of their kind\<close>

lemma set_map_filter: "set (List.map_filter f xs) = {y. \<exists>x \<in> set xs. f x = Some y}"
  by (induction xs) (auto simp: List.map_filter_simps split: option.splits)

lemma member_case_Some:
  "(case m of Prop p \<Rightarrow> Some p | _ \<Rightarrow> None) = Some p' \<longleftrightarrow> m = Prop p'"
  "(case m of Model q \<Rightarrow> Some q | _ \<Rightarrow> None) = Some q' \<longleftrightarrow> m = Model q'"
  "(case m of Signal r \<Rightarrow> Some r | _ \<Rightarrow> None) = Some r' \<longleftrightarrow> m = Signal r'"
  "(case m of Slot t \<Rightarrow> Some t | _ \<Rightarrow> None) = Some t' \<longleftrightarrow> m = Slot t'"
  by (cases m; auto)+

lemma set_views [simp]:
  "p \<in> set (props c) \<longleftrightarrow> Prop p \<in> set (members c)"
  "q \<in> set (models c) \<longleftrightarrow> Model q \<in> set (members c)"
  "r \<in> set (signals c) \<longleftrightarrow> Signal r \<in> set (members c)"
  "t \<in> set (slots c) \<longleftrightarrow> Slot t \<in> set (members c)"
  by (simp_all add: props_def models_def signals_def slots_def set_map_filter member_case_Some)

lemma with_scope_simps [simp]:
  "member_name (with_scope sc m) = member_name m"
  "member_line (with_scope sc m) = member_line m"
  "member_col (with_scope sc m) = member_col m"
  "member_scope (with_scope sc m) = sc"
  by (cases m; simp)+

end
