(* ===== verification/SynParser.thy ===== *)
theory SynParser
  imports ParserLogic SynModel
begin

text \<open>
  The grammar of \<open>synqtc/parser.py\<close>: one parser per method of the class \<open>Parser\<close>, the checks
  of \<open>_validate\<close>, and \<open>parse_text\<close>. Every loop of the class is a recursive function whose
  termination rests on the contracts of the parsers it calls.
\<close>

definition MAX_SIGNAL_PARAMS :: nat where
  "MAX_SIGNAL_PARAMS = 8"

section \<open>Types, parameters and roles\<close>

definition parse_type_token :: "string \<Rightarrow> string \<Rightarrow> token parser" where
  "parse_type_token path what ts =
     bindr (expect path ''ident'' what ts) (\<lambda>(t, ts1).
     bindr (peek ts1) (\<lambda>open_tok.
       if tok_kind open_tok \<noteq> ''['' then Inr (t, ts1)
       else
         bindr (next_token ts1) (\<lambda>(b, ts2).
         bindr (expect path ''number'' (''the bound of a '' @ what @ '', as in string[64]'') ts2) (\<lambda>(bound, ts3).
         bindr (expect path '']'' (quoted '']'' @ '' to close the bound'') ts3) (\<lambda>(close_tok, ts4).
           Inr (mk_token ''ident'' (tok_value t @ ''['' @ tok_value bound @ '']'') (tok_line t) (tok_col t), ts4))))))"

definition parse_param :: "string \<Rightarrow> param parser" where
  "parse_param path ts =
     bindr (parse_type_token path ''a parameter type'' ts) (\<lambda>(ty, ts1).
     bindr (expect_name path ''parameter name'' ts1) (\<lambda>(name, ts2).
       Inr (\<lparr>par_type = tok_value ty, par_name = tok_value name,
             par_line = tok_line ty, par_col = tok_col ty\<rparr>, ts2)))"

definition parse_role :: "string \<Rightarrow> role parser" where
  "parse_role path ts =
     bindr (parse_type_token path ''a model role type'' ts) (\<lambda>(ty, ts1).
     bindr (expect_name path ''a model role name'' ts1) (\<lambda>(name, ts2).
       Inr (\<lparr>role_type = tok_value ty, role_name = tok_value name,
             role_line = tok_line ty, role_col = tok_col ty\<rparr>, ts2)))"

definition parse_scope :: "string \<Rightarrow> string parser" where
  "parse_scope path ts =
     bindr (expect_name path ''a scope name'' ts) (\<lambda>(name, ts1). Inr (tok_value name, ts1))"

lemma eats_parse_type_token [eats_intros]: "eats b (parse_type_token path what)"
  unfolding parse_type_token_def [abs_def]
  by (rule eats_weaken) (intro eats_intros; simp)

lemma eats_items [eats_intros]:
  "eats b (parse_param path)" "eats b (parse_role path)" "eats b (parse_scope path)"
  unfolding parse_param_def [abs_def] parse_role_def [abs_def] parse_scope_def [abs_def]
  by (rule eats_weaken, intro eats_intros)+

lemmas item_shrinks = eats_shrinks [OF eats_items(1)] eats_shrinks [OF eats_items(2)]
  eats_shrinks [OF eats_items(3)]

section \<open>The lists\<close>

function params_tail :: "string \<Rightarrow> param list parser" where
  "params_tail path ts =
     bindr (peek ts) (\<lambda>t.
       if tok_kind t = '','' then
         bindr (next_token ts) (\<lambda>(c, ts1).
         bindr (parse_param path ts1) (\<lambda>(x, ts2).
         bindr (params_tail path ts2) (\<lambda>(xs, ts3). Inr (x # xs, ts3))))
       else Inr ([], ts))"
  by pat_completeness auto
termination
  by (relation "measure (\<lambda>(path, ts). length ts)")
     (auto dest!: next_token_le item_shrinks)

function roles_tail :: "string \<Rightarrow> role list parser" where
  "roles_tail path ts =
     bindr (peek ts) (\<lambda>t.
       if tok_kind t = '','' then
         bindr (next_token ts) (\<lambda>(c, ts1).
         bindr (parse_role path ts1) (\<lambda>(x, ts2).
         bindr (roles_tail path ts2) (\<lambda>(xs, ts3). Inr (x # xs, ts3))))
       else Inr ([], ts))"
  by pat_completeness auto
termination
  by (relation "measure (\<lambda>(path, ts). length ts)")
     (auto dest!: next_token_le item_shrinks)

function scopes_tail :: "string \<Rightarrow> string list parser" where
  "scopes_tail path ts =
     bindr (peek ts) (\<lambda>t.
       if tok_kind t = '','' then
         bindr (next_token ts) (\<lambda>(c, ts1).
         bindr (parse_scope path ts1) (\<lambda>(x, ts2).
         bindr (scopes_tail path ts2) (\<lambda>(xs, ts3). Inr (x # xs, ts3))))
       else Inr ([], ts))"
  by pat_completeness auto
termination
  by (relation "measure (\<lambda>(path, ts). length ts)")
     (auto dest!: next_token_le item_shrinks)

declare params_tail.simps [simp del] roles_tail.simps [simp del] scopes_tail.simps [simp del]

definition parse_params :: "string \<Rightarrow> param list parser" where
  "parse_params path ts =
     bindr (expect path ''('' (quoted ''('' @ '' to open the parameter list'') ts) (\<lambda>(o_tok, ts1).
     bindr (peek ts1) (\<lambda>t.
       bindr (if tok_kind t \<noteq> '')'' then
                bindr (parse_param path ts1) (\<lambda>(x, ts2).
                bindr (params_tail path ts2) (\<lambda>(xs, ts3). Inr (x # xs, ts3)))
              else Inr ([], ts1)) (\<lambda>(params, ts4).
       bindr (expect path '')'' (quoted '')'' @ '' to close the parameter list'') ts4) (\<lambda>(c_tok, ts5).
         Inr (params, ts5)))))"

text \<open>The first name of a list that was already seen, which is what the loops over a \<open>seen\<close> set raise at.\<close>

fun first_repeat :: "('a \<Rightarrow> string) \<Rightarrow> string list \<Rightarrow> 'a list \<Rightarrow> 'a option" where
  "first_repeat f seen [] = None"
| "first_repeat f seen (x # xs) =
     (if f x \<in> set seen then Some x else first_repeat f (f x # seen) xs)"

definition parse_gate :: "string \<Rightarrow> string list parser" where
  "parse_gate path ts =
     bindr (peek ts) (\<lambda>t.
       if tok_kind t \<noteq> ''<'' then Inr ([], ts)
       else
         bindr (next_token ts) (\<lambda>(o_tok, ts1).
         bindr (parse_scope path ts1) (\<lambda>(x, ts2).
         bindr (scopes_tail path ts2) (\<lambda>(xs, ts3).
         bindr (expect path ''>'' (quoted ''>'' @ '' to close the scope gate'') ts3) (\<lambda>(c_tok, ts4).
           case first_repeat id [] (x # xs) of
             Some name \<Rightarrow>
               bindr (peek ts4) (\<lambda>at.
                 error_at path (''scope '' @ quoted name @ '' is named twice in one gate'') at)
           | None \<Rightarrow> Inr (x # xs, ts4))))))"

section \<open>Members\<close>

definition parse_capture :: "bool parser" where
  "parse_capture ts =
     bindr (peek ts) (\<lambda>t.
       if tok_kind t \<noteq> ''ident'' \<or> tok_value t \<noteq> ''capture'' then Inr (False, ts)
       else bindr (peek_at 1 ts) (\<lambda>after.
         if tok_kind after = ''('' then Inr (False, ts)
         else bindr (next_token ts) (\<lambda>(c, ts1). Inr (True, ts1))))"

definition parse_prop :: "string \<Rightarrow> token \<Rightarrow> syn_prop parser" where
  "parse_prop path keyword ts =
     bindr (parse_type_token path ''a property type'' ts) (\<lambda>(ty, ts1).
     bindr (expect_name path ''property name'' ts1) (\<lambda>(name, ts2).
       Inr (\<lparr>prop_type = tok_value ty, prop_name = tok_value name,
             prop_line = tok_line keyword, prop_col = tok_col keyword, prop_scope = []\<rparr>, ts2)))"

definition parse_model :: "string \<Rightarrow> token \<Rightarrow> syn_model parser" where
  "parse_model path keyword ts =
     bindr (expect_name path ''model name'' ts) (\<lambda>(name, ts1).
     bindr (expect path ''('' (quoted ''('' @ '' to open the model'' @ [CHR 0x27] @ ''s role list'') ts1) (\<lambda>(o_tok, ts2).
     bindr (peek ts2) (\<lambda>t.
       bindr (if tok_kind t \<noteq> '')'' then
                bindr (parse_role path ts2) (\<lambda>(x, ts3).
                bindr (roles_tail path ts3) (\<lambda>(xs, ts4). Inr (x # xs, ts4)))
              else Inr ([], ts2)) (\<lambda>(roles, ts5).
       bindr (expect path '')'' (quoted '')'' @ '' to close the role list'') ts5) (\<lambda>(c_tok, ts6).
         if roles = []
         then error_at path (''model '' @ quoted (tok_value name) @ '' must declare at least one role'') name
         else Inr (\<lparr>model_name = tok_value name, model_roles = roles,
                    model_line = tok_line keyword, model_col = tok_col keyword, model_scope = []\<rparr>, ts6))))))"

definition parse_signal :: "string \<Rightarrow> token \<Rightarrow> syn_signal parser" where
  "parse_signal path keyword ts =
     bindr (expect_name path ''signal name'' ts) (\<lambda>(name, ts1).
     bindr (parse_params path ts1) (\<lambda>(params, ts2).
       Inr (\<lparr>signal_name = tok_value name, signal_params = params,
             signal_line = tok_line keyword, signal_col = tok_col keyword, signal_scope = []\<rparr>, ts2)))"

text \<open>
  \<open>slot NAME(\<close> is a slot with no return value and \<open>slot TYPE NAME(\<close> one that returns: which of
  the two it is, is read off the token after the first word.
\<close>

definition slot_head :: "string \<Rightarrow> (string \<times> string option) parser" where
  "slot_head path ts =
     bindr (parse_type_token path ''a slot name or return type'' ts) (\<lambda>(first, ts1).
     bindr (peek ts1) (\<lambda>t.
       if tok_kind t = ''('' then
         if tok_value first \<in> set KEYWORDS
         then error_at path (quoted (tok_value first) @ '' is a reserved keyword and cannot be a slot name'') first
         else if CHR ''['' \<in> set (tok_value first)
         then error_at path (quoted (tok_value first)
                @ '' bounds a slot name; a bound belongs on a type, so either this is the return type and the slot still needs a name, or the brackets do not belong here'') first
         else Inr ((tok_value first, None), ts1)
       else
         bindr (expect_name path ''slot name'' ts1) (\<lambda>(second, ts2).
           Inr ((tok_value second, Some (tok_value first)), ts2))))"

definition parse_slot :: "string \<Rightarrow> token \<Rightarrow> syn_slot parser" where
  "parse_slot path keyword ts =
     bindr (parse_capture ts) (\<lambda>(capture, ts1).
     bindr (slot_head path ts1) (\<lambda>(name_ret, ts2).
     bindr (parse_params path ts2) (\<lambda>(params, ts3).
       Inr (\<lparr>slot_name = fst name_ret, slot_params = params, slot_return_type = snd name_ret,
             slot_line = tok_line keyword, slot_col = tok_col keyword, slot_scope = [],
             slot_capture = capture\<rparr>, ts3))))"

definition member_of :: "('a \<Rightarrow> member) \<Rightarrow> 'a parser \<Rightarrow> member parser" where
  "member_of f p ts = bindr (p ts) (\<lambda>(x, ts'). Inr (f x, ts'))"

definition parse_member :: "string \<Rightarrow> member parser" where
  "parse_member path ts =
     bindr (parse_gate path ts) (\<lambda>(scope, ts1).
     bindr (peek ts1) (\<lambda>t.
       if tok_kind t \<noteq> ''ident'' \<or> tok_value t \<notin> {''prop'', ''model'', ''signal'', ''slot''}
       then error_at path (''expected a member ('' @ quoted ''prop'' @ '', '' @ quoted ''model'' @ '', ''
              @ quoted ''signal'' @ '', or '' @ quoted ''slot'' @ ''), got '' @ quoted (tok_value t)) t
       else
         bindr (next_token ts1) (\<lambda>(keyword, ts2).
         bindr (if tok_value keyword = ''prop'' then member_of Prop (parse_prop path keyword) ts2
                else if tok_value keyword = ''model'' then member_of Model (parse_model path keyword) ts2
                else if tok_value keyword = ''signal'' then member_of Signal (parse_signal path keyword) ts2
                else member_of Slot (parse_slot path keyword) ts2) (\<lambda>(m, ts3).
           Inr (with_scope scope m, ts3)))))"

section \<open>What a parsed node looks like\<close>

definition written_type :: "string \<Rightarrow> bool" where
  "written_type s \<longleftrightarrow>
     (\<exists>name. is_ident name \<and> (s = name \<or> (\<exists>d. is_number d \<and> s = name @ ''['' @ d @ '']'')))"

definition wf_param :: "positions \<Rightarrow> param \<Rightarrow> bool" where
  "wf_param P p \<longleftrightarrow> written_type (par_type p) \<and> wf_name (par_name p) \<and> (par_line p, par_col p) \<in> P"

definition wf_role :: "positions \<Rightarrow> role \<Rightarrow> bool" where
  "wf_role P r \<longleftrightarrow> written_type (role_type r) \<and> wf_name (role_name r) \<and> (role_line r, role_col r) \<in> P"

fun wf_shape :: "positions \<Rightarrow> member \<Rightarrow> bool" where
  "wf_shape P (Prop p) \<longleftrightarrow> written_type (prop_type p)"
| "wf_shape P (Model m) \<longleftrightarrow> model_roles m \<noteq> [] \<and> list_all (wf_role P) (model_roles m)"
| "wf_shape P (Signal s) \<longleftrightarrow> list_all (wf_param P) (signal_params s)"
| "wf_shape P (Slot s) \<longleftrightarrow> list_all (wf_param P) (slot_params s) \<and>
     (case slot_return_type s of None \<Rightarrow> True | Some r \<Rightarrow> written_type r)"

definition wf_scopes :: "string list \<Rightarrow> bool" where
  "wf_scopes sc \<longleftrightarrow> list_all wf_name sc \<and> distinct sc"

definition wf_member :: "positions \<Rightarrow> member \<Rightarrow> bool" where
  "wf_member P m \<longleftrightarrow> wf_name (member_name m) \<and> (member_line m, member_col m) \<in> P \<and>
     wf_shape P m \<and> wf_scopes (member_scope m)"

definition type_token :: "positions \<Rightarrow> token \<Rightarrow> bool" where
  "type_token P t \<longleftrightarrow> tok_pos t \<in> P \<and> written_type (tok_value t)"

lemma type_token_plain:
  "tok_pos t \<in> P \<Longrightarrow> tok_kind t = ''ident'' \<Longrightarrow> wf_token t \<Longrightarrow> type_token P t"
  using wf_token_ident by (auto simp: type_token_def written_type_def)

lemma wf_token_number: "wf_token t \<Longrightarrow> tok_kind t = ''number'' \<Longrightarrow> is_number (tok_value t)"
  by (auto simp: wf_token_def punctuation_def)

lemma type_token_bound:
  "tok_pos t \<in> P \<Longrightarrow> is_ident (tok_value t) \<Longrightarrow> is_number d \<Longrightarrow>
   type_token P (mk_token ''ident'' (tok_value t @ ''['' @ d @ '']'') (tok_line t) (tok_col t))"
  by (auto simp: type_token_def mk_token_def tok_pos_def written_type_def)

lemmas meets_steps = meets_intros meets_bind [OF meets_expect] meets_bind [OF meets_next_token]
  meets_bind [OF meets_expect_name]

lemma meets_parse_type_token: "meets path P (type_token P) (parse_type_token path what)"
  unfolding parse_type_token_def [abs_def]
  by (intro meets_steps)
     (simp, simp add: type_token_plain, simp, simp,
      (rule type_token_bound; simp add: wf_token_ident wf_token_number))

lemma meets_parse_param: "meets path P (wf_param P) (parse_param path)"
  unfolding parse_param_def [abs_def]
  by (rule meets_bind, rule meets_parse_type_token, rule meets_bind, rule meets_expect_name,
      rule meets_return) (simp add: wf_param_def type_token_def name_token_def tok_pos_def)

lemma meets_parse_role: "meets path P (wf_role P) (parse_role path)"
  unfolding parse_role_def [abs_def]
  by (rule meets_bind, rule meets_parse_type_token, rule meets_bind, rule meets_expect_name,
      rule meets_return) (simp add: wf_role_def type_token_def name_token_def tok_pos_def)

lemma meets_parse_scope: "meets path P wf_name (parse_scope path)"
  unfolding parse_scope_def [abs_def]
  by (rule meets_bind, rule meets_expect_name, rule meets_return) (simp add: name_token_def)

interpretation params: comma_loop path P "wf_param P" "parse_param path" "params_tail path" for path P
  by unfold_locales (rule eats_items, rule meets_parse_param, rule params_tail.simps)

interpretation roles: comma_loop path P "wf_role P" "parse_role path" "roles_tail path" for path P
  by unfold_locales (rule eats_items, rule meets_parse_role, rule roles_tail.simps)

interpretation scopes: comma_loop path P wf_name "parse_scope path" "scopes_tail path" for path P
  by unfold_locales (rule eats_items, rule meets_parse_scope, rule scopes_tail.simps)

lemmas [eats_intros] = params.tail_eats roles.tail_eats scopes.tail_eats

section \<open>Every parser meets its contract\<close>

lemma eats_parse_params [eats_intros]: "eats b (parse_params path)"
  unfolding parse_params_def [abs_def]
  by (rule eats_weaken) (intro eats_intros; simp)

lemma first_repeat_None:
  "first_repeat f seen xs = None \<longleftrightarrow> distinct (map f xs) \<and> set seen \<inter> f ` set xs = {}"
  by (induction f seen xs rule: first_repeat.induct) auto

lemma eats_parse_gate [eats_intros]: "eats False (parse_gate path)"
proof -
  have "eats False (\<lambda>ts. case first_repeat id [] (x # xs) of
           Some name \<Rightarrow> bindr (peek ts) (\<lambda>at. error_at path (m name) at)
         | None \<Rightarrow> Inr (x # xs, ts))" for x xs m
    by (cases "first_repeat id [] (x # xs)") (simp_all only: option.case, intro eats_intros, intro eats_intros)
  then show ?thesis
    unfolding parse_gate_def [abs_def] by (intro eats_intros; simp)
qed

lemma eats_parse_capture [eats_intros]: "eats False parse_capture"
  unfolding parse_capture_def [abs_def] by (intro eats_intros)

lemma eats_slot_head [eats_intros]: "eats b (slot_head path)"
  unfolding slot_head_def [abs_def] by (rule eats_weaken) (intro eats_intros)

lemma eats_member_of [eats_intros]: "eats True p \<Longrightarrow> eats b (member_of f p)"
  unfolding member_of_def [abs_def] by (rule eats_weaken) (intro eats_intros)

lemma eats_kinds [eats_intros]:
  "eats True (parse_prop path kw)" "eats True (parse_model path kw)"
  "eats True (parse_signal path kw)" "eats True (parse_slot path kw)"
  unfolding parse_prop_def [abs_def] parse_model_def [abs_def] parse_signal_def [abs_def]
    parse_slot_def [abs_def]
  by (intro eats_intros; simp)+

lemma eats_parse_member [eats_intros]: "eats b (parse_member path)"
  unfolding parse_member_def [abs_def] by (rule eats_weaken) (intro eats_intros)

lemma meets_nonempty_list:
  assumes "meets path P Q item" and "meets path P (list_all Q) tail"
  shows "meets path P (\<lambda>xs. xs \<noteq> [] \<and> list_all Q xs)
    (\<lambda>ts. bindr (item ts) (\<lambda>(x, ts2). bindr (tail ts2) (\<lambda>(xs, ts3). Inr (x # xs, ts3))))"
  by (rule meets_bind [OF assms(1)], rule meets_bind [OF assms(2)], rule meets_return) simp

lemma meets_parse_params: "meets path P (list_all (wf_param P)) (parse_params path)"
  unfolding parse_params_def [abs_def]
  apply (intro meets_steps; simp?)
  apply (rule meets_bind [where Q = "list_all (wf_param P)"])
   apply (intro meets_if)
    apply (rule meets_mono [OF meets_nonempty_list [OF meets_parse_param params.tail_meets]], simp)
   apply (intro meets_steps; simp)
  apply (intro meets_steps; simp)
  done

lemma meets_parse_gate: "meets path P wf_scopes (parse_gate path)"
proof -
  have "meets path P wf_scopes (\<lambda>ts. case first_repeat id [] (x # xs) of
           Some name \<Rightarrow> bindr (peek ts) (\<lambda>at. error_at path (m name) at)
         | None \<Rightarrow> Inr (x # xs, ts))" if "wf_name x" "list_all wf_name xs" for x xs m
    using that first_repeat_None [of id "[]" "x # xs"]
    by (cases "first_repeat id [] (x # xs)")
       (simp_all only: option.case, intro meets_steps, simp add: wf_scopes_def, intro meets_steps, simp)
  then show ?thesis
    unfolding parse_gate_def [abs_def]
    by (intro meets_steps meets_bind [OF meets_parse_scope] meets_bind [OF scopes.tail_meets])
       (simp_all add: wf_scopes_def)
qed

lemma meets_parse_capture: "meets path P (\<lambda>_. True) parse_capture"
  unfolding parse_capture_def [abs_def] by (intro meets_steps; simp)

lemma written_type_plain:
  assumes "written_type s" and "CHR ''['' \<notin> set s"
  shows "is_ident s"
  using assms by (auto simp: written_type_def)

lemma meets_slot_head:
  "meets path P (\<lambda>(name, ret). wf_name name \<and> (case ret of None \<Rightarrow> True | Some r \<Rightarrow> written_type r))
     (slot_head path)"
  unfolding slot_head_def [abs_def]
  by (intro meets_steps meets_bind [OF meets_parse_type_token])
     (auto simp: type_token_def name_token_def wf_name_def written_type_plain)

definition head_ok :: "positions \<Rightarrow> member \<Rightarrow> bool" where
  "head_ok P m \<longleftrightarrow> wf_name (member_name m) \<and> (member_line m, member_col m) \<in> P \<and> wf_shape P m"

lemma meets_member_of:
  "meets path P (\<lambda>x. head_ok P (f x)) p \<Longrightarrow> meets path P (head_ok P) (member_of f p)"
  unfolding member_of_def [abs_def] by (erule meets_bind) (rule meets_return)

lemma meets_kinds:
  assumes "tok_pos kw \<in> P"
  shows "meets path P (\<lambda>x. head_ok P (Prop x)) (parse_prop path kw)"
    and "meets path P (\<lambda>x. head_ok P (Model x)) (parse_model path kw)"
    and "meets path P (\<lambda>x. head_ok P (Signal x)) (parse_signal path kw)"
    and "meets path P (\<lambda>x. head_ok P (Slot x)) (parse_slot path kw)"
proof -
  show "meets path P (\<lambda>x. head_ok P (Prop x)) (parse_prop path kw)"
    unfolding parse_prop_def [abs_def] using assms
    by (intro meets_steps meets_bind [OF meets_parse_type_token])
       (simp add: head_ok_def type_token_def name_token_def tok_pos_def)
  show "meets path P (\<lambda>x. head_ok P (Model x)) (parse_model path kw)"
    unfolding parse_model_def [abs_def]
    apply (intro meets_steps)
     apply simp
    apply (rule meets_bind [where Q = "list_all (wf_role P)"])
     apply (intro meets_if)
      apply (rule meets_mono [OF meets_nonempty_list [OF meets_parse_role roles.tail_meets]], simp)
     apply (intro meets_steps; simp)
    apply (intro meets_steps)
      apply simp
     apply (simp add: name_token_def)
    apply (use assms in \<open>simp add: head_ok_def name_token_def tok_pos_def\<close>)
    done
  show "meets path P (\<lambda>x. head_ok P (Signal x)) (parse_signal path kw)"
    unfolding parse_signal_def [abs_def] using assms
    by (intro meets_steps meets_bind [OF meets_parse_params])
       (simp add: head_ok_def name_token_def tok_pos_def)
  show "meets path P (\<lambda>x. head_ok P (Slot x)) (parse_slot path kw)"
    unfolding parse_slot_def [abs_def] using assms
    by (intro meets_steps meets_bind [OF meets_parse_capture] meets_bind [OF meets_slot_head]
          meets_bind [OF meets_parse_params])
       (auto simp: head_ok_def tok_pos_def split: prod.splits)
qed

lemma wf_member_with_scope: "head_ok P m \<Longrightarrow> wf_scopes sc \<Longrightarrow> wf_member P (with_scope sc m)"
  by (cases m) (auto simp: wf_member_def head_ok_def)

lemma meets_parse_member: "meets path P (wf_member P) (parse_member path)"
  unfolding parse_member_def [abs_def]
  apply (intro meets_steps meets_bind [OF meets_parse_gate])
   apply assumption
  apply (rule meets_bind [where Q = "head_ok P"])
   apply (intro meets_if meets_member_of meets_kinds; assumption)
  apply (intro meets_steps wf_member_with_scope; assumption)
  done

section \<open>Contracts, records and files\<close>

lemmas member_shrinks = eats_shrinks [OF eats_parse_member]

function members_loop :: "string \<Rightarrow> member list parser" where
  "members_loop path ts =
     bindr (peek ts) (\<lambda>t.
       if tok_kind t \<noteq> ''}'' then
         if tok_kind t = ''eof''
         then error_at path (''unterminated contract: expected '' @ quoted ''}'') t
         else
           bindr (parse_member path ts) (\<lambda>(m, ts1).
           bindr (members_loop path ts1) (\<lambda>(ms, ts2). Inr (m # ms, ts2)))
       else Inr ([], ts))"
  by pat_completeness auto
termination
  by (relation "measure (\<lambda>(path, ts). length ts)") (auto dest: member_shrinks)

declare members_loop.simps [simp del]

definition parse_contract :: "string \<Rightarrow> contract parser" where
  "parse_contract path ts =
     bindr (next_token ts) (\<lambda>(keyword, ts1).
     bindr (expect_name path ''contract name'' ts1) (\<lambda>(name, ts2).
     bindr (expect path ''{'' (quoted ''{'' @ '' to open the contract body'') ts2) (\<lambda>(o_tok, ts3).
     bindr (members_loop path ts3) (\<lambda>(ms, ts4).
     bindr (next_token ts4) (\<lambda>(c_tok, ts5).
       Inr (\<lparr>contract_name = tok_value name, members = ms,
             contract_line = tok_line keyword, contract_col = tok_col keyword\<rparr>, ts5))))))"

definition parse_record :: "string \<Rightarrow> syn_record parser" where
  "parse_record path ts =
     bindr (next_token ts) (\<lambda>(keyword, ts1).
     bindr (expect_name path ''record name'' ts1) (\<lambda>(name, ts2).
     bindr (parse_params path ts2) (\<lambda>(params, ts3).
       if params = []
       then error_at path (''record '' @ quoted (tok_value name) @ '' must declare at least one field'') name
       else Inr (\<lparr>record_name = tok_value name, record_fields = params,
                  record_line = tok_line keyword, record_col = tok_col keyword\<rparr>, ts3))))"

lemma eats_members_loop [eats_intros]: "eats False (members_loop path)"
proof -
  have "\<exists>used. ts = used @ ts' \<and> (\<forall>t \<in> set used. tok_kind t \<noteq> ''eof'')"
    if "members_loop path ts = Inr (ms, ts')" for ts ms ts'
    using that
  proof (induction "length ts" arbitrary: ts ms rule: less_induct)
    case less
    show ?case
    proof (cases "ms = [] \<and> ts' = ts")
      case False
      then obtain m ts1 ms1 where m: "parse_member path ts = Inr (m, ts1)"
          "members_loop path ts1 = Inr (ms1, ts')"
        using less.prems by (subst (asm) members_loop.simps)
          (auto simp: bindr_eq_Inr error_at_def syn_err_def split: if_splits)
      obtain v where "ts1 = v @ ts'" "\<forall>t \<in> set v. tok_kind t \<noteq> ''eof''"
        using less.hyps [OF member_shrinks [OF m(1)] m(2)] by blast
      moreover obtain u where "ts = u @ ts1" "\<forall>t \<in> set u. tok_kind t \<noteq> ''eof''"
        using m(1) eats_parse_member [of True path] unfolding eats_def by blast
      ultimately show ?thesis by (intro exI [of _ "u @ v"]) auto
    qed simp
  qed
  then show ?thesis unfolding eats_def by blast
qed

lemma eats_toplevel [eats_intros]: "eats True (parse_contract path)" "eats True (parse_record path)"
  unfolding parse_contract_def [abs_def] parse_record_def [abs_def] by (intro eats_intros; simp)+

lemmas toplevel_shrinks = eats_toplevel [THEN eats_shrinks]

text \<open>\<open>Parser.parse\<close>: the records and the contracts, each in source order.\<close>

function parse_loop :: "string \<Rightarrow> (syn_record list \<times> contract list) parser" where
  "parse_loop path ts =
     bindr (peek ts) (\<lambda>t.
       if tok_kind t \<noteq> ''eof'' then
         if tok_kind t \<noteq> ''ident''
         then error_at path (''expected '' @ quoted ''contract'' @ '' or '' @ quoted ''record''
                @ '', got '' @ quoted (tok_value t)) t
         else if tok_value t = ''contract'' then
           bindr (parse_contract path ts) (\<lambda>(c, ts1).
           bindr (parse_loop path ts1) (\<lambda>(rc, ts2). Inr ((fst rc, c # snd rc), ts2)))
         else if tok_value t = ''record'' then
           bindr (parse_record path ts) (\<lambda>(r, ts1).
           bindr (parse_loop path ts1) (\<lambda>(rc, ts2). Inr ((r # fst rc, snd rc), ts2)))
         else error_at path (''expected '' @ quoted ''contract'' @ '' or '' @ quoted ''record''
                @ '' at top level, got '' @ quoted (tok_value t)) t
       else Inr (([], []), ts))"
  by pat_completeness auto
termination
  by (relation "measure (\<lambda>(path, ts). length ts)") (auto dest: toplevel_shrinks)

declare parse_loop.simps [simp del]

definition parse_tokens :: "string \<Rightarrow> string \<Rightarrow> token list \<Rightarrow> syn_file res" where
  "parse_tokens path file_stem ts =
     bindr (parse_loop path ts) (\<lambda>((rs, cs), ts').
       Inr \<lparr>stem = file_stem, records = rs, contracts = cs, forwards_session = False\<rparr>)"

section \<open>Validation\<close>

fun eachr :: "('a \<Rightarrow> unit res) \<Rightarrow> 'a list \<Rightarrow> unit res" where
  "eachr f [] = Inr ()"
| "eachr f (x # xs) = bindr (f x) (\<lambda>_. eachr f xs)"

definition validate_names :: "syn_file \<Rightarrow> string \<Rightarrow> unit res" where
  "validate_names syn path =
     (case first_repeat record_name [] (records syn) of
        Some r \<Rightarrow> syn_err (''duplicate record or contract name '' @ quoted (record_name r)) path
                    (record_line r) (record_col r)
      | None \<Rightarrow>
          case first_repeat contract_name (record_names syn) (contracts syn) of
            Some c \<Rightarrow> syn_err (''duplicate record or contract name '' @ quoted (contract_name c)) path
                        (contract_line c) (contract_col c)
          | None \<Rightarrow> Inr ())"

definition resolve :: "string list \<Rightarrow> string \<Rightarrow> string \<Rightarrow> nat \<Rightarrow> nat \<Rightarrow> unit res" where
  "resolve rs path type_name line col =
     bindr (cpp_type type_name rs path line col) (\<lambda>_. Inr ())"

definition resolve_param :: "string list \<Rightarrow> string \<Rightarrow> param \<Rightarrow> unit res" where
  "resolve_param rs path p = resolve rs path (par_type p) (par_line p) (par_col p)"

definition validate_signal :: "string list \<Rightarrow> string \<Rightarrow> syn_signal \<Rightarrow> unit res" where
  "validate_signal rs path s =
     (if length (signal_params s) > MAX_SIGNAL_PARAMS
      then syn_err (''signal '' @ quoted (signal_name s) @ '' takes '' @ dec (length (signal_params s))
             @ '' parameters; the most a signal may carry to one caller is '' @ dec MAX_SIGNAL_PARAMS
             @ ''. Group the extra ones into a record and send that.'') path (signal_line s) (signal_col s)
      else eachr (resolve_param rs path) (signal_params s))"

definition validate_slot :: "string list \<Rightarrow> string \<Rightarrow> syn_slot \<Rightarrow> unit res" where
  "validate_slot rs path s =
     bindr (case slot_return_type s of
              None \<Rightarrow> Inr ()
            | Some r \<Rightarrow> resolve rs path r (slot_line s) (slot_col s)) (\<lambda>_.
     eachr (resolve_param rs path) (slot_params s))"

definition validate_contract :: "string list \<Rightarrow> string \<Rightarrow> contract \<Rightarrow> unit res" where
  "validate_contract rs path c =
     (case first_repeat member_name [] (members c) of
        Some m \<Rightarrow> syn_err (''duplicate member '' @ quoted (member_name m) @ '' in contract ''
                    @ quoted (contract_name c)) path (member_line m) (member_col m)
      | None \<Rightarrow>
          bindr (eachr (\<lambda>p. resolve rs path (prop_type p) (prop_line p) (prop_col p)) (props c)) (\<lambda>_.
          bindr (eachr (\<lambda>m. eachr (\<lambda>r. resolve rs path (role_type r) (role_line r) (role_col r))
                              (model_roles m)) (models c)) (\<lambda>_.
          bindr (eachr (validate_signal rs path) (signals c)) (\<lambda>_.
          eachr (validate_slot rs path) (slots c)))))"

definition validate :: "syn_file \<Rightarrow> string \<Rightarrow> unit res" where
  "validate syn path =
     bindr (validate_names syn path) (\<lambda>_.
     bindr (eachr (\<lambda>r. eachr (resolve_param (record_names syn) path) (record_fields r)) (records syn)) (\<lambda>_.
     eachr (validate_contract (record_names syn) path) (contracts syn)))"

definition parse_text :: "string \<Rightarrow> string \<Rightarrow> string \<Rightarrow> syn_file res" where
  "parse_text s path file_stem =
     bindr (tokenize s path) (\<lambda>ts.
     bindr (parse_tokens path file_stem ts) (\<lambda>syn.
     bindr (validate syn path) (\<lambda>_. Inr syn)))"

end
