(* ===== verification/Samples.thy ===== *)
theory Samples
  imports SynParser
begin

text \<open>
  A contract the theorems are applied to, and what the parser makes of it: a gated and bounded
  property, a model, a signal, a gated slot that returns and a captured one.
\<close>

definition sample_text :: string where
  "sample_text = ''contract Board {<admin> prop string[64] title model rows(string name, list[8] tags) signal moved(int x) <player, admin> slot bool place(string[16] piece, var extra) slot capture reset()}''"

definition sample_prop :: syn_prop where
  "sample_prop = \<lparr>prop_type = ''string[64]'', prop_name = ''title'', prop_line = 1, prop_col = 25,
     prop_scope = [''admin'']\<rparr>"

definition sample_model :: syn_model where
  "sample_model = \<lparr>model_name = ''rows'',
     model_roles = [\<lparr>role_type = ''string'', role_name = ''name'', role_line = 1, role_col = 58\<rparr>,
                    \<lparr>role_type = ''list[8]'', role_name = ''tags'', role_line = 1, role_col = 71\<rparr>],
     model_line = 1, model_col = 47, model_scope = []\<rparr>"

definition sample_signal :: syn_signal where
  "sample_signal = \<lparr>signal_name = ''moved'',
     signal_params = [\<lparr>par_type = ''int'', par_name = ''x'', par_line = 1, par_col = 98\<rparr>],
     signal_line = 1, signal_col = 85, signal_scope = []\<rparr>"

definition sample_slot :: syn_slot where
  "sample_slot = \<lparr>slot_name = ''place'',
     slot_params = [\<lparr>par_type = ''string[16]'', par_name = ''piece'', par_line = 1, par_col = 137\<rparr>,
                    \<lparr>par_type = ''var'', par_name = ''extra'', par_line = 1, par_col = 155\<rparr>],
     slot_return_type = Some ''bool'', slot_line = 1, slot_col = 121,
     slot_scope = [''player'', ''admin''], slot_capture = False\<rparr>"

definition sample_contract :: contract where
  "sample_contract = \<lparr>contract_name = ''Board'',
     members = [Prop sample_prop, Model sample_model, Signal sample_signal, Slot sample_slot,
       Slot \<lparr>slot_name = ''reset'', slot_params = [], slot_return_type = None, slot_line = 1,
             slot_col = 166, slot_scope = [], slot_capture = True\<rparr>],
     contract_line = 1, contract_col = 1\<rparr>"

definition sample_syn :: syn_file where
  "sample_syn = \<lparr>stem = ''board'', records = [], contracts = [sample_contract], forwards_session = False\<rparr>"

lemma sample_parses: "parse_text sample_text ''board.syn'' ''board'' = Inr sample_syn"
  by code_simp

text \<open>A text the parser refuses: the bound of a type is missing.\<close>

definition broken_text :: string where
  "broken_text = ''contract Board { prop string[] title }''"

lemma broken_refused: "parse_text broken_text ''board.syn'' ''board'' =
    Inl (SynError \<lparr>err_message = ''expected the bound of a a property type, as in string[64], got '' @ quoted '']'',
      err_path = ''board.syn'', err_line = 1, err_col = 30\<rparr>)"
  by code_simp

end
