(* ===== verification/SynParserProps.thy ===== *)
theory SynParserProps
  imports SynParser Samples
begin

text \<open>
  What the parser guarantees. A file it returns is well formed (every name an identifier that is
  no keyword, every type written as the grammar writes one, no empty model or record, no scope
  twice in a gate, every node at a position of the text) and well typed (no name declared twice,
  every type one the compiler can lower, no signal with too many parameters); a file it refuses
  is refused with a \<open>SynError\<close> that names the file and a position in its text, never with an
  exception of Python's own.
\<close>

definition wf_record :: "positions \<Rightarrow> syn_record \<Rightarrow> bool" where
  "wf_record P r \<longleftrightarrow> wf_name (record_name r) \<and> record_fields r \<noteq> [] \<and>
     list_all (wf_param P) (record_fields r) \<and> (record_line r, record_col r) \<in> P"

definition wf_contract :: "positions \<Rightarrow> contract \<Rightarrow> bool" where
  "wf_contract P c \<longleftrightarrow> wf_name (contract_name c) \<and> list_all (wf_member P) (members c) \<and>
     (contract_line c, contract_col c) \<in> P"

definition wf_file :: "positions \<Rightarrow> syn_file \<Rightarrow> bool" where
  "wf_file P syn \<longleftrightarrow> list_all (wf_record P) (records syn) \<and> list_all (wf_contract P) (contracts syn)"

fun typed_member :: "string list \<Rightarrow> member \<Rightarrow> bool" where
  "typed_member rs (Prop p) \<longleftrightarrow> valid_type rs (prop_type p)"
| "typed_member rs (Model m) \<longleftrightarrow> (\<forall>r \<in> set (model_roles m). valid_type rs (role_type r))"
| "typed_member rs (Signal s) \<longleftrightarrow>
     length (signal_params s) \<le> MAX_SIGNAL_PARAMS \<and> (\<forall>p \<in> set (signal_params s). valid_type rs (par_type p))"
| "typed_member rs (Slot s) \<longleftrightarrow>
     (\<forall>r. slot_return_type s = Some r \<longrightarrow> valid_type rs r) \<and>
     (\<forall>p \<in> set (slot_params s). valid_type rs (par_type p))"

definition typed_file :: "syn_file \<Rightarrow> bool" where
  "typed_file syn \<longleftrightarrow>
     distinct (record_names syn @ map contract_name (contracts syn)) \<and>
     (\<forall>r \<in> set (records syn). \<forall>f \<in> set (record_fields r). valid_type (record_names syn) (par_type f)) \<and>
     (\<forall>c \<in> set (contracts syn). distinct (map member_name (members c)) \<and>
        (\<forall>m \<in> set (members c). typed_member (record_names syn) m))"

section \<open>Validation decides typing\<close>

lemma eachr_ok [simp]: "eachr f xs = Inr () \<longleftrightarrow> (\<forall>x \<in> set xs. f x = Inr ())"
  by (induction xs) (auto simp: bindr_eq_Inr)

lemma eachr_error: "eachr f xs = Inl e \<Longrightarrow> \<exists>x \<in> set xs. f x = Inl e"
  by (induction xs) (auto simp: bindr_eq_Inl)

lemma syn_err_not_ok [simp]: "syn_err m path l c \<noteq> Inr x"
  by (simp add: syn_err_def)

lemma resolve_ok [simp]: "resolve rs path t l c = Inr () \<longleftrightarrow> valid_type rs t"
  by (auto simp: resolve_def bindr_eq_Inr cpp_type_ok_iff)

lemma resolve_error: "resolve rs path t l c = Inl e \<Longrightarrow> (l, c) \<in> P \<Longrightarrow> located path P e"
  by (auto simp: resolve_def bindr_eq_Inl located_def dest: cpp_type_error)

lemma validate_names_ok [simp]:
  "validate_names syn path = Inr () \<longleftrightarrow>
     distinct (record_names syn @ map contract_name (contracts syn))"
proof -
  have "validate_names syn path = Inr () \<longleftrightarrow>
      first_repeat record_name [] (records syn) = None \<and>
      first_repeat contract_name (record_names syn) (contracts syn) = None"
    by (simp add: validate_names_def split: option.split)
  then show ?thesis by (auto simp: first_repeat_None record_names_def)
qed

lemma validate_signal_ok [simp]:
  "validate_signal rs path s = Inr () \<longleftrightarrow> typed_member rs (Signal s)"
  by (auto simp: validate_signal_def resolve_param_def)

lemma validate_slot_ok [simp]: "validate_slot rs path s = Inr () \<longleftrightarrow> typed_member rs (Slot s)"
  by (auto simp: validate_slot_def resolve_param_def bindr_eq_Inr split: option.splits)

lemma typed_members_by_kind:
  "(\<forall>m \<in> set (members c). typed_member rs m) \<longleftrightarrow>
     (\<forall>p \<in> set (props c). typed_member rs (Prop p)) \<and> (\<forall>m \<in> set (models c). typed_member rs (Model m)) \<and>
     (\<forall>s \<in> set (signals c). typed_member rs (Signal s)) \<and> (\<forall>s \<in> set (slots c). typed_member rs (Slot s))"
  (is "?all \<longleftrightarrow> ?kinds")
proof
  assume ?kinds
  then show ?all by (metis member.exhaust set_views)
qed (auto simp del: typed_member.simps)

lemma validate_contract_ok [simp]:
  "validate_contract rs path c = Inr () \<longleftrightarrow>
     distinct (map member_name (members c)) \<and> (\<forall>m \<in> set (members c). typed_member rs m)"
proof -
  have "validate_contract rs path c = Inr () \<longleftrightarrow>
      first_repeat member_name [] (members c) = None \<and>
      (\<forall>p \<in> set (props c). typed_member rs (Prop p)) \<and> (\<forall>m \<in> set (models c). typed_member rs (Model m)) \<and>
      (\<forall>s \<in> set (signals c). typed_member rs (Signal s)) \<and> (\<forall>s \<in> set (slots c). typed_member rs (Slot s))"
    by (simp add: validate_contract_def bindr_eq_Inr del: set_views typed_member.simps(3,4) split: option.split)
  then show ?thesis by (simp only: typed_members_by_kind) (simp add: first_repeat_None)
qed

lemma validate_ok_iff: "validate syn path = Inr () \<longleftrightarrow> typed_file syn"
  by (auto simp: validate_def typed_file_def bindr_eq_Inr resolve_param_def)

section \<open>Validation raises at a node\<close>

lemma first_repeat_Some: "first_repeat f seen xs = Some x \<Longrightarrow> x \<in> set xs"
  by (induction f seen xs rule: first_repeat.induct) (auto split: if_splits)

lemma located_syn_err: "syn_err m path l c = Inl e \<Longrightarrow> (l, c) \<in> P \<Longrightarrow> located path P e"
  by (auto simp: syn_err_def located_def)

lemma resolve_param_error:
  "resolve_param rs path p = Inl e \<Longrightarrow> wf_param P p \<Longrightarrow> located path P e"
  by (auto simp: resolve_param_def wf_param_def dest: resolve_error)

lemma resolve_params_error:
  "eachr (resolve_param rs path) ps = Inl e \<Longrightarrow> list_all (wf_param P) ps \<Longrightarrow> located path P e"
  by (auto simp: list_all_iff dest!: eachr_error dest: resolve_param_error)

lemma validate_names_error:
  assumes "validate_names syn path = Inl e" and "wf_file P syn"
  shows "located path P e"
  using assms
  by (auto simp: validate_names_def wf_file_def list_all_iff wf_record_def wf_contract_def
           split: option.splits dest!: first_repeat_Some elim!: located_syn_err)

lemma validate_signal_error:
  "validate_signal rs path s = Inl e \<Longrightarrow> wf_member P (Signal s) \<Longrightarrow> located path P e"
  by (auto simp: validate_signal_def wf_member_def split: if_splits
           elim!: located_syn_err dest: resolve_params_error)

lemma validate_slot_error:
  "validate_slot rs path s = Inl e \<Longrightarrow> wf_member P (Slot s) \<Longrightarrow> located path P e"
  by (auto simp: validate_slot_def wf_member_def bindr_eq_Inl split: option.splits
           dest: resolve_params_error resolve_error)

lemma validate_contract_error:
  assumes "validate_contract rs path c = Inl e" and "wf_contract P c"
  shows "located path P e"
proof -
  have wf: "\<And>m. m \<in> set (members c) \<Longrightarrow> wf_member P m"
    using assms(2) by (auto simp: wf_contract_def list_all_iff)
  consider (dup) m where "first_repeat member_name [] (members c) = Some m"
      "syn_err (''duplicate member '' @ quoted (member_name m) @ '' in contract ''
         @ quoted (contract_name c)) path (member_line m) (member_col m) = (Inl e :: unit res)"
    | (p) p where "Prop p \<in> set (members c)" "resolve rs path (prop_type p) (prop_line p) (prop_col p) = Inl e"
    | (m) m r where "Model m \<in> set (members c)" "r \<in> set (model_roles m)"
        "resolve rs path (role_type r) (role_line r) (role_col r) = Inl e"
    | (sig) s where "Signal s \<in> set (members c)" "validate_signal rs path s = Inl e"
    | (slot) s where "Slot s \<in> set (members c)" "validate_slot rs path s = Inl e"
    using assms(1)
    by (auto simp: validate_contract_def bindr_eq_Inl split: option.splits dest!: eachr_error)
  then show ?thesis
  proof cases
    case dup
    then show ?thesis using wf first_repeat_Some located_syn_err by (metis wf_member_def)
  next
    case p
    then show ?thesis using wf [OF p(1)] resolve_error by (auto simp: wf_member_def)
  next
    case m
    then show ?thesis using wf [OF m(1)] resolve_error
      by (auto simp: wf_member_def list_all_iff wf_role_def)
  next
    case sig
    then show ?thesis using wf validate_signal_error by blast
  next
    case slot
    then show ?thesis using wf validate_slot_error by blast
  qed
qed

lemma validate_error:
  assumes "validate syn path = Inl e" and wf: "wf_file P syn"
  shows "located path P e"
proof -
  consider (names) "validate_names syn path = Inl e"
    | (field) r where "r \<in> set (records syn)"
        "eachr (resolve_param (record_names syn) path) (record_fields r) = Inl e"
    | (contract) c where "c \<in> set (contracts syn)" "validate_contract (record_names syn) path c = Inl e"
    using assms(1) by (auto simp: validate_def bindr_eq_Inl simp del: eachr.simps
        dest!: eachr_error [of "\<lambda>r. eachr _ (record_fields r)"] eachr_error [of "validate_contract _ _"])
  then show ?thesis
  proof cases
    case names
    then show ?thesis using wf by (rule validate_names_error)
  next
    case field
    then show ?thesis
      using wf resolve_params_error by (auto simp: wf_file_def wf_record_def list_all_iff)
  next
    case contract
    then show ?thesis using wf validate_contract_error by (auto simp: wf_file_def list_all_iff)
  qed
qed

section \<open>The loops meet their contracts\<close>

lemma meets_members_loop: "meets path P (list_all (wf_member P)) (members_loop path)"
proof (rule meets_loop)
  fix ts t rest
  assume g: "good P ts" and ts: "ts = t # rest" "tok_pos t \<in> P"
    and IH: "\<And>ts'. length ts' < length ts \<Longrightarrow> good P ts' \<Longrightarrow>
      okr path P (list_all (wf_member P)) (members_loop path ts')"
  have "okr path P (list_all (wf_member P)) (bindr (parse_member path ts) (\<lambda>(m, ts1).
      bindr (members_loop path ts1) (\<lambda>(ms, ts2). Inr (m # ms, ts2))))"
  proof (rule okr_bind [OF meets_at [OF meets_parse_member g]])
    fix m ts1 assume "parse_member path ts = Inr (m, ts1)" "good P ts1" "wf_member P m"
    then show "okr path P (list_all (wf_member P))
        (bindr (members_loop path ts1) (\<lambda>(ms, ts2). Inr (m # ms, ts2)))"
      by (intro okr_bind [OF IH]) (auto dest: member_shrinks)
  qed
  then show "okr path P (list_all (wf_member P)) (members_loop path ts)"
    using g ts by (subst members_loop.simps) (auto simp: peek_at_def)
qed

lemma meets_parse_contract: "meets path P (wf_contract P) (parse_contract path)"
  unfolding parse_contract_def [abs_def]
  by (intro meets_steps meets_bind [OF meets_members_loop])
     (simp_all add: wf_contract_def name_token_def tok_pos_def)

lemma meets_parse_record: "meets path P (wf_record P) (parse_record path)"
  unfolding parse_record_def [abs_def]
  by (intro meets_steps meets_bind [OF meets_parse_params])
     (simp_all add: wf_record_def name_token_def tok_pos_def)

definition wf_decls :: "positions \<Rightarrow> syn_record list \<times> contract list \<Rightarrow> bool" where
  "wf_decls P rc \<longleftrightarrow> list_all (wf_record P) (fst rc) \<and> list_all (wf_contract P) (snd rc)"

lemma meets_parse_loop: "meets path P (wf_decls P) (parse_loop path)"
proof (rule meets_loop)
  fix ts t rest
  assume g: "good P ts" and ts: "ts = t # rest" "tok_pos t \<in> P"
    and IH: "\<And>ts'. length ts' < length ts \<Longrightarrow> good P ts' \<Longrightarrow>
      okr path P (wf_decls P) (parse_loop path ts')"
  have "okr path P (wf_decls P) (bindr (parse_contract path ts) (\<lambda>(c, ts1).
      bindr (parse_loop path ts1) (\<lambda>(rc, ts2). Inr ((fst rc, c # snd rc), ts2))))"
    by (rule okr_bind [OF meets_at [OF meets_parse_contract g]], rule okr_bind [OF IH])
       (auto simp: wf_decls_def dest: toplevel_shrinks)
  moreover have "okr path P (wf_decls P) (bindr (parse_record path ts) (\<lambda>(r, ts1).
      bindr (parse_loop path ts1) (\<lambda>(rc, ts2). Inr ((r # fst rc, snd rc), ts2))))"
    by (rule okr_bind [OF meets_at [OF meets_parse_record g]], rule okr_bind [OF IH])
       (auto simp: wf_decls_def dest: toplevel_shrinks)
  ultimately show "okr path P (wf_decls P) (parse_loop path ts)"
    using g ts by (subst parse_loop.simps) (auto simp: peek_at_def wf_decls_def)
qed

section \<open>parse_text\<close>

definition text_positions :: "string \<Rightarrow> positions" where
  "text_positions s = {(line_at s j, col_at s j) | j. j \<le> length s}"

lemma placed_positions: "placed s i ts \<Longrightarrow> t \<in> set ts \<Longrightarrow> tok_pos t \<in> text_positions s"
proof (induction ts arbitrary: i)
  case (Cons u us)
  then show ?case by (auto simp: tok_pos_def text_positions_def)
qed simp

lemma tokenize_good: "tokenize s path = Inr ts \<Longrightarrow> good (text_positions s) ts"
  unfolding good_def by (blast dest: tokenize_ok intro: placed_positions)

lemma parse_tokens_ok:
  assumes "good P ts"
  shows "case parse_tokens path st ts of
    Inr syn \<Rightarrow> wf_file P syn \<and> stem syn = st | Inl e \<Rightarrow> located path P e"
  using meets_at [OF meets_parse_loop assms, of path]
  by (cases "parse_loop path ts") (auto simp: parse_tokens_def wf_decls_def wf_file_def)

lemma parse_text_cases:
  "case parse_text s path st of
     Inr syn \<Rightarrow> wf_file (text_positions s) syn \<and> stem syn = st \<and> typed_file syn
   | Inl e \<Rightarrow> located path (text_positions s) e"
proof (cases "tokenize s path")
  case (Inl e)
  then show ?thesis
    using tokenize_error [OF Inl] less_imp_le [of _ "length s"]
    by (fastforce simp: parse_text_def located_def text_positions_def)
next
  case (Inr ts)
  note parsed = parse_tokens_ok [OF tokenize_good [OF Inr], of path st]
  show ?thesis
  proof (cases "parse_tokens path st ts")
    case (Inl e)
    then show ?thesis using parsed Inr by (simp add: parse_text_def)
  next
    case syn: (Inr syn)
    then show ?thesis
      using parsed Inr validate_error [of syn path] validate_ok_iff [of syn path]
      by (cases "validate syn path") (auto simp: parse_text_def)
  qed
qed

lemma sample_ok: "wf_file (text_positions sample_text) sample_syn" "typed_file sample_syn"
  using parse_text_cases [where s = sample_text and path = "''board.syn''" and st = "''board''"] sample_parses
  by simp_all

lemma sample_typed:
  "typed_member [] (Slot sample_slot)" "typed_member [] (Signal sample_signal)" "valid_type [] (prop_type sample_prop)"
proof -
  have "\<forall>m \<in> set (members sample_contract). typed_member [] m"
    using sample_ok(2) by (simp add: typed_file_def sample_syn_def record_names_def)
  then show "typed_member [] (Slot sample_slot)" "typed_member [] (Signal sample_signal)" "valid_type [] (prop_type sample_prop)"
    by (simp_all add: sample_contract_def)
qed

section \<open>Properties\<close>

text \<open>
  C4. What the parser returns is well formed and well typed: every name is an identifier and no
  keyword, every type is written as the grammar writes one and can be lowered, no name is declared
  twice, no model or record is empty, no gate names a scope twice, no signal carries more than
  eight parameters, and every node stands at a position of the text.
\<close>

theorem parse_text_sound:
  assumes "parse_text s path st = Inr syn"
  shows "wf_file (text_positions s) syn \<and> typed_file syn \<and> stem syn = st"
  using parse_text_cases [where s = s and path = path and st = st] assms by simp

theorem parse_text_sound_witness:
  "parse_text sample_text ''board.syn'' ''board'' = Inr sample_syn \<and>
   wf_file (text_positions sample_text) sample_syn \<and> typed_file sample_syn \<and> stem sample_syn = ''board''"
  using parse_text_sound [OF sample_parses] sample_parses by blast



text \<open>
  C22. \<open>_validate\<close> decides typing: it passes exactly the files in which no record, contract or member
  name is declared twice, every written type can be lowered and no signal has too many parameters.
\<close>

theorem validate_decides_typing:
  "validate syn path = Inr () \<longleftrightarrow>
     distinct (map record_name (records syn) @ map contract_name (contracts syn)) \<and>
     list_all (\<lambda>r. list_all (\<lambda>f. valid_type (map record_name (records syn)) (par_type f)) (record_fields r)) (records syn) \<and>
     list_all (\<lambda>c. distinct (map member_name (members c)) \<and>
        list_all (typed_member (map record_name (records syn))) (members c)) (contracts syn)"
  by (simp add: validate_ok_iff typed_file_def record_names_def list_all_iff)

end
