(* ===== verification/PyText.thy ===== *)
theory PyText
  imports SynPrelude
begin

text \<open>
  More of Python's \<open>str\<close>, for the modules that read text line by line: whitespace, the ends of
  lines, stripping, splitting and case, over the characters below 256. Case is the ASCII case.
\<close>

section \<open>Case\<close>

definition to_upper :: "char \<Rightarrow> char" where
  "to_upper c = (if is_lower c then char_of (of_char c - (32 :: nat)) else c)"

definition to_lower :: "char \<Rightarrow> char" where
  "to_lower c = (if is_upper c then char_of (of_char c + (32 :: nat)) else c)"

section \<open>Python's whitespace and lines\<close>

text \<open>Over the characters below 256: what \<open>str.strip\<close> and \<open>\s\<close> remove, and where \<open>splitlines\<close> cuts.\<close>

definition py_space :: "char \<Rightarrow> bool" where
  "py_space c \<longleftrightarrow> (let n = (of_char c :: nat) in
     9 \<le> n \<and> n \<le> 13 \<or> 28 \<le> n \<and> n \<le> 32 \<or> n = 0x85 \<or> n = 0xA0)"

definition line_break :: "char \<Rightarrow> bool" where
  "line_break c \<longleftrightarrow> (let n = (of_char c :: nat) in
     10 \<le> n \<and> n \<le> 13 \<or> 28 \<le> n \<and> n \<le> 30 \<or> n = 0x85)"

text \<open>The class \<open>\w\<close>, whose edges \<open>\b\<close> is about.\<close>

definition word_char :: "char \<Rightarrow> bool" where
  "word_char c \<longleftrightarrow> ident_char c \<or>
     (let n = (of_char c :: nat) in
      n \<in> set [0xAA, 0xB2, 0xB3, 0xB5, 0xB9, 0xBA, 0xBC, 0xBD, 0xBE] \<or>
      0xC0 \<le> n \<and> n \<noteq> 0xD7 \<and> n \<noteq> 0xF7)"

definition lstrip :: "string \<Rightarrow> string" where
  "lstrip s = dropWhile py_space s"

definition rstrip :: "string \<Rightarrow> string" where
  "rstrip s = rev (dropWhile py_space (rev s))"

definition strip :: "string \<Rightarrow> string" where
  "strip s = rstrip (lstrip s)"

function splitlines :: "string \<Rightarrow> string list" where
  "splitlines [] = []"
| "splitlines (c # cs) =
     takeWhile (\<lambda>x. \<not> line_break x) (c # cs)
     # (case dropWhile (\<lambda>x. \<not> line_break x) (c # cs) of
          [] \<Rightarrow> []
        | b # rest \<Rightarrow> splitlines (if b = CHR 0x0D \<and> startswith rest nl then drop 1 rest else rest))"
  by pat_completeness auto
termination
proof (relation "measure length", simp)
  fix c :: char and cs b rest
  assume "dropWhile (\<lambda>x. \<not> line_break x) (c # cs) = b # rest"
  then have "length (b # rest) \<le> length (c # cs)" by (metis length_dropWhile_le)
  then show "(if b = CHR 0x0D \<and> startswith rest nl then drop 1 rest else rest, c # cs) \<in> measure length"
    by auto
qed

text \<open>\<open>head, marker, tail = s.partition(sep)\<close>, \<open>None\<close> where the separator is not found.\<close>

definition partition_at :: "string \<Rightarrow> string \<Rightarrow> (string \<times> string) option" where
  "partition_at sep s = map_option (\<lambda>i. (take i s, drop (i + length sep) s)) (find_sub sep s)"

section \<open>Classes of characters\<close>

definition py_digit :: "char \<Rightarrow> bool" where
  "py_digit c \<longleftrightarrow> is_digit c \<or> (of_char c :: nat) \<in> set [0xB2, 0xB3, 0xB9]"

definition py_alnum :: "char \<Rightarrow> bool" where
  "py_alnum c \<longleftrightarrow> word_char c \<and> c \<noteq> CHR ''_''"

section \<open>Splitting\<close>

text \<open>\<open>text.split(c)\<close> for a separator of one character: one more piece than separators.\<close>

fun split_on :: "char \<Rightarrow> string \<Rightarrow> string list" where
  "split_on d [] = [[]]"
| "split_on d (c # cs) =
     (if c = d then [] # split_on d cs
      else case split_on d cs of p # ps \<Rightarrow> (c # p) # ps | [] \<Rightarrow> [[c]])"

lemma split_on_ne [simp]: "split_on d s \<noteq> []"
  by (induction s) (auto split: list.splits)

lemma join_split_on: "join [d] (split_on d s) = s"
proof (induction s)
  case (Cons c cs)
  then show ?case by (cases "split_on d cs") (auto simp: join_Cons)
qed simp

lemma split_on_no_sep: "d \<notin> set s \<Longrightarrow> split_on d s = [s]"
  by (induction s) auto

lemma split_on_append: "d \<notin> set s \<Longrightarrow> split_on d (s @ d # t) = s # split_on d t"
  by (induction s) auto

lemma split_on_pieces: "p \<in> set (split_on d s) \<Longrightarrow> d \<notin> set p"
  by (induction s arbitrary: p) (auto split: list.splits if_splits)

lemma split_on_join:
  "ls \<noteq> [] \<Longrightarrow> (\<And>l. l \<in> set ls \<Longrightarrow> d \<notin> set l) \<Longrightarrow> split_on d (join [d] ls) = ls"
proof (induction ls)
  case (Cons l ls)
  then show ?case by (cases "ls = []") (auto simp: join_Cons split_on_no_sep split_on_append)
qed simp

section \<open>Stripping\<close>

lemma rstrip_prefix: "prefix (rstrip s) s"
  unfolding rstrip_def by (metis suffix_dropWhile suffix_to_prefix rev_rev_ident)

lemma rstrip_idem [simp]: "rstrip (rstrip s) = rstrip s"
  unfolding rstrip_def by (simp add: dropWhile_idem)

lemma rstrip_Nil: "rstrip s = [] \<longleftrightarrow> list_all py_space s"
  by (auto simp: rstrip_def list_all_iff)

lemma lstrip_Nil: "lstrip s = [] \<longleftrightarrow> list_all py_space s"
  by (auto simp: lstrip_def list_all_iff)

lemma strip_Nil: "strip s = [] \<longleftrightarrow> list_all py_space s"
proof -
  have "list_all py_space (dropWhile py_space s) \<longleftrightarrow> list_all py_space s" by (induction s) auto
  then show ?thesis by (simp add: strip_def lstrip_def rstrip_Nil)
qed

end
