(* ===== verification/EmitBase.thy ===== *)
theory EmitBase
  imports SynParserProps PyText
begin

text \<open>
  The part of \<open>synqtc/emit.py\<close> both sides of a link share, and the \<open>.rep\<close> output. An emitter
  that lowers a type may raise, through \<open>cpp_type\<close>, so it returns a result; one that lowers none
  returns its text. The lines an emitter collects in \<open>lines\<close> are the pieces it adds, in order.
\<close>

section \<open>Small helpers\<close>

text \<open>The lines an emitter adds for each element of a list, and what it returns from them.\<close>

definition flatmapr :: "('a \<Rightarrow> 'e + 'b list) \<Rightarrow> 'a list \<Rightarrow> 'e + 'b list" where
  "flatmapr f xs = bindr (mapr f xs) (\<lambda>yss. Inr (concat yss))"

definition join_lines :: "('e + string list) list \<Rightarrow> 'e + string" where
  "join_lines pieces = bindr (concatr pieces) (\<lambda>ls. Inr (join nl ls))"

definition only_if :: "bool \<Rightarrow> 'a list \<Rightarrow> 'a list" where
  "only_if b xs = (if b then xs else [])"

lemma is_ok_flatmapr [simp]: "is_ok (flatmapr f xs) \<longleftrightarrow> (\<forall>x \<in> set xs. is_ok (f x))"
  by (simp add: flatmapr_def is_ok_bindr)

lemma is_ok_join_lines [simp]: "is_ok (join_lines ps) \<longleftrightarrow> (\<forall>p \<in> set ps. is_ok p)"
  by (simp add: join_lines_def is_ok_bindr)

definition SPDX_CPP :: string where
  \<open>SPDX_CPP =
     join nl
      [''// SPDX-FileCopyrightText: 2026 Alexandre 'kidev' Poumaroux'',
       ''// SPDX-License-Identifier: Apache-2.0'',
       ''// Generated by synqtc from a .syn contract. Do not edit.'',
       []]\<close>

definition SESSION_PARAM :: string where
  "SESSION_PARAM = ''QVariantMap synqtSession''"

definition SESSION_ARG :: string where
  "SESSION_ARG = ''synqtSession''"

definition cap :: "string \<Rightarrow> string" where
  "cap name = map to_upper (take 1 name) @ drop 1 name"

definition gate_literal :: "string list \<Rightarrow> string" where
  \<open>gate_literal scopes =
     ''QStringList{'' @ join '', '' (map (\<lambda>name. ''QStringLiteral("'' @ name @ ''")'') scopes) @ ''}''\<close>

definition is_gated :: "contract \<Rightarrow> bool" where
  "is_gated contract \<longleftrightarrow> list_ex (\<lambda>m. member_scope m \<noteq> []) (members contract)"

definition gated_props :: "contract \<Rightarrow> syn_prop list" where
  "gated_props contract = filter (\<lambda>p. prop_scope p \<noteq> []) (props contract)"

definition param_decl :: "string list \<Rightarrow> string \<Rightarrow> param \<Rightarrow> string res" where
  "param_decl rs path p =
     bindr (cpp_type (par_type p) rs path (par_line p) (par_col p)) (\<lambda>c. Inr (c @ '' '' @ par_name p))"

definition slot_params_text :: "syn_file \<Rightarrow> syn_slot \<Rightarrow> string list \<Rightarrow> string \<Rightarrow> string res" where
  "slot_params_text syn slot rs path =
     bindr (mapr (param_decl rs path) (slot_params slot)) (\<lambda>declared.
       Inr (join '', '' (if forwards_session syn then SESSION_PARAM # declared else declared)))"

definition slot_args :: "syn_file \<Rightarrow> syn_slot \<Rightarrow> string" where
  "slot_args syn slot =
     (let passed = map par_name (slot_params slot) in
      join '', '' (if forwards_session syn then SESSION_ARG # passed else passed))"

definition param_list :: "param list \<Rightarrow> string list \<Rightarrow> string \<Rightarrow> string res" where
  "param_list params rs path =
     bindr (mapr (param_decl rs path) params) (\<lambda>declared. Inr (join '', '' declared))"

section \<open>Bounds\<close>

definition TYPE_INCLUDES :: "(string \<times> string) list" where
  "TYPE_INCLUDES =
     [(''date'', ''QDateTime''), (''list'', ''QVariantList''), (''string'', ''QString''),
      (''url'', ''QUrl''), (''var'', ''QVariant''), (''variant'', ''QVariant'')]"

definition bound_guard ::
    "string \<Rightarrow> string \<Rightarrow> string \<Rightarrow> string \<Rightarrow> string list \<Rightarrow> string \<Rightarrow> string list" where
  \<open>bound_guard spelling value loc field refuse indent =
     (case (bound_of spelling, measure_of spelling value) of
        (Some bound, Some sz) \<Rightarrow>
          (let unit = unit_of spelling in
           map (\<lambda>line. indent @ line)
             ([''const qsizetype '' @ field @ ''Size{'' @ sz @ ''};'',
               ''if ('' @ field @ ''Size > '' @ dec bound @ '') {'',
               ''    qWarning("%s: '%s' is declared %s and the value is %lld '' @ unit @ ''; refused",'',
               ''             "'' @ loc @ ''", "'' @ field @ ''", "'' @ spelling @ ''", static_cast<long long>('' @ field @ ''Size));'']
              @ map (\<lambda>line. ''    '' @ line) refuse @ [''}'']))
      | _ \<Rightarrow> [])\<close>

definition written_types :: "syn_file \<Rightarrow> string list" where
  "written_types syn =
     concat (map (\<lambda>r. map par_type (record_fields r)) (records syn))
     @ concat (map (\<lambda>c.
         map prop_type (props c)
         @ concat (map (\<lambda>m. map role_type (model_roles m)) (models c))
         @ concat (map (\<lambda>s. map par_type (signal_params s)) (signals c))
         @ concat (map (\<lambda>s. map par_type (slot_params s)
             @ (case slot_return_type s of None \<Rightarrow> [] | Some r \<Rightarrow> [r])) (slots c))) (contracts syn))"

definition type_includes :: "syn_file \<Rightarrow> string list" where
  "type_includes syn =
     sort (remdups
       (List.map_filter (\<lambda>written. map_of TYPE_INCLUDES (base_of written)) (written_types syn)
        @ only_if (forwards_session syn \<and> list_ex (\<lambda>c. slots c \<noteq> []) (contracts syn)) [''QVariantMap'']))"

definition bounds_a_var :: "syn_file \<Rightarrow> bool" where
  "bounds_a_var syn \<longleftrightarrow>
     list_ex (\<lambda>written. is_generic written \<and> bound_of written \<noteq> None) (written_types syn)"

definition has_models :: "syn_file \<Rightarrow> bool" where
  "has_models syn \<longleftrightarrow> list_ex (\<lambda>c. models c \<noteq> []) (contracts syn)"

definition has_slots :: "syn_file \<Rightarrow> bool" where
  "has_slots syn \<longleftrightarrow> list_ex (\<lambda>c. slots c \<noteq> []) (contracts syn)"

definition bounded_props :: "contract \<Rightarrow> syn_prop list" where
  "bounded_props contract = filter (\<lambda>p. bound_of (prop_type p) \<noteq> None) (props contract)"

definition intercepted_props :: "contract \<Rightarrow> syn_prop list" where
  "intercepted_props contract =
     filter (\<lambda>p. bound_of (prop_type p) \<noteq> None \<or> prop_scope p \<noteq> []) (props contract)"

section \<open>The rep file\<close>

fun lower_member :: "syn_file \<Rightarrow> string list \<Rightarrow> string \<Rightarrow> member \<Rightarrow> string res" where
  "lower_member syn rs path (Model m) =
     Inr (''MODEL '' @ model_name m @ ''('' @ join '', '' (map role_name (model_roles m)) @ '')'')"
| "lower_member syn rs path (Signal s) =
     bindr (param_list (signal_params s) rs path) (\<lambda>params.
       Inr (''SIGNAL('' @ signal_name s @ ''('' @ params @ ''))''))"
| "lower_member syn rs path (Slot s) =
     bindr (slot_params_text syn s rs path) (\<lambda>params.
       case slot_return_type s of
         None \<Rightarrow> Inr (''SLOT(void '' @ slot_name s @ ''('' @ params @ ''))'')
       | Some r \<Rightarrow>
           bindr (cpp_type r rs path (slot_line s) (slot_col s)) (\<lambda>ret.
             Inr (''SLOT('' @ ret @ '' '' @ slot_name s @ ''('' @ params @ ''))'')))"
| "lower_member syn rs path (Prop p) =
     bindr (cpp_type (prop_type p) rs path (prop_line p) (prop_col p)) (\<lambda>ctype.
       Inr (''PROP('' @ ctype @ '' '' @ prop_name p @ '' READPUSH)''))"

definition rep_record :: "string list \<Rightarrow> string \<Rightarrow> syn_record \<Rightarrow> string list res" where
  "rep_record rs path r =
     bindr (param_list (record_fields r) rs path) (\<lambda>fs.
       Inr [''POD '' @ record_name r @ ''('' @ fs @ '')''])"

definition rep_contract :: "syn_file \<Rightarrow> string list \<Rightarrow> string \<Rightarrow> contract \<Rightarrow> string list res" where
  "rep_contract syn rs path contract =
     concatr
       [Inr [''class '' @ contract_name contract, ''{''],
        mapr (\<lambda>m. bindr (lower_member syn rs path m) (\<lambda>l. Inr (''    '' @ l))) (members contract),
        Inr [''}'', []]]"

definition syn_path :: "syn_file \<Rightarrow> string" where
  "syn_path syn = stem syn @ ''.syn''"

definition emit_rep :: "syn_file \<Rightarrow> string res" where
  "emit_rep syn =
     (let rs = record_names syn; path = syn_path syn; includes = type_includes syn in
      bindr (concatr
        [Inr [rstrip_chars nl SPDX_CPP, []],
         Inr (only_if (includes \<noteq> []) (map (\<lambda>header. ''#include <'' @ header @ ''>'') includes @ [[]])),
         flatmapr (rep_record rs path) (records syn),
         Inr (only_if (records syn \<noteq> []) [[]]),
         flatmapr (rep_contract syn rs path) (contracts syn)])
      (\<lambda>ls. Inr (rstrip_chars nl (join nl ls) @ nl)))"

end
