(* ===== verification/EmitText.thy ===== *)
theory EmitText
  imports EmitBase
begin

text \<open>
  The fixed C++ text of \<open>synqtc/emit.py\<close>: the module constants the source emitters paste into
  a generated file, each as the lines it is written with.
\<close>

definition MODULE_IMPORTS_INCLUDE :: string where
  \<open>MODULE_IMPORTS_INCLUDE =
     join nl
      [''// Present whenever a runtime is linked, absent for a contract-only target, which has no'',
       ''// engine to make the re-export mean anything; the call below is guarded the same way.'',
       ''#if __has_include(<moduleimports.h>)'',
       ''#  include <moduleimports.h>'',
       ''#  define SYNQT_HAS_MODULE_IMPORTS 1'',
       ''#endif'']\<close>

definition MODULE_IMPORTS_CALL :: string where
  \<open>MODULE_IMPORTS_CALL =
     join nl
      [''#ifdef SYNQT_HAS_MODULE_IMPORTS'',
       ''    // Registering a contract is what makes `import SynQt` enough: it brings QtQuick with it,'',
       ''    // so the QML registered just below can hold a Timer without a second import line.'',
       ''    SynQt::registerModuleImports();'',
       ''#endif'']\<close>

definition ACTING_FOR_SHIM :: string where
  \<open>ACTING_FOR_SHIM =
     join nl
      [''// A slot names the Caller it is answering for as long as it runs, so that a call the'',
       ''// owner's implementation makes on to another entity carries the same person. That lives in'',
       ''// the consumer runtime, which a contract-only target does not link and has nothing to call'',
       ''// out to either, so there it is a name that does nothing.'',
       ''#if __has_include(<actingfor.h>)'',
       ''#  include <actingfor.h>'',
       ''using SynqtActingFor = SynQt::ActingFor;'',
       ''namespace {'',
       ''QVariantMap synqtActingForSession() { return SynQt::ActingFor::current(); }'',
       ''} // namespace'',
       ''#else'',
       ''namespace {'',
       ''struct SynqtActingFor'',
       ''{'',
       ''    explicit SynqtActingFor(QObject *) {}'',
       ''    ~SynqtActingFor() = default;'',
       ''};'',
       ''QVariantMap synqtActingForSession() { return QVariantMap{}; }'',
       ''} // namespace'',
       ''#endif'',
       []]\<close>

definition CALL_SPAN_SHIM :: string where
  \<open>CALL_SPAN_SHIM =
     join nl
      [''// Every slot call crossing a link is timed and recorded, however it leaves: refused by a'',
       ''// scope gate, refused by a bound on an argument, forwarded to the entity behind a front,'',
       ''// or answered by the owner's own QML. The record is closed by the destructor rather than'',
       ''// by a line before each return, so a return added here later stays traced.'',
       ''//'',
       ''// It records the shape of the call and never its arguments, which are what a person'',
       ''// typed. The whole thing lives in the service runtime; a contract-only target links no'',
       ''// runtime, has nothing to record to, and compiles the same slot bodies against a span'',
       ''// that does nothing at all.'',
       ''#if __has_include(<callspan.h>)'',
       ''#  include <callspan.h>'',
       ''using SynqtCallSpan = SynQt::CallSpan;'',
       ''#else'',
       ''namespace {'',
       ''class SynqtCallSpan'',
       ''{'',
       ''public:'',
       ''    SynqtCallSpan(const char *, const char *, QObject *, int) {}'',
       ''    ~SynqtCallSpan() {}'',
       ''    void refuse(const char *) {}'',
       ''    void fail(const char *) {}'',
       ''};'',
       ''} // namespace'',
       ''#endif'',
       []]\<close>

definition VARIANT_BYTES_HELPER :: string where
  \<open>VARIANT_BYTES_HELPER =
     join nl
      [''namespace {'',
       ''// What a var costs on the wire. `var[n]` bounds a value whose type says nothing about how'',
       ''// big it is, so the only measure that means anything is what it serializes to, and that is'',
       ''// measured rather than estimated.'',
       ''qsizetype synqtVariantBytes(const QVariant &value)'',
       ''{'',
       ''    QByteArray buffer;'',
       ''    QDataStream stream{&buffer, QIODevice::WriteOnly};'',
       ''    stream << value;'',
       ''    return buffer.size();'',
       ''}'',
       ''} // namespace'',
       []]\<close>

definition SLOT_DISPATCH_HELPER :: string where
  \<open>SLOT_DISPATCH_HELPER =
     join nl
      [''namespace {'',
       ''// Dispatch a consumer's slot call to the owner's QML implementation. A QML `function`'',
       ''// with the slot's name is added to the object's meta-object beyond the generated'',
       ''// helper's own C++ methods (cppMethodCount); if one exists, this returns its index so'',
       ''// the slot can invoke it. Returns -1 when the owner did not implement the slot in QML,'',
       ''// in which case the slot is a no-op (or returns a default), never recursing into itself.'',
       ''int synqtQmlSlotIndex(const QObject *object, const char *name, int paramCount,'',
       ''                      int cppMethodCount)'',
       ''{'',
       ''    const QMetaObject *metaObject{object->metaObject()};'',
       ''    for (int index{metaObject->methodCount() - 1}; index >= cppMethodCount; --index) {'',
       ''        const QMetaMethod method{metaObject->method(index)};'',
       ''        if (method.name() == name && method.parameterCount() == paramCount) {'',
       ''            return index;'',
       ''        }'',
       ''    }'',
       ''    return -1;'',
       ''}'',
       ''} // namespace'',
       []]\<close>

definition RELAY_INTRO :: string where
  \<open>RELAY_INTRO =
     join nl
      [''namespace {'',
       ''// Wiring for a front: a web edge that owns a point it does not implement and hands each'',
       ''// caller to the entity serving their scope. The Source the browser acquires is this'',
       ''// helper, and what answers it is a Replica of a different contract, so everything here'',
       ''// goes through the meta-object by name. That is also what keeps it free of any SynQt'',
       ''// header, the way the rest of this file is: a contract target linking no service runtime'',
       ''// still compiles.'',
       ''//'',
       ''// The check `synqt check` runs is what makes by-name safe: an entity behind a front'',
       ''// carries exactly the members the front offers its callers, no more and no fewer.'',
       ''QMetaMethod synqtMethodNamed(const QMetaObject *metaObject, const char *name,'',
       ''                             QMetaMethod::MethodType wanted)'',
       ''{'',
       ''    // Most derived first, so a Replica's own member wins over anything a base declares.'',
       ''    for (int index{metaObject->methodCount() - 1}; index >= 0; --index) {'',
       ''        const QMetaMethod method{metaObject->method(index)};'',
       ''        if (method.methodType() == wanted && method.name() == name) {'',
       ''            return method;'',
       ''        }'',
       ''    }'',
       ''    return QMetaMethod{};'',
       ''}'',
       []]\<close>

text \<open>\<open>s.split(sub)[0]\<close>: what comes before the first \<open>sub\<close>.\<close>

definition before_sub :: "string \<Rightarrow> string \<Rightarrow> string" where
  "before_sub p s = (case find_sub p s of None \<Rightarrow> s | Some n \<Rightarrow> take n s)"

definition RELAY_INTRO_ONLY :: string where
  "RELAY_INTRO_ONLY = before_sub ''QMetaMethod synqtMethodNamed'' RELAY_INTRO"

definition RELAY_FOLLOW_PROPERTY :: string where
  \<open>RELAY_FOLLOW_PROPERTY =
     join nl
      [[],
       ''// Follow `name` on `replica`, calling `slot` on `source` whenever it changes and once now,'',
       ''// so a Replica that already holds a value is not waited on for a second one.'',
       ''bool synqtFollowProperty(QObject *replica, QObject *source, const char *name,'',
       ''                         const char *slot)'',
       ''{'',
       ''    const int index{replica->metaObject()->indexOfProperty(name)};'',
       ''    const int slotIndex{source->metaObject()->indexOfSlot(slot)};'',
       ''    if (index < 0 || slotIndex < 0) {'',
       ''        return false;'',
       ''    }'',
       ''    const QMetaProperty property{replica->metaObject()->property(index)};'',
       ''    const QMetaMethod target{source->metaObject()->method(slotIndex)};'',
       ''    if (property.hasNotifySignal()) {'',
       ''        QObject::connect(replica, property.notifySignal(), source, target,'',
       ''                         Qt::UniqueConnection);'',
       ''    }'',
       ''    target.invoke(source, Qt::DirectConnection);'',
       ''    return true;'',
       ''}'',
       []]\<close>

definition RELAY_TAKES_SESSION :: string where
  \<open>RELAY_TAKES_SESSION =
     join nl
      [[],
       ''// Does the entity behind the front take the session on every call?'',
       ''//'',
       ''// A connect point a service consumes carries the session the calling entity is acting for,'',
       ''// as one parameter ahead of the declared ones, and a point only a browser consumes carries'',
       ''// nothing extra. Which of the two is behind a given front is a fact about how that point'',
       ''// was compiled, so it is read off the method rather than assumed: one parameter more than'',
       ''// the contract declares means the session is one of them.'',
       ''bool synqtTakesSession(const QObject *replica, const char *name, int declared)'',
       ''{'',
       ''    const QMetaMethod method{synqtMethodNamed(replica->metaObject(), name,'',
       ''                                              QMetaMethod::Slot)};'',
       ''    return method.isValid() && method.parameterCount() == declared + 1;'',
       ''}'',
       []]\<close>

definition RELAY_FOLLOW_SIGNAL :: string where
  \<open>RELAY_FOLLOW_SIGNAL =
     join nl
      [[],
       ''// Relay a signal the entity behind the front raises out to the caller, through the'',
       ''// helper's own emit<Signal>, so it passes the same bound checks and the same scope gate as'',
       ''// one the front raised itself.'',
       ''bool synqtFollowSignal(QObject *replica, QObject *source, const char *name, const char *slot)'',
       ''{'',
       ''    const QMetaMethod signal{synqtMethodNamed(replica->metaObject(), name,'',
       ''                                              QMetaMethod::Signal)};'',
       ''    const QMetaMethod target{synqtMethodNamed(source->metaObject(), slot,'',
       ''                                              QMetaMethod::Slot)};'',
       ''    if (!signal.isValid() || !target.isValid()) {'',
       ''        return false;'',
       ''    }'',
       ''    return static_cast<bool>(QObject::connect(replica, signal, source, target,'',
       ''                                              Qt::UniqueConnection));'',
       ''}'',
       []]\<close>

definition RELAY_ROWS :: string where
  \<open>RELAY_ROWS =
     join nl
      [[],
       ''// The rows a model replica is holding, in the shape a Source publishes. Read through the'',
       ''// model's own role names, which are the contract's declared roles and nothing else.'',
       ''QVariantList synqtRowsOf(const QAbstractItemModel *model)'',
       ''{'',
       ''    QVariantList rows;'',
       ''    if (!model) {'',
       ''        return rows;'',
       ''    }'',
       ''    const QHash<int, QByteArray> names{model->roleNames()};'',
       ''    const int count{model->rowCount()};'',
       ''    rows.reserve(count);'',
       ''    for (int row{0}; row < count; ++row) {'',
       ''        const QModelIndex at{model->index(row, 0)};'',
       ''        QVariantMap fields;'',
       ''        for (auto role{names.constBegin()}; role != names.constEnd(); ++role) {'',
       ''            fields.insert(QString::fromUtf8(role.value()), model->data(at, role.key()));'',
       ''        }'',
       ''        rows.append(fields);'',
       ''    }'',
       ''    return rows;'',
       ''}'',
       [],
       []]\<close>

definition RELAY_CLOSE :: string where
  "RELAY_CLOSE = ''} // namespace'' @ nl"

definition CONSUMER_RELAY_HELPER :: string where
  \<open>CONSUMER_RELAY_HELPER =
     join nl
      [''namespace {'',
       ''// Relay one signal to another by signature, tolerating a Replica that does not expose it'',
       ''// (a dynamic Replica has no model-changed property signal): connect only when both exist,'',
       ''// so nothing warns. Returns the connection so the facade can drop it on the next rebind.'',
       ''QMetaObject::Connection synqtRelay(QObject *from, const QByteArray &fromSignal,'',
       ''                                   QObject *to, const QByteArray &toSignal)'',
       ''{'',
       ''    const QMetaObject *fromMeta{from->metaObject()};'',
       ''    const QMetaObject *toMeta{to->metaObject()};'',
       ''    const int fromIndex{fromMeta->indexOfSignal('',
       ''        QMetaObject::normalizedSignature(fromSignal.constData()).constData())};'',
       ''    const int toIndex{toMeta->indexOfSignal('',
       ''        QMetaObject::normalizedSignature(toSignal.constData()).constData())};'',
       ''    if (fromIndex < 0 || toIndex < 0) {'',
       ''        return QMetaObject::Connection{};'',
       ''    }'',
       ''    return QObject::connect(from, fromMeta->method(fromIndex), to, toMeta->method(toIndex));'',
       ''}'',
       ''} // namespace'',
       []]\<close>

end
