(* ===== verification/EmitSource.thy ===== *)
theory EmitSource
  imports EmitText
begin

text \<open>
  The owner's side of \<open>synqtc/emit.py\<close>: the Source helper a connect point's server file derives
  from, its header and its implementation. A scope gate and a bound are checked in the code
  emitted here; each body that checks one is a list of lines of its own, so that what comes
  before what can be stated.
\<close>

definition slot_signature :: "syn_file \<Rightarrow> syn_slot \<Rightarrow> string list \<Rightarrow> string \<Rightarrow> string res" where
  "slot_signature syn slot rs path =
     bindr (slot_params_text syn slot rs path) (\<lambda>params.
       case slot_return_type slot of
         None \<Rightarrow> Inr (''void '' @ slot_name slot @ ''('' @ params @ '')'')
       | Some r \<Rightarrow>
           bindr (cpp_type r rs path (slot_line slot) (slot_col slot)) (\<lambda>ret.
             Inr (ret @ '' '' @ slot_name slot @ ''('' @ params @ '')'')))"

definition prop_cpp :: "string list \<Rightarrow> string \<Rightarrow> syn_prop \<Rightarrow> string res" where
  "prop_cpp rs path prop = cpp_type (prop_type prop) rs path (prop_line prop) (prop_col prop)"

section \<open>The header\<close>

definition caller_subclass :: "contract \<Rightarrow> string list \<Rightarrow> string \<Rightarrow> string res" where
  \<open>caller_subclass contract rs path =
     (let name = contract_name contract in
      join_lines
       [Inr [''// Typed Caller for '' @ name @ '': Caller.emit<Signal>(...) sugar over emitSignal.'',
             ''class '' @ name @ ''Caller : public SynQt::Caller'',
             ''{'',
             ''    Q_OBJECT'',
             [],
             ''public:'',
             ''    explicit '' @ name @ ''Caller(QObject *parent = nullptr) : SynQt::Caller{parent} {}'',
             []],
        flatmapr (\<lambda>signal.
          bindr (param_list (signal_params signal) rs path) (\<lambda>params.
            let variants = concat (map (\<lambda>p. '', QVariant::fromValue('' @ par_name p @ '')'')
                                       (signal_params signal)) in
            Inr [''    Q_INVOKABLE void emit'' @ cap (signal_name signal) @ ''('' @ params @ '')'',
                 ''    { emitSignal(QStringLiteral("'' @ signal_name signal @ ''")'' @ variants @ ''); }'']))
          (signals contract),
        Inr [''};'']])\<close>

definition class_head_lines :: "contract \<Rightarrow> string list" where
  \<open>class_head_lines contract =
     (let name = contract_name contract in
      [''// Owner-side helper: the QML type the connect point's server file derives'',
       ''// from (registered as "'' @ name @ ''", the contract's own name: the file is that'',
       ''// point's server, so its location already says which side of the link it is on,'',
       ''// and an entity never consumes a contract it owns, so the name is free here).'',
       ''// Props and signals are inherited from the generated Source. A model is published'',
       ''// either way round: bind <model>Rows to where the rows live, or call'',
       ''// set<Model>(rows) when something happens. Both keep only the declared roles,'',
       ''// dropping any undeclared owner-only field at the boundary.'',
       ''class '' @ name @ ''SourceHelper : public '' @ name @ ''SimpleSource'',
       ''{'',
       ''    Q_OBJECT'',
       ''    // A generated Source is not a visual item, so its default property is a plain'',
       ''    // QObject child list: this lets the owner's server file declare non-visual QML'',
       ''    // children (a Timer, an Instantiator, ...) inside the Source to drive itself.'',
       ''    Q_CLASSINFO("DefaultProperty", "data")'',
       ''    Q_PROPERTY(QQmlListProperty<QObject> data READ data DESIGNABLE false)'']
      @ only_if (models contract \<noteq> [])
          ([[]] @ concat (map (\<lambda>model.
             [''    Q_PROPERTY(QVariantList '' @ model_name model @ ''Rows READ '' @ model_name model @ ''Rows'',
              ''               WRITE set'' @ cap (model_name model) @ ''Rows NOTIFY '' @ model_name model @ ''RowsChanged)'']) (models contract)))
      @ [[],
         ''public:'',
         ''    explicit '' @ name @ ''SourceHelper(QObject *parent = nullptr);'',
         [],
         ''    QQmlListProperty<QObject> data();'',
         [],
         ''    // Shared entities. An entity that is shared answers everyone from one Source,'',
         ''    // and each caller reaches it through a mirror: the mirror is what that caller's'',
         ''    // links acquire, it republishes the shared Source's props, models and signals'',
         ''    // outward, and it forwards every slot back with that caller bound. Both calls'',
         ''    // are the runtime's, invoked by name so it needs none of these types.'',
         ''    Q_INVOKABLE void synqtSetCaller(QObject *caller);'',
         ''    Q_INVOKABLE void synqtMirror(QObject *shared);'',
         []]
      @ [''    // Fronts. A web edge may own a point it does not implement and hand each'',
         ''    // caller to the entity serving their scope; this Source is what the browser'',
         ''    // acquires, and `replica` is that entity. Everything it publishes is followed'',
         ''    // outward and every slot is forwarded back, so the caller sees one surface and'',
         ''    // never learns which of them answered. The runtime calls this by name.'',
         ''    Q_INVOKABLE void synqtRelay(QObject *replica);'',
         []]
      @ [''    // Scope gates. A member written `<admin> ...` in the contract reaches only'',
         ''    // a caller holding that scope, and the gate is on what crosses rather than'',
         ''    // on the shape: the member is still declared, so a Replica still matches by'',
         ''    // signature, and nothing about it is ever published or accepted for a caller'',
         ''    // without the scope. This instance gates by default, which is what a mirror'',
         ''    // and a per-caller Source both want; the one Source a shared entity answers'',
         ''    // everyone from holds the ungated truth its mirrors publish from, and the'',
         ''    // runtime says so by calling this.'',
         ''    Q_INVOKABLE void synqtHoldsSharedState();'',
         [],
         ''public Q_SLOTS:'',
         ''    // Publish every gated member again, now that this caller's scope has'',
         ''    // changed. What they may not see is withdrawn, not left where it was.'',
         ''    void synqtRegate();'',
         [],
         ''public:'',
         []])\<close>

definition class_slots_lines :: "contract \<Rightarrow> string list \<Rightarrow> string \<Rightarrow> string list res" where
  \<open>class_slots_lines contract rs path =
     (let name = contract_name contract;
          followed = map prop_name (props contract) @ map model_name (models contract) in
      concatr
       [Inr (only_if (followed \<noteq> [] \<or> signals contract \<noteq> []) [''public Q_SLOTS:'']),
        Inr (map (\<lambda>n. ''    void synqtPull'' @ cap n @ ''();'') followed),
        Inr (only_if (followed \<noteq> [] \<and> signals contract \<noteq> []) [[]]),
        Inr (only_if (signals contract \<noteq> []) [''    // Deliver a contract signal to the acquiring consumer(s). On a'',
                                                     ''    // one Source per caller the sole consumer is that caller, so'',
                                                     ''    // Caller.emitSignal("<Signal>", ...) routes here to answer one caller.'']),
        flatmapr (\<lambda>signal.
          bindr (param_list (signal_params signal) rs path) (\<lambda>params.
            Inr [''    void emit'' @ cap (signal_name signal) @ ''('' @ params @ '');''])) (signals contract),
        Inr (only_if (followed \<noteq> [] \<or> signals contract \<noteq> []) [[],
                                                                                ''public:'',
                                                                                []]),
        Inr (only_if (models contract \<noteq> [])
          (concat (map (\<lambda>model. [''    using '' @ name @ ''SimpleSource::set'' @ cap (model_name model) @ '';'']) (models contract))
           @ concat (map (\<lambda>model. [''    Q_INVOKABLE void set'' @ cap (model_name model) @ ''(const QVariantList &rows);'']) (models contract))
           @ [[]]
           @ concat (map (\<lambda>model. [''    QVariantList '' @ model_name model @ ''Rows() const { return m_'' @ model_name model @ ''Rows; }'',
                                           ''    void set'' @ cap (model_name model) @ ''Rows(const QVariantList &rows) { set'' @ cap (model_name model) @ ''(rows); }'']) (models contract))
           @ [[]]))])\<close>

definition class_tail_lines :: "syn_file \<Rightarrow> contract \<Rightarrow> string list \<Rightarrow> string \<Rightarrow> string list res" where
  \<open>class_tail_lines syn contract rs path =
     (let name = contract_name contract; bounded = intercepted_props contract in
      concatr
       [Inr (only_if (bounded \<noteq> []) [''    // Bounded and gated props. repc makes every setter virtual, so both'',
                                            ''    // are kept here: an assignment that breaks a bound is refused and'',
                                            ''    // named, and one the caller has no scope for is remembered but not'',
                                            ''    // published, so what the Source pushes is always inside the contract'',
                                            ''    // and always something this caller may see.'']),
        flatmapr (\<lambda>prop. bindr (prop_cpp rs path prop) (\<lambda>ctype.
          Inr [''    void set'' @ cap (prop_name prop) @ ''('' @ ctype @ '' '' @ prop_name prop @ '') override;''])) bounded,
        Inr (only_if (bounded \<noteq> []) [[]]),
        Inr (only_if (slots contract \<noteq> []) [''    // Consumer -> owner requests. Each dispatches to the owner's QML'',
                                                   ''    // implementation (a QML function of the same name); a slot the owner'',
                                                   ''    // did not implement is a no-op (or returns a default).'']),
        flatmapr (\<lambda>slot. bindr (slot_signature syn slot rs path) (\<lambda>sig.
          Inr [''    '' @ sig @ '' override;''])) (slots contract),
        Inr (only_if (slots contract \<noteq> []) [[]]),
        Inr (only_if (models contract \<noteq> [])
          ([''Q_SIGNALS:''] @ concat (map (\<lambda>model. [''    void '' @ model_name model @ ''RowsChanged();'']) (models contract)) @ [[]])),
        Inr [''private:'',
             ''    static void appendData(QQmlListProperty<QObject> *list, QObject *object);'',
             ''    // Make the shared Source's Caller be whoever is calling right now.'',
             ''    void synqtAdoptCaller(QObject *caller);''],
        Inr (only_if (is_gated contract) [''    // Does the caller this Source answers hold any of these scopes?'',
                                          ''    // False when there is no caller at all, so a gate fails closed.'',
                                          ''    bool synqtAllows(const QStringList &scopes) const;'']),
        Inr [[],
             ''    QList<QObject *> m_data;'',
             ''    QPointer<QObject> m_synqtCaller;'',
             ''    QPointer<'' @ name @ ''SourceHelper> m_synqtShared;'',
             ''    // The entity behind a front, when this Source is one caller's view of it.'',
             ''    QPointer<QObject> m_synqtRelay;''],
        Inr (only_if (slots contract \<noteq> []) [''    bool m_synqtRelayTakesSession{false};'']),
        Inr [''    bool m_synqtUngated{false};''],
        flatmapr (\<lambda>prop. bindr (prop_cpp rs path prop) (\<lambda>ctype.
          Inr [''    '' @ ctype @ '' m_synqt'' @ cap (prop_name prop) @ ''{};''])) (gated_props contract),
        Inr (concat (map (\<lambda>model. [''    SynQt::SourceModel m_'' @ model_name model @ ''Model;'',
                                           ''    QVariantList m_'' @ model_name model @ ''Rows;'']) (models contract))),
        Inr [''};'']])\<close>

definition source_helper_class :: "syn_file \<Rightarrow> contract \<Rightarrow> string list \<Rightarrow> string \<Rightarrow> string res" where
  "source_helper_class syn contract rs path =
     join_lines
       [Inr (class_head_lines contract),
        class_slots_lines contract rs path,
        class_tail_lines syn contract rs path]"

definition emit_source_helper_header :: "syn_file \<Rightarrow> string \<Rightarrow> string res" where
  \<open>emit_source_helper_header syn lstem =
     (let rs = record_names syn; path = syn_path syn in
      join_lines
       [Inr [SPDX_CPP,
             ''#pragma once'',
             [],
             ''#include "'' @ lstem @ ''_rep.h"'',
             [],
             ''#include <QList>'',
             ''#include <QObject>'',
             ''#include <QPointer>'',
             ''#include <QQmlListProperty>'',
             []],
        Inr (only_if (has_models syn) [''#include <sourcemodel.h>'',
                                       ''#include <QVariantList>'',
                                       []]),
        flatmapr (\<lambda>contract. bindr (source_helper_class syn contract rs path) (\<lambda>t. Inr [t, []]))
          (contracts syn),
        bindr (mapr (\<lambda>contract. caller_subclass contract rs path)
                 (filter (\<lambda>contract. signals contract \<noteq> []) (contracts syn)))
          (\<lambda>caller_subclasses.
             Inr (only_if (caller_subclasses \<noteq> [])
               ([''#if __has_include(<caller.h>)'',
                 ''#  include <caller.h>'',
                 [],
                 ''#  include <QVariant>'',
                 []]
                @ caller_subclasses @ [''#endif'',
                                       []]))),
        Inr [''void synqtRegister'' @ cap (stem syn) @ ''Sources();'',
             []]])\<close>

section \<open>Mirrors, relays and gates\<close>

definition mirror_impl :: "contract \<Rightarrow> string" where
  \<open>mirror_impl contract =
     (let name = contract_name contract; helper = name @ ''SourceHelper''; gated = is_gated contract in
      join nl
       ([''void '' @ helper @ ''::synqtSetCaller(QObject *caller)'',
         ''{'',
         ''    m_synqtCaller = caller;'']
        @ only_if gated
           [''    if (caller) {'',
            ''        // A scope this caller gains or loses changes what they may see, so the'',
            ''        // gated members are published again when it moves. String-based, like'',
            ''        // everything else this reaches on the Caller, so no runtime type is'',
            ''        // needed here. Unique, because binding a caller twice is allowed.'',
            ''        connect(caller, SIGNAL(scopeChanged()), this, SLOT(synqtRegate()),'',
            ''                Qt::UniqueConnection);'',
            ''    }'',
            ''    // What the owner assigned before there was a caller to weigh it against was'',
            ''    // held back; now there is one.'',
            ''    synqtRegate();'']
        @ [''}'',
           [],
           ''void '' @ helper @ ''::synqtAdoptCaller(QObject *caller)'',
           ''{'',
           ''    // By name, so a contract target that links no service runtime still compiles:'',
           ''    // SynQt::Caller::adopt takes this caller's identity and the mirror it answers'',
           ''    // through, which is what makes one shared Source able to tell its callers apart.'',
           ''    if (m_synqtCaller && caller && m_synqtCaller != caller) {'',
           ''        QMetaObject::invokeMethod(m_synqtCaller.data(), "adopt", Qt::DirectConnection,'',
           ''                                  Q_ARG(QObject *, caller));'',
           ''    }'',
           ''}'',
           [],
           ''void '' @ helper @ ''::synqtMirror(QObject *shared)'',
           ''{'',
           ''    '' @ helper @ '' *source{qobject_cast<'' @ helper @ '' *>(shared)};'',
           ''    if (!source || source == this) {'',
           ''        return;'',
           ''    }'',
           ''    m_synqtShared = source;'']
        @ only_if (props contract \<noteq> [])
           ([[],
             ''    // Pushed state: taken as it stands, then followed.'']
            @ concat (map (\<lambda>prop. let capn = cap (prop_name prop) in
                [''    set'' @ capn @ ''(source->'' @ prop_name prop @ ''());'',
                 ''    connect(source, &'' @ name @ ''Source::'' @ prop_name prop @ ''Changed, this,'',
                 ''            &'' @ name @ ''SimpleSource::set'' @ capn @ '');'']) (props contract)))
        @ only_if (models contract \<noteq> [])
           ([[],
             ''    // Rows: republished from the shared Source's last publish, which'',
             ''    // already dropped everything the contract does not declare.'']
            @ concat (map (\<lambda>model. let capn = cap (model_name model) in
                [''    set'' @ capn @ ''(source->'' @ model_name model @ ''Rows());'',
                 ''    connect(source, &'' @ helper @ ''::'' @ model_name model @ ''RowsChanged, this,'',
                 ''            [this, source]() { set'' @ capn @ ''(source->'' @ model_name model @ ''Rows()); });'']) (models contract)))
        @ only_if (signals contract \<noteq> [])
           ([[],
             ''    // A signal the shared Source raises is everyone's, so every mirror'',
             ''    // raises it too. One addressed to a single caller is emitted on that'',
             ''    // caller's mirror instead and never comes through here.'',
             ''    // Relayed into emit<Signal> rather than straight out, so a broadcast'',
             ''    // passes the same bound checks and the same scope gate as one sent'',
             ''    // to a single caller.'']
            @ concat (map (\<lambda>signal.
                [''    connect(source, &'' @ name @ ''Source::'' @ signal_name signal @ '', this,'',
                 ''            &'' @ helper @ ''::emit'' @ cap (signal_name signal) @ '');'']) (signals contract)))
        @ [''}'']))\<close>

definition relay_model_lines :: "string \<Rightarrow> syn_model \<Rightarrow> string list" where
  \<open>relay_model_lines helper model =
     (let capn = cap (model_name model) in
      [[],
       ''void '' @ helper @ ''::synqtPull'' @ capn @ ''()'',
       ''{'',
       ''    if (!m_synqtRelay) {'',
       ''        return;'',
       ''    }'',
       ''    QAbstractItemModel *rows{'',
       ''        m_synqtRelay->property("'' @ model_name model @ ''").value<QAbstractItemModel *>()};'',
       ''    if (!rows) {'',
       ''        set'' @ capn @ ''(QVariantList{});'',
       ''        return;'',
       ''    }'',
       ''    // The property changes once, when the Replica initializes; everything after'',
       ''    // that is the model's own doing, so this follows the model directly. Unique,'',
       ''    // because this runs again on every one of those changes.'']
      @ concat (map (\<lambda>signal.
          [''    connect(rows, &QAbstractItemModel::'' @ signal @ '', this,'',
           ''            &'' @ helper @ ''::synqtPull'' @ capn @ '', Qt::UniqueConnection);''])
          [''modelReset'', ''rowsInserted'', ''rowsRemoved'', ''rowsMoved'', ''dataChanged'', ''layoutChanged''])
      @ [''    set'' @ capn @ ''(synqtRowsOf(rows));'',
         ''}''])\<close>

definition relay_impl :: "contract \<Rightarrow> string list \<Rightarrow> string \<Rightarrow> string res" where
  \<open>relay_impl contract rs path =
     (let name = contract_name contract; helper = name @ ''SourceHelper'' in
      join_lines
       [Inr [''void '' @ helper @ ''::synqtRelay(QObject *replica)'',
             ''{'',
             ''    if (m_synqtRelay && m_synqtRelay != replica) {'',
             ''        // Let go of the entity this was relaying to before following another. A'',
             ''        // front is re-pointed when the caller's scope moves to a tier another'',
             ''        // entity serves, and when the mesh link to the same entity comes back with'',
             ''        // a fresh Replica; a follow left on the old one would go on republishing'',
             ''        // what a caller is no longer entitled to, or nothing at all.'',
             ''        QObject::disconnect(m_synqtRelay.data(), nullptr, this, nullptr);''],
        Inr (concat (map (\<lambda>model.
          [''        if (QAbstractItemModel *rows{'',
           ''                m_synqtRelay->property("'' @ model_name model @ ''").value<QAbstractItemModel *>()}) {'',
           ''            QObject::disconnect(rows, nullptr, this, nullptr);'',
           ''        }'']) (models contract))),
        Inr [''    }'',
             ''    m_synqtRelay = replica;'',
             ''    if (!replica) {'',
             ''        return;'',
             ''    }''],
        Inr (concat (map (\<lambda>prop.
          [''    synqtFollowProperty(replica, this, "'' @ prop_name prop @ ''",'',
           ''                        "synqtPull'' @ cap (prop_name prop) @ ''()");'']) (props contract))),
        Inr (concat (map (\<lambda>model.
          [''    synqtFollowProperty(replica, this, "'' @ model_name model @ ''",'',
           ''                        "synqtPull'' @ cap (model_name model) @ ''()");'']) (models contract))),
        Inr (concat (map (\<lambda>signal.
          [''    synqtFollowSignal(replica, this, "'' @ signal_name signal @ ''",'',
           ''                      "emit'' @ cap (signal_name signal) @ ''");'']) (signals contract))),
        Inr (case slots contract of
               [] \<Rightarrow> []
             | first # rest \<Rightarrow>
                 [''    // A contract carries the session on every slot or on none, so one'',
                  ''    // answers for all of them.'',
                  ''    m_synqtRelayTakesSession = synqtTakesSession(replica, "'' @ slot_name first @ ''",'',
                  ''                                                '' @ dec (length (slot_params first)) @ '');'']),
        Inr [''}''],
        flatmapr (\<lambda>prop. bindr (prop_cpp rs path prop) (\<lambda>ctype.
          Inr [[],
               ''void '' @ helper @ ''::synqtPull'' @ cap (prop_name prop) @ ''()'',
               ''{'',
               ''    if (!m_synqtRelay) {'',
               ''        return;'',
               ''    }'',
               ''    set'' @ cap (prop_name prop) @ ''(qvariant_cast<'' @ ctype @ ''>('',
               ''        m_synqtRelay->property("'' @ prop_name prop @ ''")));'',
               ''}''])) (props contract),
        Inr (concat (map (relay_model_lines helper) (models contract)))])\<close>

definition gate_impl :: "contract \<Rightarrow> string" where
  \<open>gate_impl contract =
     (let name = contract_name contract; helper = name @ ''SourceHelper'';
          body = map (\<lambda>prop. ''    set'' @ cap (prop_name prop) @ ''(m_synqt'' @ cap (prop_name prop) @ '');'')
                   (gated_props contract)
                 @ concat (map (\<lambda>model. only_if (model_scope model \<noteq> [])
                     [''    set'' @ cap (model_name model) @ ''(m_'' @ model_name model @ ''Rows);'']) (models contract)) in
      join nl
       (only_if (is_gated contract)
          [''bool '' @ helper @ ''::synqtAllows(const QStringList &scopes) const'',
           ''{'',
           ''    if (m_synqtUngated || scopes.isEmpty()) {'',
           ''        return true;'',
           ''    }'',
           ''    if (m_synqtCaller.isNull()) {'',
           ''        return false;'',
           ''    }'',
           ''    for (const QString &scope : scopes) {'',
           ''        bool granted{false};'',
           ''        QMetaObject::invokeMethod(m_synqtCaller.data(), "hasScope",'',
           ''                                  Qt::DirectConnection, Q_RETURN_ARG(bool, granted),'',
           ''                                  Q_ARG(QString, scope));'',
           ''        if (granted) {'',
           ''            return true;'',
           ''        }'',
           ''    }'',
           ''    return false;'',
           ''}'',
           []]
        @ [''void '' @ helper @ ''::synqtHoldsSharedState()'',
           ''{'',
           ''    // The one Source a shared entity answers everyone from. It holds every value'',
           ''    // for every caller, and the mirrors are where each caller's gate is applied.'',
           ''    m_synqtUngated = true;'',
           ''    synqtRegate();'',
           ''}'',
           [],
           ''void '' @ helper @ ''::synqtRegate()'',
           ''{'']
        @ (if body = [] then [[]] else body)
        @ [''}'']))\<close>

section \<open>The guarded bodies\<close>

definition bounded_prop_lines :: "string \<Rightarrow> syn_prop \<Rightarrow> string \<Rightarrow> string list" where
  \<open>bounded_prop_lines class_name prop ctype =
     (let loc = class_name @ ''.'' @ prop_name prop; gate = prop_scope prop in
      bound_guard (prop_type prop) (prop_name prop) loc (prop_name prop) [''return;''] ''    ''
      @ only_if (gate \<noteq> [])
         [''    m_synqt'' @ cap (prop_name prop) @ '' = '' @ prop_name prop @ '';'',
          ''    if (!synqtAllows('' @ gate_literal gate @ '')) {'',
          ''        '' @ class_name @ ''SimpleSource::set'' @ cap (prop_name prop) @ ''('' @ ctype @ ''{});'',
          ''        return;'',
          ''    }'']
      @ [''    '' @ class_name @ ''SimpleSource::set'' @ cap (prop_name prop) @ ''('' @ prop_name prop @ '');''])\<close>

definition bounded_prop_impl :: "string \<Rightarrow> syn_prop \<Rightarrow> string list \<Rightarrow> string \<Rightarrow> string res" where
  "bounded_prop_impl class_name prop rs path =
     bindr (prop_cpp rs path prop) (\<lambda>ctype.
       Inr (''void '' @ class_name @ ''SourceHelper::set'' @ cap (prop_name prop) @ ''('' @ ctype @ '' ''
            @ prop_name prop @ '')'' @ nl @ ''{'' @ nl @ join nl (bounded_prop_lines class_name prop ctype)
            @ nl @ ''}''))"

definition emit_signal_lines :: "string \<Rightarrow> syn_signal \<Rightarrow> string list" where
  \<open>emit_signal_lines class_name signal =
     (let args = join '', '' (map par_name (signal_params signal));
          loc = class_name @ ''.'' @ signal_name signal; gate = signal_scope signal in
      only_if (gate \<noteq> [])
        [''    if (!synqtAllows('' @ gate_literal gate @ '')) {'',
         ''        return;'',
         ''    }'']
      @ concat (map (\<lambda>param. bound_guard (par_type param) (par_name param) loc (par_name param)
                        [''return;''] ''    '') (signal_params signal))
      @ [''    Q_EMIT '' @ signal_name signal @ ''('' @ args @ '');''])\<close>

definition emit_signal_impl :: "string \<Rightarrow> syn_signal \<Rightarrow> string list \<Rightarrow> string \<Rightarrow> string res" where
  "emit_signal_impl class_name signal rs path =
     bindr (param_list (signal_params signal) rs path) (\<lambda>params.
       Inr (join nl [''void '' @ class_name @ ''SourceHelper::emit'' @ cap (signal_name signal) @ ''('' @ params @ '')'',
                     ''{'', join nl (emit_signal_lines class_name signal), ''}'']))"

definition role_conversion ::
    "string \<Rightarrow> syn_model \<Rightarrow> role \<Rightarrow> nat \<Rightarrow> string list \<Rightarrow> string \<Rightarrow> string list res" where
  \<open>role_conversion class_name model role index rs path =
     (let key = ''QStringLiteral("'' @ role_name role @ ''")'';
          loc = class_name @ ''.'' @ model_name model;
          refuse = [''qDeleteAll(items);'', ''return;''] in
      if is_generic (role_type role) then
        Inr ([''        // '' @ role_name role @ '': declared '' @ role_type role @ '', so whatever arrives is what crosses.'',
              ''        const QVariant '' @ role_name role @ ''Value{row.value('' @ key @ '')};'']
             @ bound_guard (role_type role) (role_name role @ ''Value'') loc (role_name role) refuse
                 (replicate 8 (CHR '' ''))
             @ [''        item->setData('' @ role_name role @ ''Value, Qt::UserRole + '' @ dec index @ '');''])
      else
        bindr (cpp_type (role_type role) rs path (role_line role) (role_col role)) (\<lambda>ctype.
          Inr ([''        // '' @ role_name role @ '': declared '' @ role_type role @ ''.'',
                ''        QVariant '' @ role_name role @ ''Value{row.value('' @ key @ '')};'',
                ''        if (!'' @ role_name role @ ''Value.isValid()) {'',
                ''            '' @ role_name role @ ''Value = QVariant{QMetaType::fromType<'' @ ctype @ ''>()};'',
                ''        } else {'']
               @ [''            if (!'' @ role_name role @ ''Value.convert(QMetaType::fromType<'' @ ctype @ ''>())) {'',
                  ''                qWarning("%s row %lld: role '%s' is declared %s and a %s does not "'',
                  ''                         "convert to it; the publish is refused",'',
                  ''                         "'' @ loc @ ''", static_cast<long long>(rowIndex), "'' @ role_name role @ ''", "'' @ role_type role @ ''",'',
                  ''                         row.value('' @ key @ '').typeName());'',
                  ''                qDeleteAll(items);'',
                  ''                return;'',
                  ''            }'']
               @ bound_guard (role_type role) (''qvariant_cast<'' @ ctype @ ''>('' @ role_name role @ ''Value)'') loc
                   (role_name role) refuse (replicate 12 (CHR '' ''))
               @ [''        }'',
                  ''        item->setData('' @ role_name role @ ''Value, Qt::UserRole + '' @ dec index @ '');''])))\<close>

definition set_model_head :: "string \<Rightarrow> syn_model \<Rightarrow> string list" where
  \<open>set_model_head class_name model =
     (let role_array = join '', '' (map (\<lambda>role. ''QByteArrayLiteral("'' @ role_name role @ ''")'') (model_roles model));
          gate = model_scope model in
      [''void '' @ class_name @ ''SourceHelper::set'' @ cap (model_name model) @ ''(const QVariantList &rows)'',
       ''{'',
       ''    static const QList<QByteArray> declaredRoles{'' @ role_array @ ''};'']
      @ only_if (gate \<noteq> [])
         [''    m_'' @ model_name model @ ''Rows = rows;'',
          ''    if (!synqtAllows('' @ gate_literal gate @ '')) {'',
          ''        m_'' @ model_name model @ ''Model.clear();'',
          ''        '' @ class_name @ ''SimpleSource::set'' @ cap (model_name model) @ ''(&m_'' @ model_name model @ ''Model);'',
          ''        Q_EMIT '' @ model_name model @ ''RowsChanged();'',
          ''        return;'',
          ''    }''])\<close>

definition set_model_impl :: "string \<Rightarrow> syn_model \<Rightarrow> string list \<Rightarrow> string \<Rightarrow> string res" where
  \<open>set_model_impl class_name model rs path =
     join_lines
       [Inr (set_model_head class_name model),
        Inr [''    // Built first and committed at the end: a row that does not match the'',
             ''    // contract refuses the whole publish, rather than leaving half of one.'',
             ''    QList<QStandardItem *> items;'',
             ''    items.reserve(rows.size());'',
             ''    for (qsizetype rowIndex{0}; rowIndex < rows.size(); ++rowIndex) {'',
             ''        const QVariantMap row{rows.at(rowIndex).toMap()};'',
             ''        QStandardItem *item{new QStandardItem{}};'',
             ''        items.append(item);''],
        flatmapr (\<lambda>(index, role).
          bindr (role_conversion class_name model role index rs path) (\<lambda>ls. Inr ([] # ls)))
          (List.enumerate 0 (model_roles model)),
        Inr [''    }'',
             ''    m_'' @ model_name model @ ''Model.clear();'',
             ''    QHash<int, QByteArray> roleNames;'',
             ''    for (int roleIndex{0}; roleIndex < declaredRoles.size(); ++roleIndex) {'',
             ''        roleNames.insert(Qt::UserRole + roleIndex, declaredRoles.at(roleIndex));'',
             ''    }'',
             ''    m_'' @ model_name model @ ''Model.setItemRoleNames(roleNames);'',
             ''    for (QStandardItem *item : std::as_const(items)) {'',
             ''        m_'' @ model_name model @ ''Model.appendRow(item);'',
             ''    }'',
             ''    '' @ class_name @ ''SimpleSource::set'' @ cap (model_name model) @ ''(&m_'' @ model_name model @ ''Model);'',
             ''    m_'' @ model_name model @ ''Rows = rows;'',
             ''    Q_EMIT '' @ model_name model @ ''RowsChanged();'',
             ''}'']]\<close>

definition slot_checks :: "syn_file \<Rightarrow> string \<Rightarrow> syn_slot \<Rightarrow> string list \<Rightarrow> string list" where
  \<open>slot_checks syn class_name slot refuse =
     (let loc = class_name @ ''.'' @ slot_name slot; gate = slot_scope slot;
          refuse_bound = ''synqtSpan.refuse("bound");'' # refuse in
      only_if (forwards_session syn)
        [''    if (m_synqtCaller) {'',
         ''        QMetaObject::invokeMethod(m_synqtCaller.data(), "assumeSession",'',
         ''                                  Qt::DirectConnection,'',
         ''                                  Q_ARG(QVariantMap, '' @ SESSION_ARG @ ''));'',
         ''    }'']
      @ [''    SynqtCallSpan synqtSpan{"'' @ class_name @ ''", "'' @ slot_name slot @ ''",'',
         ''                            m_synqtCaller.data(), '' @ dec (length (slot_params slot)) @ ''};'']
      @ only_if (gate \<noteq> [])
         ([''    if (!synqtAllows('' @ gate_literal gate @ '')) {'',
           ''        qWarning("%s: refused, the caller does not hold the scope it needs",'',
           ''                 "'' @ loc @ ''");'',
           ''        synqtSpan.refuse("scope");'']
          @ map (\<lambda>line. ''        '' @ line) refuse @ [''    }''])
      @ concat (map (\<lambda>param. bound_guard (par_type param) (par_name param) loc (par_name param)
                        refuse_bound ''    '') (slot_params slot)))\<close>

definition slot_dispatch ::
    "syn_file \<Rightarrow> string \<Rightarrow> syn_slot \<Rightarrow> string \<Rightarrow> string list \<Rightarrow> string \<Rightarrow> string list" where
  \<open>slot_dispatch syn class_name slot ret refuse relay_args =
     (let helper = class_name @ ''SourceHelper''; is_void = (slot_return_type slot = None);
          arg_suffix = concat (map (\<lambda>p. '', Q_ARG(QVariant, QVariant::fromValue('' @ par_name p @ ''))'') (slot_params slot));
          session_arg = ''Q_ARG(QVariantMap, synqtActingForSession())'';
          plain_args = lstrip_chars ('','' @ nl @ '' '') relay_args;
          forward = ''m_synqtShared->'' @ slot_name slot @ ''('' @ slot_args syn slot @ '')'' in
      only_if (slot_capture slot)
        ([''    // `capture` on this member: the contract asked for the values.'']
         @ concat (map (\<lambda>param.
             [''    synqtSpan.capture(QStringLiteral("'' @ par_name param @ ''"),'',
              ''                      QVariant::fromValue('' @ par_name param @ ''));'']) (slot_params slot)))
      @ [''    const SynqtActingFor synqtActing{m_synqtCaller.data()};'']
      @ [''    if (m_synqtRelay) {'',
         ''        if (m_synqtRelayTakesSession) {'',
         ''            QMetaObject::invokeMethod(m_synqtRelay.data(), "'' @ slot_name slot @ ''",'',
         ''                                      '' @ session_arg @ relay_args @ '');'',
         ''        } else {'',
         ''            QMetaObject::invokeMethod(m_synqtRelay.data(), "'' @ slot_name slot @ ''"'' @ (if slot_params slot \<noteq> [] then '',\<newline>                                      '' @ plain_args @ '');'' else '');''),
         ''        }'']
      @ map (\<lambda>line. ''        '' @ line) refuse @ [''    }'']
      @ [''    if (m_synqtShared) {'',
         ''        m_synqtShared->synqtAdoptCaller(m_synqtCaller);'',
         ''        '' @ (if \<not> is_void then ''return '' else []) @ forward @ '';'']
      @ only_if is_void [''        return;'']
      @ [''    }'']
      @ [''    const int index{synqtQmlSlotIndex(this, "'' @ slot_name slot @ ''", '' @ dec (length (slot_params slot)) @ '','',
         ''                                     '' @ helper @ ''::staticMetaObject.methodCount())};'']
      @ (if is_void
         then [''    if (index >= 0) {'',
               ''        metaObject()->method(index).invoke(this, Qt::DirectConnection'' @ arg_suffix @ '');'',
               ''    }'']
         else [''    QVariant result{};'',
               ''    if (index >= 0) {'',
               ''        metaObject()->method(index).invoke(this, Qt::DirectConnection,'',
               ''                                           Q_RETURN_ARG(QVariant, result)'' @ arg_suffix @ '');'',
               ''    }'',
               ''    return qvariant_cast<'' @ ret @ ''>(result);'']))\<close>

definition slot_refuse :: "syn_slot \<Rightarrow> string \<Rightarrow> string list" where
  "slot_refuse slot ret =
     (if slot_return_type slot = None then [''return;''] else [''return '' @ ret @ ''{};''])"

definition slot_lines :: "syn_file \<Rightarrow> string \<Rightarrow> syn_slot \<Rightarrow> string \<Rightarrow> string \<Rightarrow> string list" where
  "slot_lines syn class_name slot ret relay_args =
     slot_checks syn class_name slot (slot_refuse slot ret)
     @ slot_dispatch syn class_name slot ret (slot_refuse slot ret) relay_args"

definition slot_impl :: "syn_file \<Rightarrow> string \<Rightarrow> syn_slot \<Rightarrow> string list \<Rightarrow> string \<Rightarrow> string res" where
  \<open>slot_impl syn class_name slot rs path =
     bindr (case slot_return_type slot of
              None \<Rightarrow> Inr ''void''
            | Some r \<Rightarrow> cpp_type r rs path (slot_line slot) (slot_col slot)) (\<lambda>ret.
     bindr (slot_params_text syn slot rs path) (\<lambda>params.
     bindr (mapr (\<lambda>param.
              bindr (cpp_type (par_type param) rs path (par_line param) (par_col param)) (\<lambda>c.
                Inr ('','' @ nl @ replicate 34 (CHR '' '') @ ''Q_ARG('' @ c @ '', '' @ par_name param @ '')'')))
             (slot_params slot)) (\<lambda>relay.
       let head = ret @ '' '' @ class_name @ ''SourceHelper::'' @ slot_name slot @ ''('' @ params @ '')'' in
       Inr (head @ nl @ ''{'' @ nl
            @ join nl (slot_lines syn class_name slot ret (concat relay))
            @ nl @ ''}''))))\<close>

section \<open>The implementation file\<close>

definition source_helper_impl :: "syn_file \<Rightarrow> contract \<Rightarrow> string list \<Rightarrow> string \<Rightarrow> string res" where
  \<open>source_helper_impl syn contract rs path =
     (let name = contract_name contract in
      bindr (join_lines
       [Inr [name @ ''SourceHelper::'' @ name @ ''SourceHelper(QObject *parent)'',
             ''    : '' @ name @ ''SimpleSource{parent}'',
             ''{''],
        Inr (concat (map (\<lambda>model. [''    set'' @ cap (model_name model) @ ''(QVariantList{});'']) (models contract))),
        Inr [''}'',
             []],
        Inr [''QQmlListProperty<QObject> '' @ name @ ''SourceHelper::data()'',
             ''{'',
             ''    return QQmlListProperty<QObject>{this, nullptr,'',
             ''                                     &'' @ name @ ''SourceHelper::appendData,'',
             ''                                     nullptr, nullptr, nullptr};'',
             ''}'',
             [],
             ''void '' @ name @ ''SourceHelper::appendData(QQmlListProperty<QObject> *list,'',
             ''                                    QObject *object)'',
             ''{'',
             ''    if (!object) {'',
             ''        return;'',
             ''    }'',
             ''    '' @ name @ ''SourceHelper *self{qobject_cast<'' @ name @ ''SourceHelper *>(list->object)};'',
             ''    if (!self) {'',
             ''        return;'',
             ''    }'',
             ''    object->setParent(self);'',
             ''    self->m_data.append(object);'',
             ''}'',
             []],
        Inr [mirror_impl contract, []],
        bindr (relay_impl contract rs path) (\<lambda>t. Inr [t, []]),
        Inr [gate_impl contract, []],
        flatmapr (\<lambda>prop. bindr (bounded_prop_impl name prop rs path) (\<lambda>t. Inr [t, []]))
          (intercepted_props contract),
        flatmapr (\<lambda>model. bindr (set_model_impl name model rs path) (\<lambda>t. Inr [t, []])) (models contract),
        mapr (\<lambda>slot. slot_impl syn name slot rs path) (slots contract),
        Inr (only_if (slots contract \<noteq> []) [[]]),
        flatmapr (\<lambda>signal. bindr (emit_signal_impl name signal rs path) (\<lambda>t. Inr [t, []]))
          (signals contract)])
      (\<lambda>t. Inr (rstrip_chars nl t)))\<close>

text \<open>Only the relay helpers the file's contracts call: an unused function would be a warning.\<close>

definition relay_helpers :: "syn_file \<Rightarrow> string list" where
  "relay_helpers syn =
     (let follows = list_ex (\<lambda>c. props c \<noteq> [] \<or> models c \<noteq> []) (contracts syn);
          relays_signal = list_ex (\<lambda>c. signals c \<noteq> []) (contracts syn);
          relays_slot = has_slots syn in
      only_if (follows \<or> relays_signal \<or> relays_slot)
        [concat ([if relays_signal \<or> relays_slot then RELAY_INTRO else RELAY_INTRO_ONLY]
                 @ only_if relays_slot [RELAY_TAKES_SESSION]
                 @ only_if follows [RELAY_FOLLOW_PROPERTY]
                 @ only_if relays_signal [RELAY_FOLLOW_SIGNAL]
                 @ only_if (has_models syn) [RELAY_ROWS]
                 @ [RELAY_CLOSE]), []])"

definition register_sources :: "syn_file \<Rightarrow> string list" where
  \<open>register_sources syn =
     (let caller_contracts = filter (\<lambda>contract. signals contract \<noteq> []) (contracts syn) in
      [''void synqtRegister'' @ cap (stem syn) @ ''Sources()'',
       ''{'',
       MODULE_IMPORTS_CALL]
      @ concat (map (\<lambda>contract.
          [''    qmlRegisterType<'' @ contract_name contract @ ''SourceHelper>("SynQt", 1, 0, "'' @ contract_name contract @ ''");'']) (contracts syn))
      @ only_if (caller_contracts \<noteq> [])
         ([''#if __has_include(<caller.h>)'']
          @ concat (map (\<lambda>contract.
              [''    SynQt::Caller::registerCallerFactory(QStringLiteral("'' @ contract_name contract @ ''"),'',
               ''        [](QObject *parent) -> SynQt::Caller * { return new '' @ contract_name contract @ ''Caller{parent}; });'']) caller_contracts)
          @ [''#endif''])
      @ [''#if __has_include(<sourcefactory.h>)'']
      @ concat (map (\<lambda>contract.
          [''    SynQt::SourceFactory::registerSource(QStringLiteral("'' @ contract_name contract @ ''"),'',
           ''        [](QObject *parent) -> QObject * { return new '' @ contract_name contract @ ''SourceHelper{parent}; });'']) (contracts syn))
      @ [''#endif'',
         ''}'',
         []])\<close>

definition emit_source_helper_source :: "syn_file \<Rightarrow> string \<Rightarrow> string res" where
  \<open>emit_source_helper_source syn lstem =
     (let rs = record_names syn; path = syn_path syn in
      join_lines
       [Inr [SPDX_CPP,
             ''#include "'' @ lstem @ ''_sourcehelper.h"'',
             [],
             ''#include <QAbstractItemModel>'',
             ''#include <QHash>'',
             ''#include <QMetaMethod>'',
             ''#include <QMetaProperty>'',
             ''#include <QQmlEngine>'',
             ''#include <QQmlListProperty>'',
             ''#include <QVariant>'',
             ''#include <QVariantList>'',
             ''#include <QVariantMap>'',
             []],
        Inr (only_if (has_models syn) [''#include <QMetaType>'',
                                       ''#include <QStandardItem>'',
                                       [],
                                       ''#include <utility>'',
                                       []]),
        Inr (only_if (bounds_a_var syn) [''#include <QByteArray>'',
                                         ''#include <QDataStream>'',
                                         ''#include <QIODevice>'',
                                         []]),
        Inr [''#if __has_include(<sourcefactory.h>)'',
             ''#  include <sourcefactory.h>'',
             ''#endif'',
             []],
        Inr [MODULE_IMPORTS_INCLUDE, []],
        Inr (only_if (has_slots syn) [ACTING_FOR_SHIM, [], CALL_SPAN_SHIM, []]),
        Inr (only_if (bounds_a_var syn) [VARIANT_BYTES_HELPER, []]),
        Inr (only_if (has_slots syn) [SLOT_DISPATCH_HELPER, []]),
        Inr (relay_helpers syn),
        flatmapr (\<lambda>contract. bindr (source_helper_impl syn contract rs path) (\<lambda>t. Inr [t, []]))
          (contracts syn),
        Inr (register_sources syn)])\<close>

end
