(* ===== verification/EmitConsumer.thy ===== *)
theory EmitConsumer
  imports EmitSource
begin

text \<open>
  The consumer's side of \<open>synqtc/emit.py\<close>: the facade an entity's QML calls a consumed connect
  point through, and the registration of the Replicas.
\<close>

definition types_csv :: "param list \<Rightarrow> string list \<Rightarrow> string \<Rightarrow> string res" where
  "types_csv params rs path =
     bindr (mapr (\<lambda>p. cpp_type (par_type p) rs path (par_line p) (par_col p)) params) (\<lambda>ts.
       Inr (join '','' ts))"

definition qarg_suffix :: "param list \<Rightarrow> string list \<Rightarrow> string \<Rightarrow> string res" where
  "qarg_suffix params rs path =
     bindr (mapr (\<lambda>p. bindr (cpp_type (par_type p) rs path (par_line p) (par_col p)) (\<lambda>c.
              Inr (''Q_ARG('' @ c @ '', '' @ par_name p @ '')''))) params) (\<lambda>terms.
       Inr (concat (map (\<lambda>t. '', '' @ t) terms)))"

section \<open>The facade's header\<close>

definition consumer_class :: "contract \<Rightarrow> string list \<Rightarrow> string \<Rightarrow> string res" where
  \<open>consumer_class contract rs path =
     (let name = contract_name contract in
      join_lines
       [Inr [''// Consumer facade for '' @ name @ '': what `'' @ name @ ''` is, in the QML of an entity that'',
             ''// consumes '' @ name @ [CHR 0x27] @ ''s connect point. One object serves all three ways a consumer'',
             ''// reaches it, because it is the attached object for the QML type `'' @ name @ ''` as well'',
             ''// as the accessor: `'' @ name @ ''.doThing()`, a binding on `'' @ name @ ''.someProp`, and'',
             ''// `'' @ name @ ''.onSomeSignal:` all resolve here.'',
             ''class '' @ name @ ''Consumer : public SynQt::ConsumerBase'',
             ''{'',
             ''    Q_OBJECT'',
             ''    QML_ATTACHED('' @ name @ ''Consumer)'',
             ''    Q_PROPERTY(bool ready READ isReady NOTIFY readyChanged)''],
        flatmapr (\<lambda>prop. bindr (prop_cpp rs path prop) (\<lambda>ctype.
          Inr [''    Q_PROPERTY('' @ ctype @ '' '' @ prop_name prop @ '' READ '' @ prop_name prop @ '' NOTIFY '' @ prop_name prop @ ''Changed)''])) (props contract),
        Inr (concat (map (\<lambda>model.
          [''    Q_PROPERTY(QAbstractItemModel *'' @ model_name model @ '' READ '' @ model_name model @ '' NOTIFY '' @ model_name model @ ''Changed)'']) (models contract))),
        Inr [[],
             ''public:'',
             ''    explicit '' @ name @ ''Consumer(QObject *parent = nullptr);'',
             [],
             ''    QString contractName() const override;'',
             [],
             ''    // The live facade, not a new object: `'' @ name @ ''` in QML has to be the one'',
             ''    // accessor the runtime installed, or a call would reach nothing.'',
             ''    static '' @ name @ ''Consumer *qmlAttachedProperties(QObject *object);'',
             []],
        flatmapr (\<lambda>prop. bindr (prop_cpp rs path prop) (\<lambda>ctype.
          Inr [''    '' @ ctype @ '' '' @ prop_name prop @ ''() const;''])) (props contract),
        Inr (concat (map (\<lambda>model. [''    QAbstractItemModel *'' @ model_name model @ ''() const;'']) (models contract))),
        Inr (only_if (props contract \<noteq> [] \<or> models contract \<noteq> []) [[]]),
        flatmapr (\<lambda>slot. bindr (param_list (slot_params slot) rs path) (\<lambda>params.
          Inr (if slot_return_type slot = None
               then [''    Q_INVOKABLE void '' @ slot_name slot @ ''('' @ params @ '');'']
               else [''    Q_INVOKABLE SynQt::Promise *'' @ slot_name slot @ ''('' @ params @ '');'']))) (slots contract),
        Inr (only_if (slots contract \<noteq> []) [[]]),
        Inr [''signals:''],
        Inr (concat (map (\<lambda>prop. [''    void '' @ prop_name prop @ ''Changed();'']) (props contract))),
        Inr (concat (map (\<lambda>model. [''    void '' @ model_name model @ ''Changed();'']) (models contract))),
        flatmapr (\<lambda>signal. bindr (param_list (signal_params signal) rs path) (\<lambda>params.
          Inr [''    void '' @ signal_name signal @ ''('' @ params @ '');''])) (signals contract),
        Inr [[],
             ''protected:'',
             ''    void bindReplica() override;'',
             ''    void emitAllChanged() override;''],
        Inr (only_if (models contract \<noteq> [])
          ([[],
            ''private:'',
            ''    // What a consumer is handed for each published model: a read-only view of'',
            ''    // the Replica's, never the Replica's own (SynQt::ReadOnlyModel).'']
           @ concat (map (\<lambda>model. [''    SynQt::ReadOnlyModel *m_'' @ model_name model @ ''View{nullptr};'']) (models contract)))),
        Inr [''};'']])\<close>

definition emit_consumer_header :: "syn_file \<Rightarrow> string \<Rightarrow> string res" where
  \<open>emit_consumer_header syn lstem =
     (let rs = record_names syn; path = syn_path syn in
      join_lines
       [Inr [SPDX_CPP,
             ''#pragma once'',
             [],
             ''#if __has_include(<consumerbase.h>)'',
             ''#  include <consumerbase.h>'',
             ''#  include <promise.h>'',
             [],
             ''#  include "'' @ lstem @ ''_rep.h"'',
             [],
             ''#  include <readonlymodel.h>'',
             [],
             ''#  include <QtQml/qqmlregistration.h>'',
             [],
             ''#  include <QAbstractItemModel>'',
             ''#  include <QList>'',
             ''#  include <QObject>'',
             ''#  include <QString>'',
             []],
        flatmapr (\<lambda>contract. bindr (consumer_class contract rs path) (\<lambda>t. Inr [t, []])) (contracts syn),
        Inr [''#endif'',
             [],
             ''void synqtRegister'' @ cap (stem syn) @ ''Consumers();'',
             []]])\<close>

section \<open>The facade's implementation\<close>

definition consumer_slot_impl :: "syn_file \<Rightarrow> string \<Rightarrow> syn_slot \<Rightarrow> string list \<Rightarrow> string \<Rightarrow> string res" where
  \<open>consumer_slot_impl syn class_name slot rs path =
     (let cls = class_name @ ''Consumer'' in
      bindr (param_list (slot_params slot) rs path) (\<lambda>params.
      bindr (qarg_suffix (slot_params slot) rs path) (\<lambda>declared_qargs.
        let qargs = (if forwards_session syn
                     then '', Q_ARG(QVariantMap, SynQt::ActingFor::current())'' @ declared_qargs
                     else declared_qargs) in
        case slot_return_type slot of
          None \<Rightarrow>
            Inr (join nl
              [''void '' @ cls @ ''::'' @ slot_name slot @ ''('' @ params @ '')'',
               ''{'',
               ''    if (m_replica == nullptr) {'',
               ''        return;'',
               ''    }'',
               ''    QMetaObject::invokeMethod(m_replica, "'' @ slot_name slot @ ''"'' @ qargs @ '');'',
               ''}''])
        | Some r \<Rightarrow>
            bindr (cpp_type r rs path (slot_line slot) (slot_col slot)) (\<lambda>ret.
              Inr (join nl
                [''SynQt::Promise *'' @ cls @ ''::'' @ slot_name slot @ ''('' @ params @ '')'',
                 ''{'',
                 ''    QJSEngine *engine{qjsEngine(this)};'',
                 ''    if (m_replica == nullptr) {'',
                 ''        return SynQt::Promise::rejected(QStringLiteral("the '' @ [CHR 0x27] @ class_name @ [CHR 0x27] @ '' connect point is not available"), engine, this);'',
                 ''    }'',
                 ''    QRemoteObjectPendingReply<'' @ ret @ ''> reply;'',
                 ''    QMetaObject::invokeMethod(m_replica, "'' @ slot_name slot @ ''",'',
                 ''                              Q_RETURN_ARG(QRemoteObjectPendingReply<'' @ ret @ ''>, reply)'' @ qargs @ '');'',
                 ''    return new SynQt::Promise{reply, engine, this};'',
                 ''}''])))))\<close>

definition consumer_accessors :: "string \<Rightarrow> contract \<Rightarrow> string list \<Rightarrow> string \<Rightarrow> string list res" where
  \<open>consumer_accessors cls contract rs path =
     (let name = contract_name contract;
          built = concat (map (\<lambda>model. nl @ ''    m_'' @ model_name model @ ''View = new SynQt::ReadOnlyModel{this};'')
                              (models contract)) in
      concatr
       [Inr [cls @ ''::'' @ cls @ ''(QObject *parent)'',
             ''    : SynQt::ConsumerBase{parent}'',
             ''{'' @ built,
             ''}'',
             [],
             ''QString '' @ cls @ ''::contractName() const'',
             ''{'',
             ''    return QStringLiteral("'' @ name @ ''");'',
             ''}'',
             [],
             cls @ '' *'' @ cls @ ''::qmlAttachedProperties(QObject *object)'',
             ''{'',
             ''    Q_UNUSED(object);'',
             ''    QObject *facade{SynQt::ConnectPointResolver::instance()->resolve(QStringLiteral("'' @ name @ ''"))};'',
             ''    // Owned by the runtime that installed it and shared by every file that names'',
             ''    // it, so the engine must not take it or delete it with a scope object.'',
             ''    QQmlEngine::setObjectOwnership(facade, QQmlEngine::CppOwnership);'',
             ''    return qobject_cast<'' @ cls @ '' *>(facade);'',
             ''}'',
             []],
        flatmapr (\<lambda>prop. bindr (prop_cpp rs path prop) (\<lambda>ctype.
          Inr [ctype @ '' '' @ cls @ ''::'' @ prop_name prop @ ''() const'',
               ''{'',
               ''    if (m_replica == nullptr) {'',
               ''        return '' @ ctype @ ''{};'',
               ''    }'',
               ''    return qvariant_cast<'' @ ctype @ ''>(m_replica->property("'' @ prop_name prop @ ''"));'',
               ''}'',
               []])) (props contract),
        Inr (concat (map (\<lambda>model.
          [''QAbstractItemModel *'' @ cls @ ''::'' @ model_name model @ ''() const'',
           ''{'',
           ''    if (m_replica == nullptr) {'',
           ''        return nullptr;'',
           ''    }'',
           ''    QAbstractItemModel *published{qobject_cast<QAbstractItemModel *>('',
           ''        qvariant_cast<QObject *>(m_replica->property("'' @ model_name model @ ''")))};'',
           ''    if (published == nullptr) {'',
           ''        return nullptr;'',
           ''    }'',
           ''    // Re-sourced rather than rebuilt, so a reconnect keeps the object every'',
           ''    // binding on this model already resolved.'',
           ''    if (m_'' @ model_name model @ ''View->sourceModel() != published) {'',
           ''        m_'' @ model_name model @ ''View->setSourceModel(published);'',
           ''    }'',
           ''    return m_'' @ model_name model @ ''View;'',
           ''}'',
           []]) (models contract)))])\<close>

definition consumer_binding :: "string \<Rightarrow> contract \<Rightarrow> string list \<Rightarrow> string \<Rightarrow> string list res" where
  \<open>consumer_binding cls contract rs path =
     concatr
       [Inr [''void '' @ cls @ ''::bindReplica()'',
             ''{''],
        flatmapr (\<lambda>prop. bindr (prop_cpp rs path prop) (\<lambda>ctype.
          Inr [''    addConnection(synqtRelay(m_replica, "'' @ prop_name prop @ ''Changed('' @ ctype @ '')",'',
               ''                             this, "'' @ prop_name prop @ ''Changed()"));''])) (props contract),
        Inr (concat (map (\<lambda>model.
          [''    addConnection(synqtRelay(m_replica, "'' @ model_name model @ ''Changed(QAbstractItemModelReplica*)",'',
           ''                             this, "'' @ model_name model @ ''Changed()"));'']) (models contract))),
        flatmapr (\<lambda>signal. bindr (types_csv (signal_params signal) rs path) (\<lambda>types.
          Inr [''    addConnection(synqtRelay(m_replica, "'' @ signal_name signal @ ''('' @ types @ '')",'',
               ''                             this, "'' @ signal_name signal @ ''('' @ types @ '')"));''])) (signals contract),
        Inr (only_if (\<not> (props contract \<noteq> [] \<or> models contract \<noteq> [] \<or> signals contract \<noteq> []))
          [''    // No push properties, models or signals to relay.'']),
        Inr [''}'',
             []],
        Inr [''void '' @ cls @ ''::emitAllChanged()'',
             ''{''],
        Inr (concat (map (\<lambda>prop. [''    emit '' @ prop_name prop @ ''Changed();'']) (props contract))),
        Inr (concat (map (\<lambda>model. [''    emit '' @ model_name model @ ''Changed();'']) (models contract))),
        Inr (only_if (\<not> (props contract \<noteq> [] \<or> models contract \<noteq> []))
          [''    // No push properties or models to re-notify.'']),
        Inr [''}'']]\<close>

definition consumer_impl :: "syn_file \<Rightarrow> contract \<Rightarrow> string list \<Rightarrow> string \<Rightarrow> string res" where
  "consumer_impl syn contract rs path =
     (let name = contract_name contract; cls = name @ ''Consumer'' in
      join_lines
       [consumer_accessors cls contract rs path,
        flatmapr (\<lambda>slot. bindr (consumer_slot_impl syn name slot rs path) (\<lambda>t. Inr [t, []])) (slots contract),
        consumer_binding cls contract rs path])"

definition emit_consumer_source :: "syn_file \<Rightarrow> string \<Rightarrow> string res" where
  \<open>emit_consumer_source syn lstem =
     (let rs = record_names syn; path = syn_path syn in
      join_lines
       [Inr [SPDX_CPP,
             ''#include "'' @ lstem @ ''_consumer.h"'',
             [],
             ''#if __has_include(<consumerbase.h>)''],
        Inr [''#  include "actingfor.h"'',
             ''#  include "connectpointresolver.h"'',
             ''#  include "consumerfactory.h"'',
             ''#  include "moduleimports.h"'',
             [],
             ''#  include <QJSEngine>'',
             ''#  include <QMetaMethod>'',
             ''#  include <QMetaObject>'',
             ''#  include <QtQml/qqmlengine.h>'',
             ''#  include <QtRemoteObjects/QRemoteObjectPendingReply>'',
             ''#  include <QVariant>'',
             []],
        Inr [CONSUMER_RELAY_HELPER],
        flatmapr (\<lambda>contract. bindr (consumer_impl syn contract rs path) (\<lambda>t. Inr [t, []])) (contracts syn),
        Inr [''void synqtRegister'' @ cap (stem syn) @ ''Consumers()'',
             ''{'',
             ''    // Registering a contract is what makes `import SynQt` enough: it brings'',
             ''    // QtQuick with it, so a view that consumes this one is a window without a'',
             ''    // second import line.'',
             ''    SynQt::registerModuleImports();''],
        Inr (concat (map (\<lambda>contract.
          [''    SynQt::registerConsumerFactory(QStringLiteral("'' @ contract_name contract @ ''"),'',
           ''        []() -> SynQt::ConsumerBase * { return new '' @ contract_name contract @ ''Consumer{}; });'',
           ''    qmlRegisterType<'' @ contract_name contract @ ''Consumer>("SynQt", 1, 0, "'' @ contract_name contract @ ''");'']) (contracts syn))),
        Inr [''}'',
             ''#else'',
             ''void synqtRegister'' @ cap (stem syn) @ ''Consumers() {}'',
             ''#endif'',
             []]])\<close>

section \<open>The Replicas\<close>

definition emit_replica_header :: "syn_file \<Rightarrow> string \<Rightarrow> string" where
  \<open>emit_replica_header syn lstem =
     join nl [SPDX_CPP,
              ''#pragma once'',
              [],
              ''void synqtRegister'' @ cap (stem syn) @ ''Replicas();'',
              []]\<close>

definition emit_replica_source :: "syn_file \<Rightarrow> string \<Rightarrow> string" where
  \<open>emit_replica_source syn lstem =
     join nl
      ([SPDX_CPP,
        ''#include "'' @ lstem @ ''_replica.h"'',
        [],
        ''#include "'' @ lstem @ ''_rep.h"'',
        [],
        ''#include <QQmlEngine>'',
        [],
        ''// When this Replica is built into a client that links the SynQt client runtime, register a'',
        ''// typed-Replica factory: a compile-time Replica carries its API and so syncs reliably,'',
        ''// including in the browser (a dynamic Replica's API-definition exchange does not complete'',
        ''// under single-threaded WASM). A minimal replica-only target that does not link the'',
        ''// runtime simply skips this and still builds.'',
        ''#if __has_include(<replicaregistry.h>)'',
        ''#  include <QRemoteObjectNode>'',
        ''#  include <replicaregistry.h>'',
        ''#  define SYNQT_REPLICA_FACTORY 1'',
        ''#endif'',
        [],
        ''void synqtRegister'' @ cap (stem syn) @ ''Replicas()'',
        ''{'']
       @ concat (map (\<lambda>contract.
           [''    qmlRegisterUncreatableType<'' @ contract_name contract @ ''Replica>("SynQt", 1, 0,'',
            ''        "'' @ contract_name contract @ ''Replica",'',
            ''        QStringLiteral("'' @ contract_name contract @ ''Replica is acquired from the SynQt runtime, not constructed in QML"));'',
            ''#ifdef SYNQT_REPLICA_FACTORY'',
            ''    SynQt::registerReplicaFactory(QStringLiteral("'' @ contract_name contract @ ''"),'',
            ''        [](QRemoteObjectNode *node, const QString &connectPoint) -> QObject * {'',
            ''            return node->acquire<'' @ contract_name contract @ ''Replica>(connectPoint);'',
            ''        });'',
            ''#endif'']) (contracts syn))
       @ [''}'',
          []])\<close>

end
