(* ===== verification/EmitProps.thy ===== *)
theory EmitProps
  imports EmitConsumer
begin

text \<open>
  The emitters are total on what the parser accepts: every type they lower was resolved by
  \<open>validate\<close>, so no \<open>cpp_type\<close> they call raises. The converse holds for the \<open>.rep\<close> file, which
  lowers every type a contract writes but a model's roles.
\<close>

section \<open>Totality\<close>

definition typed_params :: "string list \<Rightarrow> param list \<Rightarrow> bool" where
  "typed_params rs ps \<longleftrightarrow> (\<forall>p \<in> set ps. valid_type rs (par_type p))"

lemma is_ok_param_decl [simp]: "is_ok (param_decl rs path p) \<longleftrightarrow> valid_type rs (par_type p)"
  by (simp add: param_decl_def is_ok_bindr)

lemma is_ok_param_list [simp]: "is_ok (param_list ps rs path) \<longleftrightarrow> typed_params rs ps"
  by (simp add: param_list_def is_ok_bindr typed_params_def)

lemma is_ok_slot_params_text [simp]:
  "is_ok (slot_params_text syn s rs path) \<longleftrightarrow> typed_params rs (slot_params s)"
  by (simp add: slot_params_text_def is_ok_bindr typed_params_def)

lemma is_ok_types_csv [simp]: "is_ok (types_csv ps rs path) \<longleftrightarrow> typed_params rs ps"
  by (simp add: types_csv_def is_ok_bindr typed_params_def)

lemma is_ok_qarg_suffix [simp]: "is_ok (qarg_suffix ps rs path) \<longleftrightarrow> typed_params rs ps"
  by (simp add: qarg_suffix_def is_ok_bindr typed_params_def)

lemma is_ok_prop_cpp [simp]: "is_ok (prop_cpp rs path p) \<longleftrightarrow> valid_type rs (prop_type p)"
  by (simp add: prop_cpp_def)

lemma is_ok_map_result [simp]: "is_ok (bindr r (\<lambda>x. Inr (f x))) \<longleftrightarrow> is_ok r"
  by (simp add: is_ok_bindr)

text \<open>The emitters of one member raise exactly when one of its types cannot be lowered.\<close>

lemma typed_member_slot: "typed_member rs (Slot s) \<longleftrightarrow>
    typed_params rs (slot_params s) \<and> (\<forall>r. slot_return_type s = Some r \<longrightarrow> valid_type rs r)"
  by (auto simp: typed_params_def)

text \<open>When what follows a lowered type does not raise, only the lowering can.\<close>

lemma is_ok_bindr_const: "(\<And>x. is_ok (f x) \<longleftrightarrow> b) \<Longrightarrow> is_ok (bindr r f) \<longleftrightarrow> is_ok r \<and> b"
  by (cases r) auto

lemma is_ok_slot_signature [simp]:
  "is_ok (slot_signature syn s rs path) \<longleftrightarrow> typed_member rs (Slot s)"
  by (cases "slot_return_type s")
     (auto simp: slot_signature_def is_ok_bindr_const typed_member_slot simp del: typed_member.simps)

lemma is_ok_slot_impl [simp]:
  "is_ok (slot_impl syn cls s rs path) \<longleftrightarrow> typed_member rs (Slot s)"
  by (cases "slot_return_type s")
     (auto simp: slot_impl_def is_ok_bindr_const typed_member_slot typed_params_def Let_def
           simp del: typed_member.simps)

lemma is_ok_consumer_slot_impl [simp]:
  "is_ok (consumer_slot_impl syn cls s rs path) \<longleftrightarrow> typed_member rs (Slot s)"
  by (cases "slot_return_type s")
     (auto simp: consumer_slot_impl_def is_ok_bindr_const typed_member_slot Let_def
           simp del: typed_member.simps)

lemma is_ok_bounded_prop_impl [simp]:
  "is_ok (bounded_prop_impl cls p rs path) \<longleftrightarrow> typed_member rs (Prop p)"
  by (simp add: bounded_prop_impl_def)

lemma is_ok_emit_signal_impl [simp]:
  "is_ok (emit_signal_impl cls s rs path) \<longleftrightarrow> typed_params rs (signal_params s)"
  by (simp add: emit_signal_impl_def)

lemma is_ok_role_conversion [simp]:
  "is_ok (role_conversion cls m r i rs path) \<longleftrightarrow> is_generic (role_type r) \<or> valid_type rs (role_type r)"
  by (simp add: role_conversion_def Let_def)

lemma is_ok_set_model_impl:
  "typed_member rs (Model m) \<Longrightarrow> is_ok (set_model_impl cls m rs path)"
  by (auto simp: set_model_impl_def in_set_enumerate_eq)

lemma is_ok_lower_member:
  "typed_member rs m \<Longrightarrow> is_ok (lower_member syn rs path m)"
proof (cases m)
  case (Slot s)
  assume "typed_member rs m"
  then show ?thesis
    unfolding Slot typed_member_slot
    by (cases "slot_return_type s") (auto simp: is_ok_bindr_const)
qed (auto simp: typed_params_def)

text \<open>The emitters of one contract.\<close>

definition typed_contract :: "string list \<Rightarrow> contract \<Rightarrow> bool" where
  "typed_contract rs c \<longleftrightarrow> (\<forall>m \<in> set (members c). typed_member rs m)"

lemma typed_contractD:
  assumes "typed_contract rs c"
  shows "p \<in> set (props c) \<Longrightarrow> valid_type rs (prop_type p)"
    and "q \<in> set (models c) \<Longrightarrow> typed_member rs (Model q)"
    and "s \<in> set (signals c) \<Longrightarrow> typed_params rs (signal_params s)"
    and "t \<in> set (slots c) \<Longrightarrow> typed_member rs (Slot t)"
  using assms unfolding typed_contract_def set_views typed_params_def
  by (metis typed_member.simps(1), metis, metis typed_member.simps(3), metis)

lemmas contract_views = typed_contractD [simplified set_views]

lemma is_ok_contract_emitters:
  assumes "typed_contract rs c"
  shows "is_ok (rep_contract syn rs path c)"
    and "is_ok (caller_subclass c rs path)"
    and "is_ok (source_helper_class syn c rs path)"
    and "is_ok (relay_impl c rs path)"
    and "is_ok (source_helper_impl syn c rs path)"
    and "is_ok (consumer_class c rs path)"
    and "is_ok (consumer_impl syn c rs path)"
proof -
  note typed = contract_views [OF assms]
  show "is_ok (rep_contract syn rs path c)"
    using assms by (simp add: rep_contract_def typed_contract_def is_ok_lower_member)
  show "is_ok (caller_subclass c rs path)"
    using typed by (simp add: caller_subclass_def Let_def)
  show "is_ok (source_helper_class syn c rs path)"
    using typed by (simp add: source_helper_class_def class_slots_lines_def class_tail_lines_def
        intercepted_props_def gated_props_def Let_def del: typed_member.simps)
  show relay: "is_ok (relay_impl c rs path)"
    using typed by (simp add: relay_impl_def Let_def)
  show "is_ok (source_helper_impl syn c rs path)"
    using typed relay by (simp add: source_helper_impl_def intercepted_props_def is_ok_set_model_impl
        Let_def del: typed_member.simps(2-4))
  show "is_ok (consumer_class c rs path)"
    using typed by (simp add: consumer_class_def Let_def typed_member_slot del: typed_member.simps)
  show "is_ok (consumer_impl syn c rs path)"
    using typed by (simp add: consumer_impl_def consumer_accessors_def consumer_binding_def Let_def
        del: typed_member.simps)
qed

text \<open>The emitters of a file.\<close>

lemma typed_file_contract: "typed_file syn \<Longrightarrow> c \<in> set (contracts syn) \<Longrightarrow> typed_contract (record_names syn) c"
  by (simp add: typed_file_def typed_contract_def)

lemma is_ok_emitters:
  assumes "typed_file syn"
  shows "is_ok (emit_rep syn)"
    and "is_ok (emit_source_helper_header syn lstem)"
    and "is_ok (emit_source_helper_source syn lstem)"
    and "is_ok (emit_consumer_header syn lstem)"
    and "is_ok (emit_consumer_source syn lstem)"
proof -
  note ok = is_ok_contract_emitters [OF typed_file_contract [OF assms]]
  show "is_ok (emit_rep syn)"
    using assms ok(1)
    by (simp add: emit_rep_def Let_def rep_record_def typed_file_def typed_params_def)
  show "is_ok (emit_source_helper_header syn lstem)"
    using ok(2,3) by (simp add: emit_source_helper_header_def Let_def)
  show "is_ok (emit_source_helper_source syn lstem)"
    using ok(5) by (simp add: emit_source_helper_source_def Let_def)
  show "is_ok (emit_consumer_header syn lstem)"
    using ok(6) by (simp add: emit_consumer_header_def Let_def)
  show "is_ok (emit_consumer_source syn lstem)"
    using ok(7) by (simp add: emit_consumer_source_def Let_def)
qed

section \<open>Properties\<close>

text \<open>
  C25. The emitters are total on what the parser accepts: for every contract file it returns, with or
  without the forwarded session, all five emitters that lower types return a text. So a contract
  that passes the checks is never refused half way through being generated.
\<close>

theorem emitters_total:
  assumes "parse_text s path st = Inr syn"
  shows "is_ok (emit_rep (syn\<lparr>forwards_session := b\<rparr>)) \<and>
    is_ok (emit_source_helper_header (syn\<lparr>forwards_session := b\<rparr>) lstem) \<and>
    is_ok (emit_source_helper_source (syn\<lparr>forwards_session := b\<rparr>) lstem) \<and>
    is_ok (emit_consumer_header (syn\<lparr>forwards_session := b\<rparr>) lstem) \<and>
    is_ok (emit_consumer_source (syn\<lparr>forwards_session := b\<rparr>) lstem)"
proof -
  have "typed_file syn"
    using parse_text_cases [where s = s and path = path and st = st] assms by simp
  then have "typed_file (syn\<lparr>forwards_session := b\<rparr>)"
    by (simp add: typed_file_def record_names_def)
  then show ?thesis by (simp add: is_ok_emitters)
qed

theorem emitters_total_witness:
  "is_ok (emit_rep (sample_syn\<lparr>forwards_session := True\<rparr>)) \<and>
    is_ok (emit_source_helper_header (sample_syn\<lparr>forwards_session := True\<rparr>) ''board'') \<and>
    is_ok (emit_source_helper_source (sample_syn\<lparr>forwards_session := True\<rparr>) ''board'') \<and>
    is_ok (emit_consumer_header (sample_syn\<lparr>forwards_session := True\<rparr>) ''board'') \<and>
    is_ok (emit_consumer_source (sample_syn\<lparr>forwards_session := True\<rparr>) ''board'')"
  using emitters_total [OF sample_parses] by blast

text \<open>Every type a well-typed file writes is one it can lower.\<close>

lemma written_types_valid:
  assumes "typed_file syn" and "t \<in> set (written_types syn)"
  shows "valid_type (record_names syn) t"
proof -
  note typed = typed_file_contract [OF assms(1), THEN contract_views(1)]
    typed_file_contract [OF assms(1), THEN contract_views(2)]
    typed_file_contract [OF assms(1), THEN contract_views(3)]
    typed_file_contract [OF assms(1), THEN contract_views(4)]
  show ?thesis
    using assms typed
    by (fastforce simp: written_types_def typed_file_def typed_params_def split: option.splits)
qed

lemma builtin_include:
  assumes "map_of BUILTIN_TYPES b = Some c" and "map_of TYPE_INCLUDES b = None"
  shows "c \<in> {''bool'', ''double'', ''int''}"
  using assms by (auto simp: BUILTIN_TYPES_def TYPE_INCLUDES_def split: if_splits)

lemma builtin_include_same:
  assumes "map_of BUILTIN_TYPES b = Some c" and "map_of TYPE_INCLUDES b = Some h"
  shows "h = c"
  using assms by (auto simp: BUILTIN_TYPES_def TYPE_INCLUDES_def split: if_splits)

text \<open>
  The \<open>.rep\<close> file includes what it names: the headers it lists are sorted and without repeats,
  and the C++ type of every type the file writes is a scalar, one of its records, or a Qt type
  whose header is in the list.
\<close>

theorem rep_includes_complete:
  assumes "typed_file syn"
  shows "sorted (type_includes syn) \<and> distinct (type_includes syn) \<and>
    (\<forall>t \<in> set (written_types syn). cpp_spelling t \<in> {''bool'', ''double'', ''int''} \<or>
       cpp_spelling t \<in> set (record_names syn) \<or> cpp_spelling t \<in> set (type_includes syn))"
proof (intro conjI ballI)
  fix t assume t: "t \<in> set (written_types syn)"
  have v: "valid_type (record_names syn) t" by (rule written_types_valid [OF assms t])
  show "cpp_spelling t \<in> {''bool'', ''double'', ''int''} \<or> cpp_spelling t \<in> set (record_names syn) \<or>
      cpp_spelling t \<in> set (type_includes syn)"
  proof (cases "map_of BUILTIN_TYPES (base_of t)")
    case None
    then show ?thesis using v by (auto simp: valid_type_def has_key_def cpp_spelling_def get_or_def)
  next
    case (Some c)
    have "c \<in> set (type_includes syn)" if "map_of TYPE_INCLUDES (base_of t) = Some h" for h
      using builtin_include_same [OF Some that] that t by (auto simp: type_includes_def set_map_filter)
    then show ?thesis
      using Some builtin_include [OF Some]
      by (cases "map_of TYPE_INCLUDES (base_of t)") (auto simp: cpp_spelling_def get_or_def)
  qed
qed (simp_all add: type_includes_def)

theorem rep_includes_complete_witness:
  "type_includes sample_syn = [''QString'', ''QVariant'', ''QVariantList''] \<and>
   ''string'' \<in> set (written_types sample_syn) \<and> cpp_spelling ''string'' \<in> set (type_includes sample_syn)"
proof -
  have "type_includes sample_syn = [''QString'', ''QVariant'', ''QVariantList'']" by code_simp
  moreover have t: "''string'' \<in> set (written_types sample_syn)" by code_simp
  moreover have "cpp_spelling ''string'' \<notin> {''bool'', ''double'', ''int''}"
    "cpp_spelling ''string'' \<notin> set (record_names sample_syn)" by code_simp+
  ultimately show ?thesis using rep_includes_complete [OF sample_ok(2)] by blast
qed

end
