(* ===== verification/EmitGuards.thy ===== *)
theory EmitGuards
  imports EmitProps
begin

text \<open>
  What the guarded bodies of the generated Source do when they run. The emitter writes them as
  lines of block-structured C++ whose only control flow is \<open>if\<close>, \<open>else\<close> and \<open>return\<close>; \<open>run\<close> is
  that control flow, read over the lines: given which conditions hold it returns the lines that
  execute, in order. The lemmas show that a gate or a bound that refuses is final (nothing after
  it executes) and that the body goes on exactly when none refuses.
\<close>

section \<open>Control flow over emitted lines\<close>

definition unindent :: "string \<Rightarrow> string" where
  "unindent line = dropWhile (\<lambda>c. c = CHR '' '') line"

definition opens :: "string \<Rightarrow> bool" where
  "opens line \<longleftrightarrow> startswith (unindent line) ''if ('' \<and> last line = CHR ''{''"

definition swaps :: "string \<Rightarrow> bool" where
  "swaps line \<longleftrightarrow> unindent line = ''} else {''"

definition closes :: "string \<Rightarrow> bool" where
  "closes line \<longleftrightarrow> unindent line = ''}''"

definition leaves :: "string \<Rightarrow> bool" where
  "leaves line \<longleftrightarrow> startswith (unindent line) ''return;'' \<or> startswith (unindent line) ''return ''"

text \<open>The number counts the blocks being skipped because a condition did not hold.\<close>

fun run :: "(string \<Rightarrow> bool) \<Rightarrow> nat \<Rightarrow> string list \<Rightarrow> string list" where
  "run holds d [] = []"
| "run holds 0 (l # ls) =
     (if opens l then (if holds l then run holds 0 ls else run holds 1 ls)
      else if swaps l then run holds 1 ls
      else if closes l then run holds 0 ls
      else if leaves l then [l]
      else l # run holds 0 ls)"
| "run holds (Suc d) (l # ls) =
     (if opens l then run holds (Suc (Suc d)) ls
      else if swaps l then (if d = 0 then run holds 0 ls else run holds (Suc d) ls)
      else if closes l then run holds d ls
      else run holds (Suc d) ls)"

definition statement :: "string \<Rightarrow> bool" where
  "statement l \<longleftrightarrow> \<not> opens l \<and> \<not> swaps l \<and> \<not> closes l"

text \<open>A block of lines either lets what follows it run or ends the body.\<close>

definition passes :: "(string \<Rightarrow> bool) \<Rightarrow> string list \<Rightarrow> bool" where
  "passes holds ls \<longleftrightarrow> (\<forall>rest. run holds 0 (ls @ rest) = run holds 0 ls @ run holds 0 rest)"

definition stops :: "(string \<Rightarrow> bool) \<Rightarrow> string list \<Rightarrow> bool" where
  "stops holds ls \<longleftrightarrow> (\<forall>rest. run holds 0 (ls @ rest) = run holds 0 ls)"

lemma passes_Nil [simp]: "passes holds []"
  by (simp add: passes_def)

lemma passes_append: "passes holds xs \<Longrightarrow> passes holds ys \<Longrightarrow> passes holds (xs @ ys)"
  by (simp add: passes_def)

lemma stops_append: "stops holds xs \<Longrightarrow> stops holds (xs @ ys)"
  by (simp add: stops_def)

lemma passes_stops: "passes holds xs \<Longrightarrow> stops holds ys \<Longrightarrow> stops holds (xs @ ys)"
  by (simp add: passes_def stops_def)

lemma passes_concat: "(\<And>x. x \<in> set xss \<Longrightarrow> passes holds x) \<Longrightarrow> passes holds (concat xss)"
  by (induction xss) (auto intro: passes_append)

lemma stops_concat:
  assumes "x \<in> set xss" and "stops holds x" and "\<And>y. y \<in> set xss \<Longrightarrow> passes holds y \<or> stops holds y"
  shows "stops holds (concat xss)"
  using assms
proof (induction xss)
  case (Cons y ys)
  then show ?case
    by (cases "stops holds y") (auto intro: stops_append passes_stops)
qed simp

lemma run_statements: "list_all statement ls \<Longrightarrow> list_all (\<lambda>l. \<not> leaves l) ls \<Longrightarrow> run holds 0 (ls @ rest) = ls @ run holds 0 rest"
  by (induction ls) (auto simp: statement_def)

lemma passes_statements: "list_all statement ls \<Longrightarrow> list_all (\<lambda>l. \<not> leaves l) ls \<Longrightarrow> passes holds ls"
  using run_statements [of ls holds "[]"] by (simp add: passes_def run_statements)

lemma run_skips: "list_all statement ls \<Longrightarrow> run holds (Suc d) (ls @ rest) = run holds (Suc d) rest"
  by (induction ls) (auto simp: statement_def)

lemma stops_statements: "list_all statement ls \<Longrightarrow> list_ex leaves ls \<Longrightarrow> stops holds ls"
  by (induction ls) (auto simp: stops_def statement_def)

text \<open>A guard: a condition, and a block of statements that leaves when it holds.\<close>

definition guard_block :: "string \<Rightarrow> string list \<Rightarrow> string \<Rightarrow> bool" where
  "guard_block l body c \<longleftrightarrow> opens l \<and> list_all statement body \<and> list_ex leaves body \<and>
     closes c \<and> \<not> opens c \<and> \<not> swaps c"

lemma guard_stops:
  assumes "guard_block l body c" and "holds l"
  shows "stops holds (l # body @ [c])" and "run holds 0 (l # body @ [c]) = run holds 0 body"
  using assms stops_statements [of body holds] by (auto simp: guard_block_def stops_def)

lemma guard_passes:
  assumes "guard_block l body c" and "\<not> holds l"
  shows "passes holds (l # body @ [c])" and "run holds 0 (l # body @ [c]) = []"
  using assms by (auto simp: guard_block_def passes_def run_skips)

section \<open>Bounds\<close>

definition spaces :: "string \<Rightarrow> bool" where
  "spaces s \<longleftrightarrow> list_all (\<lambda>c. c = CHR '' '') s"

lemma unindent_spaces: "spaces ind \<Longrightarrow> unindent (ind @ l) = unindent l"
  by (simp add: spaces_def unindent_def list_all_iff dropWhile_append2)

lemma indented [simp]:
  assumes "spaces ind"
  shows "closes (ind @ l) = closes l" "swaps (ind @ l) = swaps l" "leaves (ind @ l) = leaves l"
    "l \<noteq> [] \<Longrightarrow> opens (ind @ l) = opens l"
  using assms by (simp_all add: closes_def swaps_def leaves_def opens_def unindent_spaces)

lemma spaces_simps [simp]: "spaces []" "spaces (c # cs) \<longleftrightarrow> c = CHR '' '' \<and> spaces cs"
  "spaces (replicate n (CHR '' ''))"
  by (simp_all add: spaces_def list_all_iff)

lemma statement_indented: "spaces ind \<Longrightarrow> statement l \<Longrightarrow> statement (ind @ l)"
proof (cases "l = []")
  case True
  assume "spaces ind"
  then have "unindent (ind @ l) = []"
    unfolding True by (simp add: unindent_def spaces_def list_all_iff)
  then show ?thesis by (simp add: statement_def swaps_def closes_def opens_def)
qed (simp add: statement_def)

lemma statements_indented:
  "spaces ind \<Longrightarrow> list_all statement ls \<Longrightarrow> list_all statement (map (\<lambda>l. ind @ l) ls)"
  "spaces ind \<Longrightarrow> list_ex leaves (map (\<lambda>l. ind @ l) ls) = list_ex leaves ls"
  by (auto simp: list_all_iff list_ex_iff statement_indented)

text \<open>What the emitter can tell apart: a line is classified by how it starts and ends.\<close>

lemma by_first_char:
  assumes "unindent l = c # cs"
  shows "c \<noteq> CHR ''i'' \<Longrightarrow> c \<noteq> CHR ''}'' \<Longrightarrow> statement l" and "c \<noteq> CHR ''r'' \<Longrightarrow> \<not> leaves l"
  using assms by (auto simp: statement_def opens_def swaps_def closes_def leaves_def)

text \<open>A line that starts with a word is a statement, unless the word is a keyword of \<open>run\<close>.\<close>

lemma not_startswith_word:
  assumes "list_all ident_char w" and "length p \<le> length w" and "\<not> list_all ident_char p"
  shows "\<not> startswith (w @ rest) p"
proof
  assume "startswith (w @ rest) p"
  then have "p = take (length p) w" using assms(2) by (simp add: startswith_def)
  then show False using assms(1,3) by (metis list_all_iff in_set_takeD)
qed

lemma word_line:
  assumes "spaces ind" and "list_all ident_char w" and "length w \<ge> 8"
  shows "statement (ind @ w @ rest)" and "\<not> leaves (ind @ w @ rest)"
proof -
  have "hd w \<noteq> CHR '' ''" "w \<noteq> []"
    using assms(2,3) by (cases w; auto simp: char_class_defs)+
  then have u: "unindent (ind @ w @ rest) = w @ rest"
    using unindent_spaces [OF assms(1)] by (cases w) (simp_all add: unindent_def)
  have no: "\<not> startswith (w @ rest) p" if "length p \<le> 8" "\<not> list_all ident_char p" for p
    using not_startswith_word [OF assms(2)] that assms(3) by (meson le_trans)
  have "\<not> ident_char (CHR '' '')" "\<not> ident_char (CHR '';'')" "\<not> ident_char (CHR ''}'')"
    by (simp_all add: char_class_defs)
  then have "\<not> startswith (w @ rest) ''if (''" "\<not> startswith (w @ rest) ''return;''"
      "\<not> startswith (w @ rest) ''return ''" "\<not> startswith (w @ rest) ''}''" "\<not> startswith (w @ rest) ''} else {''"
    by (intro no; simp)+
  then show "statement (ind @ w @ rest)" "\<not> leaves (ind @ w @ rest)"
    by (auto simp: statement_def opens_def closes_def swaps_def leaves_def u startswith_prefix)
qed

lemma unindent_Cons [simp]:
  "unindent (c # cs) = (if c = CHR '' '' then unindent cs else c # cs)"
  by (simp add: unindent_def)

definition bound_line :: "string \<Rightarrow> string \<Rightarrow> nat \<Rightarrow> string" where
  "bound_line ind field n = ind @ ''if ('' @ field @ ''Size > '' @ dec n @ '') {''"

definition refusal :: "string list \<Rightarrow> bool" where
  "refusal body \<longleftrightarrow> list_all statement body \<and> list_ex leaves body"

lemma bound_guard_None: "bound_of s = None \<Longrightarrow> bound_guard s v loc f refuse ind = []"
  by (simp add: bound_guard_def)

lemma bound_guard_Some:
  assumes "valid_type rs s" and "bound_of s = Some n" and "spaces ind" and "refusal refuse"
  obtains m w1 w2 where
    "bound_guard s v loc f refuse ind =
       [m] @ (bound_line ind f n # (w1 # w2 # map (\<lambda>l. ind @ ''    '' @ l) refuse) @ [ind @ ''}''])"
    and "statement m" and "\<not> leaves m" and "statement w1" and "statement w2"
    and "guard_block (bound_line ind f n) (w1 # w2 # map (\<lambda>l. ind @ ''    '' @ l) refuse) (ind @ ''}'')"
proof -
  obtain sz where sz: "measure_of s v = Some sz"
    using measure_of_valid [OF assms(1,2)] by blast
  define m where "m = ind @ ''const qsizetype '' @ f @ ''Size{'' @ sz @ ''};''"
  define w1 where "w1 = ind @ ''    qWarning(\"%s: '%s' is declared %s and the value is %lld '' @ unit_of s @ ''; refused\",''"
  define w2 where "w2 = ind @ ''             \"'' @ loc @ ''\", \"'' @ f @ ''\", \"'' @ s @ ''\", static_cast<long long>('' @ f @ ''Size));''"
  have eq: "bound_guard s v loc f refuse ind =
       [m] @ (bound_line ind f n # (w1 # w2 # map (\<lambda>l. ind @ ''    '' @ l) refuse) @ [ind @ ''}''])"
    using assms(2) sz by (simp add: bound_guard_def m_def w1_def w2_def bound_line_def)
  have st: "statement m" "\<not> leaves m" "statement w1" "statement w2"
    using assms(3) unfolding m_def w1_def w2_def
    by (auto intro!: statement_indented by_first_char(1) simp: leaves_def unindent_spaces)
  have sp: "spaces (ind @ ''    '')" using assms(3) by (simp add: spaces_def)
  have "guard_block (bound_line ind f n) (w1 # w2 # map (\<lambda>l. ind @ ''    '' @ l) refuse) (ind @ ''}'')"
    using assms(3,4) st statements_indented [OF sp, of refuse]
    by (simp add: guard_block_def refusal_def bound_line_def) (simp add: opens_def closes_def swaps_def)
  with eq st show thesis by (rule that)
qed

lemma bound_guard_flow:
  assumes "valid_type rs s" and "spaces ind" and "refusal refuse"
  shows "(\<exists>n. bound_of s = Some n \<and> holds (bound_line ind f n)) \<Longrightarrow>
      stops holds (bound_guard s v loc f refuse ind)"
    and "(\<nexists>n. bound_of s = Some n \<and> holds (bound_line ind f n)) \<Longrightarrow>
      passes holds (bound_guard s v loc f refuse ind)"
proof -
  assume "\<exists>n. bound_of s = Some n \<and> holds (bound_line ind f n)"
  then obtain n where n: "bound_of s = Some n" and h: "holds (bound_line ind f n)" by blast
  show "stops holds (bound_guard s v loc f refuse ind)"
    by (rule bound_guard_Some [OF assms(1) n assms(2,3), of v loc f],
        simp only: , rule passes_stops [OF passes_statements guard_stops(1)], simp_all add: h)
next
  assume no: "\<nexists>n. bound_of s = Some n \<and> holds (bound_line ind f n)"
  show "passes holds (bound_guard s v loc f refuse ind)"
  proof (cases "bound_of s")
    case (Some n)
    show ?thesis
      by (rule bound_guard_Some [OF assms(1) Some assms(2,3), of v loc f],
          simp only: , rule passes_append [OF passes_statements guard_passes(1)], use no Some in simp_all)
  qed (simp add: bound_guard_None)
qed

text \<open>A list of parameters is refused when one of them breaks the bound it declares.\<close>

definition over_bound :: "(string \<Rightarrow> bool) \<Rightarrow> param \<Rightarrow> bool" where
  "over_bound holds p \<longleftrightarrow> (case bound_of (par_type p) of
     None \<Rightarrow> False | Some n \<Rightarrow> holds (bound_line ''    '' (par_name p) n))"

abbreviation param_guards :: "string \<Rightarrow> string list \<Rightarrow> param list \<Rightarrow> string list" where
  "param_guards loc refuse ps \<equiv> concat (map (\<lambda>p. bound_guard (par_type p) (par_name p) loc
     (par_name p) refuse ''    '') ps)"

lemma param_guards_flow:
  assumes "typed_params rs ps" and "refusal refuse"
  shows "list_ex (over_bound holds) ps \<Longrightarrow> stops holds (param_guards loc refuse ps)"
    and "\<not> list_ex (over_bound holds) ps \<Longrightarrow> passes holds (param_guards loc refuse ps)"
proof -
  let ?g = "\<lambda>p. bound_guard (par_type p) (par_name p) loc (par_name p) refuse ''    ''"
  have flow: "over_bound holds p \<Longrightarrow> stops holds (?g p)" "\<not> over_bound holds p \<Longrightarrow> passes holds (?g p)"
    if "p \<in> set ps" for p
    using bound_guard_flow [of rs "par_type p" "''    ''" refuse holds "par_name p" "par_name p" loc] that assms
    by (auto simp: typed_params_def over_bound_def split: option.splits)
  then show "\<not> list_ex (over_bound holds) ps \<Longrightarrow> passes holds (param_guards loc refuse ps)"
    by (auto simp: list_ex_iff intro!: passes_concat)
  assume "list_ex (over_bound holds) ps"
  then obtain p where "p \<in> set ps" "over_bound holds p" by (auto simp: list_ex_iff)
  then show "stops holds (param_guards loc refuse ps)"
    using flow by (intro stops_concat [of "?g p"]) auto
qed

section \<open>Gates\<close>

definition gate_line :: "string list \<Rightarrow> string" where
  "gate_line gate = ''    if (!synqtAllows('' @ gate_literal gate @ '')) {''"

definition gate_shut :: "(string \<Rightarrow> bool) \<Rightarrow> string list \<Rightarrow> bool" where
  "gate_shut holds gate \<longleftrightarrow> gate \<noteq> [] \<and> holds (gate_line gate)"

lemma gate_guard_block: "refusal body \<Longrightarrow> guard_block (gate_line gate) body ''    }''"
  by (simp add: guard_block_def refusal_def gate_line_def) (simp add: opens_def closes_def swaps_def)

lemma gate_flow:
  assumes "refusal body"
  shows "gate_shut holds gate \<Longrightarrow> stops holds (only_if (gate \<noteq> []) (gate_line gate # body @ [''    }'']))"
    and "\<not> gate_shut holds gate \<Longrightarrow> passes holds (only_if (gate \<noteq> []) (gate_line gate # body @ [''    }'']))"
  using guard_stops(1) [OF gate_guard_block [OF assms]] guard_passes(1) [OF gate_guard_block [OF assms]]
  by (auto simp: gate_shut_def only_if_def)

lemma flow_run:
  "passes holds xs \<Longrightarrow> run holds 0 (xs @ rest) = run holds 0 xs @ run holds 0 rest"
  "stops holds xs \<Longrightarrow> run holds 0 (xs @ rest) = run holds 0 xs"
  by (simp_all add: passes_def stops_def)

lemma block_passes:
  assumes "opens l" and "list_all statement body" and "list_all (\<lambda>l. \<not> leaves l) body"
    and "closes c" and "\<not> opens c" and "\<not> swaps c"
  shows "passes holds (l # body @ [c])"
  using assms run_statements [of body holds] by (auto simp: passes_def run_skips)

lemma set_run_subset: "set (run holds d ls) \<subseteq> set ls"
  by (induction holds d ls rule: run.induct) auto

lemma gate_run:
  assumes "refusal body"
  shows "run holds 0 (only_if (gate \<noteq> []) (gate_line gate # body @ [''    }'']) @ rest) =
    (if gate_shut holds gate then run holds 0 body else run holds 0 rest)"
proof -
  note block = gate_guard_block [OF assms, of gate]
  show ?thesis
  proof (cases "gate \<noteq> [] \<and> holds (gate_line gate)")
    case True
    then show ?thesis
      using guard_stops [OF block, of holds] by (simp add: only_if_def gate_shut_def stops_def del: run.simps)
  next
    case False
    then show ?thesis
      using guard_passes [OF block, of holds] by (auto simp: only_if_def gate_shut_def passes_def simp del: run.simps)
  qed
qed

section \<open>Slots\<close>

definition refused :: "(string \<Rightarrow> bool) \<Rightarrow> string list \<Rightarrow> param list \<Rightarrow> bool" where
  "refused holds gate ps \<longleftrightarrow> gate_shut holds gate \<or> list_ex (over_bound holds) ps"

text \<open>A gate, then the bounds of the parameters: the order in which slots and signals check.\<close>

lemma checks_flow:
  assumes "typed_params rs ps" and "refusal body" and "refusal refuse"
  shows "refused holds gate ps \<Longrightarrow> stops holds
      (only_if (gate \<noteq> []) (gate_line gate # body @ [''    }'']) @ param_guards loc refuse ps)"
    and "\<not> refused holds gate ps \<Longrightarrow> passes holds
      (only_if (gate \<noteq> []) (gate_line gate # body @ [''    }'']) @ param_guards loc refuse ps)"
proof -
  note gate = gate_flow [OF assms(2), of holds gate]
  note bounds = param_guards_flow [OF assms(1,3), of holds loc]
  show "\<not> refused holds gate ps \<Longrightarrow> passes holds
      (only_if (gate \<noteq> []) (gate_line gate # body @ [''    }'']) @ param_guards loc refuse ps)"
    unfolding refused_def by (intro passes_append gate(2) bounds(2)) auto
  assume r: "refused holds gate ps"
  show "stops holds (only_if (gate \<noteq> []) (gate_line gate # body @ [''    }'']) @ param_guards loc refuse ps)"
  proof (cases "gate_shut holds gate")
    case True
    then show ?thesis by (intro stops_append gate(1))
  next
    case False
    then show ?thesis using r unfolding refused_def by (intro passes_stops gate(2) bounds(1)) auto
  qed
qed

definition session_lines :: "syn_file \<Rightarrow> string list" where
  \<open>session_lines syn = only_if (forwards_session syn)
     (''    if (m_synqtCaller) {'' #
      [''        QMetaObject::invokeMethod(m_synqtCaller.data(), "assumeSession",'',
       ''                                  Qt::DirectConnection,'',
       ''                                  Q_ARG(QVariantMap, '' @ SESSION_ARG @ ''));'']
      @ [''    }''])\<close>

lemma session_passes: "passes holds (session_lines syn)"
proof -
  have \<open>passes holds (''    if (m_synqtCaller) {'' #
      [''        QMetaObject::invokeMethod(m_synqtCaller.data(), "assumeSession",'',
       ''                                  Qt::DirectConnection,'',
       ''                                  Q_ARG(QVariantMap, '' @ SESSION_ARG @ ''));''] @ [''    }''])\<close>
    by (rule block_passes) (auto simp: leaves_def opens_def closes_def swaps_def intro: by_first_char(1))
  then show ?thesis by (simp add: session_lines_def only_if_def)
qed

definition span_lines :: "string \<Rightarrow> syn_slot \<Rightarrow> string list" where
  \<open>span_lines cls s =
     [''    SynqtCallSpan synqtSpan{"'' @ cls @ ''", "'' @ slot_name s @ ''",'',
      ''                            m_synqtCaller.data(), '' @ dec (length (slot_params s)) @ ''};'']\<close>

definition scope_refusal :: "string \<Rightarrow> string list \<Rightarrow> string list" where
  \<open>scope_refusal loc refuse =
     [''        qWarning("%s: refused, the caller does not hold the scope it needs",'',
      ''                 "'' @ loc @ ''");'',
      ''        synqtSpan.refuse("scope");'']
     @ map (\<lambda>line. ''        '' @ line) refuse\<close>

lemma slot_checks_split:
  \<open>slot_checks syn cls s refuse =
     session_lines syn @ span_lines cls s
     @ only_if (slot_scope s \<noteq> [])
         (gate_line (slot_scope s) # scope_refusal (cls @ ''.'' @ slot_name s) refuse @ [''    }''])
     @ param_guards (cls @ ''.'' @ slot_name s) (''synqtSpan.refuse("bound");'' # refuse) (slot_params s)\<close>
  by (simp only: slot_checks_def Let_def session_lines_def span_lines_def scope_refusal_def gate_line_def
      append.simps append_assoc)

lemma span_passes: "passes holds (span_lines cls s)"
  unfolding span_lines_def
  by (rule passes_statements) (auto simp: leaves_def intro: by_first_char(1))

lemma refusal_scope: "refusal refuse \<Longrightarrow> refusal (scope_refusal loc refuse)"
  using statements_indented [of "''        ''" refuse]
  by (auto simp: refusal_def scope_refusal_def simp del: append.simps(2)) (auto intro: by_first_char(1))

lemma refusal_bound: \<open>refusal refuse \<Longrightarrow> refusal (''synqtSpan.refuse("bound");'' # refuse)\<close>
  by (auto simp: refusal_def intro: by_first_char(1))

lemma slot_checks_flow:
  assumes "typed_params rs (slot_params s)" and "refusal refuse"
  shows "refused holds (slot_scope s) (slot_params s) \<Longrightarrow> stops holds (slot_checks syn cls s refuse)"
    and "\<not> refused holds (slot_scope s) (slot_params s) \<Longrightarrow> passes holds (slot_checks syn cls s refuse)"
proof -
  note checks = checks_flow [OF assms(1) refusal_scope [OF assms(2)] refusal_bound [OF assms(2)]]
  show "refused holds (slot_scope s) (slot_params s) \<Longrightarrow> stops holds (slot_checks syn cls s refuse)"
    unfolding slot_checks_split by (intro passes_stops session_passes span_passes checks(1))
  show "\<not> refused holds (slot_scope s) (slot_params s) \<Longrightarrow> passes holds (slot_checks syn cls s refuse)"
    unfolding slot_checks_split by (intro passes_append [OF session_passes] passes_append [OF span_passes] checks(2))
qed

lemma refusal_slot: "refusal (slot_refuse s ret)"
  by (auto simp: slot_refuse_def refusal_def leaves_def intro: by_first_char(1))

text \<open>
  C3. The body of a generated slot: whatever its conditions evaluate to, the lines that reach the
  owner (the relay, the shared Source, the QML implementation) execute exactly when the caller's
  scope is one the member is gated on and no argument exceeds the bound its type declares. The
  checks are the first lines of the function the emitter writes.
\<close>

theorem slot_impl_guarded:
  assumes "slot_impl syn cls s rs path = Inr out"
  shows "\<exists>ret params relay.
    out = ret @ '' '' @ cls @ ''SourceHelper::'' @ slot_name s @ ''('' @ params @ '')'' @ nl @ ''{'' @ nl
      @ join nl (slot_lines syn cls s ret relay) @ nl @ ''}'' \<and>
    (\<forall>holds. run holds 0 (slot_lines syn cls s ret relay) =
       run holds 0 (slot_checks syn cls s (slot_refuse s ret))
       @ (if refused holds (slot_scope s) (slot_params s) then []
          else run holds 0 (slot_dispatch syn cls s ret (slot_refuse s ret) relay)))"
proof -
  have typed: "typed_params rs (slot_params s)"
    using assms is_ok_slot_impl [of syn cls s rs path] by (simp add: typed_member_slot del: typed_member.simps)
  have flow: "run holds 0 (slot_lines syn cls s ret relay) =
      run holds 0 (slot_checks syn cls s (slot_refuse s ret))
      @ (if refused holds (slot_scope s) (slot_params s) then []
         else run holds 0 (slot_dispatch syn cls s ret (slot_refuse s ret) relay))" for holds ret relay
    by (simp add: slot_lines_def slot_checks_flow [OF typed refusal_slot] flow_run)
  obtain ret params relay where
    "out = ret @ '' '' @ cls @ ''SourceHelper::'' @ slot_name s @ ''('' @ params @ '')'' @ nl @ ''{'' @ nl
      @ join nl (slot_lines syn cls s ret relay) @ nl @ ''}''"
    using assms by (auto simp: slot_impl_def bindr_eq_Inr Let_def simp del: append.simps)
  then show ?thesis using flow by blast
qed

theorem slot_impl_guarded_witness:
  "\<exists>out ret relay. slot_impl sample_syn ''Board'' sample_slot [] ''board.syn'' = Inr out \<and>
    run (\<lambda>_. True) 0 (slot_lines sample_syn ''Board'' sample_slot ret relay) =
      run (\<lambda>_. True) 0 (slot_checks sample_syn ''Board'' sample_slot (slot_refuse sample_slot ret)) \<and>
    suffix (join nl (slot_lines sample_syn ''Board'' sample_slot ret relay) @ nl @ ''}'') out"
proof -
  have shut: "refused (\<lambda>_. True) (slot_scope sample_slot) (slot_params sample_slot)"
    by (simp add: refused_def gate_shut_def sample_slot_def)
  obtain out where out: "slot_impl sample_syn ''Board'' sample_slot [] ''board.syn'' = Inr out"
    using is_ok_slot_impl [THEN iffD2, OF sample_typed(1)] by (rule is_okE)
  from slot_impl_guarded [OF out] obtain ret params relay where
    "out = ret @ '' '' @ ''Board'' @ ''SourceHelper::'' @ slot_name sample_slot @ ''('' @ params @ '')'' @ nl @ ''{'' @ nl
      @ join nl (slot_lines sample_syn ''Board'' sample_slot ret relay) @ nl @ ''}''"
    and flow: "\<And>holds. run holds 0 (slot_lines sample_syn ''Board'' sample_slot ret relay) =
       run holds 0 (slot_checks sample_syn ''Board'' sample_slot (slot_refuse sample_slot ret))
       @ (if refused holds (slot_scope sample_slot) (slot_params sample_slot) then []
          else run holds 0 (slot_dispatch sample_syn ''Board'' sample_slot ret (slot_refuse sample_slot ret) relay))"
    by metis
  then have "suffix (join nl (slot_lines sample_syn ''Board'' sample_slot ret relay) @ nl @ ''}'') out"
    unfolding suffix_def by (metis append_assoc)
  moreover have "run (\<lambda>_. True) 0 (slot_lines sample_syn ''Board'' sample_slot ret relay) =
      run (\<lambda>_. True) 0 (slot_checks sample_syn ''Board'' sample_slot (slot_refuse sample_slot ret))"
    unfolding flow by (simp only: shut if_True append_Nil2)
  ultimately show ?thesis using out by (intro exI conjI)
qed

text \<open>
  A slot whose gate is shut records the refusal before it leaves: what executes is the session
  adoption, the call span, the warning, \<open>synqtSpan.refuse\<close> with the reason, and the return; no
  argument is measured.
\<close>

theorem slot_scope_refusal:
  assumes "gate_shut holds (slot_scope s)"
  shows "run holds 0 (slot_checks syn cls s (slot_refuse s ret)) =
    run holds 0 (session_lines syn) @ span_lines cls s @ scope_refusal (cls @ ''.'' @ slot_name s) (slot_refuse s ret)"
proof -
  let ?body = "scope_refusal (cls @ ''.'' @ slot_name s) (slot_refuse s ret)"
  have gb: "guard_block (gate_line (slot_scope s)) ?body ''    }''"
    by (intro gate_guard_block refusal_scope refusal_slot)
  have h: "holds (gate_line (slot_scope s))" "slot_scope s \<noteq> []"
    using assms by (auto simp: gate_shut_def)
  have body: "run holds 0 ?body = ?body"
    by (simp add: scope_refusal_def slot_refuse_def opens_def closes_def swaps_def leaves_def)
  have "run holds 0 (span_lines cls s @ rest) = span_lines cls s @ run holds 0 rest" for rest
    unfolding span_lines_def by (rule run_statements) (auto simp: leaves_def intro: by_first_char(1))
  then show ?thesis
    using guard_stops [OF gb, of holds, OF h(1)] h(2) flow_run(1) [OF session_passes] body
    by (simp only: slot_checks_split only_if_def if_True append_assoc append_Cons stops_def) simp
qed

theorem slot_scope_refusal_witness:
  "gate_shut (\<lambda>_. True) (slot_scope sample_slot) \<and>
   run (\<lambda>_. True) 0 (slot_checks sample_syn ''Board'' sample_slot (slot_refuse sample_slot ''bool'')) =
    run (\<lambda>_. True) 0 (session_lines sample_syn) @ span_lines ''Board'' sample_slot
    @ scope_refusal (''Board'' @ ''.'' @ slot_name sample_slot) (slot_refuse sample_slot ''bool'')"
proof -
  have shut: "gate_shut (\<lambda>_. True) (slot_scope sample_slot)" by (simp add: gate_shut_def sample_slot_def)
  show ?thesis using shut slot_scope_refusal [OF shut] by blast
qed

section \<open>Signals\<close>

definition emit_line :: "syn_signal \<Rightarrow> string" where
  "emit_line s = ''    Q_EMIT '' @ signal_name s @ ''('' @ join '', '' (map par_name (signal_params s)) @ '');''"

lemma emit_signal_split:
  "emit_signal_lines cls s =
     (only_if (signal_scope s \<noteq> []) (gate_line (signal_scope s) # [''        return;''] @ [''    }''])
      @ param_guards (cls @ ''.'' @ signal_name s) [''return;''] (signal_params s)) @ [emit_line s]"
  by (simp add: emit_signal_lines_def Let_def gate_line_def emit_line_def)

definition raises :: "string \<Rightarrow> bool" where
  "raises l \<longleftrightarrow> startswith (unindent l) ''Q_EMIT ''"

lemma by_first_char_raises: "unindent l = c # cs \<Longrightarrow> c \<noteq> CHR ''Q'' \<Longrightarrow> \<not> raises l"
  by (simp add: raises_def)

lemma bound_guard_raises:
  "x \<in> set (bound_guard t v loc f [''return;''] ''    '') \<Longrightarrow> \<not> raises x"
  by (cases "bound_of t"; cases "measure_of t v") (auto simp: bound_guard_def raises_def Let_def)

text \<open>
  A generated \<open>emit<Signal>\<close> raises its signal exactly when the caller holds a scope of its
  gate and no argument exceeds the bound its type declares, and it raises it once.
\<close>

theorem emit_signal_guarded:
  assumes "typed_params rs (signal_params s)"
  shows "filter raises (run holds 0 (emit_signal_lines cls s)) =
    (if refused holds (signal_scope s) (signal_params s) then [] else [emit_line s])"
proof -
  let ?gate = "only_if (signal_scope s \<noteq> []) (gate_line (signal_scope s) # [''        return;''] @ [''    }''])"
  let ?bounds = "param_guards (cls @ ''.'' @ signal_name s) [''return;''] (signal_params s)"
  have ret: "refusal [''return;'']" "refusal [''        return;'']"
    by (auto simp: refusal_def leaves_def intro: by_first_char(1))
  note flow = checks_flow [OF assms ret(2,1), of holds "signal_scope s" "cls @ ''.'' @ signal_name s"]
  have quiet: "filter raises (run holds 0 (?gate @ ?bounds)) = []"
  proof -
    have "\<not> raises x" if "x \<in> set (?gate @ ?bounds)" for x
      using that bound_guard_raises
      by (auto simp: only_if_def gate_line_def raises_def [of "_ # _"] split: if_splits)
    then show ?thesis using set_run_subset [of holds 0 "?gate @ ?bounds"] by (auto simp only: filter_empty_conv)
  qed
  have last: "run holds 0 [emit_line s] = [emit_line s]" "raises (emit_line s)"
    by (simp_all add: emit_line_def raises_def opens_def swaps_def closes_def leaves_def)
  show ?thesis
  proof (cases "refused holds (signal_scope s) (signal_params s)")
    case True
    then show ?thesis unfolding emit_signal_split flow_run(2) [OF flow(1) [OF True]] quiet by simp
  next
    case False
    then show ?thesis
      unfolding emit_signal_split flow_run(1) [OF flow(2) [OF False]] filter_append quiet last(1)
      by (simp add: last(2))
  qed
qed

theorem emit_signal_guarded_witness:
  "typed_params [] (signal_params sample_signal) \<and>
   filter raises (run (\<lambda>_. False) 0 (emit_signal_lines ''Board'' sample_signal)) = [emit_line sample_signal]"
proof -
  have typed: "typed_params [] (signal_params sample_signal)"
    using sample_typed(2) by (simp add: typed_params_def)
  have "\<not> refused (\<lambda>_. False) (signal_scope sample_signal) (signal_params sample_signal)"
    by (auto simp: refused_def gate_shut_def over_bound_def list_ex_iff split: option.splits)
  then show ?thesis using typed emit_signal_guarded [OF typed, of "\<lambda>_. False" "''Board''"] by simp
qed

section \<open>Properties and models\<close>

text \<open>
  A generated property setter: a value over its bound changes nothing; a caller outside the
  gate is published the type's default while the value is remembered for a later scope change; a
  caller inside it, or a property with no gate, is published the value.
\<close>

theorem bounded_prop_guarded:
  assumes "valid_type rs (prop_type p)" and "is_ident cls"
  shows "run holds 0 (bounded_prop_lines cls p ctype) =
    run holds 0 (bound_guard (prop_type p) (prop_name p) (cls @ ''.'' @ prop_name p) (prop_name p) [''return;''] ''    '')
    @ (if \<exists>n. bound_of (prop_type p) = Some n \<and> holds (bound_line ''    '' (prop_name p) n) then []
       else only_if (prop_scope p \<noteq> []) [''    m_synqt'' @ cap (prop_name p) @ '' = '' @ prop_name p @ '';'']
         @ (if gate_shut holds (prop_scope p)
            then [''        '' @ cls @ ''SimpleSource::set'' @ cap (prop_name p) @ ''('' @ ctype @ ''{});'', ''        return;'']
            else [''    '' @ cls @ ''SimpleSource::set'' @ cap (prop_name p) @ ''('' @ prop_name p @ '');'']))"
  (is "_ = run holds 0 ?guard @ (if ?over then [] else ?keep @ (if _ then ?shut else [?open]))")
proof -
  define publish where "publish = ?open"
  define hide where "hide = ?shut"
  define keep where "keep = ''    m_synqt'' @ cap (prop_name p) @ '' = '' @ prop_name p @ '';''"
  have split: "bounded_prop_lines cls p ctype = ?guard
      @ only_if (prop_scope p \<noteq> []) [keep]
      @ only_if (prop_scope p \<noteq> []) (gate_line (prop_scope p) # hide @ [''    }'']) @ [publish]"
    by (simp add: bounded_prop_lines_def Let_def gate_line_def keep_def hide_def publish_def only_if_def)
  have word: "list_all ident_char (cls @ ''SimpleSource'')"
    using assms(2) by (auto simp: is_ident_def char_class_defs)
  note line = word_line [OF _ word, simplified]
  have publish: "statement publish" "\<not> leaves publish" and h1: "statement (hd hide)" "\<not> leaves (hd hide)"
    using line [of "''    ''"] line [of "''        ''"] by (simp_all add: publish_def hide_def)
  have hide: "refusal hide" "run holds 0 hide = hide"
    using h1 by (auto simp: hide_def refusal_def statement_def leaves_def opens_def closes_def swaps_def)
  have keep: "passes holds (only_if (prop_scope p \<noteq> []) [keep])"
      "run holds 0 (only_if (prop_scope p \<noteq> []) [keep]) = only_if (prop_scope p \<noteq> []) [keep]"
    by (auto simp: only_if_def keep_def statement_def opens_def closes_def swaps_def leaves_def intro!: passes_statements)
  have ret: "refusal [''return;'']" by (auto simp: refusal_def leaves_def intro: by_first_char(1))
  note guard = bound_guard_flow [OF assms(1) _ ret, of "''    ''" holds "prop_name p" "prop_name p" "cls @ ''.'' @ prop_name p", simplified spaces_simps]
  have publish1: "run holds 0 [publish] = [publish]"
    using publish by (simp add: statement_def)
  have rest: "run holds 0 (only_if (prop_scope p \<noteq> []) [keep]
      @ only_if (prop_scope p \<noteq> []) (gate_line (prop_scope p) # hide @ [''    }'']) @ [publish]) =
      only_if (prop_scope p \<noteq> []) [keep] @ (if gate_shut holds (prop_scope p) then hide else [publish])"
    by (simp only: flow_run(1) [OF keep(1)] keep(2) gate_run [OF hide(1)] hide(2) publish1)
  show ?thesis
    unfolding split
    using flow_run [of holds ?guard] guard rest by (auto simp: keep_def hide_def publish_def simp del: run.simps)
qed

theorem bounded_prop_guarded_witness:
  "valid_type [] (prop_type sample_prop) \<and> is_ident ''Board'' \<and>
   run (\<lambda>l. l = gate_line [''admin'']) 0 (bounded_prop_lines ''Board'' sample_prop ''QString'') =
    run (\<lambda>l. l = gate_line [''admin'']) 0
      (bound_guard ''string[64]'' ''title'' ''Board.title'' ''title'' [''return;''] ''    '')
    @ [''    m_synqtTitle = title;'', ''        BoardSimpleSource::setTitle(QString{});'', ''        return;'']"
proof -
  let ?h = "\<lambda>l. l = gate_line [''admin'']"
  have v: "valid_type [] (prop_type sample_prop)" and i: "is_ident ''Board''" by code_simp+
  have over: "\<not> (\<exists>n. bound_of (prop_type sample_prop) = Some n \<and> ?h (bound_line ''    '' (prop_name sample_prop) n))"
    by (simp add: bound_line_def gate_line_def sample_prop_def)
  have shut: "gate_shut ?h (prop_scope sample_prop)" by (simp add: gate_shut_def sample_prop_def)
  have "cap ''title'' = ''Title''" by code_simp
  then show ?thesis
    using v i bounded_prop_guarded [OF v i, of ?h "''QString''"] over shut
    by (simp add: only_if_def) (simp add: sample_prop_def)
qed

text \<open>
  A generated model setter: for a caller outside the gate what executes is the remembering of
  the rows, the clearing of the model, its publication empty, the notification and the return, so
  no row is converted or published; otherwise the conversion that follows runs.
\<close>

theorem set_model_gated:
  assumes "is_ident cls"
  shows "run holds 0 (set_model_head cls m @ rest) =
    take 3 (set_model_head cls m)
    @ only_if (model_scope m \<noteq> []) [''    m_'' @ model_name m @ ''Rows = rows;'']
    @ (if gate_shut holds (model_scope m)
       then [''        m_'' @ model_name m @ ''Model.clear();'',
             ''        '' @ cls @ ''SimpleSource::set'' @ cap (model_name m) @ ''(&m_'' @ model_name m @ ''Model);'',
             ''        Q_EMIT '' @ model_name m @ ''RowsChanged();'',
             ''        return;'']
       else run holds 0 rest)"
  (is "_ = _ @ ?keep @ (if _ then ?hide else _)")
proof -
  define hide where "hide = ?hide"
  define sig where "sig = take 3 (set_model_head cls m)"
  have split: "set_model_head cls m @ rest = (sig @ ?keep)
      @ only_if (model_scope m \<noteq> []) (gate_line (model_scope m) # hide @ [''    }'']) @ rest"
    by (simp add: sig_def set_model_head_def Let_def gate_line_def hide_def only_if_def)
  have word: "list_all ident_char (cls @ ''SimpleSource'')"
    using assms by (auto simp: is_ident_def char_class_defs)
  have "statement (hide ! 1)" "\<not> leaves (hide ! 1)"
    using word_line [OF _ word, of "''        ''"] by (simp_all add: hide_def)
  then have hide: "refusal hide" "run holds 0 hide = hide"
    by (auto simp: hide_def refusal_def statement_def leaves_def opens_def closes_def swaps_def)
  have pre: "run holds 0 ((sig @ ?keep) @ ls) = (sig @ ?keep) @ run holds 0 ls" for ls
    by (rule run_statements)
       (auto simp: sig_def set_model_head_def Let_def only_if_def leaves_def intro: by_first_char(1))
  show ?thesis
    unfolding split pre gate_run [OF hide(1)] hide(2) by (simp add: sig_def hide_def)
qed

theorem set_model_gated_witness:
  "is_ident ''Board'' \<and>
   run (\<lambda>_. True) 0 (set_model_head ''Board'' sample_model @ [''    rest;'']) =
     take 3 (set_model_head ''Board'' sample_model) @ [''    rest;'']"
proof -
  have i: "is_ident ''Board''" by code_simp
  have "\<not> gate_shut (\<lambda>_. True) (model_scope sample_model)" "model_scope sample_model = []"
    by (simp_all add: gate_shut_def sample_model_def)
  moreover have "run (\<lambda>_. True) 0 [''    rest;''] = [''    rest;'']" by code_simp
  ultimately show ?thesis
    using i set_model_gated [OF i, of "\<lambda>_. True" sample_model "[''    rest;'']"]
    by (simp only: if_False only_if_def simp_thms append_Nil)
qed

end
