(* ===== verification/TextStore.thy ===== *)
theory TextStore
  imports SynPrelude
begin

text \<open>
  The files a tool writes. Two modules write a file only when its content differs, so that an
  unchanged output keeps its timestamp: \<open>_write\<close> of \<open>synqtc/cli.py\<close> and \<open>synqt/writer.py\<close>. What
  both promise is the locale \<open>text_writer\<close>, in which the lemmas on writing many files are proved
  once.
\<close>

section \<open>Text files\<close>

text \<open>Reading a file in text mode: Python turns the three ends of a line into one.\<close>

fun universal_newlines :: "string \<Rightarrow> string" where
  "universal_newlines [] = []"
| "universal_newlines (c # cs) =
     (if c = CHR 0x0D
      then CHR 0x0A # (case cs of d # ds \<Rightarrow> if d = CHR 0x0A then universal_newlines ds else universal_newlines cs
                                | [] \<Rightarrow> [])
      else c # universal_newlines cs)"

record world =
  files :: "string \<Rightarrow> string option"
  written_log :: "string list"
  stdout :: "string list"
  stderr :: "string list"

definition read_text :: "world \<Rightarrow> string \<Rightarrow> string option" where
  "read_text w path = map_option universal_newlines (files w path)"

section \<open>Plain text\<close>

text \<open>Printable ASCII and newlines: the text that survives being written and read back.\<close>

definition printable :: "char \<Rightarrow> bool" where
  "printable c \<longleftrightarrow> c = CHR 0x0A \<or> (0x20 \<le> (of_char c :: nat) \<and> (of_char c :: nat) < 0x7F)"

definition plain :: "string \<Rightarrow> bool" where
  "plain s \<longleftrightarrow> list_all printable s"

lemma plain_simps [simp]:
  "plain []" "plain (c # cs) \<longleftrightarrow> printable c \<and> plain cs" "plain (xs @ ys) \<longleftrightarrow> plain xs \<and> plain ys"
  "plain (replicate n (CHR '' ''))"
  by (auto simp: plain_def printable_def list_all_iff)

lemma printable_literal [simp]: "printable (Char b0 b1 b2 b3 b4 b5 b6 b7) \<longleftrightarrow>
  Char b0 b1 b2 b3 b4 b5 b6 b7 = CHR 0x0A \<or>
  (0x20 \<le> (of_char (Char b0 b1 b2 b3 b4 b5 b6 b7) :: nat) \<and> (of_char (Char b0 b1 b2 b3 b4 b5 b6 b7) :: nat) < 0x7F)"
  by (rule printable_def)

lemma plain_subset: "plain s \<Longrightarrow> set t \<subseteq> set s \<Longrightarrow> plain t"
  by (auto simp: plain_def list_all_iff)

lemma universal_newlines_plain: "plain s \<Longrightarrow> universal_newlines s = s"
  by (induction s rule: universal_newlines.induct) (auto split: list.splits)

section \<open>Writing only what changed\<close>

fun write_each :: "(string \<Rightarrow> string \<Rightarrow> world \<Rightarrow> world) \<Rightarrow> (string \<times> string) list \<Rightarrow> world \<Rightarrow> world" where
  "write_each wr [] w = w"
| "write_each wr ((target, content) # rest) w = write_each wr rest (wr target content w)"

locale text_writer =
  fixes wr :: "string \<Rightarrow> string \<Rightarrow> world \<Rightarrow> world"
  assumes reads_back: "plain c \<Longrightarrow> read_text (wr p c w) p = Some c"
    and leaves_others: "q \<noteq> p \<Longrightarrow> files (wr p c w) q = files w q"
    and keeps_current: "read_text w p = Some c \<Longrightarrow> wr p c w = w"
    and keeps_console: "stdout (wr p c w) = stdout w" "stderr (wr p c w) = stderr w"
begin

lemma each_other: "q \<notin> fst ` set ts \<Longrightarrow> files (write_each wr ts w) q = files w q"
  by (induction ts arbitrary: w) (auto simp: leaves_others)

lemma each_same:
  assumes "distinct (map fst ts)" and "\<forall>(p, c) \<in> set ts. plain c" and "(p, c) \<in> set ts"
  shows "read_text (write_each wr ts w) p = Some c"
  using assms
proof (induction ts arbitrary: w)
  case (Cons td rest)
  obtain t d where td: "td = (t, d)" by fastforce
  show ?case
  proof (cases "(p, c) = (t, d)")
    case True
    then show ?thesis
      using Cons.prems reads_back [of d t w] each_other [of t rest] by (auto simp: td read_text_def)
  next
    case False
    then show ?thesis using Cons by (auto simp: td)
  qed
qed simp

lemma each_again: "(\<forall>(p, c) \<in> set ts. read_text w p = Some c) \<Longrightarrow> write_each wr ts w = w"
  by (induction ts) (auto simp: keeps_current)

lemma each_console: "stdout (write_each wr ts w) = stdout w" "stderr (write_each wr ts w) = stderr w"
  by (induction ts arbitrary: w) (auto simp: keeps_console)

end

section \<open>writer.py\<close>

definition write_if_changed :: "string \<Rightarrow> string \<Rightarrow> world \<Rightarrow> bool \<times> world" where
  "write_if_changed path content w =
     (if read_text w path = Some content then (False, w)
      else (True, w\<lparr>files := (files w)(path \<mapsto> content), written_log := written_log w @ [path]\<rparr>))"

interpretation writer: text_writer "\<lambda>path content w. snd (write_if_changed path content w)"
  by unfold_locales (auto simp: write_if_changed_def read_text_def universal_newlines_plain)

end
