(* ===== verification/SynCompiler.thy ===== *)
theory SynCompiler
  imports EmitProps TextStore
begin

text \<open>
  The command line of the contract compiler, \<open>synqtc/cli.py\<close>, with \<open>parse_file\<close> of
  \<open>synqtc/parser.py\<close>. The state is the files by path, the log of the paths opened for writing
  (what moves a timestamp) and what was printed. Directories are not modelled: \<open>os.makedirs\<close>
  with \<open>exist_ok\<close> changes no file, and writing into the directory it made succeeds.
\<close>

section \<open>Paths\<close>

text \<open>\<open>str.rfind\<close> of one character: the part before its last occurrence and the part after it.\<close>

definition rsplit_char :: "char \<Rightarrow> string \<Rightarrow> (string \<times> string) option" where
  "rsplit_char c s =
     (if c \<in> set s
      then Some (rev (tl (dropWhile (\<lambda>x. x \<noteq> c) (rev s))), rev (takeWhile (\<lambda>x. x \<noteq> c) (rev s)))
      else None)"

definition basename :: "string \<Rightarrow> string" where
  "basename path = (case rsplit_char (CHR ''/'') path of None \<Rightarrow> path | Some (_, name) \<Rightarrow> name)"

text \<open>\<open>os.path.splitext\<close> of a name: leading dots start no extension.\<close>

definition splitext_root :: "string \<Rightarrow> string" where
  "splitext_root name =
     (case rsplit_char (CHR ''.'') name of
        None \<Rightarrow> name
      | Some (root, _) \<Rightarrow> if list_all (\<lambda>c. c = CHR ''.'') root then name else root)"

definition path_join :: "string \<Rightarrow> string \<Rightarrow> string" where
  "path_join a b =
     (if startswith b ''/'' then b
      else if a = [] \<or> last a = CHR ''/'' then a @ b
      else a @ ''/'' @ b)"

section \<open>parse_file, _write and generate\<close>

definition parse_file :: "string \<Rightarrow> world \<Rightarrow> syn_file res" where
  "parse_file path w =
     (case read_text w path of
        None \<Rightarrow> Inl (FileNotFoundError path)
      | Some t \<Rightarrow> parse_text t path (splitext_root (basename path)))"

definition write_file :: "string \<Rightarrow> string \<Rightarrow> world \<Rightarrow> world" where
  "write_file path content w =
     (if read_text w path = Some content then w
      else w\<lparr>files := (files w)(path \<mapsto> content), written_log := written_log w @ [path]\<rparr>)"

interpretation cli: text_writer write_file
  by unfold_locales (auto simp: write_file_def read_text_def universal_newlines_plain)

text \<open>The dictionary \<open>outputs\<close>, in the order the code fills it.\<close>

definition outputs :: "syn_file \<Rightarrow> (string \<times> string) list res" where
  "outputs syn =
     (let lstem = map to_lower (stem syn) in
      bindr (emit_rep syn) (\<lambda>rep.
      bindr (emit_source_helper_header syn lstem) (\<lambda>source_h.
      bindr (emit_source_helper_source syn lstem) (\<lambda>source_cpp.
      bindr (emit_consumer_header syn lstem) (\<lambda>consumer_h.
      bindr (emit_consumer_source syn lstem) (\<lambda>consumer_cpp.
        Inr [(lstem @ ''.rep'', rep),
             (lstem @ ''_sourcehelper.h'', source_h),
             (lstem @ ''_sourcehelper.cpp'', source_cpp),
             (lstem @ ''_replica.h'', emit_replica_header syn lstem),
             (lstem @ ''_replica.cpp'', emit_replica_source syn lstem),
             (lstem @ ''_consumer.h'', consumer_h),
             (lstem @ ''_consumer.cpp'', consumer_cpp)]))))))"

definition generate :: "string \<Rightarrow> string \<Rightarrow> bool \<Rightarrow> world \<Rightarrow> string list res \<times> world" where
  "generate input_path out_dir fwd w =
     (case bindr (parse_file input_path w) (\<lambda>syn. outputs (syn\<lparr>forwards_session := fwd\<rparr>)) of
        Inl e \<Rightarrow> (Inl e, w)
      | Inr outs \<Rightarrow>
          (let targets = map (\<lambda>(name, content). (path_join out_dir name, content)) outs in
           (Inr (map fst targets), write_each write_file targets w)))"

section \<open>main\<close>

record args =
  inputs :: "string list"
  out :: string
  quiet :: bool
  arg_forwards_session :: bool

text \<open>
  The loop of \<open>main\<close> over the arguments \<open>argparse\<close> returned. It catches \<open>SynError\<close> alone, so
  another exception would leave it: that is the \<open>Inl\<close> of the result.
\<close>

fun main_loop :: "string list \<Rightarrow> args \<Rightarrow> world \<Rightarrow> nat res \<times> world" where
  "main_loop [] a w = (Inr 0, w)"
| "main_loop (input_path # rest) a w =
     (if files w input_path = None
      then (Inr 1, w\<lparr>stderr := stderr w @ [input_path @ '': error: no such file'']\<rparr>)
      else case generate input_path (out a) (arg_forwards_session a) w of
             (Inl (SynError e), w') \<Rightarrow> (Inr 1, w'\<lparr>stderr := stderr w' @ [format_error e]\<rparr>)
           | (Inl e, w') \<Rightarrow> (Inl e, w')
           | (Inr targets, w') \<Rightarrow>
               main_loop rest a (if quiet a then w' else w'\<lparr>stdout := stdout w' @ targets\<rparr>))"

definition main :: "args \<Rightarrow> world \<Rightarrow> nat res \<times> world" where
  "main a w = main_loop (inputs a) a w"

end
