(* ===== verification/EmitPlain.thy ===== *)
theory EmitPlain
  imports SynCompiler
begin

text \<open>
  What the emitters write is printable ASCII and newlines, whatever the contract says: every name
  and every type of a parsed file is made of identifier characters and brackets. So the text
  survives being written and read back, which is what lets \<open>_write\<close> recognise it the next time.
\<close>

section \<open>Plain text\<close>

lemma plain_join: "plain sep \<Longrightarrow> list_all plain xs \<Longrightarrow> plain (join sep xs)"
  by (induction xs) (auto simp: join_Cons)

lemma plain_concat: "list_all plain xs \<Longrightarrow> plain (concat xs)"
  by (induction xs) auto

lemma list_all_only_if [simp]: "list_all P (only_if b xs) \<longleftrightarrow> (b \<longrightarrow> list_all P xs)"
  by (simp add: only_if_def)

lemma list_all_concat [simp]: "list_all P (concat xss) \<longleftrightarrow> (\<forall>xs \<in> set xss. list_all P xs)"
  by (auto simp: list_all_iff)

lemma list_all_map [simp]: "list_all P (map f xs) \<longleftrightarrow> (\<forall>x \<in> set xs. P (f x))"
  by (simp add: list_all_iff)

lemma plain_dec [simp]: "plain (dec n)"
  using is_number_dec [of n]
  by (auto simp: plain_def is_number_def list_all_iff printable_def is_digit_def less_eq_char_def)

lemma ident_char_printable: "ident_char c \<Longrightarrow> printable c"
  by (auto simp: char_class_defs printable_def)

lemma plain_ident: "is_ident s \<Longrightarrow> plain s"
  by (auto simp: is_ident_def plain_def list_all_iff ident_char_printable)

lemma plain_number: "is_number s \<Longrightarrow> plain s"
  by (auto simp: is_number_def plain_def list_all_iff ident_char_def ident_char_printable)

lemma plain_written_type: "written_type s \<Longrightarrow> plain s"
  by (auto simp: written_type_def plain_ident plain_number)

lemma to_upper_printable: "printable c \<Longrightarrow> printable (to_upper c)"
  by (auto simp: to_upper_def printable_def is_lower_def less_eq_char_def)

lemma to_lower_printable: "printable c \<Longrightarrow> printable (to_lower c)"
  by (auto simp: to_lower_def printable_def is_upper_def less_eq_char_def)

lemma plain_cap [intro!]: "plain s \<Longrightarrow> plain (cap s)"
  by (cases s) (simp_all add: cap_def to_upper_printable)

section \<open>Plain results\<close>

definition plainr :: "string res \<Rightarrow> bool" where
  "plainr r \<longleftrightarrow> (\<forall>t. r = Inr t \<longrightarrow> plain t)"

definition plainsr :: "string list res \<Rightarrow> bool" where
  "plainsr r \<longleftrightarrow> (\<forall>ls. r = Inr ls \<longrightarrow> list_all plain ls)"

lemma plain_results [simp]: "plainr (Inr t) \<longleftrightarrow> plain t" "plainsr (Inr ls) \<longleftrightarrow> list_all plain ls"
  by (auto simp: plainr_def plainsr_def)

lemma plainr_bind: "plainr r \<Longrightarrow> (\<And>x. plain x \<Longrightarrow> plainr (f x)) \<Longrightarrow> plainr (bindr r f)"
  by (cases r) (auto simp: plainr_def)

lemma plainsr_bind: "plainr r \<Longrightarrow> (\<And>x. plain x \<Longrightarrow> plainsr (f x)) \<Longrightarrow> plainsr (bindr r f)"
  by (cases r) (auto simp: plainr_def plainsr_def)

lemma plain_bind_lines:
  "plainsr r \<Longrightarrow> (\<And>x. list_all plain x \<Longrightarrow> plainr (f x)) \<Longrightarrow> plainr (bindr r f)"
  "plainsr r \<Longrightarrow> (\<And>x. list_all plain x \<Longrightarrow> plainsr (g x)) \<Longrightarrow> plainsr (bindr r g)"
  by (cases r; auto simp: plainr_def plainsr_def)+

lemma plainsr_concatr: "list_all plainsr ps \<Longrightarrow> plainsr (concatr ps)"
proof (induction ps)
  case (Cons p ps)
  then show ?case unfolding concatr.simps by (intro plain_bind_lines(2)) auto
qed (simp add: concatr.simps)

lemma plainsr_mapr: "(\<And>x. x \<in> set xs \<Longrightarrow> plainr (f x)) \<Longrightarrow> plainsr (mapr f xs)"
proof (induction xs)
  case (Cons x xs)
  then show ?case unfolding mapr.simps by (intro plainsr_bind plain_bind_lines(2)) auto
qed (simp add: mapr.simps)

lemma plainsr_flatmapr: "(\<And>x. x \<in> set xs \<Longrightarrow> plainsr (f x)) \<Longrightarrow> plainsr (flatmapr f xs)"
proof -
  assume f: "\<And>x. x \<in> set xs \<Longrightarrow> plainsr (f x)"
  have "\<forall>ys \<in> set yss. list_all plain ys" if "mapr f xs = Inr yss" for yss
    using mapr_eq_Inr [OF that] f by (force simp: list_all2_conv_all_nth in_set_conv_nth plainsr_def)
  then show ?thesis by (auto simp: flatmapr_def plainsr_def bindr_eq_Inr)
qed

lemma plainr_join_lines: "list_all plainsr ps \<Longrightarrow> plainr (join_lines ps)"
  using plainsr_concatr [of ps] by (auto simp: join_lines_def plainr_def plainsr_def bindr_eq_Inr intro!: plain_join)

lemma plain_cpp_type: "plainr (cpp_type s rs path l c)"
proof -
  have "plain (cpp_spelling s)" if "valid_type rs s"
  proof (cases "map_of BUILTIN_TYPES (base_of s)")
    case None
    have "is_ident (base_of s)"
      using that TYPE_RE_name by (auto simp: valid_type_def base_of_def)
    then show ?thesis using None by (simp add: cpp_spelling_def get_or_def plain_ident)
  next
    case (Some c)
    have "\<forall>(k, v) \<in> set BUILTIN_TYPES. plain v" by (simp add: BUILTIN_TYPES_def)
    then show ?thesis using map_of_SomeD [OF Some] Some by (auto simp: cpp_spelling_def get_or_def)
  qed
  then show ?thesis by (auto simp: plainr_def cpp_type_ok_iff)
qed

lemmas plain_intros = plainr_join_lines plainsr_concatr plainsr_flatmapr plainsr_mapr
  plainr_bind plainsr_bind plain_cpp_type plain_join plain_concat

section \<open>The parts of a contract\<close>

definition plain_params :: "param list \<Rightarrow> bool" where
  "plain_params ps \<longleftrightarrow> (\<forall>p \<in> set ps. plain (par_type p) \<and> plain (par_name p))"

fun plain_member :: "member \<Rightarrow> bool" where
  "plain_member (Prop p) \<longleftrightarrow> plain (prop_name p) \<and> plain (prop_type p) \<and> list_all plain (prop_scope p)"
| "plain_member (Model m) \<longleftrightarrow> plain (model_name m) \<and> list_all plain (model_scope m) \<and>
     (\<forall>r \<in> set (model_roles m). plain (role_type r) \<and> plain (role_name r))"
| "plain_member (Signal s) \<longleftrightarrow> plain (signal_name s) \<and> list_all plain (signal_scope s) \<and> plain_params (signal_params s)"
| "plain_member (Slot s) \<longleftrightarrow> plain (slot_name s) \<and> list_all plain (slot_scope s) \<and> plain_params (slot_params s)"

definition plain_contract :: "contract \<Rightarrow> bool" where
  "plain_contract c \<longleftrightarrow> plain (contract_name c) \<and> (\<forall>m \<in> set (members c). plain_member m)"

lemma plain_params_wf: "list_all (wf_param P) ps \<Longrightarrow> plain_params ps"
  by (auto simp: plain_params_def list_all_iff wf_param_def wf_name_def plain_ident plain_written_type)

lemma plain_member_wf: "wf_member P m \<Longrightarrow> plain_member m"
  by (cases m) (auto simp: wf_member_def wf_name_def wf_scopes_def wf_role_def list_all_iff plain_ident
      plain_written_type intro!: plain_params_wf [of P])

lemma plain_contract_wf: "wf_contract P c \<Longrightarrow> plain_contract c"
  by (auto simp: wf_contract_def plain_contract_def list_all_iff wf_name_def plain_ident plain_member_wf)

lemma plain_views:
  assumes "plain_contract c"
  shows "plain (contract_name c)"
    and "Prop p \<in> set (members c) \<Longrightarrow> plain (prop_name p)"
    and "Prop p \<in> set (members c) \<Longrightarrow> plain (prop_type p)"
    and "Prop p \<in> set (members c) \<Longrightarrow> list_all plain (prop_scope p)"
    and "Model m \<in> set (members c) \<Longrightarrow> plain (model_name m)"
    and "Model m \<in> set (members c) \<Longrightarrow> list_all plain (model_scope m)"
    and "Model m \<in> set (members c) \<Longrightarrow> r \<in> set (model_roles m) \<Longrightarrow> plain (role_type r)"
    and "Model m \<in> set (members c) \<Longrightarrow> r \<in> set (model_roles m) \<Longrightarrow> plain (role_name r)"
    and "Signal s \<in> set (members c) \<Longrightarrow> plain (signal_name s)"
    and "Signal s \<in> set (members c) \<Longrightarrow> list_all plain (signal_scope s)"
    and "Signal s \<in> set (members c) \<Longrightarrow> plain_params (signal_params s)"
    and "Slot t \<in> set (members c) \<Longrightarrow> plain (slot_name t)"
    and "Slot t \<in> set (members c) \<Longrightarrow> list_all plain (slot_scope t)"
    and "Slot t \<in> set (members c) \<Longrightarrow> plain_params (slot_params t)"
  using assms by (auto simp: plain_contract_def dest!: bspec)

lemma plain_paramsD: "plain_params ps \<Longrightarrow> p \<in> set ps \<Longrightarrow> plain (par_name p)"
  "plain_params ps \<Longrightarrow> p \<in> set ps \<Longrightarrow> plain (par_type p)"
  by (auto simp: plain_params_def)

lemma plain_gate_literal [simp]: "list_all plain sc \<Longrightarrow> plain (gate_literal sc)"
  by (auto simp: gate_literal_def list_all_iff intro!: plain_join)

lemma plain_param_decl: "plain (par_name p) \<Longrightarrow> plainr (param_decl rs path p)"
  unfolding param_decl_def by (intro plain_intros) simp

lemma plain_param_list: "plain_params ps \<Longrightarrow> plainr (param_list ps rs path)"
  unfolding param_list_def
  by (intro plain_bind_lines(1) plainsr_mapr plain_param_decl) (auto simp: plain_params_def intro!: plain_join)

lemma plain_slot_params_text: "plain_params (slot_params s) \<Longrightarrow> plainr (slot_params_text syn s rs path)"
  unfolding slot_params_text_def
  by (intro plain_bind_lines(1) plainsr_mapr plain_param_decl)
     (auto simp: plain_params_def SESSION_PARAM_def intro!: plain_join)

lemma plain_prop_cpp: "plainr (prop_cpp rs path p)"
  unfolding prop_cpp_def by (rule plain_cpp_type)

lemma plain_measure: "measure_of s v = Some m \<Longrightarrow> plain v \<Longrightarrow> plain m"
  by (auto simp: measure_of_def MEASURES_def split: if_splits option.splits)

lemma plain_unit: "plain (unit_of s)"
  by (auto simp: unit_of_def get_or_def SIZED_TYPES_def split: option.splits if_splits)

lemma plain_bound_guard:
  assumes "plain s" "plain v" "plain loc" "plain f" "list_all plain refuse" "plain ind"
  shows "list_all plain (bound_guard s v loc f refuse ind)"
  using assms plain_measure [of s v] plain_unit [of s]
  by (cases "bound_of s"; cases "measure_of s v") (auto simp: bound_guard_def Let_def list_all_iff)

section \<open>The emitters of a contract\<close>

lemmas plain_rules = plain_intros plain_param_list plain_slot_params_text plain_prop_cpp plain_bound_guard

lemma plain_caller_subclass:
  assumes "plain_contract c"
  shows "plainr (caller_subclass c rs path)"
  unfolding caller_subclass_def Let_def
  using plain_paramsD(1) [OF plain_views(11) [OF assms]]
  by (intro plainr_join_lines) (auto intro!: plain_rules simp: plain_views [OF assms])

lemma plain_class_head: "plain_contract c \<Longrightarrow> list_all plain (class_head_lines c)"
  unfolding class_head_lines_def Let_def by (auto simp: plain_views)

lemma plain_class_slots: "plain_contract c \<Longrightarrow> plainsr (class_slots_lines c rs path)"
  unfolding class_slots_lines_def Let_def
  by (rule plainsr_concatr) (auto intro!: plain_rules simp: plain_views)

lemma plain_slot_signature:
  "plain (slot_name s) \<Longrightarrow> plain_params (slot_params s) \<Longrightarrow> plainr (slot_signature syn s rs path)"
  unfolding slot_signature_def by (auto intro!: plain_rules split: option.split)

lemma plain_class_tail: "plain_contract c \<Longrightarrow> plainsr (class_tail_lines syn c rs path)"
  unfolding class_tail_lines_def Let_def
  by (rule plainsr_concatr)
     (auto intro!: plain_rules plain_slot_signature simp: intercepted_props_def gated_props_def plain_views)

lemma plain_source_helper_class: "plain_contract c \<Longrightarrow> plainr (source_helper_class syn c rs path)"
  unfolding source_helper_class_def
  by (rule plainr_join_lines) (auto intro: plain_class_head plain_class_slots plain_class_tail)

lemma plain_mirror_impl: "plain_contract c \<Longrightarrow> plain (mirror_impl c)"
  unfolding mirror_impl_def Let_def by (rule plain_join) (auto simp: plain_views)

lemma plain_relay_model: "plain helper \<Longrightarrow> plain (model_name m) \<Longrightarrow> list_all plain (relay_model_lines helper m)"
  unfolding relay_model_lines_def Let_def by auto

lemma plain_relay_impl:
  assumes "plain_contract c"
  shows "plainr (relay_impl c rs path)"
proof -
  have "plain (slot_name first)" if "slots c = first # rest" for first rest
    using assms plain_views(12) set_views(4) [of first c] that by auto
  then show ?thesis
    using assms unfolding relay_impl_def Let_def
    by (cases "slots c"; intro plainr_join_lines) (auto intro!: plain_rules plain_relay_model simp: plain_views)
qed

lemma plain_gate_impl: "plain_contract c \<Longrightarrow> plain (gate_impl c)"
  unfolding gate_impl_def Let_def
  by (rule plain_join) (auto simp: gated_props_def plain_views)

lemma plain_param_guards:
  "plain_params ps \<Longrightarrow> plain loc \<Longrightarrow> list_all plain refuse \<Longrightarrow>
     list_all plain (concat (map (\<lambda>p. bound_guard (par_type p) (par_name p) loc (par_name p) refuse ''    '') ps))"
  by (auto intro!: plain_bound_guard dest: plain_paramsD)

lemma plain_bounded_prop_impl:
  "plain cls \<Longrightarrow> plain_member (Prop p) \<Longrightarrow> plainr (bounded_prop_impl cls p rs path)"
  unfolding bounded_prop_impl_def bounded_prop_lines_def Let_def
  by (auto intro!: plain_rules)

lemma plain_emit_signal_impl:
  assumes "plain cls" and "plain_member (Signal s)"
  shows "plainr (emit_signal_impl cls s rs path)"
proof -
  have "list_all plain (emit_signal_lines cls s)"
    using assms unfolding emit_signal_lines_def Let_def list_all_append
    by (intro conjI plain_param_guards) (auto intro!: plain_join dest: plain_paramsD)
  then show ?thesis
    using assms unfolding emit_signal_impl_def by (auto intro!: plain_rules)
qed

lemma plain_role_conversion:
  assumes "plain cls" and "plain (model_name m)" and "plain (role_name r)" and "plain (role_type r)"
  shows "plainsr (role_conversion cls m r i rs path)"
  unfolding role_conversion_def Let_def using assms by (auto intro!: plain_rules)

lemma plain_set_model_impl:
  assumes "plain cls" and "plain_member (Model m)"
  shows "plainr (set_model_impl cls m rs path)"
proof -
  have "list_all plain (set_model_head cls m)"
    using assms unfolding set_model_head_def Let_def by (auto intro!: plain_join)
  moreover have "plainsr (bindr (role_conversion cls m r i rs path) (\<lambda>ls. Inr ([] # ls)))"
    if "r \<in> set (model_roles m)" for r i
    using assms that by (intro plain_bind_lines(2) plain_role_conversion) auto
  ultimately show ?thesis
    using assms unfolding set_model_impl_def
    by (intro plainr_join_lines) (auto intro!: plain_rules simp: in_set_enumerate_eq)
qed

lemma plain_slot_checks:
  assumes "plain cls" and "plain_member (Slot s)" and "list_all plain refuse"
  shows "list_all plain (slot_checks syn cls s refuse)"
  using assms unfolding slot_checks_def Let_def list_all_append
  by (intro conjI plain_param_guards) (auto simp: SESSION_ARG_def list_all_iff [of _ refuse])

lemma plain_slot_args: "plain_params (slot_params s) \<Longrightarrow> plain (slot_args syn s)"
  by (auto simp: slot_args_def Let_def SESSION_ARG_def intro!: plain_join dest: plain_paramsD)

lemma plain_lstrip: "plain s \<Longrightarrow> plain (lstrip_chars cs s)"
  by (rule plain_subset [of s]) (auto simp: lstrip_chars_def dest: set_dropWhileD)

lemma plain_rstrip: "plain s \<Longrightarrow> plain (rstrip_chars cs s)"
  by (rule plain_subset [of s]) (auto simp: rstrip_chars_def dest: set_dropWhileD)

lemma plain_slot_dispatch:
  assumes "plain cls" and "plain_member (Slot s)" and "list_all plain refuse" and "plain ret" and "plain relay"
  shows "list_all plain (slot_dispatch syn cls s ret refuse relay)"
  using assms unfolding slot_dispatch_def Let_def
  by (auto intro!: plain_concat plain_lstrip plain_slot_args simp: list_all_iff [of _ refuse] dest: plain_paramsD)

lemma plain_slot_impl:
  assumes "plain cls" and "plain_member (Slot s)"
  shows "plainr (slot_impl syn cls s rs path)"
proof -
  let ?relay = "mapr (\<lambda>param. bindr (cpp_type (par_type param) rs path (par_line param) (par_col param)) (\<lambda>c.
      Inr ('','' @ nl @ replicate 34 (CHR '' '') @ ''Q_ARG('' @ c @ '', '' @ par_name param @ '')''))) (slot_params s)"
  have relay: "plainsr ?relay"
    using assms(2) by (intro plainsr_mapr plainr_bind plain_cpp_type) (auto dest: plain_paramsD)
  have ret: "plainr (case slot_return_type s of None \<Rightarrow> Inr ''void''
      | Some r \<Rightarrow> cpp_type r rs path (slot_line s) (slot_col s))"
    by (auto intro!: plain_cpp_type split: option.split)
  have refuse: "list_all plain (slot_refuse s t)" if "plain t" for t
    using that by (simp add: slot_refuse_def)
  show ?thesis
    unfolding slot_impl_def Let_def using assms
    by (intro plainr_bind [OF ret] plainr_bind [OF plain_slot_params_text] plain_bind_lines(1) [OF relay])
       (auto simp: slot_lines_def intro!: plain_join plain_slot_checks plain_slot_dispatch refuse plain_concat)
qed

lemma plain_source_helper_impl:
  assumes "plain_contract c"
  shows "plainr (source_helper_impl syn c rs path)"
proof -
  have members: "\<And>m. m \<in> set (members c) \<Longrightarrow> plain_member m" and name: "plain (contract_name c)"
    using assms by (auto simp: plain_contract_def)
  note parts = plain_bounded_prop_impl [OF name members] plain_set_model_impl [OF name members]
    plain_slot_impl [OF name members] plain_emit_signal_impl [OF name members]
    plain_mirror_impl [OF assms] plain_relay_impl [OF assms] plain_gate_impl [OF assms]
  show ?thesis
    unfolding source_helper_impl_def Let_def
    by (intro plainr_bind plainr_join_lines)
       (auto intro!: plain_rstrip plainsr_flatmapr plainsr_mapr plainsr_bind parts
             simp: intercepted_props_def plain_views [OF assms])
qed

lemma plain_types_csv: "plainr (types_csv ps rs path)"
  unfolding types_csv_def
  by (intro plain_bind_lines(1) plainsr_mapr plain_cpp_type) (auto intro!: plain_join)

lemma plain_qarg_suffix: "plain_params ps \<Longrightarrow> plainr (qarg_suffix ps rs path)"
  unfolding qarg_suffix_def
  by (intro plain_bind_lines(1) plainsr_mapr plainr_bind plain_cpp_type)
     (auto intro!: plain_concat dest: plain_paramsD simp: list_all_iff)

lemma plain_consumer_class: "plain_contract c \<Longrightarrow> plainr (consumer_class c rs path)"
  unfolding consumer_class_def Let_def
  by (rule plainr_join_lines) (auto intro!: plain_rules simp: plain_views)

lemma plain_consumer_slot_impl:
  "plain cls \<Longrightarrow> plain_member (Slot s) \<Longrightarrow> plainr (consumer_slot_impl syn cls s rs path)"
  unfolding consumer_slot_impl_def Let_def
  by (auto intro!: plain_rules plain_qarg_suffix split: option.split)

lemma plain_consumer_impl:
  assumes "plain_contract c"
  shows "plainr (consumer_impl syn c rs path)"
proof -
  have slots: "plainr (consumer_slot_impl syn (contract_name c) s rs path)" if "Slot s \<in> set (members c)" for s
    using that assms by (intro plain_consumer_slot_impl) (auto simp: plain_contract_def)
  have "plainsr (consumer_accessors (contract_name c @ ''Consumer'') c rs path)"
    unfolding consumer_accessors_def Let_def
    by (rule plainsr_concatr) (auto intro!: plain_rules simp: plain_views [OF assms])
  moreover have "plainsr (consumer_binding (contract_name c @ ''Consumer'') c rs path)"
    unfolding consumer_binding_def
    by (rule plainsr_concatr) (auto intro!: plain_rules plain_types_csv simp: plain_views [OF assms])
  ultimately show ?thesis
    unfolding consumer_impl_def Let_def
    by (intro plainr_join_lines) (auto intro!: plain_rules slots)
qed

section \<open>The emitters of a file\<close>

definition plain_file :: "syn_file \<Rightarrow> bool" where
  "plain_file syn \<longleftrightarrow> plain (stem syn) \<and> (\<forall>c \<in> set (contracts syn). plain_contract c) \<and>
     (\<forall>r \<in> set (records syn). plain (record_name r) \<and> plain_params (record_fields r))"

lemma plain_file_wf: "wf_file P syn \<Longrightarrow> plain (stem syn) \<Longrightarrow> plain_file syn"
  by (auto simp: plain_file_def wf_file_def list_all_iff wf_record_def wf_name_def plain_ident
      intro: plain_contract_wf plain_params_wf [unfolded list_all_iff])

lemma plain_texts:
  "plain SPDX_CPP" "plain MODULE_IMPORTS_INCLUDE" "plain MODULE_IMPORTS_CALL" "plain ACTING_FOR_SHIM"
  "plain CALL_SPAN_SHIM" "plain VARIANT_BYTES_HELPER" "plain SLOT_DISPATCH_HELPER"
  "plain RELAY_FOLLOW_PROPERTY" "plain RELAY_TAKES_SESSION" "plain RELAY_FOLLOW_SIGNAL" "plain RELAY_ROWS"
  "plain RELAY_CLOSE" "plain CONSUMER_RELAY_HELPER"
  by (simp_all add: SPDX_CPP_def MODULE_IMPORTS_INCLUDE_def MODULE_IMPORTS_CALL_def ACTING_FOR_SHIM_def
      CALL_SPAN_SHIM_def VARIANT_BYTES_HELPER_def SLOT_DISPATCH_HELPER_def RELAY_FOLLOW_PROPERTY_def
      RELAY_TAKES_SESSION_def RELAY_FOLLOW_SIGNAL_def RELAY_ROWS_def RELAY_CLOSE_def CONSUMER_RELAY_HELPER_def)

lemma plain_relay_intro: "plain RELAY_INTRO" "plain RELAY_INTRO_ONLY"
proof -
  show "plain RELAY_INTRO" by (simp add: RELAY_INTRO_def)
  then have "plain (before_sub p RELAY_INTRO)" for p
    by (rule plain_subset) (auto simp: before_sub_def split: option.splits dest: in_set_takeD)
  with \<open>plain RELAY_INTRO\<close> show "plain RELAY_INTRO_ONLY" by (simp add: RELAY_INTRO_ONLY_def)
qed

lemma plain_relay_helpers: "list_all plain (relay_helpers syn)"
  by (auto simp: relay_helpers_def Let_def plain_texts plain_relay_intro intro!: plain_concat)

lemma plain_register_sources: "plain_file syn \<Longrightarrow> list_all plain (register_sources syn)"
  by (auto simp: register_sources_def Let_def plain_texts plain_file_def plain_views)

lemma plain_emit_rep:
  assumes "plain_file syn"
  shows "plainr (emit_rep syn)"
proof -
  have lower: "plainr (lower_member syn rs path m)" if "plain_member m" for m rs path
    using that by (cases m) (auto intro!: plain_rules split: option.split)
  have "list_all plain (type_includes syn)"
    by (auto simp: type_includes_def list_all_iff set_map_filter TYPE_INCLUDES_def only_if_def split: if_splits)
  then show ?thesis
    using assms unfolding emit_rep_def Let_def
    by (intro plain_bind_lines(1) plainsr_concatr)
       (auto intro!: plain_rules lower plain_rstrip simp: plain_file_def plain_contract_def rep_record_def
          rep_contract_def plain_texts list_all_iff [of _ "type_includes syn"])
qed

lemma plain_emitters:
  assumes "plain_file syn" and "plain lstem"
  shows "plainr (emit_source_helper_header syn lstem)"
    and "plainr (emit_source_helper_source syn lstem)"
    and "plainr (emit_consumer_header syn lstem)"
    and "plainr (emit_consumer_source syn lstem)"
    and "plain (emit_replica_header syn lstem)"
    and "plain (emit_replica_source syn lstem)"
proof -
  have cs: "\<And>c. c \<in> set (contracts syn) \<Longrightarrow> plain_contract c" and st: "plain (stem syn)"
    using assms(1) by (auto simp: plain_file_def)
  note parts = plain_caller_subclass [OF cs] plain_source_helper_class [OF cs]
    plain_source_helper_impl [OF cs] plain_consumer_class [OF cs] plain_consumer_impl [OF cs]
  have names: "plain (contract_name c)" if "c \<in> set (contracts syn)" for c
    using plain_views(1) [OF cs [OF that]] .
  show "plainr (emit_source_helper_header syn lstem)"
    unfolding emit_source_helper_header_def Let_def
    by (intro plainr_join_lines)
       (auto intro!: plainsr_flatmapr plainsr_bind plain_bind_lines(2) plainsr_mapr parts simp: plain_texts assms(2) st plain_cap)
  show "plainr (emit_source_helper_source syn lstem)"
    unfolding emit_source_helper_source_def Let_def
    by (intro plainr_join_lines)
       (auto intro!: plainsr_flatmapr plainsr_bind parts plain_register_sources [OF assms(1)]
         simp: plain_texts plain_relay_helpers assms(2))
  show "plainr (emit_consumer_header syn lstem)"
    unfolding emit_consumer_header_def Let_def
    by (intro plainr_join_lines)
       (auto intro!: plainsr_flatmapr plainsr_bind parts simp: plain_texts assms(2) st plain_cap)
  show "plainr (emit_consumer_source syn lstem)"
    unfolding emit_consumer_source_def Let_def
    by (intro plainr_join_lines)
       (auto intro!: plainsr_flatmapr plainsr_bind parts simp: plain_texts assms(2) st plain_cap names)
  show "plain (emit_replica_header syn lstem)"
    unfolding emit_replica_header_def by (intro plain_join) (auto simp: plain_texts st plain_cap)
  show "plain (emit_replica_source syn lstem)"
    unfolding emit_replica_source_def by (intro plain_join) (auto simp: plain_texts st assms(2) plain_cap names)
qed

section \<open>Properties\<close>



end
