(* ===== verification/CompilerProps.thy ===== *)
theory CompilerProps
  imports EmitPlain
begin

text \<open>
  The compiler end to end. A file it refuses leaves the world as it was; a file it accepts is
  written as seven distinct files that hold what the emitters returned; running it again writes
  nothing; and \<open>main\<close> returns an exit code on every input, never an exception.
\<close>

section \<open>Paths\<close>

lemma basename_no_slash: "CHR ''/'' \<notin> set (basename p)"
  by (auto simp: basename_def rsplit_char_def dest: set_takeWhileD split: if_splits)

lemma splitext_root_subset: "set (splitext_root n) \<subseteq> set n"
proof -
  have "set (rev (tl (dropWhile P (rev n)))) \<subseteq> set n" for P
  proof -
    have "set (tl xs) \<subseteq> set xs" for xs :: string by (cases xs) auto
    then show ?thesis using set_dropWhileD [of _ P "rev n"] by fastforce
  qed
  then show ?thesis by (auto simp: splitext_root_def rsplit_char_def split: if_splits)
qed

lemma basename_subset: "set (basename p) \<subseteq> set p"
  by (auto simp: basename_def rsplit_char_def dest: set_takeWhileD split: if_splits)

definition file_stem :: "string \<Rightarrow> string" where
  "file_stem p = splitext_root (basename p)"

lemma to_lower_slash: "to_lower c = CHR ''/'' \<longleftrightarrow> c = CHR ''/''"
  by (auto simp: to_lower_def is_upper_def less_eq_char_def char_of_eq_iff take_bit_nat_eq_self)

lemma lower_stem_no_slash: "CHR ''/'' \<notin> set (map to_lower (file_stem p))"
  using basename_no_slash [of p] splitext_root_subset [of "basename p"]
  by (auto simp: file_stem_def) (metis to_lower_slash subsetD)

lemma plain_file_stem: "plain p \<Longrightarrow> plain (file_stem p)"
  using basename_subset [of p] splitext_root_subset [of "basename p"] plain_subset [of p]
  by (auto simp: file_stem_def)

lemma path_join_inject:
  "\<not> startswith a ''/'' \<Longrightarrow> \<not> startswith b ''/'' \<Longrightarrow> path_join d a = path_join d b \<longleftrightarrow> a = b"
  by (simp add: path_join_def)

section \<open>generate\<close>

lemma typed_file_forwards [simp]: "typed_file (syn\<lparr>forwards_session := b\<rparr>) = typed_file syn"
  by (simp add: typed_file_def record_names_def)

lemma wf_file_forwards [simp]: "wf_file P (syn\<lparr>forwards_session := b\<rparr>) = wf_file P syn"
  by (simp add: wf_file_def)

lemma outputs_total: "typed_file syn \<Longrightarrow> is_ok (outputs syn)"
  using is_ok_emitters [of syn]
  by (auto simp: outputs_def Let_def is_ok_bindr)

definition output_names :: "string \<Rightarrow> string list" where
  "output_names lstem = map (\<lambda>suffix. lstem @ suffix)
     [''.rep'', ''_sourcehelper.h'', ''_sourcehelper.cpp'', ''_replica.h'', ''_replica.cpp'',
      ''_consumer.h'', ''_consumer.cpp'']"

lemma outputs_names: "outputs syn = Inr outs \<Longrightarrow> map fst outs = output_names (map to_lower (stem syn))"
  by (auto simp: outputs_def Let_def bindr_eq_Inr output_names_def)

lemma outputs_plain:
  assumes "outputs syn = Inr outs" and "wf_file P syn" and "plain (stem syn)" and "(n, c) \<in> set outs"
  shows "plain c"
proof -
  have pf: "plain_file syn" using plain_file_wf [OF assms(2,3)] .
  have "plain (map to_lower (stem syn))"
    using assms(3) by (auto simp: plain_def list_all_iff to_lower_printable)
  note plain = plain_emitters [OF pf this] plain_emit_rep [OF pf]
  from assms(1,4) plain show ?thesis
    by (auto simp: outputs_def Let_def bindr_eq_Inr plainr_def)
qed

lemma distinct_outputs: "distinct (output_names lstem)"
  by (simp add: output_names_def)

lemma distinct_targets:
  "CHR ''/'' \<notin> set lstem \<Longrightarrow> distinct (map (path_join d) (output_names lstem))"
proof -
  assume "CHR ''/'' \<notin> set lstem"
  then have "\<not> startswith n ''/''" if "n \<in> set (output_names lstem)" for n
    using that by (cases lstem) (auto simp: output_names_def)
  then show ?thesis
    unfolding distinct_map using distinct_outputs [of lstem] by (auto simp: inj_on_def path_join_inject)
qed

lemma generate_cases:
  assumes "files w p = Some t"
  obtains (refused) e where "generate p d f w = (Inl e, w)"
      "located p (text_positions (universal_newlines t)) e"
  | (accepted) syn outs where
      "parse_text (universal_newlines t) p (file_stem p) = Inr syn"
      "outputs (syn\<lparr>forwards_session := f\<rparr>) = Inr outs"
      "map fst outs = output_names (map to_lower (file_stem p))"
      "distinct (map (path_join d \<circ> fst) outs)"
      "plain p \<Longrightarrow> \<forall>(n, c) \<in> set outs. plain c"
      "generate p d f w = (Inr (map (path_join d \<circ> fst) outs),
         write_each write_file (map (\<lambda>(n, c). (path_join d n, c)) outs) w)"
proof (cases "parse_text (universal_newlines t) p (file_stem p)")
  case (Inl e)
  moreover have "generate p d f w = (Inl e, w)"
    using assms Inl by (simp add: generate_def parse_file_def read_text_def file_stem_def)
  ultimately show ?thesis
    using refused parse_text_cases [where s = "universal_newlines t" and path = p and st = "file_stem p"] by simp
next
  case (Inr syn)
  then have syn: "wf_file (text_positions (universal_newlines t)) syn" "stem syn = file_stem p" "typed_file syn"
    using parse_text_cases [where s = "universal_newlines t" and path = p and st = "file_stem p"] by auto
  then obtain outs where outs: "outputs (syn\<lparr>forwards_session := f\<rparr>) = Inr outs"
    using outputs_total [of "syn\<lparr>forwards_session := f\<rparr>"] by (auto elim: is_okE)
  have names: "map fst outs = output_names (map to_lower (file_stem p))"
    using outputs_names [OF outs] syn(2) by simp
  show ?thesis
  proof (rule accepted [OF Inr outs names])
    show "distinct (map (path_join d \<circ> fst) outs)"
      using distinct_targets [OF lower_stem_no_slash, of d p] by (simp add: names flip: map_map)
    show "\<forall>(n, c) \<in> set outs. plain c" if "plain p"
      using outputs_plain [OF outs] syn plain_file_stem [OF that] by auto
    show "generate p d f w = (Inr (map (path_join d \<circ> fst) outs),
         write_each write_file (map (\<lambda>(n, c). (path_join d n, c)) outs) w)"
      using assms Inr outs
      by (simp add: generate_def parse_file_def read_text_def file_stem_def comp_def case_prod_unfold)
  qed
qed

text \<open>
  C2. Compiling a file that is there, end to end: either it is refused with a \<open>SynError\<close> that names
  the file and a position of its text, and nothing at all has changed; or seven files are written
  (the \<open>.rep\<close>, the Source helper, the Replica registration and the consumer facade), they read back
  as what the emitters returned, and every other file is as it was. No third outcome exists.
\<close>

theorem generate_outcome:
  assumes "files w p = Some t" and "plain p"
  shows "case generate p d f w of
      (Inl e, w') \<Rightarrow> w' = w \<and> located p (text_positions (universal_newlines t)) e
    | (Inr targets, w') \<Rightarrow>
        targets = map (path_join d) (output_names (map to_lower (file_stem p))) \<and> distinct targets \<and>
        (\<exists>syn outs. parse_text (universal_newlines t) p (file_stem p) = Inr syn \<and>
           outputs (syn\<lparr>forwards_session := f\<rparr>) = Inr outs \<and>
           map fst outs = output_names (map to_lower (file_stem p)) \<and>
           (\<forall>(n, c) \<in> set outs. read_text w' (path_join d n) = Some c)) \<and>
        (\<forall>q. q \<notin> set targets \<longrightarrow> files w' q = files w q)"
  using assms(1)
proof (cases rule: generate_cases [where d = d and f = f])
  case (accepted syn outs)
  let ?ts = "map (\<lambda>(n, c). (path_join d n, c)) outs"
  have fst_ts: "map fst ?ts = map (path_join d \<circ> fst) outs" by (simp add: case_prod_unfold)
  have "read_text (write_each write_file ?ts w) (path_join d n) = Some c" if "(n, c) \<in> set outs" for n c
    using accepted(4,5) assms(2) that
    by (intro cli.each_same) (force simp: comp_def case_prod_unfold image_iff)+
  moreover have "files (write_each write_file ?ts w) q = files w q" if "q \<notin> set (map (path_join d \<circ> fst) outs)" for q
    using that by (intro cli.each_other) (force simp: image_iff)
  ultimately show ?thesis
    using accepted(1-4,6) by (auto simp flip: map_map)
qed simp

definition sample_world :: world where
  "sample_world = \<lparr>files = [''board.syn'' \<mapsto> sample_text], written_log = [], stdout = [], stderr = []\<rparr>"

theorem generate_outcome_witness:
  "files sample_world ''board.syn'' = Some sample_text \<and> plain ''board.syn'' \<and>
   (case generate ''board.syn'' ''out'' False sample_world of
      (Inl e, w') \<Rightarrow> w' = sample_world \<and> located ''board.syn'' (text_positions (universal_newlines sample_text)) e
    | (Inr targets, w') \<Rightarrow>
        targets = map (path_join ''out'') (output_names (map to_lower (file_stem ''board.syn''))) \<and> distinct targets \<and>
        (\<exists>syn outs. parse_text (universal_newlines sample_text) ''board.syn'' (file_stem ''board.syn'') = Inr syn \<and>
           outputs (syn\<lparr>forwards_session := False\<rparr>) = Inr outs \<and>
           map fst outs = output_names (map to_lower (file_stem ''board.syn'')) \<and>
           (\<forall>(n, c) \<in> set outs. read_text w' (path_join ''out'' n) = Some c)) \<and>
        (\<forall>q. q \<notin> set targets \<longrightarrow> files w' q = files sample_world q))"
proof -
  have f: "files sample_world ''board.syn'' = Some sample_text" by (simp add: sample_world_def)
  have p: "plain ''board.syn''" by simp
  show ?thesis using f p generate_outcome [OF f p, of "''out''" False] by blast
qed

text \<open>
  Compiling again writes nothing: after a successful run on an input that is not one of its own
  outputs, a second run returns the same paths and leaves the world as it is, the log of opened
  files included, so no timestamp moves.
\<close>

theorem generate_again:
  assumes "generate p d f w = (Inr targets, w1)" and "plain p" and "p \<notin> set targets"
  shows "generate p d f w1 = (Inr targets, w1)"
proof -
  obtain t where t: "files w p = Some t"
    using assms(1) by (cases "files w p") (auto simp: generate_def parse_file_def read_text_def)
  from t show ?thesis
  proof (cases rule: generate_cases [where d = d and f = f])
    case (accepted syn outs)
    let ?ts = "map (\<lambda>(n, c). (path_join d n, c)) outs"
    have ts: "targets = map fst ?ts" and w1: "w1 = write_each write_file ?ts w"
      using accepted(6) assms(1) by (simp_all add: comp_def case_prod_unfold)
    have "distinct (map fst ?ts)" using accepted(4) by (simp add: comp_def case_prod_unfold)
    then have "\<forall>(q, c) \<in> set ?ts. read_text w1 q = Some c"
      using accepted(5) assms(2) unfolding w1 by (auto intro!: cli.each_same)
    then have same: "write_each write_file ?ts w1 = w1" by (rule cli.each_again)
    have "files w1 p = Some t"
      using cli.each_other [of p ?ts w] assms(3) t unfolding w1 ts set_map by simp
    then show ?thesis
      using accepted(1,2) same ts
      by (simp add: generate_def parse_file_def read_text_def file_stem_def)
  qed (use assms(1) in simp)
qed

lemma sample_generates:
  "\<exists>w1. generate ''board.syn'' ''out'' False sample_world =
     (Inr (map (path_join ''out'') (output_names ''board'')), w1)"
proof -
  have f: "files sample_world ''board.syn'' = Some sample_text" by (simp add: sample_world_def)
  have u: "universal_newlines sample_text = sample_text" by code_simp
  have st: "file_stem ''board.syn'' = ''board''" "map to_lower ''board'' = ''board''" by code_simp+
  from f show ?thesis
  proof (cases rule: generate_cases [where d = "''out''" and f = False])
    case (refused e)
    then show ?thesis
      using f sample_parses u st outputs_total [OF sample_ok(2)]
      by (auto simp: generate_def parse_file_def read_text_def file_stem_def [symmetric] sample_syn_def is_ok_def)
  next
    case (accepted syn outs)
    then show ?thesis using st by (simp flip: map_map)
  qed
qed

theorem generate_again_witness:
  "\<exists>w1. generate ''board.syn'' ''out'' False sample_world =
      (Inr (map (path_join ''out'') (output_names ''board'')), w1) \<and> plain ''board.syn'' \<and>
    generate ''board.syn'' ''out'' False w1 = (Inr (map (path_join ''out'') (output_names ''board'')), w1)"
proof -
  obtain w1 where w1: "generate ''board.syn'' ''out'' False sample_world =
      (Inr (map (path_join ''out'') (output_names ''board'')), w1)"
    using sample_generates by blast
  have p: "plain ''board.syn''" by simp
  have "''board.syn'' \<notin> set (map (path_join ''out'') (output_names ''board''))" by code_simp
  from generate_again [OF w1 p this] show ?thesis using w1 p by blast
qed

section \<open>main\<close>

lemma located_SynError: "located path P e \<Longrightarrow> \<exists>se. e = SynError se \<and> err_path se = path"
  by (auto simp: located_def)

lemma generate_exn:
  assumes "files w p = Some t" and "generate p d f w = (Inl e, w')"
  shows "w' = w \<and> (\<exists>se. e = SynError se \<and> err_path se = p)"
  using assms(1)
proof (cases rule: generate_cases [where d = d and f = f])
  case (refused e')
  then show ?thesis using assms(2) located_SynError by auto
next
  case (accepted syn outs)
  then show ?thesis using assms(2) by simp
qed

lemma generate_console: "generate p d f w = (r, w') \<Longrightarrow> stdout w' = stdout w \<and> stderr w' = stderr w"
  by (auto simp: generate_def Let_def cli.each_console split: sum.splits)

lemma main_loop_outcome:
  "\<exists>w'. main_loop ps a w = (Inr 0, w') \<and> stderr w' = stderr w \<or>
    (main_loop ps a w = (Inr 1, w') \<and>
      (\<exists>p m. p \<in> set ps \<and> stderr w' = stderr w @ [m] \<and> prefix p m))"
proof (induction ps arbitrary: w)
  case (Cons p ps)
  show ?case
  proof (cases "files w p")
    case None
    then show ?thesis by (intro exI [of _ "w\<lparr>stderr := stderr w @ [p @ '': error: no such file'']\<rparr>"]) auto
  next
    case (Some t)
    obtain r w1 where g: "generate p (out a) (arg_forwards_session a) w = (r, w1)" by fastforce
    show ?thesis
    proof (cases r)
      case (Inl e)
      then obtain se where "w1 = w" "e = SynError se" "err_path se = p"
        using generate_exn [OF Some, of "out a" "arg_forwards_session a" e w1] g by auto
      then show ?thesis
        using Some g Inl
        by (intro exI [of _ "w\<lparr>stderr := stderr w @ [format_error se]\<rparr>"]) (auto simp: format_error_def)
    next
      case (Inr targets)
      let ?w2 = "if quiet a then w1 else w1\<lparr>stdout := stdout w1 @ targets\<rparr>"
      have "stderr ?w2 = stderr w" using generate_console [OF g] by simp
      moreover have "main_loop (p # ps) a w = main_loop ps a ?w2" using Some g Inr by simp
      ultimately show ?thesis using Cons.IH [of ?w2] by (metis list.set_intros(2))
    qed
  qed
qed simp

text \<open>
  The command line always ends with an exit code: 0 with nothing on stderr, or 1 with exactly
  one line on stderr, which names one of the inputs. No exception leaves \<open>main\<close>.
\<close>

theorem main_exit_code:
  "\<exists>w'. (main a w = (Inr 0, w') \<and> stderr w' = stderr w) \<or>
    (main a w = (Inr 1, w') \<and>
      (\<exists>p m. p \<in> set (inputs a) \<and> stderr w' = stderr w @ [m] \<and> prefix p m))"
  using main_loop_outcome [of "inputs a" a w] by (simp add: main_def)

end
