(* ===== verification/ContractGen.thy ===== *)
theory ContractGen
  imports SynParserProps PyText
begin

text \<open>
  How a connect point's \<open>export:\<close> block becomes a contract, \<open>synqt/contractgen.py\<close>: each line is
  written out if it only names a member the owner implements, given the point's own scope if it
  opens with no gate, and put inside the \<open>contract\<close>, or above it when it declares a record.
\<close>

section \<open>Lines\<close>

text \<open>
  The part of a connect point this module reads: its \<open>export:\<close> when that is a string, its
  \<open>scope:\<close> as \<open>str(point.get("scope") or "")\<close> and its owner as the header prints it.
\<close>

record point =
  point_export :: "string option"
  point_scope :: string
  point_owner :: string

text \<open>A member as \<open>synqt/infer.py\<close> reads it out of the owner's Source.\<close>

record inferred =
  inf_kind :: string
  inf_name :: string
  inf_type :: string
  inf_params :: "(string \<times> string) list"
  inf_roles :: "(string \<times> string) list"
  inf_certain :: bool

type_synonym owner_members = "string \<rightharpoonup> inferred"

definition HEADER :: string where
  "HEADER = ''// SPDX-FileCopyrightText: 2026 Alexandre '' @ quoted ''kidev'' @ '' Poumaroux'' @ nl
     @ ''// SPDX-License-Identifier: Apache-2.0'' @ nl"

text \<open>The regular expression \<open>^\s*record\b\<close>.\<close>

definition RECORD :: "string \<Rightarrow> bool" where
  "RECORD line \<longleftrightarrow>
     (let s = dropWhile py_space line in
      startswith s ''record'' \<and> (case drop 6 s of [] \<Rightarrow> True | c # _ \<Rightarrow> \<not> word_char c))"

definition BARE_NAME :: "string \<Rightarrow> string option" where
  "BARE_NAME s =
     (let name = takeWhile ident_char s in
      if is_ident name \<and> re_end (dropWhile ident_char s) then Some name else None)"

text \<open>
  The regular expression of a gate. An identifier in it is as long as it can be: what follows one
  is a comma or the closing bracket, with whitespace around it, and neither continues a name.
  \<open>gate_names\<close> returns what is left after the closing bracket.
\<close>

function gate_names :: "string \<Rightarrow> string option" where
  "gate_names s =
     (let s1 = dropWhile py_space s; name = takeWhile ident_char s1;
          s2 = dropWhile py_space (dropWhile ident_char s1) in
      if \<not> is_ident name then None
      else if startswith s2 ''>'' then Some (drop 1 s2)
      else if startswith s2 '','' then gate_names (drop 1 s2)
      else None)"
  by pat_completeness auto
termination
proof (relation "measure length", simp, goal_cases)
  case (1 s s1 name s2)
  have "length s2 \<le> length s"
    unfolding 1(1,3) by (meson le_trans length_dropWhile_le)
  moreover have "s2 \<noteq> []" using 1(6) by auto
  ultimately show ?case by (cases s2) auto
qed

declare gate_names.simps [simp del]

definition GATE :: "string \<Rightarrow> (string \<times> string) option" where
  "GATE code =
     (case code of
        [] \<Rightarrow> None
      | c # cs \<Rightarrow>
          if c \<noteq> CHR ''<'' then None
          else map_option (\<lambda>rest. (take (length code - length rest) code, dropWhile py_space rest))
                 (gate_names cs))"

definition export_text :: "point \<Rightarrow> string" where
  "export_text p = (case point_export p of None \<Rightarrow> [] | Some e \<Rightarrow> e)"

definition has_export :: "point \<Rightarrow> bool" where
  "has_export p \<longleftrightarrow> point_export p \<noteq> None"

definition split_comment :: "string \<Rightarrow> string \<times> nat \<times> string" where
  "split_comment line =
     (let stripped = strip line in
      case partition_at ''//'' stripped of
        None \<Rightarrow> (stripped, 0, [])
      | Some (head, tail) \<Rightarrow> (rstrip head, length head, ''//'' @ tail))"

definition split_gate :: "string \<Rightarrow> string \<times> string" where
  "split_gate code = (case GATE code of None \<Rightarrow> ([], code) | Some r \<Rightarrow> r)"

definition bare_name :: "string \<Rightarrow> string" where
  "bare_name line =
     (let (code, _, _) = split_comment line; (_, rest) = split_gate code in
      case BARE_NAME rest of None \<Rightarrow> [] | Some name \<Rightarrow> name)"

definition pairs :: "(string \<times> string) list \<Rightarrow> string" where
  "pairs items = join '', '' (map (\<lambda>(ty, name). ty @ '' '' @ name) items)"

definition rendered :: "inferred \<Rightarrow> string" where
  "rendered m =
     (if inf_kind m = ''prop''
      then ''prop '' @ (if inf_type m = [] then ''var'' else inf_type m) @ '' '' @ inf_name m
      else if inf_kind m = ''model'' then ''model '' @ inf_name m @ ''('' @ pairs (inf_roles m) @ '')''
      else if inf_kind m = ''signal'' then ''signal '' @ inf_name m @ ''('' @ pairs (inf_params m) @ '')''
      else ''slot '' @ (if inf_type m = [] then [] else inf_type m @ '' '') @ inf_name m
             @ ''('' @ pairs (inf_params m) @ '')'')"

definition written_out :: "string \<Rightarrow> owner_members \<Rightarrow> string" where
  "written_out line owner =
     (let name = bare_name line in
      case (if name = [] then None else owner name) of
        None \<Rightarrow> line
      | Some m \<Rightarrow>
          if \<not> inf_certain m then line
          else let (written, column, comment) = split_comment line;
                   (gate, _) = split_gate written;
                   code = (if gate \<noteq> [] then gate @ '' '' @ rendered m else rendered m) in
               if comment = [] then code
               else code @ replicate (max 1 (column - length code)) (CHR '' '') @ comment)"

definition with_inherited_gate :: "string \<Rightarrow> string \<Rightarrow> string" where
  "with_inherited_gate line scope =
     (if scope = [] then line
      else let (code, _, _) = split_comment line in
           if code = [] \<or> RECORD line \<or> fst (split_gate code) \<noteq> [] then line
           else take (length line - length (lstrip line)) line @ ''<'' @ scope @ ''> '' @ lstrip line)"

section \<open>The contract\<close>

fun sort_lines :: "owner_members \<Rightarrow> string \<Rightarrow> string list \<Rightarrow> string list \<times> string list" where
  "sort_lines owner inherited [] = ([], [])"
| "sort_lines owner inherited (written # rest) =
     (let line = with_inherited_gate (written_out written owner) inherited;
          (rs, ms) = sort_lines owner inherited rest in
      if RECORD line then (strip line # rs, ms)
      else if strip line \<noteq> [] then (rs, (''    '' @ strip line) # ms)
      else (rs, [] # ms))"

definition contract_source :: "string \<Rightarrow> point \<Rightarrow> owner_members \<Rightarrow> bool \<Rightarrow> string" where
  "contract_source name point owner inherit =
     (let inherited = (if inherit then strip (point_scope point) else []);
          (rs, ms) = sort_lines owner inherited (splitlines (export_text point));
          members = rev (dropWhile (\<lambda>l. l = []) (rev ms)) in
      join nl
        ([rstrip_chars nl HEADER,
          ''// Generated by synqt from the connect point '' @ quoted (point_owner point)
            @ '' owns in synqt.yaml. Do not edit.'',
          []]
         @ (if rs \<noteq> [] then rs @ [[]] else [])
         @ [''contract '' @ name @ '' {''] @ members @ [''}'']) @ nl)"

end
