(* ===== verification/DesignDoc.thy ===== *)
theory DesignDoc
  imports ContractGen
begin

text \<open>
  The contract part of the design document, \<open>synqt/designdoc.py\<close>: the members of a connect point
  as the flat records the editor draws, read from a contract and rendered back to an \<open>export:\<close>
  block. A \<open>DesignDocError\<close>
  is its message; any other exception passes through.
\<close>

record doc_pair =
  pair_type :: string
  pair_name :: string

text \<open>The dictionary of a member; \<open>doc_scope\<close> is the optional key \<open>scope\<close>.\<close>

record doc_member =
  doc_kind :: string
  doc_name :: string
  doc_type :: string
  doc_params :: "doc_pair list"
  doc_roles :: "doc_pair list"
  doc_scope :: "string option"

datatype doc_error = DesignDocError string | Uncaught exn

section \<open>Reading\<close>

definition doc_param :: "param \<Rightarrow> doc_pair" where
  "doc_param p = \<lparr>pair_type = par_type p, pair_name = par_name p\<rparr>"

definition doc_role :: "role \<Rightarrow> doc_pair" where
  "doc_role r = \<lparr>pair_type = role_type r, pair_name = role_name r\<rparr>"

definition scope_key :: "string list \<Rightarrow> string option" where
  "scope_key scopes = (let scope = join '','' scopes in if scope = [] then None else Some scope)"

fun doc_member_of :: "member \<Rightarrow> doc_member" where
  "doc_member_of (Prop p) = \<lparr>doc_kind = ''prop'', doc_name = prop_name p, doc_type = prop_type p,
     doc_params = [], doc_roles = [], doc_scope = scope_key (prop_scope p)\<rparr>"
| "doc_member_of (Model m) = \<lparr>doc_kind = ''model'', doc_name = model_name m, doc_type = [],
     doc_params = [], doc_roles = map doc_role (model_roles m), doc_scope = scope_key (model_scope m)\<rparr>"
| "doc_member_of (Signal s) = \<lparr>doc_kind = ''signal'', doc_name = signal_name s, doc_type = [],
     doc_params = map doc_param (signal_params s), doc_roles = [], doc_scope = scope_key (signal_scope s)\<rparr>"
| "doc_member_of (Slot s) = \<lparr>doc_kind = ''slot'', doc_name = slot_name s,
     doc_type = (case slot_return_type s of None \<Rightarrow> [] | Some r \<Rightarrow> r),
     doc_params = map doc_param (slot_params s), doc_roles = [], doc_scope = scope_key (slot_scope s)\<rparr>"

definition members_of :: "syn_file \<Rightarrow> string \<Rightarrow> string \<Rightarrow> doc_error + doc_member list" where
  "members_of parsed name loc =
     (case find (\<lambda>c. contract_name c = name) (contracts parsed) of
        Some c \<Rightarrow> Inr (map doc_member_of (members c))
      | None \<Rightarrow>
          (case contracts parsed of
             [c] \<Rightarrow> Inr (map doc_member_of (members c))
           | _ \<Rightarrow> Inl (DesignDocError (loc @ '' declares no contract named '' @ quoted name))))"

text \<open>A \<open>SynError\<close> of the parser becomes a \<open>DesignDocError\<close> with its message; nothing else is caught.\<close>

definition parse_from_text :: "string \<Rightarrow> string \<Rightarrow> doc_error + doc_member list" where
  "parse_from_text t name =
     (case parse_text t (name @ ''.syn'') name of
        Inl (SynError e) \<Rightarrow> Inl (DesignDocError (err_message e))
      | Inl e \<Rightarrow> Inl (Uncaught e)
      | Inr parsed \<Rightarrow> members_of parsed name (name @ ''.syn''))"

definition parse_export :: "string \<Rightarrow> point \<Rightarrow> owner_members \<Rightarrow> doc_error + doc_member list" where
  "parse_export name point owner = parse_from_text (contract_source name point owner False) name"

section \<open>Writing back\<close>

definition render_params :: "doc_pair list \<Rightarrow> string" where
  "render_params params = join '', '' (map (\<lambda>p. pair_type p @ '' '' @ pair_name p) params)"

definition render_member :: "doc_member \<Rightarrow> doc_error + string" where
  "render_member m =
     (let scope = strip (case doc_scope m of None \<Rightarrow> [] | Some s \<Rightarrow> s);
          gate = (if scope = [] then [] else ''<'' @ scope @ ''> '') in
      if doc_kind m = ''prop'' then Inr (gate @ ''prop '' @ doc_type m @ '' '' @ doc_name m)
      else if doc_kind m = ''model'' then
        Inr (gate @ ''model '' @ doc_name m @ ''('' @ render_params (doc_roles m) @ '')'')
      else if doc_kind m = ''signal'' then
        Inr (gate @ ''signal '' @ doc_name m @ ''('' @ render_params (doc_params m) @ '')'')
      else if doc_kind m = ''slot'' then
        Inr (gate @ (if doc_type m = [] then ''slot '' else ''slot '' @ doc_type m @ '' '')
             @ doc_name m @ ''('' @ render_params (doc_params m) @ '')'')
      else Inl (DesignDocError (quoted (doc_name m) @ '': '' @ quoted (doc_kind m)
                  @ '' is not a contract member kind'')))"

definition render_export :: "doc_member list \<Rightarrow> doc_error + string" where
  "render_export ms = bindr (mapr render_member ms) (\<lambda>ls. Inr (concat (map (\<lambda>l. l @ nl) ls)))"

end
