(* ===== verification/SynPrinter.thy ===== *)
theory SynPrinter
  imports DesignDoc
begin

text \<open>
  What the tokenizer makes of printed text. A text is a list of pieces (words, numbers,
  punctuation, gaps and line comments); when no two pieces run together, tokenizing its
  concatenation gives exactly the words, numbers and punctuation, in order.
\<close>

datatype piece = Word string | Num string | Punct char | Gap string | Note string

fun piece_text :: "piece \<Rightarrow> string" where
  "piece_text (Word w) = w"
| "piece_text (Num d) = d"
| "piece_text (Punct c) = [c]"
| "piece_text (Gap g) = g"
| "piece_text (Note t) = ''//'' @ t @ nl"

definition flat :: "piece list \<Rightarrow> string" where
  "flat ps = concat (map piece_text ps)"

type_synonym lexeme = "string \<times> string"

fun lexeme_of :: "piece \<Rightarrow> lexeme list" where
  "lexeme_of (Word w) = [(''ident'', w)]"
| "lexeme_of (Num d) = [(''number'', d)]"
| "lexeme_of (Punct c) = [([c], [c])]"
| "lexeme_of (Gap g) = []"
| "lexeme_of (Note t) = []"

definition lexemes :: "piece list \<Rightarrow> lexeme list" where
  "lexemes ps = concat (map lexeme_of ps)"

fun runs_on :: "piece \<Rightarrow> bool" where
  "runs_on (Word w) = True"
| "runs_on (Num d) = True"
| "runs_on _ = False"

fun wf_piece :: "piece \<Rightarrow> bool" where
  "wf_piece (Word w) \<longleftrightarrow> is_ident w"
| "wf_piece (Num d) \<longleftrightarrow> is_number d"
| "wf_piece (Punct c) \<longleftrightarrow> c \<in> set punctuation"
| "wf_piece (Gap g) \<longleftrightarrow> g \<noteq> [] \<and> list_all whitespace g"
| "wf_piece (Note t) \<longleftrightarrow> CHR 0x0A \<notin> set t"

fun lexable :: "piece list \<Rightarrow> bool" where
  "lexable [] \<longleftrightarrow> True"
| "lexable [p] \<longleftrightarrow> wf_piece p"
| "lexable (p # q # ps) \<longleftrightarrow> wf_piece p \<and> \<not> (runs_on p \<and> runs_on q) \<and> lexable (q # ps)"

lemma flat_simps [simp]: "flat [] = []" "flat (p # ps) = piece_text p @ flat ps" "flat (ps @ qs) = flat ps @ flat qs"
  by (simp_all add: flat_def)

lemma lexemes_simps [simp]:
  "lexemes [] = []" "lexemes (p # ps) = lexeme_of p @ lexemes ps" "lexemes (ps @ qs) = lexemes ps @ lexemes qs"
  by (simp_all add: lexemes_def)

lemma lexable_Cons: "lexable (p # ps) \<longleftrightarrow>
    wf_piece p \<and> (ps \<noteq> [] \<longrightarrow> \<not> (runs_on p \<and> runs_on (hd ps))) \<and> lexable ps"
  by (cases ps) auto

lemma lexable_append:
  "lexable (ps @ qs) \<longleftrightarrow> lexable ps \<and> lexable qs \<and>
     (ps \<noteq> [] \<longrightarrow> qs \<noteq> [] \<longrightarrow> \<not> (runs_on (last ps) \<and> runs_on (hd qs)))"
  by (induction ps) (auto simp: lexable_Cons)

definition kv :: "token \<Rightarrow> lexeme" where
  "kv t = (tok_kind t, tok_value t)"

section \<open>Tokenizing pieces\<close>

text \<open>The text after a word does not start with a character that would continue it.\<close>

lemma separator_chars:
  "c \<in> set punctuation \<Longrightarrow> \<not> ident_char c" "whitespace c \<Longrightarrow> \<not> ident_char c" "\<not> ident_char (CHR ''/'')"
  by (elim list_all_iff [THEN iffD1, THEN bspec, rotated], simp add: punctuation_def char_class_defs)
     (auto simp: whitespace_def char_class_defs)

lemma flat_start:
  assumes "lexable ps" and "ps \<noteq> [] \<longrightarrow> \<not> runs_on (hd ps)" and "flat ps = c # cs"
  shows "\<not> ident_char c"
proof -
  obtain p qs where ps: "ps = p # qs" using assms(3) by (cases ps) auto
  have p: "wf_piece p" "\<not> runs_on p" using assms(1,2) by (auto simp: ps lexable_Cons)
  have c: "c \<in> set punctuation \<or> whitespace c \<or> c = CHR ''/''"
  proof (cases p)
    case (Gap g)
    then show ?thesis using p assms(3) by (cases g) (auto simp: ps)
  qed (use p assms(3) in \<open>auto simp: ps\<close>)
  then show ?thesis using separator_chars by blast
qed

lemma takeWhile_flat:
  assumes "list_all P w" and "\<And>c cs. s = c # cs \<Longrightarrow> \<not> P c"
  shows "takeWhile P (w @ s) = w"
  using assms by (cases s) (auto simp: list_all_iff takeWhile_append2)

lemma advance_pos: "\<exists>l' k'. advance n (s, l, k) = (drop n s, l', k')"
  using fst_advance [of n "(s, l, k)"] by (metis fst_conv prod.exhaust)

lemma tokens_gap:
  "list_all whitespace g \<Longrightarrow> \<exists>l' k'. tokens_from path (g @ s, l, k) = tokens_from path (s, l', k')"
proof (induction g arbitrary: l k)
  case (Cons c cs)
  obtain l1 k1 where "advance 1 (c # cs @ s, l, k) = (cs @ s, l1, k1)"
    using advance_pos [of 1 "c # cs @ s" l k] by auto
  then have "tokens_from path ((c # cs) @ s, l, k) = tokens_from path (cs @ s, l1, k1)"
    using Cons.prems by (simp add: tokens_from.simps(2))
  then show ?case using Cons.IH [of l1 k1] Cons.prems by auto
qed auto

lemma find_sub_nl: "CHR 0x0A \<notin> set t \<Longrightarrow> find_sub nl (t @ nl @ s) = Some (length t)"
  by (induction t) auto

lemma tokens_note:
  assumes "CHR 0x0A \<notin> set t"
  shows "\<exists>l' k'. tokens_from path (''//'' @ t @ nl @ s, l, k) = tokens_from path (s, l', k')"
proof -
  have f: "find_sub nl (''//'' @ t @ nl @ s) = Some (length (''//'' @ t))"
    using find_sub_nl [of "''//'' @ t" s] assms by simp
  obtain l1 k1 where a: "advance (length (''//'' @ t)) (''//'' @ t @ nl @ s, l, k) = (nl @ s, l1, k1)"
    using advance_pos [of "length (''//'' @ t)" "''//'' @ t @ nl @ s" l k] by auto
  have "\<not> whitespace (CHR ''/'')" by (simp add: whitespace_def)
  then have "tokens_from path (''//'' @ t @ nl @ s, l, k) = tokens_from path (nl @ s, l1, k1)"
    using f a by (simp add: tokens_from.simps(2))
  then show ?thesis using tokens_gap [of nl path s l1 k1] by (auto simp: whitespace_def)
qed

lemma tokens_unit:
  assumes "wf_piece p" and "\<And>c cs. s = c # cs \<Longrightarrow> runs_on p \<Longrightarrow> \<not> ident_char c"
  shows "\<exists>ts l' k'. map kv ts = lexeme_of p \<and>
    tokens_from path (piece_text p @ s, l, k) = bindr (tokens_from path (s, l', k')) (\<lambda>us. Inr (ts @ us))"
proof -
  have skip: ?thesis if "lexeme_of p = []" "tokens_from path (piece_text p @ s, l, k) = tokens_from path (s, l', k')" for l' k'
    using that by (intro exI [of _ "[]"] exI [of _ l'] exI [of _ k']) (cases "tokens_from path (s, l', k')"; simp)
  have tok: ?thesis
    if "lexeme_of p = [(kd, v)]" "tokens_from path (piece_text p @ s, l, k) =
      bindr (tokens_from path (s, l', k')) (\<lambda>us. Inr (mk_token kd v l k # us))" for l' k' kd v
    using that by (intro exI [of _ "[mk_token kd v l k]"] exI [of _ l'] exI [of _ k']) (simp add: kv_def mk_token_def)
  show ?thesis
  proof (cases p)
    case (Gap g)
    then show ?thesis using skip tokens_gap [of g path s l k] assms(1) by auto
  next
    case (Note t)
    then show ?thesis using skip tokens_note [of t path s l k] assms(1) by auto
  next
    case (Punct c)
    obtain l1 k1 where a: "advance 1 (c # s, l, k) = (s, l1, k1)"
      using advance_pos [of 1 "c # s" l k] by auto
    have "\<not> whitespace c" "c \<noteq> CHR ''/''"
      using assms(1) Punct by (auto simp: punctuation_def whitespace_def)
    then show ?thesis using tok [of "[c]" "[c]" l1 k1] Punct assms(1) a by (simp add: tokens_from.simps(2))
  next
    case (Word w)
    then obtain c cs where w: "w = c # cs" "ident_start c" "list_all ident_char w"
      using assms(1) by (cases w) (auto simp: is_ident_def)
    have tw: "takeWhile ident_char (c # cs @ s) = c # cs"
      using takeWhile_flat [OF w(3), of s] assms(2) Word w(1) by simp
    obtain l1 k1 where a: "advance (length (c # cs)) (c # cs @ s, l, k) = (s, l1, k1)"
      using advance_pos [of "length (c # cs)" "c # cs @ s" l k] by auto
    have "\<not> whitespace c" "c \<noteq> CHR ''/''" "c \<notin> set punctuation"
      using w(2) separator_chars(1,2) [of c] ident_start_ident_char [of c] separator_chars(3) by auto
    then show ?thesis
      using tok [of "''ident''" w l1 k1] Word a w(1,2) tw by (simp add: tokens_from.simps(2) del: takeWhile.simps)
  next
    case (Num d)
    then obtain c cs where d: "d = c # cs" "is_digit c" "list_all is_digit d"
      using assms(1) by (cases d) (auto simp: is_number_def)
    have tw: "takeWhile is_digit (c # cs @ s) = c # cs"
      using takeWhile_flat [OF d(3), of s] assms(2) Num d(1) by (simp add: ident_char_def)
    obtain l1 k1 where a: "advance (length (c # cs)) (c # cs @ s, l, k) = (s, l1, k1)"
      using advance_pos [of "length (c # cs)" "c # cs @ s" l k] by auto
    have "ident_char c" "\<not> ident_start c" using d(2) ident_start_not_digit by (auto simp: ident_char_def)
    then have "\<not> whitespace c" "c \<noteq> CHR ''/''" "c \<notin> set punctuation" "\<not> ident_start c"
      using separator_chars(1,2) [of c] separator_chars(3) by auto
    then show ?thesis
      using tok [of "''number''" d l1 k1] Num a d(1,2) tw by (simp add: tokens_from.simps(2) del: takeWhile.simps)
  qed
qed

lemma tokens_pieces:
  "lexable ps \<Longrightarrow> \<exists>ts l' k'. map kv ts = lexemes ps \<and>
     tokens_from path (flat ps, l, k) = Inr (ts @ [mk_token ''eof'' [] l' k'])"
proof (induction ps arbitrary: l k)
  case Nil
  show ?case by (intro exI [of _ "[]"] exI [of _ l] exI [of _ k]) simp
next
  case (Cons p ps)
  then have "wf_piece p" and ps: "lexable ps" "ps \<noteq> [] \<longrightarrow> \<not> (runs_on p \<and> runs_on (hd ps))"
    by (auto simp: lexable_Cons)
  then obtain ts l1 k1 where p: "map kv ts = lexeme_of p"
      "tokens_from path (piece_text p @ flat ps, l, k) = bindr (tokens_from path (flat ps, l1, k1)) (\<lambda>us. Inr (ts @ us))"
    using tokens_unit [of p "flat ps" path l k] flat_start [of ps] by metis
  obtain us l2 k2 where "map kv us = lexemes ps"
      "tokens_from path (flat ps, l1, k1) = Inr (us @ [mk_token ''eof'' [] l2 k2])"
    using Cons.IH [OF ps(1)] by blast
  with p show ?case by (intro exI [of _ "ts @ us"] exI [of _ l2] exI [of _ k2]) simp
qed

end
