(* ===== verification/Roundtrip.thy ===== *)
theory Roundtrip
  imports SynPrinter
begin

text \<open>
  Reading back what was rendered. A member of the design document is rendered as a line of pieces;
  the tokenizer makes the line's lexemes of it and the parser reads from them a member that the
  document shows as the same record. \<open>reads\<close> is the contract of a parser on given lexemes; the
  comma-separated lists get theirs from the locale \<open>comma_reader\<close>, which extends \<open>comma_loop\<close>.
\<close>

section \<open>A logic for reading\<close>

definition reads :: "(string \<Rightarrow> bool) \<Rightarrow> 'a parser \<Rightarrow> lexeme list \<Rightarrow> ('a \<Rightarrow> bool) \<Rightarrow> bool" where
  "reads F p ks Q \<longleftrightarrow>
     (\<forall>ts r rest. map kv ts = ks \<longrightarrow> F (tok_kind r) \<longrightarrow>
        (\<exists>x. p (ts @ r # rest) = Inr (x, r # rest) \<and> Q x))"

text \<open>What may come next: the first lexeme of what follows, or whatever may follow the whole.\<close>

fun follows :: "lexeme list \<Rightarrow> (string \<Rightarrow> bool) \<Rightarrow> string \<Rightarrow> bool" where
  "follows [] F = F"
| "follows ((k, v) # ks) F = (\<lambda>k'. k' = k)"

lemma reads_weaken: "reads G p ks Q \<Longrightarrow> (\<And>k. F k \<Longrightarrow> G k) \<Longrightarrow> (\<And>x. Q x \<Longrightarrow> R x) \<Longrightarrow> reads F p ks R"
  unfolding reads_def by blast

lemma reads_return: "Q x \<Longrightarrow> reads F (\<lambda>ts. Inr (x, ts)) [] Q"
  by (simp add: reads_def)

lemma reads_bind:
  assumes "reads (follows ks' F) p ks Q" and "\<And>x. Q x \<Longrightarrow> reads F (f x) ks' R"
  shows "reads F (\<lambda>ts. bindr (p ts) (\<lambda>(x, ts'). f x ts')) (ks @ ks') R"
  unfolding reads_def
proof (intro allI impI)
  fix ts :: "token list" and r :: token and rest
  assume "map kv ts = ks @ ks'" and F: "F (tok_kind r)"
  then obtain us vs where ts: "ts = us @ vs" "map kv us = ks" "map kv vs = ks'"
    by (auto simp: map_eq_append_conv)
  obtain r' rest' where v: "vs @ r # rest = r' # rest'" "follows ks' F (tok_kind r')"
    using ts(3) F by (cases vs) (auto simp: kv_def)
  obtain x where x: "p (us @ vs @ r # rest) = Inr (x, vs @ r # rest)" "Q x"
    using assms(1) ts(2) v unfolding reads_def by metis
  then show "\<exists>x. bindr (p (ts @ r # rest)) (\<lambda>(x, ts'). f x ts') = Inr (x, r # rest) \<and> R x"
    using assms(2) [OF x(2)] ts(3) F unfolding reads_def by (simp add: ts(1))
qed

lemma reads_bind1:
  "reads (follows ks F) p [k] Q \<Longrightarrow> (\<And>x. Q x \<Longrightarrow> reads F (f x) ks R) \<Longrightarrow>
   reads F (\<lambda>ts. bindr (p ts) (\<lambda>(x, ts'). f x ts')) (k # ks) R"
  using reads_bind [of ks F p "[k]" Q f R] by simp

lemma reads_bind0:
  "reads (follows ks F) p [] Q \<Longrightarrow> (\<And>x. Q x \<Longrightarrow> reads F (f x) ks R) \<Longrightarrow>
   reads F (\<lambda>ts. bindr (p ts) (\<lambda>(x, ts'). f x ts')) ks R"
  using reads_bind [of ks F p "[]" Q f R] by simp

lemma reads_next_token: "k \<noteq> ''eof'' \<Longrightarrow> reads F next_token [(k, v)] (\<lambda>t. kv t = (k, v))"
  by (auto simp: reads_def next_token_def map_eq_Cons_conv kv_def)

lemma reads_expect: "k \<noteq> ''eof'' \<Longrightarrow> reads F (expect path k what) [(k, v)] (\<lambda>t. kv t = (k, v))"
  by (auto simp: reads_def expect_def peek_at_def next_token_def map_eq_Cons_conv kv_def)

lemma reads_expect_name:
  "wf_name v \<Longrightarrow> reads F (expect_name path what) [(''ident'', v)] (\<lambda>t. tok_value t = v)"
  by (auto simp: reads_def expect_name_def expect_def peek_at_def next_token_def map_eq_Cons_conv kv_def wf_name_def)

lemma reads_peek:
  "(\<And>t. kv t = (k, v) \<Longrightarrow> reads F (f t) ((k, v) # ks) Q) \<Longrightarrow>
   reads F (\<lambda>ts. bindr (peek ts) (\<lambda>t. f t ts)) ((k, v) # ks) Q"
  by (fastforce simp: reads_def peek_at_def map_eq_Cons_conv)

lemma reads_peek_end:
  "(\<And>t. F (tok_kind t) \<Longrightarrow> reads F (f t) [] Q) \<Longrightarrow> reads F (\<lambda>ts. bindr (peek ts) (\<lambda>t. f t ts)) [] Q"
  by (auto simp: reads_def peek_at_def)

lemma reads_if:
  "(C \<Longrightarrow> reads F p ks Q) \<Longrightarrow> (\<not> C \<Longrightarrow> reads F q ks Q) \<Longrightarrow> reads F (\<lambda>ts. if C then p ts else q ts) ks Q"
  by (cases C) simp_all

section \<open>Comma-separated lists\<close>

text \<open>
  An item the parser reads back from its lexemes gives a list the loop reads back from the
  lexemes of its items with a comma before each.
\<close>

locale comma_reader = comma_loop path P Q item tail
  for path :: string and P :: positions and Q :: "'a \<Rightarrow> bool" and item :: "'a parser" and tail :: "'a list parser" +
  fixes ok :: "'b \<Rightarrow> bool" and words :: "'b \<Rightarrow> lexeme list" and shown :: "'a \<Rightarrow> 'b"
  assumes item_reads: "ok b \<Longrightarrow> reads F item (words b) (\<lambda>x. shown x = b)"
begin

lemma tail_reads:
  "list_all ok bs \<Longrightarrow> reads (\<lambda>k. k \<noteq> '','') tail (concat (map (\<lambda>b. ('','', '','') # words b) bs)) (\<lambda>xs. map shown xs = bs)"
proof (induction bs)
  case Nil
  have "reads (\<lambda>k. k \<noteq> '','') (\<lambda>ts. bindr (peek ts) (\<lambda>t. if tok_kind t = '','' then q ts else Inr ([], ts))) []
      (\<lambda>xs. map shown xs = [])" for q
    by (intro reads_peek_end reads_if reads_return) auto
  then show ?case using tail_unfold by (simp add: reads_def)
next
  case (Cons b bs)
  let ?more = "concat (map (\<lambda>b. ('','', '','') # words b) bs)"
  have "reads (\<lambda>k. k \<noteq> '','') (\<lambda>ts. bindr (peek ts) (\<lambda>t. if tok_kind t = '','' then
        bindr (next_token ts) (\<lambda>(c, ts1). bindr (item ts1) (\<lambda>(x, ts2).
        bindr (tail ts2) (\<lambda>(xs, ts3). Inr (x # xs, ts3)))) else Inr ([], ts)))
      ([('','', '','')] @ words b @ ?more @ []) (\<lambda>xs. map shown xs = b # bs)"
    unfolding append_Cons append_Nil
  proof (intro reads_peek reads_if reads_bind1 [OF reads_next_token] reads_bind [OF item_reads] reads_bind)
    show "ok b" using Cons.prems by simp
    show "reads (follows [] (\<lambda>k. k \<noteq> '','')) tail ?more (\<lambda>xs. map shown xs = bs)"
      using Cons by simp
    show "reads (\<lambda>k. k \<noteq> '','') (\<lambda>ts3. Inr (x # xs, ts3)) [] (\<lambda>xs. map shown xs = b # bs)"
      if "shown x = b" "map shown xs = bs" for x xs
      using that by (intro reads_return) simp
  qed (auto simp: kv_def)
  then show ?case using tail_unfold by (simp add: reads_def)
qed

end

section \<open>Types, pairs and gates\<close>

definition type_pieces :: "string \<Rightarrow> piece list" where
  "type_pieces s =
     (case TYPE_RE s of
        Some (name, None) \<Rightarrow> [Word name]
      | Some (name, Some d) \<Rightarrow> [Word name, Punct (CHR ''[''), Num d, Punct (CHR '']'')]
      | None \<Rightarrow> [])"

lemma type_pieces_cases:
  assumes "written_type s"
  obtains (name) "is_ident s" "type_pieces s = [Word s]"
  | (bound) name d where "is_ident name" "is_number d" "s = name @ ''['' @ d @ '']''"
      "type_pieces s = [Word name, Punct (CHR ''[''), Num d, Punct (CHR '']'')]"
  using assms TYPE_RE_ident TYPE_RE_bound by (fastforce simp: written_type_def type_pieces_def)

lemma reads_type:
  assumes "written_type s" and "\<And>k. F k \<Longrightarrow> k \<noteq> ''[''"
  shows "reads F (parse_type_token path what) (lexemes (type_pieces s)) (\<lambda>t. tok_value t = s)"
  using assms(1)
proof (cases rule: type_pieces_cases)
  case name
  then show ?thesis
    using assms(2)
    by (fastforce simp: reads_def parse_type_token_def expect_def peek_at_def next_token_def map_eq_Cons_conv kv_def)
next
  case (bound name d)
  then show ?thesis
    by (auto simp: reads_def parse_type_token_def expect_def peek_at_def next_token_def map_eq_Cons_conv kv_def mk_token_def)
qed

definition pair_pieces :: "doc_pair \<Rightarrow> piece list" where
  "pair_pieces b = type_pieces (pair_type b) @ [Gap '' '', Word (pair_name b)]"

definition ok_pair :: "doc_pair \<Rightarrow> bool" where
  "ok_pair b \<longleftrightarrow> written_type (pair_type b) \<and> wf_name (pair_name b)"

lemma reads_typed_name:
  assumes "ok_pair b" and "\<And>ty nm. tok_value ty = pair_type b \<Longrightarrow> tok_value nm = pair_name b \<Longrightarrow> Q (f ty nm)"
  shows "reads F (\<lambda>ts. bindr (parse_type_token path what ts) (\<lambda>(ty, ts1).
    bindr (expect_name path what' ts1) (\<lambda>(nm, ts2). Inr (f ty nm, ts2)))) (lexemes (pair_pieces b)) Q"
  using assms unfolding pair_pieces_def ok_pair_def lexemes_simps lexeme_of.simps append_Nil append_Nil2
  by (intro reads_bind [OF reads_type] reads_bind1 [OF reads_expect_name] reads_return) auto

lemma reads_param: "ok_pair b \<Longrightarrow> reads F (parse_param path) (lexemes (pair_pieces b)) (\<lambda>p. doc_param p = b)"
  unfolding parse_param_def [abs_def] by (rule reads_typed_name) (auto simp: doc_param_def)

lemma reads_role: "ok_pair b \<Longrightarrow> reads F (parse_role path) (lexemes (pair_pieces b)) (\<lambda>p. doc_role p = b)"
  unfolding parse_role_def [abs_def] by (rule reads_typed_name) (auto simp: doc_role_def)

lemma reads_scope: "wf_name n \<Longrightarrow> reads F (parse_scope path) [(''ident'', n)] (\<lambda>x. id x = n)"
  unfolding parse_scope_def [abs_def]
  by (intro reads_bind1 [OF reads_expect_name] reads_return) auto

interpretation read_params: comma_reader path P "wf_param P" "parse_param path" "params_tail path"
  ok_pair "\<lambda>b. lexemes (pair_pieces b)" doc_param for path P
  by unfold_locales (rule reads_param)

interpretation read_roles: comma_reader path P "wf_role P" "parse_role path" "roles_tail path"
  ok_pair "\<lambda>b. lexemes (pair_pieces b)" doc_role for path P
  by unfold_locales (rule reads_role)

interpretation read_scopes: comma_reader path P wf_name "parse_scope path" "scopes_tail path"
  wf_name "\<lambda>n. [(''ident'', n)]" id for path P
  by unfold_locales (rule reads_scope)

section \<open>Lists and members\<close>

fun list_pieces :: "doc_pair list \<Rightarrow> piece list" where
  "list_pieces [] = []"
| "list_pieces (b # bs) = pair_pieces b @ concat (map (\<lambda>q. [Punct (CHR '',''), Gap '' ''] @ pair_pieces q) bs)"

lemma lexemes_concat: "lexemes (concat xss) = concat (map lexemes xss)"
  by (induction xss) auto

lemma lexemes_more:
  "lexemes (concat (map (\<lambda>q. [Punct (CHR '',''), Gap '' ''] @ pair_pieces q) bs)) =
     concat (map (\<lambda>b. ('','', '','') # lexemes (pair_pieces b)) bs)"
  by (simp add: lexemes_concat comp_def)

lemma first_lexeme: "ok_pair b \<Longrightarrow> \<exists>v ks. lexemes (pair_pieces b) @ rest = (''ident'', v) # ks"
  unfolding ok_pair_def pair_pieces_def
  by (elim conjE, erule type_pieces_cases) auto

text \<open>An optional list in parentheses, as both parameter and role lists read it.\<close>

lemma reads_items:
  assumes bs: "list_all ok_pair bs"
    and item: "\<And>b F. ok_pair b \<Longrightarrow> reads F item (lexemes (pair_pieces b)) (\<lambda>x. shown x = b)"
    and tail: "\<And>bs. list_all ok_pair bs \<Longrightarrow> reads (\<lambda>k. k \<noteq> '','') tail
      (concat (map (\<lambda>b. ('','', '','') # lexemes (pair_pieces b)) bs)) (\<lambda>xs. map shown xs = bs)"
    and rest: "\<And>xs. map shown xs = bs \<Longrightarrow> reads F (f xs) ((k, v) # ks) Q" and k: "k = '')''"
  shows "reads F (\<lambda>ts1. bindr (peek ts1) (\<lambda>t.
      bindr (if tok_kind t \<noteq> '')'' then
               bindr (item ts1) (\<lambda>(x, ts2). bindr (tail ts2) (\<lambda>(xs, ts3). Inr (x # xs, ts3)))
             else Inr ([], ts1)) (\<lambda>(xs, ts4). f xs ts4)))
    (lexemes (list_pieces bs) @ (k, v) # ks) Q"
proof (cases bs)
  case Nil
  have "reads F (f []) ((k, v) # ks) Q" using rest [of "[]"] Nil by simp
  then show ?thesis unfolding Nil list_pieces.simps lexemes_simps append_Nil
    by (intro reads_peek) (simp add: kv_def k)
next
  case (Cons b cs)
  let ?more = "concat (map (\<lambda>b. ('','', '','') # lexemes (pair_pieces b)) cs)"
  obtain v0 ks0 where hd: "lexemes (pair_pieces b) @ ?more @ (k, v) # ks = (''ident'', v0) # ks0"
    using first_lexeme [of b "?more @ (k, v) # ks"] bs Cons by auto
  have "reads (follows ((k, v) # ks) F) (\<lambda>ts1. bindr (item ts1) (\<lambda>(x, ts2). bindr (tail ts2) (\<lambda>(xs, ts3). Inr (x # xs, ts3))))
      (lexemes (pair_pieces b) @ ?more @ []) (\<lambda>xs. map shown xs = bs)"
  proof (intro reads_bind [OF item] reads_bind)
    show "ok_pair b" using bs Cons by simp
    show "reads (follows [] (follows ((k, v) # ks) F)) tail ?more (\<lambda>xs. map shown xs = cs)"
      using bs Cons k by (intro reads_weaken [OF tail]) auto
  qed (auto intro!: reads_return simp: Cons)
  then have "reads F (\<lambda>ts1. bindr (bindr (item ts1) (\<lambda>(x, ts2). bindr (tail ts2) (\<lambda>(xs, ts3). Inr (x # xs, ts3))))
      (\<lambda>(xs, ts4). f xs ts4)) ((lexemes (pair_pieces b) @ ?more @ []) @ (k, v) # ks) Q"
    by (rule reads_bind) (rule rest)
  then have body: "reads F (\<lambda>ts1. bindr (bindr (item ts1) (\<lambda>(x, ts2). bindr (tail ts2) (\<lambda>(xs, ts3). Inr (x # xs, ts3))))
      (\<lambda>(xs, ts4). f xs ts4)) ((''ident'', v0) # ks0) Q"
    using hd by simp
  have eq: "lexemes (list_pieces bs) @ (k, v) # ks = (''ident'', v0) # ks0"
    using hd by (simp add: Cons lexemes_more del: append_Cons)
  show ?thesis unfolding eq using body by (intro reads_peek) (simp add: kv_def)
qed

lemma reads_params:
  assumes "list_all ok_pair bs"
  shows "reads F (parse_params path) ((''('', ''('') # lexemes (list_pieces bs) @ [('')'', '')'')])
    (\<lambda>ps. map doc_param ps = bs)"
  unfolding parse_params_def [abs_def]
  by (rule reads_bind1 [OF reads_expect], simp,
      rule reads_items [OF assms reads_param read_params.tail_reads],
      assumption, assumption, rule reads_bind1 [OF reads_expect], simp, rule reads_return, simp_all)

fun gate_pieces :: "string list \<Rightarrow> piece list" where
  "gate_pieces [] = []"
| "gate_pieces (n # ns) = [Punct (CHR ''<''), Word n] @ concat (map (\<lambda>m. [Punct (CHR '',''), Word m]) ns)
     @ [Punct (CHR ''>''), Gap '' '']"

lemma reads_gate:
  assumes "wf_scopes sc" and "\<And>k. F k \<Longrightarrow> k \<noteq> ''<''"
  shows "reads F (parse_gate path) (lexemes (gate_pieces sc)) (\<lambda>x. x = sc)"
proof (cases sc)
  case Nil
  have "reads F (\<lambda>ts. bindr (peek ts) (\<lambda>t. if tok_kind t \<noteq> ''<'' then Inr ([], ts) else q t ts)) [] (\<lambda>x. x = [])" for q
    using assms(2) by (intro reads_peek_end reads_if reads_return) auto
  then show ?thesis unfolding parse_gate_def [abs_def] Nil by simp
next
  case (Cons n ns)
  have n: "wf_name n" "list_all wf_name ns" "first_repeat id [] (n # ns) = None"
    using assms(1) by (auto simp: wf_scopes_def Cons first_repeat_None)
  let ?more = "concat (map (\<lambda>m. ('','', '','') # [(''ident'', m)]) ns)"
  have eq: "lexemes (gate_pieces sc) = (''<'', ''<'') # (''ident'', n) # ?more @ (''>'', ''>'') # []"
    by (simp add: Cons lexemes_concat comp_def)
  have tail: "reads (follows ((''>'', ''>'') # []) F) (scopes_tail path) ?more (\<lambda>xs. xs = ns)"
    by (rule reads_weaken [OF read_scopes.tail_reads [OF n(2)]]) auto
  have body: "reads F (\<lambda>ts. bindr (next_token ts) (\<lambda>(o_tok, ts1).
         bindr (parse_scope path ts1) (\<lambda>(x, ts2).
         bindr (scopes_tail path ts2) (\<lambda>(xs, ts3).
         bindr (expect path ''>'' (quoted ''>'' @ '' to close the scope gate'') ts3) (\<lambda>(c_tok, ts4).
           case first_repeat id [] (x # xs) of
             Some name \<Rightarrow>
               bindr (peek ts4) (\<lambda>at.
                 error_at path (''scope '' @ quoted name @ '' is named twice in one gate'') at)
           | None \<Rightarrow> Inr (x # xs, ts4)))))) (lexemes (gate_pieces sc)) (\<lambda>x. x = sc)"
    unfolding eq
    by (rule reads_bind1 [OF reads_next_token], simp, rule reads_bind1 [OF reads_scope [OF n(1)]],
        rule reads_bind [OF tail], rule reads_bind1 [OF reads_expect], simp)
       (simp only: id_apply n(3) option.case Cons, rule reads_return, simp)
  then show ?thesis
    unfolding parse_gate_def [abs_def] eq by (intro reads_peek) (simp add: kv_def)
qed

text \<open>
  The pieces of a member. The document has no key for \<open>capture\<close>, so a slot is written without it.
\<close>

fun member_pieces :: "member \<Rightarrow> piece list" where
  "member_pieces (Prop p) = gate_pieces (prop_scope p) @ [Word ''prop'', Gap '' '']
     @ pair_pieces \<lparr>pair_type = prop_type p, pair_name = prop_name p\<rparr>"
| "member_pieces (Model m) = gate_pieces (model_scope m)
     @ [Word ''model'', Gap '' '', Word (model_name m), Punct (CHR ''('')]
     @ list_pieces (map doc_role (model_roles m)) @ [Punct (CHR '')'')]"
| "member_pieces (Signal s) = gate_pieces (signal_scope s)
     @ [Word ''signal'', Gap '' '', Word (signal_name s), Punct (CHR ''('')]
     @ list_pieces (map doc_param (signal_params s)) @ [Punct (CHR '')'')]"
| "member_pieces (Slot s) = gate_pieces (slot_scope s) @ [Word ''slot'', Gap '' '']
     @ (case slot_return_type s of
          None \<Rightarrow> [Word (slot_name s)]
        | Some r \<Rightarrow> pair_pieces \<lparr>pair_type = r, pair_name = slot_name s\<rparr>)
     @ [Punct (CHR ''('')] @ list_pieces (map doc_param (slot_params s)) @ [Punct (CHR '')'')]"

lemma ok_pairs:
  "list_all (wf_param P) ps \<Longrightarrow> list_all ok_pair (map doc_param ps)"
  "list_all (wf_role P) rs \<Longrightarrow> list_all ok_pair (map doc_role rs)"
  by (auto simp: list_all_iff wf_param_def wf_role_def ok_pair_def doc_param_def doc_role_def)

lemma reads_prop:
  "ok_pair b \<Longrightarrow> reads F (parse_prop path kw) (lexemes (pair_pieces b))
     (\<lambda>x. prop_type x = pair_type b \<and> prop_name x = pair_name b)"
  unfolding parse_prop_def [abs_def] by (rule reads_typed_name) auto

lemma reads_signal:
  assumes "wf_name n" and "list_all ok_pair bs"
  shows "reads F (parse_signal path kw) ((''ident'', n) # (''('', ''('') # lexemes (list_pieces bs) @ [('')'', '')'')])
    (\<lambda>x. signal_name x = n \<and> map doc_param (signal_params x) = bs)"
  unfolding parse_signal_def [abs_def]
  by (rule reads_bind1 [OF reads_expect_name [OF assms(1)]],
      subst append_Nil2 [symmetric], rule reads_bind [OF reads_params [OF assms(2)]], rule reads_return, simp)

lemma reads_model:
  assumes "wf_name n" and "list_all ok_pair bs" and "bs \<noteq> []"
  shows "reads F (parse_model path kw) ((''ident'', n) # (''('', ''('') # lexemes (list_pieces bs) @ [('')'', '')'')])
    (\<lambda>x. model_name x = n \<and> map doc_role (model_roles x) = bs)"
  unfolding parse_model_def [abs_def]
  apply (rule reads_bind1 [OF reads_expect_name [OF assms(1)]])
  apply (rule reads_bind1 [OF reads_expect], simp)
  apply (rule reads_items [OF assms(2) reads_role read_roles.tail_reads], assumption, assumption)
   apply (rule reads_bind1 [OF reads_expect], simp)
   apply (rule reads_if)
  using assms(3) apply fastforce
   apply (rule reads_return, simp)
  apply simp
  done

lemma reads_no_capture:
  assumes "reads F (f False) ((k1, v1) # (k2, v2) # ks) Q" and "v1 \<noteq> ''capture'' \<or> k2 = ''(''"
  shows "reads F (\<lambda>ts. bindr (parse_capture ts) (\<lambda>(c, ts1). f c ts1)) ((k1, v1) # (k2, v2) # ks) Q"
proof -
  have "parse_capture (ts @ r # rest) = Inr (False, ts @ r # rest)"
    if "map kv ts = (k1, v1) # (k2, v2) # ks" for ts and r :: token and rest
    using that assms(2) by (auto simp: parse_capture_def peek_at_def map_eq_Cons_conv kv_def)
  then show ?thesis using assms(1) by (simp add: reads_def)
qed

lemma reads_slot_head:
  assumes "wf_name n" and "case ret of None \<Rightarrow> True | Some r \<Rightarrow> written_type r"
  shows "reads (\<lambda>k. k = ''('') (slot_head path)
    (lexemes (case ret of None \<Rightarrow> [Word n] | Some r \<Rightarrow> pair_pieces \<lparr>pair_type = r, pair_name = n\<rparr>))
    (\<lambda>x. x = (n, ret))"
proof (cases ret)
  case None
  have n: "written_type n" "type_pieces n = [Word n]" "CHR ''['' \<notin> set n" "n \<notin> set KEYWORDS"
    using assms(1) by (auto simp: wf_name_def written_type_def type_pieces_def TYPE_RE_ident is_ident_def list_all_iff)
  have "reads (\<lambda>k. k = ''('') (\<lambda>ts. bindr (parse_type_token path ''a slot name or return type'' ts) (\<lambda>(first, ts1).
      bindr (peek ts1) (\<lambda>t. if tok_kind t = ''('' then
         if tok_value first \<in> set KEYWORDS then e1 first else if CHR ''['' \<in> set (tok_value first) then e2 first
         else Inr ((tok_value first, None), ts1) else e3 first ts1))) (lexemes (type_pieces n) @ []) (\<lambda>x. x = (n, None))" for e1 e2 e3
    by (rule reads_bind [OF reads_type [OF n(1)]])
       (simp, rule reads_peek_end, use n(3,4) in \<open>simp add: reads_def\<close>)
  then show ?thesis unfolding slot_head_def [abs_def] using None n(2) by simp
next
  case (Some r)
  have "reads (\<lambda>k. k = ''('') (\<lambda>ts. bindr (parse_type_token path ''a slot name or return type'' ts) (\<lambda>(first, ts1).
      bindr (peek ts1) (\<lambda>t. if tok_kind t = ''('' then e1 first ts1 else
         bindr (expect_name path ''slot name'' ts1) (\<lambda>(second, ts2).
           Inr ((tok_value second, Some (tok_value first)), ts2)))))
      (lexemes (type_pieces r) @ [(''ident'', n)]) (\<lambda>x. x = (n, Some r))" for e1
  proof (rule reads_bind [OF reads_type])
    show "written_type r" using assms(2) Some by simp
    fix first :: token assume "tok_value first = r"
    moreover have "reads (\<lambda>k. k = ''('') (\<lambda>ts1. bindr (expect_name path ''slot name'' ts1) (\<lambda>(second, ts2).
           Inr ((tok_value second, Some (tok_value first)), ts2))) [(''ident'', n)] (\<lambda>x. x = (n, Some (tok_value first)))"
      by (intro reads_bind1 [OF reads_expect_name [OF assms(1)]] reads_return) simp
    ultimately show "reads (\<lambda>k. k = ''('') (\<lambda>ts1. bindr (peek ts1) (\<lambda>t. if tok_kind t = ''('' then e1 first ts1 else
         bindr (expect_name path ''slot name'' ts1) (\<lambda>(second, ts2).
           Inr ((tok_value second, Some (tok_value first)), ts2)))) [(''ident'', n)] (\<lambda>x. x = (n, Some r))"
      by (intro reads_peek) (simp add: kv_def)
  qed simp
  then show ?thesis unfolding slot_head_def [abs_def] using Some by (simp add: pair_pieces_def)
qed

text \<open>The first word of a slot is no \<open>capture\<close> flag: a return type is not called that.\<close>

lemma slot_lexemes_start:
  assumes "case ret of None \<Rightarrow> True | Some r \<Rightarrow> written_type r \<and> valid_type [] r"
  shows "\<exists>v k2 v2 ks. lexemes (case ret of None \<Rightarrow> [Word n] | Some r \<Rightarrow> pair_pieces \<lparr>pair_type = r, pair_name = n\<rparr>)
      @ (''('', ''('') # rest = (''ident'', v) # (k2, v2) # ks \<and> (v \<noteq> ''capture'' \<or> k2 = ''('')"
proof (cases ret)
  case (Some r)
  have "base_of r \<noteq> ''capture''"
    using assms Some by (auto simp: valid_type_def has_key_def BUILTIN_TYPES_def)
  moreover have "\<exists>ks. lexemes (type_pieces r) = (''ident'', base_of r) # ks"
  proof -
    have "written_type r" using assms Some by simp
    then show ?thesis
    proof (cases rule: type_pieces_cases)
      case name
      then show ?thesis by (simp add: base_of_def TYPE_RE_ident)
    next
      case (bound nm d)
      then show ?thesis using TYPE_RE_bound [OF bound(1,2)] by (simp add: base_of_def)
    qed
  qed
  then obtain ks where "lexemes (type_pieces r) = (''ident'', base_of r) # ks" by blast
  moreover obtain k2 v2 ks' where "ks @ (''ident'', n) # (''('', ''('') # rest = (k2, v2) # ks'"
    by (cases ks) auto
  ultimately show ?thesis using Some by (auto simp: pair_pieces_def)
qed simp

lemma reads_slot:
  assumes "wf_name n" and "case ret of None \<Rightarrow> True | Some r \<Rightarrow> written_type r \<and> valid_type [] r"
    and "list_all ok_pair bs"
  shows "reads F (parse_slot path kw)
    (lexemes (case ret of None \<Rightarrow> [Word n] | Some r \<Rightarrow> pair_pieces \<lparr>pair_type = r, pair_name = n\<rparr>)
     @ (''('', ''('') # lexemes (list_pieces bs) @ [('')'', '')'')])
    (\<lambda>x. slot_name x = n \<and> slot_return_type x = ret \<and> map doc_param (slot_params x) = bs)"
proof -
  let ?head = "lexemes (case ret of None \<Rightarrow> [Word n] | Some r \<Rightarrow> pair_pieces \<lparr>pair_type = r, pair_name = n\<rparr>)"
  let ?params = "(''('', ''('') # lexemes (list_pieces bs) @ [('')'', '')'')]"
  have head: "reads (follows ?params F) (slot_head path) ?head (\<lambda>x. x = (n, ret))"
    using reads_slot_head [of n ret path] assms(1,2) by (auto split: option.splits)
  obtain v k2 v2 ks where start: "?head @ ?params = (''ident'', v) # (k2, v2) # ks" "v \<noteq> ''capture'' \<or> k2 = ''(''"
    using slot_lexemes_start [OF assms(2)] by metis
  have "reads F (\<lambda>ts1. bindr (slot_head path ts1) (\<lambda>(name_ret, ts2).
     bindr (parse_params path ts2) (\<lambda>(params, ts3).
       Inr (\<lparr>slot_name = fst name_ret, slot_params = params, slot_return_type = snd name_ret,
             slot_line = tok_line kw, slot_col = tok_col kw, slot_scope = [],
             slot_capture = c\<rparr>, ts3)))) (?head @ ?params @ [])
    (\<lambda>x. slot_name x = n \<and> slot_return_type x = ret \<and> map doc_param (slot_params x) = bs)" for c
    by (rule reads_bind, simp only: append_Nil2, rule head, rule reads_bind [OF reads_params [OF assms(3)]],
        rule reads_return, simp)
  then show ?thesis
    unfolding parse_slot_def [abs_def] using start(2)
    by (simp only: append_Nil2 start(1)) (rule reads_no_capture)
qed

lemma reads_member_of: "reads F p ks Q \<Longrightarrow> (\<And>x. Q x \<Longrightarrow> R (f x)) \<Longrightarrow> reads F (member_of f p) ks R"
  unfolding member_of_def [abs_def]
  using reads_bind [of "[]" F p ks Q "\<lambda>x ts'. Inr (f x, ts')" R] by (simp add: reads_return)

lemma reads_gated_member:
  assumes sc: "wf_scopes sc" and kw: "kwv \<in> {''prop'', ''model'', ''signal'', ''slot''}"
    and body: "\<And>kw. tok_value kw = kwv \<Longrightarrow> reads F
      (\<lambda>ts2. if tok_value kw = ''prop'' then member_of Prop (parse_prop path kw) ts2
            else if tok_value kw = ''model'' then member_of Model (parse_model path kw) ts2
            else if tok_value kw = ''signal'' then member_of Signal (parse_signal path kw) ts2
            else member_of Slot (parse_slot path kw) ts2) ks R"
    and result: "\<And>m. R m \<Longrightarrow> Q (with_scope sc m)"
  shows "reads F (parse_member path) (lexemes (gate_pieces sc) @ (''ident'', kwv) # ks) Q"
  unfolding parse_member_def [abs_def]
proof (rule reads_bind [OF reads_gate [OF sc]])
  fix sc' assume "sc' = sc"
  let ?rest = "\<lambda>ts1. bindr (next_token ts1) (\<lambda>(keyword, ts2).
         bindr (if tok_value keyword = ''prop'' then member_of Prop (parse_prop path keyword) ts2
                else if tok_value keyword = ''model'' then member_of Model (parse_model path keyword) ts2
                else if tok_value keyword = ''signal'' then member_of Signal (parse_signal path keyword) ts2
                else member_of Slot (parse_slot path keyword) ts2) (\<lambda>(m, ts3).
           Inr (with_scope sc' m, ts3)))"
  have "reads F ?rest ((''ident'', kwv) # ks @ []) Q"
    by (rule reads_bind1 [OF reads_next_token], simp, rule reads_bind, simp only: follows.simps,
        rule body, simp add: kv_def, rule reads_return, simp add: \<open>sc' = sc\<close> result)
  then show "reads F (\<lambda>ts1. bindr (peek ts1) (\<lambda>t.
       if tok_kind t \<noteq> ''ident'' \<or> tok_value t \<notin> {''prop'', ''model'', ''signal'', ''slot''}
       then error_at path (''expected a member ('' @ quoted ''prop'' @ '', '' @ quoted ''model'' @ '', ''
              @ quoted ''signal'' @ '', or '' @ quoted ''slot'' @ ''), got '' @ quoted (tok_value t)) t
       else ?rest ts1)) ((''ident'', kwv) # ks) Q"
    using kw by (intro reads_peek) (simp add: kv_def del: insert_iff)
qed simp

text \<open>Two members the document shows alike, and whose types are alike.\<close>

definition alike :: "member \<Rightarrow> member \<Rightarrow> bool" where
  "alike x m \<longleftrightarrow> doc_member_of x = doc_member_of m \<and> (typed_member [] m \<longrightarrow> typed_member [] x)"

lemma doc_params_typed:
  assumes "map doc_param xs = map doc_param ys"
  shows "length xs = length ys \<and>
    ((\<forall>p \<in> set ys. valid_type rs (par_type p)) \<longrightarrow> (\<forall>p \<in> set xs. valid_type rs (par_type p)))"
proof -
  have "(\<forall>p \<in> set ps. valid_type rs (par_type p)) \<longleftrightarrow> (\<forall>b \<in> set (map doc_param ps). valid_type rs (pair_type b))" for ps
    by (simp add: doc_param_def)
  then show ?thesis using assms map_eq_imp_length_eq [OF assms] by (simp only: simp_thms)
qed

lemma doc_roles_typed:
  assumes "map doc_role xs = map doc_role ys" and "\<forall>p \<in> set ys. valid_type rs (role_type p)"
  shows "\<forall>p \<in> set xs. valid_type rs (role_type p)"
proof -
  have "(\<forall>p \<in> set ps. valid_type rs (role_type p)) \<longleftrightarrow> (\<forall>b \<in> set (map doc_role ps). valid_type rs (pair_type b))" for ps
    by (simp add: doc_role_def)
  then show ?thesis using assms by (simp only: simp_thms)
qed

lemma reads_member:
  assumes wf: "wf_member P m" and typed: "typed_member [] m"
  shows "reads F (parse_member path) (lexemes (member_pieces m)) (\<lambda>x. alike x m)"
proof (cases m)
  case (Prop p)
  let ?b = "\<lparr>pair_type = prop_type p, pair_name = prop_name p\<rparr>"
  have "reads F (parse_member path) (lexemes (gate_pieces (prop_scope p)) @ (''ident'', ''prop'') # lexemes (pair_pieces ?b))
      (\<lambda>x. alike x m)"
    using wf Prop
    by (intro reads_gated_member [where R = "\<lambda>x. \<exists>q. x = Prop q \<and> prop_type q = prop_type p \<and> prop_name q = prop_name p"])
       (auto simp: wf_member_def ok_pair_def alike_def intro!: reads_member_of [OF reads_prop])
  then show ?thesis using Prop by simp
next
  case (Model q)
  have "reads F (parse_member path) (lexemes (gate_pieces (model_scope q)) @ (''ident'', ''model'') #
      (''ident'', model_name q) # (''('', ''('') # lexemes (list_pieces (map doc_role (model_roles q))) @ [('')'', '')'')])
      (\<lambda>x. alike x m)"
    using wf Model
    by (intro reads_gated_member [where R = "\<lambda>x. \<exists>y. x = Model y \<and> model_name y = model_name q \<and>
          map doc_role (model_roles y) = map doc_role (model_roles q)"])
       (auto simp: wf_member_def alike_def intro!: reads_member_of [OF reads_model] ok_pairs dest: doc_roles_typed)
  then show ?thesis using Model by simp
next
  case (Signal q)
  have "reads F (parse_member path) (lexemes (gate_pieces (signal_scope q)) @ (''ident'', ''signal'') #
      (''ident'', signal_name q) # (''('', ''('') # lexemes (list_pieces (map doc_param (signal_params q))) @ [('')'', '')'')])
      (\<lambda>x. alike x m)"
    using wf Signal
    by (intro reads_gated_member [where R = "\<lambda>x. \<exists>y. x = Signal y \<and> signal_name y = signal_name q \<and>
          map doc_param (signal_params y) = map doc_param (signal_params q)"])
       (auto simp: wf_member_def alike_def intro!: reads_member_of [OF reads_signal] ok_pairs dest: doc_params_typed)
  then show ?thesis using Signal by simp
next
  case (Slot q)
  have slot: "reads F (parse_slot path kw)
    (lexemes (case slot_return_type q of None \<Rightarrow> [Word (slot_name q)]
        | Some r \<Rightarrow> pair_pieces \<lparr>pair_type = r, pair_name = slot_name q\<rparr>)
     @ (''('', ''('') # lexemes (list_pieces (map doc_param (slot_params q))) @ [('')'', '')'')])
    (\<lambda>x. slot_name x = slot_name q \<and> slot_return_type x = slot_return_type q \<and>
       map doc_param (slot_params x) = map doc_param (slot_params q))" for kw
    using wf typed Slot by (intro reads_slot ok_pairs) (auto simp: wf_member_def split: option.splits)
  have "reads F (parse_member path) (lexemes (gate_pieces (slot_scope q)) @ (''ident'', ''slot'') #
      (lexemes (case slot_return_type q of None \<Rightarrow> [Word (slot_name q)]
        | Some r \<Rightarrow> pair_pieces \<lparr>pair_type = r, pair_name = slot_name q\<rparr>)
     @ (''('', ''('') # lexemes (list_pieces (map doc_param (slot_params q))) @ [('')'', '')'')]))
      (\<lambda>x. alike x m)"
    using wf Slot
    by (intro reads_gated_member [where R = "\<lambda>x. \<exists>y. x = Slot y \<and> slot_name y = slot_name q \<and>
          slot_return_type y = slot_return_type q \<and> map doc_param (slot_params y) = map doc_param (slot_params q)"])
       (auto simp: wf_member_def alike_def intro!: reads_member_of [OF slot] dest: doc_params_typed)
  then show ?thesis using Slot by simp
qed

section \<open>Contracts\<close>

lemma member_lexemes_start:
  "\<exists>k v ks. lexemes (member_pieces m) @ rest = (k, v) # ks \<and> k \<noteq> ''}'' \<and> k \<noteq> ''eof''"
proof -
  have "\<exists>k v ks. lexemes (gate_pieces sc) @ (''ident'', w) # r = (k, v) # ks \<and> k \<noteq> ''}'' \<and> k \<noteq> ''eof''" for sc w r
    by (cases sc) auto
  then show ?thesis by (cases m) simp_all
qed

definition readable :: "member \<Rightarrow> bool" where
  "readable m \<longleftrightarrow> wf_member UNIV m \<and> typed_member [] m"

lemma reads_members:
  "list_all readable ms \<Longrightarrow> reads (\<lambda>k. k = ''}'') (members_loop path)
     (concat (map (\<lambda>m. lexemes (member_pieces m)) ms)) (\<lambda>xs. list_all2 alike xs ms)"
proof (induction ms)
  case Nil
  have "reads (\<lambda>k. k = ''}'') (\<lambda>ts. bindr (peek ts) (\<lambda>t. if tok_kind t \<noteq> ''}'' then q t ts else Inr ([], ts))) []
      (\<lambda>xs. list_all2 alike xs [])" for q
    by (intro reads_peek_end) (simp add: reads_return)
  then show ?case by (simp add: reads_def members_loop.simps)
next
  case (Cons m ms)
  let ?more = "concat (map (\<lambda>m. lexemes (member_pieces m)) ms)"
  obtain k v ks where start: "lexemes (member_pieces m) @ ?more = (k, v) # ks" "k \<noteq> ''}''" "k \<noteq> ''eof''"
    using member_lexemes_start [of m ?more] by blast
  have "reads (\<lambda>k. k = ''}'') (\<lambda>ts. bindr (parse_member path ts) (\<lambda>(m, ts1).
           bindr (members_loop path ts1) (\<lambda>(ms, ts2). Inr (m # ms, ts2))))
      (lexemes (member_pieces m) @ ?more @ []) (\<lambda>xs. list_all2 alike xs (m # ms))"
  proof (intro reads_bind [OF reads_member] reads_bind)
    show "wf_member UNIV m" "typed_member [] m" using Cons.prems by (simp_all add: readable_def)
    show "reads (follows [] (\<lambda>k. k = ''}'')) (members_loop path) ?more (\<lambda>xs. list_all2 alike xs ms)"
      using Cons by simp
  qed (auto intro!: reads_return)
  then have body: "reads (\<lambda>k. k = ''}'') (\<lambda>ts. bindr (parse_member path ts) (\<lambda>(m, ts1).
           bindr (members_loop path ts1) (\<lambda>(ms, ts2). Inr (m # ms, ts2))))
      ((k, v) # ks) (\<lambda>xs. list_all2 alike xs (m # ms))"
    using start(1) by simp
  have "reads (\<lambda>k. k = ''}'') (\<lambda>ts. bindr (peek ts) (\<lambda>t.
       if tok_kind t \<noteq> ''}'' then
         if tok_kind t = ''eof''
         then error_at path (''unterminated contract: expected '' @ quoted ''}'') t
         else bindr (parse_member path ts) (\<lambda>(m, ts1).
           bindr (members_loop path ts1) (\<lambda>(ms, ts2). Inr (m # ms, ts2)))
       else Inr ([], ts))) ((k, v) # ks) (\<lambda>xs. list_all2 alike xs (m # ms))"
    using body start(2,3) by (intro reads_peek) (simp add: kv_def)
  then show ?case using start(1) by (simp add: reads_def members_loop.simps)
qed

definition contract_lexemes :: "string \<Rightarrow> member list \<Rightarrow> lexeme list" where
  "contract_lexemes name ms = (''ident'', ''contract'') # (''ident'', name) # (''{'', ''{'') #
     concat (map (\<lambda>m. lexemes (member_pieces m)) ms) @ [(''}'', ''}'')]"

lemma reads_contract:
  assumes "wf_name name" and "list_all readable ms"
  shows "reads F (parse_contract path) (contract_lexemes name ms)
    (\<lambda>c. contract_name c = name \<and> list_all2 alike (members c) ms)"
  unfolding parse_contract_def [abs_def] contract_lexemes_def
  by (rule reads_bind1 [OF reads_next_token], simp, rule reads_bind1 [OF reads_expect_name [OF assms(1)]],
      rule reads_bind1 [OF reads_expect], simp,
      rule reads_bind, rule reads_weaken [OF reads_members [OF assms(2)]], simp, assumption,
      rule reads_bind1 [OF reads_next_token], simp, rule reads_return, simp)

end
