(* ===== verification/DesignRoundtrip.thy ===== *)
theory DesignRoundtrip
  imports Roundtrip
begin

text \<open>
  The design document survives being written back: rendering members to an \<open>export:\<close> block,
  generating the contract of it and parsing that contract gives the same members.
\<close>

section \<open>The rendered line is its pieces\<close>

lemma flat_type: "written_type s \<Longrightarrow> flat (type_pieces s) = s"
  by (erule type_pieces_cases) simp_all

lemma flat_pair: "ok_pair b \<Longrightarrow> flat (pair_pieces b) = pair_type b @ '' '' @ pair_name b"
  by (simp add: pair_pieces_def ok_pair_def flat_type)

lemma flat_list: "list_all ok_pair bs \<Longrightarrow> flat (list_pieces bs) = render_params bs"
proof (induction bs rule: list_pieces.induct)
  case (2 b bs)
  have "flat (concat (map (\<lambda>q. [Punct (CHR '',''), Gap '' ''] @ pair_pieces q) cs)) =
      concat (map (\<lambda>p. '', '' @ pair_type p @ '' '' @ pair_name p) cs)" if "list_all ok_pair cs" for cs
    using that by (induction cs) (auto simp: flat_pair)
  moreover have "join '', '' (x # map f cs) = x @ concat (map (\<lambda>p. '', '' @ f p) cs)" for x cs and f :: "doc_pair \<Rightarrow> string"
    by (induction cs arbitrary: x) auto
  ultimately show ?case using "2.prems" by (simp add: flat_pair render_params_def)
qed (simp add: render_params_def)

lemma strip_id: "s \<noteq> [] \<Longrightarrow> \<not> py_space (hd s) \<Longrightarrow> \<not> py_space (last s) \<Longrightarrow> strip s = s"
proof -
  assume s: "s \<noteq> []" "\<not> py_space (hd s)" "\<not> py_space (last s)"
  have "lstrip s = s" using s by (cases s) (simp_all add: lstrip_def)
  moreover have "rstrip s = s" using s by (cases s rule: rev_cases) (simp_all add: rstrip_def)
  ultimately show ?thesis by (simp add: strip_def)
qed

lemma ident_not_space: "ident_char c \<Longrightarrow> \<not> py_space c"
  by (auto simp: char_class_defs py_space_def)

lemma name_ends: "wf_name n \<Longrightarrow> n \<noteq> [] \<and> \<not> py_space (hd n) \<and> \<not> py_space (last n)"
  using ident_not_space by (auto simp: wf_name_def is_ident_def list_all_iff)

lemma join_ends:
  "xs \<noteq> [] \<Longrightarrow> list_all wf_name xs \<Longrightarrow>
     join '','' xs \<noteq> [] \<and> \<not> py_space (hd (join '','' xs)) \<and> \<not> py_space (last (join '','' xs))"
proof (induction xs)
  case (Cons x xs)
  then show ?case using name_ends [of x] by (cases "xs = []") (auto simp: join_Cons)
qed simp

lemma scope_key_gate:
  assumes "wf_scopes sc"
  shows "(let scope = strip (case scope_key sc of None \<Rightarrow> [] | Some s \<Rightarrow> s) in
    if scope = [] then [] else ''<'' @ scope @ ''> '') = flat (gate_pieces sc)"
proof (cases sc)
  case Nil
  then show ?thesis by (simp add: scope_key_def strip_def lstrip_def rstrip_def)
next
  case (Cons n ns)
  then have j: "join '','' sc \<noteq> []" "strip (join '','' sc) = join '','' sc"
    using join_ends [of sc] assms strip_id by (auto simp: wf_scopes_def)
  have "join '','' (x # xs) = x @ concat (map (\<lambda>m. '','' @ m) xs)" for x xs
    by (induction xs arbitrary: x) auto
  moreover have "flat (concat (map (\<lambda>m. [Punct (CHR '',''), Word m]) ns)) = concat (map (\<lambda>m. '','' @ m) ns)"
    by (induction ns) auto
  ultimately show ?thesis using j Cons by (simp add: scope_key_def Let_def)
qed

lemma render_member_pieces:
  assumes "wf_member P m"
  shows "render_member (doc_member_of m) = Inr (flat (member_pieces m))"
proof -
  have gate: "(if strip (case scope_key sc of None \<Rightarrow> [] | Some s \<Rightarrow> s) = [] then []
      else ''<'' @ strip (case scope_key sc of None \<Rightarrow> [] | Some s \<Rightarrow> s) @ ''> '') = flat (gate_pieces sc)"
    if "wf_scopes sc" for sc
    using scope_key_gate [OF that] by (simp add: Let_def)
  have sc: "wf_scopes (member_scope m)" using assms by (simp add: wf_member_def)
  show ?thesis
  proof (cases m)
    case (Prop p)
    then show ?thesis
      using assms gate [of "prop_scope p"] sc
      by (simp add: render_member_def Let_def wf_member_def flat_pair ok_pair_def del: append_Cons)
  next
    case (Model q)
    then show ?thesis
      using assms gate [of "model_scope q"] sc ok_pairs(2) [of P "model_roles q"]
      by (simp add: render_member_def Let_def wf_member_def flat_list del: append_Cons)
  next
    case (Signal q)
    then show ?thesis
      using assms gate [of "signal_scope q"] sc ok_pairs(1) [of P "signal_params q"]
      by (simp add: render_member_def Let_def wf_member_def flat_list del: append_Cons)
  next
    case (Slot q)
    have "\<And>r. written_type r \<Longrightarrow> r \<noteq> []" by (auto simp: written_type_def is_ident_def)
    then show ?thesis
      using assms gate [of "slot_scope q"] sc ok_pairs(1) [of P "slot_params q"] Slot
      by (cases "slot_return_type q")
         (auto simp: render_member_def Let_def wf_member_def flat_list flat_pair ok_pair_def simp del: append_Cons)
  qed
qed

section \<open>The pieces do not run together\<close>

lemma lexable_concat:
  "(\<And>x. x \<in> set xss \<Longrightarrow> lexable x \<and> x \<noteq> [] \<and> \<not> runs_on (hd x)) \<Longrightarrow>
     lexable (concat xss) \<and> (concat xss \<noteq> [] \<longrightarrow> \<not> runs_on (hd (concat xss)))"
proof (induction xss)
  case (Cons x xss)
  then show ?case by (auto simp: lexable_append)
qed simp

lemma lexable_pair: "ok_pair b \<Longrightarrow> lexable (pair_pieces b) \<and> pair_pieces b \<noteq> []"
  unfolding ok_pair_def pair_pieces_def wf_name_def
  by (elim conjE, erule type_pieces_cases) (auto simp: lexable_Cons punctuation_def whitespace_def)

lemma lexable_list: "list_all ok_pair bs \<Longrightarrow> lexable (list_pieces bs)"
proof (cases bs)
  case (Cons b cs)
  assume bs: "list_all ok_pair bs"
  let ?more = "concat (map (\<lambda>q. [Punct (CHR '',''), Gap '' ''] @ pair_pieces q) cs)"
  have "lexable ?more \<and> (?more \<noteq> [] \<longrightarrow> \<not> runs_on (hd ?more))"
    by (rule lexable_concat)
       (use bs Cons lexable_pair in \<open>auto simp: lexable_Cons punctuation_def whitespace_def list_all_iff\<close>)
  then show ?thesis using bs Cons lexable_pair [of b] by (simp add: lexable_append)
qed simp

lemma lexable_gate: "wf_scopes sc \<Longrightarrow> lexable (gate_pieces sc) \<and>
    (gate_pieces sc \<noteq> [] \<longrightarrow> \<not> runs_on (last (gate_pieces sc)))"
proof (cases sc)
  case (Cons n ns)
  assume sc: "wf_scopes sc"
  let ?more = "concat (map (\<lambda>m. [Punct (CHR '',''), Word m]) ns)"
  have "lexable ?more \<and> (?more \<noteq> [] \<longrightarrow> \<not> runs_on (hd ?more))"
    by (rule lexable_concat)
       (use sc Cons in \<open>auto simp: lexable_Cons punctuation_def wf_scopes_def list_all_iff wf_name_def\<close>)
  moreover have "is_ident n" using sc Cons by (simp add: wf_scopes_def wf_name_def)
  ultimately show ?thesis
    using Cons by (auto simp: lexable_append lexable_Cons punctuation_def whitespace_def hd_append)
qed simp

lemma lexable_member:
  assumes "wf_member P m"
  shows "lexable (member_pieces m)"
proof -
  have kw: "is_ident ''prop''" "is_ident ''model''" "is_ident ''signal''" "is_ident ''slot''"
    by (simp_all add: is_ident_def char_class_defs)
  have gate: "lexable (gate_pieces (member_scope m))" "gate_pieces (member_scope m) \<noteq> [] \<longrightarrow>
      \<not> runs_on (last (gate_pieces (member_scope m)))"
    using assms lexable_gate by (simp_all add: wf_member_def)
  have parens: "lexable (Punct (CHR ''('') # list_pieces bs @ [Punct (CHR '')'')])" if "list_all ok_pair bs" for bs
    using lexable_list [OF that] by (auto simp: lexable_append lexable_Cons punctuation_def)
  show ?thesis
  proof (cases m)
    case (Prop p)
    then show ?thesis
      using assms gate kw lexable_pair [of "\<lparr>pair_type = prop_type p, pair_name = prop_name p\<rparr>"]
      by (auto simp: lexable_append lexable_Cons wf_member_def ok_pair_def whitespace_def)
  next
    case (Model q)
    then show ?thesis
      using assms gate kw parens [OF ok_pairs(2), of P "model_roles q"]
      by (auto simp: lexable_append lexable_Cons wf_member_def wf_name_def whitespace_def)
  next
    case (Signal q)
    then show ?thesis
      using assms gate kw parens [OF ok_pairs(1), of P "signal_params q"]
      by (auto simp: lexable_append lexable_Cons wf_member_def wf_name_def whitespace_def)
  next
    case (Slot q)
    then show ?thesis
      using assms gate kw parens [OF ok_pairs(1), of P "slot_params q"]
        lexable_pair [of "\<lparr>pair_type = the (slot_return_type q), pair_name = slot_name q\<rparr>"]
      by (cases "slot_return_type q")
         (auto simp: lexable_append lexable_Cons wf_member_def wf_name_def ok_pair_def whitespace_def)
  qed
qed

section \<open>The rendered line survives the frame\<close>

text \<open>The characters of a rendered line: none ends a line, and no line starts with a space or as a record.\<close>

fun inline :: "piece \<Rightarrow> bool" where
  "inline (Gap g) \<longleftrightarrow> list_all (\<lambda>c. c = CHR '' '') g"
| "inline (Note t) \<longleftrightarrow> False"
| "inline _ \<longleftrightarrow> True"

lemma inline_chars:
  assumes "lexable ps" and "list_all inline ps" and "c \<in> set (flat ps)"
  shows "ident_char c \<or> c \<in> set punctuation \<or> c = CHR '' ''"
proof -
  obtain p where p: "p \<in> set ps" "c \<in> set (piece_text p)" using assms(3) by (auto simp: flat_def)
  have "list_all wf_piece ps" using assms(1) by (induction ps) (auto simp: lexable_Cons)
  then have "wf_piece p" "inline p" using p assms(2) by (auto simp: list_all_iff)
  then show ?thesis
    using p(2) by (cases p) (auto simp: is_ident_def is_number_def list_all_iff ident_char_def)
qed

lemma not_line_break: "ident_char c \<or> c \<in> set punctuation \<or> c = CHR '' '' \<Longrightarrow> \<not> line_break c"
  by (auto simp: char_class_defs line_break_def punctuation_def Let_def)

lemma inline_pairs: "ok_pair b \<Longrightarrow> list_all inline (pair_pieces b)"
  unfolding ok_pair_def pair_pieces_def by (elim conjE, erule type_pieces_cases) auto

lemma inline_lists: "list_all ok_pair bs \<Longrightarrow> list_all inline (list_pieces bs)"
  by (cases bs) (auto simp: inline_pairs list_all_iff [of _ "concat _"] list_all_iff [of ok_pair] dest!: inline_pairs simp: list_all_iff)

lemma inline_gate: "list_all inline (gate_pieces sc)"
  by (cases sc) (auto simp: list_all_iff)

lemma inline_member:
  assumes "wf_member P m"
  shows "list_all inline (member_pieces m)"
proof (cases m)
  case (Slot q)
  then show ?thesis
    using assms inline_gate inline_lists [OF ok_pairs(1), of P "slot_params q"]
      inline_pairs [of "\<lparr>pair_type = the (slot_return_type q), pair_name = slot_name q\<rparr>"]
    by (cases "slot_return_type q") (auto simp: wf_member_def ok_pair_def)
next
  case (Prop p)
  then show ?thesis
    using assms inline_gate inline_pairs [of "\<lparr>pair_type = prop_type p, pair_name = prop_name p\<rparr>"]
    by (auto simp: wf_member_def ok_pair_def)
next
  case (Model q)
  then show ?thesis using assms inline_gate inline_lists [OF ok_pairs(2), of P "model_roles q"] by (auto simp: wf_member_def)
next
  case (Signal q)
  then show ?thesis using assms inline_gate inline_lists [OF ok_pairs(1), of P "signal_params q"] by (auto simp: wf_member_def)
qed

definition framed :: "string \<Rightarrow> bool" where
  "framed l \<longleftrightarrow> l \<noteq> [] \<and> \<not> py_space (hd l) \<and> hd l \<noteq> CHR ''r'' \<and> \<not> py_space (last l) \<and> list_all (\<lambda>c. \<not> line_break c) l"

lemma framed_member:
  assumes "wf_member P m"
  shows "framed (flat (member_pieces m))"
proof -
  define S where "S = set ''<pms''"
  have S: "CHR ''<'' \<in> S" "CHR ''p'' \<in> S" "CHR ''m'' \<in> S" "CHR ''s'' \<in> S" by (simp_all add: S_def)
  have "hd (flat (gate_pieces sc) @ c # rest) \<in> S" if "c \<in> S" for sc c rest
    using that S by (cases sc) auto
  then have hd: "hd (flat (member_pieces m)) \<in> S" "flat (member_pieces m) \<noteq> []"
    using S by (cases m; simp)+
  have "\<not> py_space (last (flat (member_pieces m)))"
  proof (cases m)
    case (Prop p)
    then show ?thesis using assms name_ends [of "prop_name p"] by (simp add: wf_member_def pair_pieces_def)
  qed (simp_all add: py_space_def)
  moreover have "list_all (\<lambda>c. \<not> line_break c) (flat (member_pieces m))"
    using inline_chars [OF lexable_member [OF assms] inline_member [OF assms]] not_line_break by (auto simp: list_all_iff)
  moreover have "\<not> py_space (hd (flat (member_pieces m)))" "hd (flat (member_pieces m)) \<noteq> CHR ''r''"
    using hd(1) by (auto simp: py_space_def S_def)
  ultimately show ?thesis using hd(2) by (simp add: framed_def)
qed

lemma splitlines_lines:
  "list_all (\<lambda>l. list_all (\<lambda>c. \<not> line_break c) l) ls \<Longrightarrow> splitlines (concat (map (\<lambda>l. l @ nl) ls)) = ls"
proof (induction ls)
  case (Cons l ls)
  have b: "line_break (CHR 0x0A)" by (simp add: line_break_def)
  obtain c cs where l: "l @ nl @ concat (map (\<lambda>l. l @ nl) ls) = c # cs" by (cases l) auto
  have "takeWhile (\<lambda>x. \<not> line_break x) (l @ nl @ concat (map (\<lambda>l. l @ nl) ls)) = l"
       "dropWhile (\<lambda>x. \<not> line_break x) (l @ nl @ concat (map (\<lambda>l. l @ nl) ls)) = nl @ concat (map (\<lambda>l. l @ nl) ls)"
    using Cons.prems b by (auto simp: list_all_iff takeWhile_append2 dropWhile_append2)
  then have "splitlines (l @ nl @ concat (map (\<lambda>l. l @ nl) ls)) = l # splitlines (concat (map (\<lambda>l. l @ nl) ls))"
    unfolding l splitlines.simps by simp
  then show ?case using Cons by simp
qed simp

lemma framed_line:
  assumes "framed l"
  shows "strip l = l" and "\<not> RECORD l" and "written_out l Map.empty = l" and "with_inherited_gate l [] = l"
proof -
  show "strip l = l" using assms strip_id by (simp add: framed_def)
  show "\<not> RECORD l" using assms by (cases l) (auto simp: RECORD_def framed_def Let_def)
qed (simp_all add: written_out_def with_inherited_gate_def Let_def)

lemma sort_framed:
  "list_all framed ls \<Longrightarrow> sort_lines Map.empty [] ls = ([], map (\<lambda>l. ''    '' @ l) ls)"
  by (induction ls) (auto simp: framed_line Let_def framed_def)

section \<open>The generated contract\<close>

definition contract_pieces :: "string \<Rightarrow> string \<Rightarrow> member list \<Rightarrow> piece list" where
  "contract_pieces name owner ms =
     [Note ('' SPDX-FileCopyrightText: 2026 Alexandre '' @ quoted ''kidev'' @ '' Poumaroux''),
      Note '' SPDX-License-Identifier: Apache-2.0'',
      Note ('' Generated by synqt from the connect point '' @ quoted owner @ '' owns in synqt.yaml. Do not edit.''),
      Gap nl, Word ''contract'', Gap '' '', Word name, Gap '' '', Punct (CHR ''{''), Gap nl]
     @ concat (map (\<lambda>m. Gap ''    '' # member_pieces m @ [Gap nl]) ms)
     @ [Punct (CHR ''}''), Gap nl]"

lemma join_nl: "xs \<noteq> [] \<Longrightarrow> join nl xs @ nl = concat (map (\<lambda>l. l @ nl) xs)"
  by (induction xs) (auto simp: join_Cons)

lemma rstrip_nl: "x \<noteq> [] \<Longrightarrow> last x \<noteq> CHR 0x0A \<Longrightarrow> rstrip_chars nl (x @ nl) = x"
  by (cases x rule: rev_cases) (simp_all add: rstrip_chars_def)

lemma no_blank_tail: "rev (dropWhile (\<lambda>l. l = []) (rev (map (\<lambda>l. ''    '' @ l) ls))) = map (\<lambda>l. ''    '' @ l) ls"
  by (cases ls rule: rev_cases) simp_all

lemma contract_frame:
  assumes "sort_lines Map.empty (if inherit then strip sc else []) (splitlines e) =
    ([], map (\<lambda>l. ''    '' @ l) (map (\<lambda>m. flat (member_pieces m)) ms))"
  shows "contract_source name \<lparr>point_export = Some e, point_scope = sc, point_owner = owner\<rparr> Map.empty inherit =
    flat (contract_pieces name owner ms)"
proof -
  let ?ls = "map (\<lambda>m. flat (member_pieces m)) ms"
  have header: "rstrip_chars nl HEADER = ''// SPDX-FileCopyrightText: 2026 Alexandre '' @ quoted ''kidev'' @ '' Poumaroux'' @ nl
      @ ''// SPDX-License-Identifier: Apache-2.0''"
    using rstrip_nl [of "''// SPDX-FileCopyrightText: 2026 Alexandre '' @ quoted ''kidev'' @ '' Poumaroux'' @ nl
      @ ''// SPDX-License-Identifier: Apache-2.0''"] by (simp add: HEADER_def quoted_def)
  have members: "flat (concat (map (\<lambda>m. Gap ''    '' # member_pieces m @ [Gap nl]) ms)) =
      concat (map (\<lambda>l. l @ nl) (map (\<lambda>l. ''    '' @ l) ?ls))"
    by (induction ms) auto
  have "contract_source name \<lparr>point_export = Some e, point_scope = sc, point_owner = owner\<rparr> Map.empty inherit =
      concat (map (\<lambda>l. l @ nl) ([rstrip_chars nl HEADER,
          ''// Generated by synqt from the connect point '' @ quoted owner @ '' owns in synqt.yaml. Do not edit.'', []]
         @ [''contract '' @ name @ '' {''] @ map (\<lambda>l. ''    '' @ l) ?ls @ [''}'']))"
    by (subst join_nl [symmetric], simp)
       (simp only: contract_source_def Let_def export_text_def point.select_convs option.case assms
          if_False prod.case no_blank_tail append_Nil HOL.simp_thms)
  then show ?thesis
    unfolding contract_pieces_def header by (simp add: members)
qed

lemma split_members:
  assumes "\<And>m. m \<in> set ms \<Longrightarrow> wf_member P m"
  shows "splitlines (concat (map (\<lambda>m. flat (member_pieces m) @ nl) ms)) = map (\<lambda>m. flat (member_pieces m)) ms"
proof -
  have "list_all framed (map (\<lambda>m. flat (member_pieces m)) ms)"
    using assms framed_member by (auto simp: list_all_iff)
  then show ?thesis
    using splitlines_lines [of "map (\<lambda>m. flat (member_pieces m)) ms"]
    by (simp add: list_all_iff framed_def comp_def)
qed

lemma lexable_contract:
  assumes "wf_name name" and "\<And>m. m \<in> set ms \<Longrightarrow> wf_member P m" and "CHR 0x0A \<notin> set owner"
  shows "lexable (contract_pieces name owner ms)"
proof -
  let ?body = "concat (map (\<lambda>m. Gap ''    '' # member_pieces m @ [Gap nl]) ms)"
  have kw: "is_ident ''contract''" "is_ident name"
    using assms(1) by (simp_all add: is_ident_def [of "''contract''"] char_class_defs wf_name_def)
  have "lexable ?body \<and> (?body \<noteq> [] \<longrightarrow> \<not> runs_on (hd ?body))"
    by (rule lexable_concat)
       (use assms(2) lexable_member in \<open>force simp: lexable_append lexable_Cons whitespace_def\<close>)
  then show ?thesis
    unfolding contract_pieces_def using kw assms(3)
    by (auto simp: lexable_append lexable_Cons whitespace_def punctuation_def quoted_def)
qed

lemma contract_pieces_lexemes: "lexemes (contract_pieces name owner ms) = contract_lexemes name ms"
  by (simp add: contract_pieces_def contract_lexemes_def lexemes_concat comp_def)

section \<open>The round trip\<close>

lemma reads_file:
  assumes "wf_name name" and "list_all readable ms"
  shows "reads (\<lambda>k. k = ''eof'') (parse_loop path) (contract_lexemes name ms)
    (\<lambda>rc. fst rc = [] \<and> (\<exists>c. snd rc = [c] \<and> contract_name c = name \<and> list_all2 alike (members c) ms))"
proof -
  have stop: "reads (\<lambda>k. k = ''eof'') (parse_loop path) [] (\<lambda>rc. rc = ([], []))"
    by (simp add: reads_def parse_loop.simps peek_at_def)
  have "reads (\<lambda>k. k = ''eof'') (\<lambda>ts. bindr (parse_contract path ts) (\<lambda>(c, ts1).
      bindr (parse_loop path ts1) (\<lambda>(rc, ts2). Inr ((fst rc, c # snd rc), ts2)))) (contract_lexemes name ms @ [] @ [])
      (\<lambda>rc. fst rc = [] \<and> (\<exists>c. snd rc = [c] \<and> contract_name c = name \<and> list_all2 alike (members c) ms))"
    by (rule reads_bind [OF reads_contract [OF assms]], rule reads_bind, simp only: follows.simps, rule stop)
       (simp add: reads_return)
  moreover obtain ks where ks: "contract_lexemes name ms = (''ident'', ''contract'') # ks"
    by (simp add: contract_lexemes_def)
  ultimately have body: "reads (\<lambda>k. k = ''eof'') (\<lambda>ts. bindr (parse_contract path ts) (\<lambda>(c, ts1).
      bindr (parse_loop path ts1) (\<lambda>(rc, ts2). Inr ((fst rc, c # snd rc), ts2)))) ((''ident'', ''contract'') # ks)
      (\<lambda>rc. fst rc = [] \<and> (\<exists>c. snd rc = [c] \<and> contract_name c = name \<and> list_all2 alike (members c) ms))"
    by simp
  show ?thesis
    unfolding ks
    by (subst ext [OF parse_loop.simps [of path]], rule reads_peek) (use body in \<open>simp add: kv_def\<close>)
qed

lemma alike_name: "alike x m \<Longrightarrow> member_name x = member_name m"
  by (cases x; cases m) (auto simp: alike_def)

lemma alike_all:
  assumes "list_all2 alike xs ms"
  shows "map doc_member_of xs = map doc_member_of ms" "map member_name xs = map member_name ms"
    "(\<forall>m \<in> set ms. typed_member [] m) \<Longrightarrow> \<forall>m \<in> set xs. typed_member [] m"
  using assms by (induction rule: list_all2_induct) (auto simp: alike_name, auto simp: alike_def)

lemma contract_reads_back:
  assumes name: "wf_name name" and ms: "list_all readable ms" and names: "distinct (map member_name ms)"
    and owner: "CHR 0x0A \<notin> set owner"
  shows "parse_from_text (flat (contract_pieces name owner ms)) name = Inr (map doc_member_of ms)"
proof -
  have wf: "\<And>m. m \<in> set ms \<Longrightarrow> wf_member UNIV m" and typed: "\<forall>m \<in> set ms. typed_member [] m"
    using ms by (auto simp: list_all_iff readable_def)
  let ?t = "flat (contract_pieces name owner ms)"
  obtain ts l k where ts: "map kv ts = contract_lexemes name ms"
      "tokenize ?t (name @ ''.syn'') = Inr (ts @ [mk_token ''eof'' [] l k])"
    using tokens_pieces [of "contract_pieces name owner ms" "name @ ''.syn''" 1 1]
      lexable_contract [OF name wf owner, of ms]
    by (auto simp: tokenize_def contract_pieces_lexemes)
  let ?eof = "mk_token ''eof'' [] l k"
  obtain rc where rc: "parse_loop (name @ ''.syn'') (ts @ [?eof]) = Inr (rc, [?eof])" "fst rc = []"
      "\<exists>c. snd rc = [c] \<and> contract_name c = name \<and> list_all2 alike (members c) ms"
    using reads_file [OF name ms, unfolded reads_def, rule_format, OF ts(1), of ?eof "name @ ''.syn''" "[]"]
    by (auto simp: mk_token_def)
  then obtain c where c: "contract_name c = name" "list_all2 alike (members c) ms"
      "parse_loop (name @ ''.syn'') (ts @ [?eof]) = Inr (([], [c]), [?eof])"
    by (cases rc) auto
  let ?syn = "\<lparr>stem = name, records = [], contracts = [c], forwards_session = False\<rparr>"
  have "typed_file ?syn"
    using alike_all [OF c(2)] typed names by (simp add: typed_file_def record_names_def)
  then have "parse_text ?t (name @ ''.syn'') name = Inr ?syn"
    using ts(2) c(3) validate_ok_iff [of ?syn] by (simp add: parse_text_def parse_tokens_def)
  then show ?thesis
    using c(1) alike_all(1) [OF c(2)] by (simp add: parse_from_text_def members_of_def)
qed

lemma render_export_pieces:
  assumes "\<And>m. m \<in> set ms \<Longrightarrow> wf_member P m"
  shows "render_export (map doc_member_of ms) = Inr (concat (map (\<lambda>m. flat (member_pieces m) @ nl) ms))"
proof -
  have "mapr render_member (map doc_member_of ms) = Inr (map (\<lambda>m. flat (member_pieces m)) ms)"
    using assms by (induction ms) (simp_all add: mapr.simps render_member_pieces [where P = P])
  then show ?thesis by (simp add: render_export_def comp_def)
qed

lemma export_reads_back:
  assumes "wf_name name" and "list_all readable ms" and "distinct (map member_name ms)"
    and "CHR 0x0A \<notin> set owner"
  shows "\<exists>e. render_export (map doc_member_of ms) = Inr e \<and>
    parse_export name \<lparr>point_export = Some e, point_scope = sc, point_owner = owner\<rparr> Map.empty =
      Inr (map doc_member_of ms)"
proof -
  have wf: "\<And>m. m \<in> set ms \<Longrightarrow> wf_member UNIV m" using assms(2) by (auto simp: list_all_iff readable_def)
  have "list_all framed (map (\<lambda>m. flat (member_pieces m)) ms)"
    using wf framed_member by (auto simp: list_all_iff)
  then show ?thesis
    using render_export_pieces [OF wf] contract_reads_back [OF assms]
      contract_frame [of False sc "concat (map (\<lambda>m. flat (member_pieces m) @ nl) ms)" ms name owner]
    by (simp add: parse_export_def split_members [OF wf] sort_framed)
qed

lemma wf_member_UNIV: "wf_member P m \<Longrightarrow> wf_member UNIV m"
  by (cases m) (auto simp: wf_member_def list_all_iff wf_param_def wf_role_def)

text \<open>
  C1. Reading a contract into the design document and writing it back is the identity: the members
  of any contract the parser accepts, in a file that declares no record, are rendered to an
  \<open>export:\<close> block whose generated contract parses to the same members, whatever scope the point has.
\<close>

theorem design_roundtrip:
  assumes "parse_text t path st = Inr syn" and "records syn = []" and "c \<in> set (contracts syn)"
    and "CHR 0x0A \<notin> set owner"
  shows "\<exists>e. render_export (map doc_member_of (members c)) = Inr e \<and>
    parse_export (contract_name c) \<lparr>point_export = Some e, point_scope = sc, point_owner = owner\<rparr> Map.empty =
      Inr (map doc_member_of (members c))"
proof (rule export_reads_back)
  have wf: "wf_file (text_positions t) syn" and typed: "typed_file syn"
    using parse_text_cases [where s = t and path = path and st = st] assms(1) by auto
  then show "wf_name (contract_name c)" "distinct (map member_name (members c))"
    using assms(3) by (auto simp: wf_file_def typed_file_def list_all_iff wf_contract_def)
  show "list_all readable (members c)"
    using wf typed assms(2,3)
    by (auto simp: readable_def wf_file_def typed_file_def list_all_iff wf_contract_def record_names_def
        intro: wf_member_UNIV)
qed (rule assms(4))

theorem design_roundtrip_witness:
  "records sample_syn = [] \<and> sample_contract \<in> set (contracts sample_syn) \<and>
   (\<exists>e. render_export (map doc_member_of (members sample_contract)) = Inr e \<and>
     parse_export ''Board'' \<lparr>point_export = Some e, point_scope = ''user'', point_owner = ''edge''\<rparr> Map.empty =
       Inr (map doc_member_of (members sample_contract)))"
proof -
  have r: "records sample_syn = []" and c: "sample_contract \<in> set (contracts sample_syn)"
    and n: "contract_name sample_contract = ''Board''"
    by (simp_all add: sample_syn_def sample_contract_def)
  have o: "CHR 0x0A \<notin> set ''edge''" by simp
  show ?thesis using r c design_roundtrip [OF sample_parses r c o, of "''user''"] by (simp only: n simp_thms)
qed

section \<open>The point's own scope\<close>

text \<open>What a connect point's \<open>scope:\<close> makes of a member: the gate of one that names none.\<close>

definition inherit_scope :: "string \<Rightarrow> member \<Rightarrow> member" where
  "inherit_scope sc m = (if member_scope m = [] then with_scope [sc] m else m)"

lemma inherit_wf: "wf_name sc \<Longrightarrow> wf_member P m \<Longrightarrow> wf_member P (inherit_scope sc m)"
  by (cases m) (auto simp: inherit_scope_def wf_member_def wf_scopes_def)

lemma inherit_typed: "typed_member rs (inherit_scope sc m) = typed_member rs m"
  by (cases m) (auto simp: inherit_scope_def)

lemma inherit_name: "member_name (inherit_scope sc m) = member_name m"
  by (simp add: inherit_scope_def)

lemma no_comment:
  assumes "wf_member P m"
  shows "find_sub ''//'' (flat (member_pieces m)) = None"
proof -
  have no: "find_sub ''//'' s = None" if "CHR ''/'' \<notin> set s" for s
    using that by (induction s) auto
  have "CHR ''/'' \<notin> set (flat (member_pieces m))"
    using inline_chars [OF lexable_member [OF assms] inline_member [OF assms], of "CHR ''/''"] separator_chars(3)
    by (auto simp: punctuation_def)
  then show ?thesis by (rule no)
qed

lemma comment_free_line:
  assumes "wf_member P m"
  shows "split_comment (flat (member_pieces m)) = (flat (member_pieces m), 0, [])"
  using framed_line(1) [OF framed_member [OF assms]] no_comment [OF assms]
  by (simp add: split_comment_def partition_at_def)

lemma name_takeWhile:
  assumes "wf_name n" and "\<not> ident_char c"
  shows "takeWhile ident_char (n @ c # s) = n" "dropWhile ident_char (n @ c # s) = c # s"
    "dropWhile py_space (n @ c # s) = n @ c # s"
  using assms name_ends [of n]
  by (auto simp: wf_name_def is_ident_def list_all_iff takeWhile_append2 dropWhile_append2 neq_Nil_conv)

lemma gate_names_pieces:
  "list_all wf_name (n # ns) \<Longrightarrow>
     gate_names (n @ concat (map (\<lambda>m. '','' @ m) ns) @ ''>'' @ s) = Some s"
proof (induction ns arbitrary: n)
  case Nil
  have "\<not> ident_char (CHR ''>'')" "\<not> py_space (CHR ''>'')" by (simp_all add: char_class_defs py_space_def)
  then show ?case
    using Nil name_takeWhile [of n "CHR ''>''" s] by (simp add: wf_name_def Let_def gate_names.simps)
next
  case (Cons m ns)
  have c: "\<not> ident_char (CHR '','')" "\<not> py_space (CHR '','')" by (simp_all add: char_class_defs py_space_def)
  define R where "R = m @ concat (map (\<lambda>m. '','' @ m) ns) @ ''>'' @ s"
  have "gate_names R = Some s" unfolding R_def using Cons.prems by (intro Cons.IH) simp
  then have "gate_names (n @ CHR '','' # R) = Some s"
    using c Cons.prems name_takeWhile [of n "CHR '',''" R]
    by (subst gate_names.simps) (simp add: wf_name_def Let_def)
  then show ?case by (simp only: R_def list.map concat.simps append.simps append_assoc)
qed

lemma gate_of_line:
  assumes "wf_member P m"
  shows "fst (split_gate (flat (member_pieces m))) = [] \<longleftrightarrow> member_scope m = []"
proof -
  obtain body where body: "member_pieces m = gate_pieces (member_scope m) @ body"
      "flat body \<noteq> []" "hd (flat body) \<noteq> CHR ''<''"
    by (cases m) auto
  show ?thesis
  proof (cases "member_scope m")
    case Nil
    then show ?thesis using body by (cases "flat body") (auto simp: split_gate_def GATE_def)
  next
    case (Cons n ns)
    define mid where "mid = concat (map (\<lambda>m. '','' @ m) ns)"
    have "flat (concat (map (\<lambda>m. [Punct (CHR '',''), Word m]) ns)) = mid"
      unfolding mid_def by (induction ns) auto
    then have l: "flat (member_pieces m) = CHR ''<'' # n @ mid @ ''>'' @ '' '' @ flat body"
      using Cons body(1) by simp
    have "list_all wf_name (n # ns)" using assms Cons by (simp add: wf_member_def wf_scopes_def)
    then have "gate_names (n @ mid @ ''>'' @ '' '' @ flat body) = Some ('' '' @ flat body)"
      unfolding mid_def by (rule gate_names_pieces)
    then show ?thesis
      unfolding l using Cons by (simp add: split_gate_def GATE_def)
  qed
qed

lemma inherited_line:
  assumes "wf_member P m" and "wf_name sc"
  shows "with_inherited_gate (flat (member_pieces m)) sc = flat (member_pieces (inherit_scope sc m))"
proof -
  let ?l = "flat (member_pieces m)"
  have framed: "framed ?l" by (rule framed_member [OF assms(1)])
  then have l: "?l \<noteq> []" "lstrip ?l = ?l" by (auto simp: framed_def lstrip_def neq_Nil_conv)
  have sc: "sc \<noteq> []" using name_ends [OF assms(2)] by simp
  have eq: "with_inherited_gate ?l sc = (if member_scope m = [] then ''<'' @ sc @ ''> '' @ ?l else ?l)"
    using l sc framed_line(2) [OF framed] comment_free_line [OF assms(1)] gate_of_line [OF assms(1)]
    by (simp add: with_inherited_gate_def)
  show ?thesis
  proof (cases "member_scope m = []")
    case True
    have "member_pieces (with_scope [sc] m) = gate_pieces [sc] @ member_pieces m"
      using True by (cases m) (simp_all split: option.split)
    then show ?thesis using eq True by (simp add: inherit_scope_def)
  next
    case False
    then show ?thesis using eq by (simp add: inherit_scope_def)
  qed
qed

lemma sort_inherited:
  "(\<And>m. m \<in> set ms \<Longrightarrow> wf_member P m) \<Longrightarrow> wf_name sc \<Longrightarrow>
     sort_lines Map.empty sc (map (\<lambda>m. flat (member_pieces m)) ms) =
       ([], map (\<lambda>l. ''    '' @ l) (map (\<lambda>m. flat (member_pieces m)) (map (inherit_scope sc) ms)))"
proof (induction ms)
  case (Cons m ms)
  have m: "wf_member P m" using Cons.prems by simp
  let ?l = "flat (member_pieces (inherit_scope sc m))"
  have framed: "framed ?l" using framed_member [OF inherit_wf [OF Cons.prems(2) m]] .
  have "with_inherited_gate (written_out (flat (member_pieces m)) Map.empty) sc = ?l"
    using framed_line(3) [OF framed_member [OF m]] inherited_line [OF m Cons.prems(2)] by simp
  then show ?case
    using Cons framed_line(1,2) [OF framed] framed by (simp add: Let_def framed_def)
qed simp



end
