(* ===== verification/QmlScan.thy ===== *)
theory QmlScan
  imports TextStore PyText
begin

text \<open>
  How the tools read QML without compiling it, \<open>synqt/qmlscan.py\<close>: the tokens of a source, the
  source with its comments and literals gone, and the type of the root object. Each loop over an
  index is a function of what is left of the source from there.
\<close>

section \<open>Tokens\<close>

record qml_token =
  qkind :: string
  qtext :: string
  qline :: nat
  qoffset :: nat

text \<open>No character below 256 is the byte order mark; the branch is kept as the code has it.\<close>

definition byte_order_mark :: "char \<Rightarrow> bool" where
  "byte_order_mark c \<longleftrightarrow> of_char c = (0xFEFF :: nat)"

lemma no_byte_order_mark [simp]: "\<not> byte_order_mark c"
  using nat_of_char_less_256 [of c] unfolding byte_order_mark_def by linarith

lemma byte_order_mark_code [code]: "byte_order_mark c = False"
  by simp

definition QUOTES :: string where
  "QUOTES = [CHR 0x22, CHR 0x27, CHR 0x60]"

definition KEYWORD_KINDS :: "(string \<times> string) list" where
  "KEYWORD_KINDS = [(''true'', ''bool''), (''false'', ''bool''), (''null'', ''null'')]"

definition SYN_TYPES :: "(string \<times> string) list" where
  "SYN_TYPES = [(''string'', ''string''), (''int'', ''int''), (''real'', ''real''), (''bool'', ''bool'')]"

definition identifier_character :: "char \<Rightarrow> bool" where
  "identifier_character c \<longleftrightarrow> py_alnum c \<or> c = CHR ''_'' \<or> c = CHR ''$''"

definition literal_type :: "qml_token \<Rightarrow> string" where
  "literal_type t = (case map_of SYN_TYPES (qkind t) of None \<Rightarrow> ''var'' | Some ty \<Rightarrow> ty)"

text \<open>\<open>text.replace("\r\n", "\n").replace("\r", "\n").count("\n")\<close>.\<close>

definition line_terminators :: "string \<Rightarrow> nat" where
  "line_terminators s = count_list (universal_newlines s) (CHR 0x0A)"

text \<open>How far a comment, a string literal or a number reaches from where it starts.\<close>

definition line_comment_len :: "string \<Rightarrow> nat" where
  "line_comment_len s = length (takeWhile (\<lambda>c. c \<noteq> CHR 0x0A \<and> c \<noteq> CHR 0x0D) s)"

definition block_comment_len :: "string \<Rightarrow> nat" where
  "block_comment_len s =
     (case find_sub ''*/'' (drop 2 s) of None \<Rightarrow> length s | Some e \<Rightarrow> e + 4)"

text \<open>After the opening quote, up to and with the closing one, or to the end of the source.\<close>

fun literal_len :: "char \<Rightarrow> string \<Rightarrow> nat" where
  "literal_len q [] = 0"
| "literal_len q (c # cs) =
     (if c = q then 1
      else if c = CHR 0x5C then (case cs of [] \<Rightarrow> 1 | d # ds \<Rightarrow> 2 + literal_len q ds)
      else 1 + literal_len q cs)"

definition has_exponent :: "string \<Rightarrow> bool" where
  "has_exponent s \<longleftrightarrow> \<not> startswith (map to_lower s) ''0x'' \<and> CHR ''e'' \<in> set (map to_lower s)"

fun number_len :: "bool \<Rightarrow> string \<Rightarrow> nat" where
  "number_len seen_dot [] = 0"
| "number_len seen_dot (c # cs) =
     (if py_digit c then 1 + number_len seen_dot cs
      else if c = CHR ''.'' \<and> \<not> seen_dot then 1 + number_len True cs
      else if to_lower c = CHR ''e'' \<and> cs \<noteq> [] \<and> (py_digit (hd cs) \<or> hd cs = CHR ''+'' \<or> hd cs = CHR ''-'')
      then 2 + length (takeWhile py_digit (tl cs))
      else 0)"

definition hex_digit :: "char \<Rightarrow> bool" where
  "hex_digit c \<longleftrightarrow> py_digit c \<or> to_lower c \<in> set ''abcdef''"

definition end_of_number :: "string \<Rightarrow> nat" where
  "end_of_number s =
     (if startswith s ''0'' \<and> map to_lower (take 1 (drop 1 s)) = ''x''
      then 2 + length (takeWhile hex_digit (drop 2 s))
      else number_len False s)"

definition number_kind :: "string \<Rightarrow> string" where
  "number_kind s = (if CHR ''.'' \<in> set s \<or> has_exponent s then ''real'' else ''int'')"

definition word_kind :: "string \<Rightarrow> string" where
  "word_kind s = (case map_of KEYWORD_KINDS s of None \<Rightarrow> ''ident'' | Some k \<Rightarrow> k)"

section \<open>The token stream\<close>

lemma number_len_digit: "py_digit c \<Longrightarrow> 0 < number_len b (c # cs)"
  by simp

lemma end_of_number_pos: "py_digit c \<Longrightarrow> 0 < end_of_number (c # cs)"
  by (simp add: end_of_number_def)

declare number_len.simps [simp del]

function qml_tokens :: "nat \<Rightarrow> nat \<Rightarrow> string \<Rightarrow> qml_token list" where
  "qml_tokens line index [] = []"
| "qml_tokens line index (c # cs) =
     (if byte_order_mark c then qml_tokens line (index + 1) cs
      else if c = CHR 0x0D then
        (let n = (if startswith cs nl then 2 else 1) in
         qml_tokens (line + 1) (index + n) (drop n (c # cs)))
      else if c = CHR 0x0A then qml_tokens (line + 1) (index + 1) cs
      else if py_space c then qml_tokens line (index + 1) cs
      else if startswith (c # cs) ''//'' then
        (let n = line_comment_len (c # cs) in qml_tokens line (index + n) (drop n (c # cs)))
      else if startswith (c # cs) ''/*'' then
        (let n = block_comment_len (c # cs) in
         qml_tokens (line + line_terminators (take n (c # cs))) (index + n) (drop n (c # cs)))
      else if c \<in> set QUOTES then
        (let n = 1 + literal_len c cs; text = take n (c # cs) in
         \<lparr>qkind = ''string'', qtext = text, qline = line, qoffset = index\<rparr>
         # qml_tokens (line + line_terminators text) (index + n) (drop n (c # cs)))
      else if py_digit c then
        (let n = end_of_number (c # cs); text = take n (c # cs) in
         \<lparr>qkind = number_kind text, qtext = text, qline = line, qoffset = index\<rparr>
         # qml_tokens line (index + n) (drop n (c # cs)))
      else if identifier_character c then
        (let text = takeWhile identifier_character (c # cs) in
         \<lparr>qkind = word_kind text, qtext = text, qline = line, qoffset = index\<rparr>
         # qml_tokens line (index + length text) (drop (length text) (c # cs)))
      else \<lparr>qkind = ''punct'', qtext = [c], qline = line, qoffset = index\<rparr>
           # qml_tokens line (index + 1) cs)"
  by pat_completeness auto
termination
  by (relation "measure (\<lambda>(line, index, s). length s)")
     (auto simp: line_comment_len_def block_comment_len_def split: option.splits
        intro!: diff_less end_of_number_pos)

declare qml_tokens.simps(2) [simp del]

definition qml_tokenize :: "string \<Rightarrow> qml_token list" where
  "qml_tokenize source = qml_tokens 1 0 source"

section \<open>The source without its comments and literals\<close>

function stripped :: "string \<Rightarrow> string" where
  "stripped [] = []"
| "stripped (c # cs) =
     (if byte_order_mark c then stripped cs
      else if c = CHR 0x0D then CHR 0x0A # stripped (if startswith cs nl then drop 1 cs else cs)
      else if c \<in> set QUOTES then stripped (drop (literal_len c cs) cs)
      else if startswith (c # cs) ''//'' then stripped (drop (line_comment_len (c # cs)) (c # cs))
      else if startswith (c # cs) ''/*'' then stripped (drop (block_comment_len (c # cs)) (c # cs))
      else c # stripped cs)"
  by pat_completeness auto
termination
  by (relation "measure length")
     (auto simp: line_comment_len_def block_comment_len_def less_Suc_eq_le split: option.splits)

declare stripped.simps(2) [simp del]

section \<open>The root object\<close>

definition is_punct :: "qml_token \<Rightarrow> string \<Rightarrow> bool" where
  "is_punct t s \<longleftrightarrow> qkind t = ''punct'' \<and> qtext t = s"

text \<open>The tokens in front of the first opening brace, nearest first.\<close>

fun before_brace :: "qml_token list \<Rightarrow> qml_token list \<Rightarrow> qml_token list option" where
  "before_brace back [] = None"
| "before_brace back (t # ts) =
     (if is_punct t ''{'' then Some back else before_brace (t # back) ts)"

text \<open>Walking back over a dotted name: what \<open>name\<close> holds when the loop ends.\<close>

fun dotted_name :: "qml_token list \<Rightarrow> string \<Rightarrow> string" where
  "dotted_name [] name = name"
| "dotted_name (t # back) name =
     (if qkind t \<noteq> ''ident'' then name
      else case back of
             [] \<Rightarrow> qtext t @ name
           | p # back' \<Rightarrow>
               if is_punct p ''.'' then dotted_name back' (''.'' @ qtext t @ name)
               else qtext t @ name)"

definition root_type :: "string \<Rightarrow> string option" where
  "root_type source =
     (case before_brace [] (qml_tokenize source) of
        None \<Rightarrow> None
      | Some back \<Rightarrow> (let name = dotted_name back [] in if name = [] then None else Some name))"

section \<open>One turn of the loop\<close>

text \<open>How many characters a turn takes, and the kind of the token it makes of them, if any.\<close>

definition turn :: "string \<Rightarrow> string option \<times> nat" where
  "turn s =
     (let c = hd s in
      if byte_order_mark c then (None, 1)
      else if c = CHR 0x0D then (None, if startswith (tl s) nl then 2 else 1)
      else if c = CHR 0x0A then (None, 1)
      else if py_space c then (None, 1)
      else if startswith s ''//'' then (None, line_comment_len s)
      else if startswith s ''/*'' then (None, block_comment_len s)
      else if c \<in> set QUOTES then (Some ''string'', 1 + literal_len c (tl s))
      else if py_digit c then (Some (number_kind (take (end_of_number s) s)), end_of_number s)
      else if identifier_character c
      then (Some (word_kind (takeWhile identifier_character s)), length (takeWhile identifier_character s))
      else (Some ''punct'', 1))"

lemma literal_len_le: "literal_len q s \<le> length s"
  by (induction q s rule: literal_len.induct) (auto split: list.splits)

lemma number_len_le: "number_len b s \<le> length s"
proof (induction b s rule: number_len.induct)
  case (2 b c cs)
  have "length (takeWhile py_digit (tl cs)) \<le> length cs - 1"
    by (metis length_takeWhile_le length_tl)
  with 2 show ?case by (subst number_len.simps) (cases cs; auto)
qed (simp add: number_len.simps)

lemma end_of_number_le: "end_of_number s \<le> length s"
proof -
  have "length (takeWhile hex_digit (drop 2 s)) \<le> length s - 2"
    by (metis length_takeWhile_le length_drop)
  moreover have "2 \<le> length s" if "map to_lower (take 1 (drop 1 s)) = ''x''"
    using that by (cases s; cases "tl s") auto
  ultimately show ?thesis using number_len_le by (auto simp: end_of_number_def)
qed

lemma block_comment_len_bounds:
  assumes "startswith s ''/*''"
  shows "0 < block_comment_len s \<and> block_comment_len s \<le> length s"
proof -
  have "2 \<le> length s" using assms by (cases s; cases "tl s") auto
  then show ?thesis
    using find_sub_bound [of "''*/''" "drop 2 s"]
    by (auto simp: block_comment_len_def split: option.splits)
qed

lemma turn_bounds:
  assumes "s \<noteq> []"
  shows "0 < snd (turn s) \<and> snd (turn s) \<le> length s"
proof -
  obtain c cs where s: "s = c # cs" using assms by (cases s) auto
  have "0 < line_comment_len s" if "startswith s ''//''"
    using that s by (auto simp: line_comment_len_def)
  moreover have "startswith cs nl \<Longrightarrow> 1 \<le> length cs" by (cases cs) auto
  moreover have "line_comment_len s \<le> length s" by (simp add: line_comment_len_def length_takeWhile_le)
  ultimately show ?thesis
    using s block_comment_len_bounds [of s] literal_len_le [of c cs] end_of_number_le [of s] end_of_number_pos [of c cs]
      length_takeWhile_le [of identifier_character s]
    by (auto simp: turn_def Let_def)
qed

text \<open>What a turn takes outside comments, literals and the ends of lines holds no end of a line.\<close>

lemma line_terminators_none:
  "CHR 0x0A \<notin> set s \<Longrightarrow> CHR 0x0D \<notin> set s \<Longrightarrow> line_terminators s = 0"
  by (induction s) (auto simp: line_terminators_def)

lemma line_terminators_simps [simp]:
  "line_terminators [] = 0" "line_terminators [CHR 0x0D] = 1" "line_terminators [CHR 0x0A] = 1"
  "line_terminators [CHR 0x0D, CHR 0x0A] = 1"
  by (simp_all add: line_terminators_def)

definition breaker :: "char \<Rightarrow> bool" where
  "breaker c \<longleftrightarrow> c = CHR 0x0A \<or> c = CHR 0x0D"

lemma breaker_simps [simp]: "breaker (CHR 0x0A)" "breaker (CHR 0x0D)" by (simp_all add: breaker_def)

lemma breaker_classes:
  "breaker c \<Longrightarrow> \<not> py_digit c \<and> \<not> hex_digit c \<and> \<not> identifier_character c \<and> to_lower c \<noteq> CHR ''x'' \<and> to_lower c \<noteq> CHR ''e''"
  by (auto simp: breaker_def py_digit_def hex_digit_def identifier_character_def py_alnum_def word_char_def
      to_lower_def char_class_defs)

lemma number_chars: "x \<in> set (take (number_len b s) s) \<Longrightarrow> \<not> breaker x"
proof (induction b s rule: number_len.induct)
  case (2 b c cs)
  have tw: "x \<in> set (take (length (takeWhile py_digit ds)) ds) \<Longrightarrow> \<not> breaker x" for ds
    using breaker_classes by (metis takeWhile_eq_take set_takeWhileD)
  show ?case
  proof (cases "py_digit c \<or> c = CHR ''.'' \<and> \<not> b")
    case True
    then show ?thesis using 2 breaker_classes [of c]
      by (auto simp: number_len.simps(2) [of b] breaker_def split: if_splits)
  next
    case False
    show ?thesis
    proof (cases cs)
      case Nil
      then show ?thesis using 2(3) False by (auto simp: number_len.simps(2) [of b])
    next
      case (Cons d ds)
      then show ?thesis using 2(3) False tw [of ds] breaker_classes [of c] breaker_classes [of d]
        by (auto simp: number_len.simps(2) [of b] breaker_def split: if_splits)
    qed
  qed
qed simp

lemma end_of_number_chars: "x \<in> set (take (end_of_number s) s) \<Longrightarrow> \<not> breaker x"
proof (cases "startswith s ''0'' \<and> map to_lower (take 1 (drop 1 s)) = ''x''")
  case True
  assume x: "x \<in> set (take (end_of_number s) s)"
  from True obtain y ds where s: "s = CHR ''0'' # y # ds" "to_lower y = CHR ''x''"
    by (cases s; cases "tl s") auto
  have "x = CHR ''0'' \<or> x = y \<or> x \<in> set (takeWhile hex_digit ds)"
    using x True s(1) by (auto simp: end_of_number_def takeWhile_eq_take [symmetric])
  then show ?thesis using s(2) breaker_classes by (auto simp: breaker_def dest: set_takeWhileD)
next
  case False
  assume "x \<in> set (take (end_of_number s) s)"
  then have "x \<in> set (take (number_len False s) s)"
    using False by (simp only: end_of_number_def if_False)
  then show ?thesis by (rule number_chars)
qed

text \<open>A turn that takes no end of a line takes one character, or a word, or a number.\<close>

lemma turn_step:
  assumes "s \<noteq> []"
  shows "qml_tokens line index s =
    (case fst (turn s) of
       None \<Rightarrow> []
     | Some k \<Rightarrow> [\<lparr>qkind = k, qtext = take (snd (turn s)) s, qline = line, qoffset = index\<rparr>])
    @ qml_tokens (line + line_terminators (take (snd (turn s)) s)) (index + snd (turn s)) (drop (snd (turn s)) s)"
proof -
  obtain c cs where s: "s = c # cs" using assms by (cases s) auto
  note unf = qml_tokens.simps(2) [of line index c cs]
  have flat: "line_terminators xs = 0" if "\<And>x. x \<in> set xs \<Longrightarrow> \<not> breaker x" for xs
    using that by (intro line_terminators_none) (auto simp: breaker_def)
  have one: "\<not> breaker c \<Longrightarrow> line_terminators [c] = 0" by (rule flat) auto
  have word: "line_terminators (takeWhile identifier_character xs) = 0" for xs
    by (rule flat) (use breaker_classes in \<open>auto dest: set_takeWhileD\<close>)
  have number: "line_terminators (take (end_of_number xs) xs) = 0" for xs
    by (rule flat) (rule end_of_number_chars)
  have comment: "line_terminators (take (line_comment_len xs) xs) = 0" for xs
    by (rule flat)
       (auto simp: line_comment_len_def breaker_def takeWhile_eq_take [symmetric] dest: set_takeWhileD)
  have crlf: "startswith cs nl \<Longrightarrow> take (Suc 0) cs = nl" by (cases cs) auto
  consider "byte_order_mark c" | "c = CHR 0x0D" "startswith cs nl" | "c = CHR 0x0D" "\<not> startswith cs nl"
    | "c = CHR 0x0A" | (plain) "\<not> byte_order_mark c" "\<not> breaker c"
    by (auto simp: breaker_def)
  then show ?thesis
  proof cases
    case plain
    then show ?thesis using one unfolding s
      by (auto simp: unf turn_def breaker_def Let_def takeWhile_eq_take [symmetric] comment number word
          simp del: takeWhile.simps)
  qed (use s one crlf in \<open>auto simp: qml_tokens.simps(2) turn_def breaker_def line_terminators_none\<close>)
qed

lemma literal_closed:
  "literal_len q s < length s \<Longrightarrow> 0 < literal_len q s \<and> s ! (literal_len q s - 1) = q"
proof (induction q s rule: literal_len.induct)
  case (2 q c cs)
  show ?case
  proof (cases "c = q")
    case False
    show ?thesis
    proof (cases "c = CHR 0x5C")
      case True
      then show ?thesis using False 2 by (cases cs) (auto simp: nth_Cons')
    next
      case c: False
      then show ?thesis using False 2 by (auto simp: nth_Cons')
    qed
  qed simp
qed simp

lemma block_closed:
  assumes "startswith s ''/*''" "block_comment_len s < length s"
  shows "s ! (block_comment_len s - 1) = CHR ''/''"
proof -
  obtain e where e: "find_sub ''*/'' (drop 2 s) = Some e"
    using assms by (auto simp: block_comment_len_def split: option.splits)
  then have "startswith (drop (e + 2) s) ''*/''" using find_sub_startswith by fastforce
  then have "drop (e + 2) s ! 1 = CHR ''/''"
    by (cases "drop (e + 2) s"; cases "tl (drop (e + 2) s)") auto
  then show ?thesis using e assms(2) by (simp add: block_comment_len_def eval_nat_numeral)
qed

lemma turn_keeps_crlf:
  assumes "s \<noteq> []" "snd (turn s) < length s" "s ! snd (turn s) = CHR 0x0A"
  shows "s ! (snd (turn s) - 1) \<noteq> CHR 0x0D"
proof -
  obtain c cs where s: "s = c # cs" using assms by (cases s) auto
  have inside: "s ! (n - 1) \<noteq> CHR 0x0D"
    if "0 < n" "n \<le> length s" "\<And>x. x \<in> set (take n s) \<Longrightarrow> \<not> breaker x" for n
  proof -
    have "s ! (n - 1) \<in> set (take n s)" using that(1,2) by (auto simp: in_set_conv_nth intro!: exI [of _ "n - 1"])
    then show ?thesis using that(3) by (auto simp: breaker_def)
  qed
  have bounds: "0 < snd (turn s)" "snd (turn s) \<le> length s" using turn_bounds [OF assms(1)] by auto
  have crlf: "startswith cs nl \<longleftrightarrow> cs \<noteq> [] \<and> cs ! 0 = CHR 0x0A" by (cases cs) auto
  have "c = CHR 0x0D \<or> c = CHR 0x0A \<or> (\<not> breaker c \<and> turn s = (None, line_comment_len s)) \<or>
     (startswith s ''/*'' \<and> turn s = (None, block_comment_len s)) \<or>
     (c \<in> set QUOTES \<and> snd (turn s) = 1 + literal_len c cs) \<or> snd (turn s) = end_of_number s \<or>
     snd (turn s) = length (takeWhile identifier_character s) \<or> (\<not> breaker c \<and> snd (turn s) = 1)"
    unfolding s by (simp add: turn_def Let_def breaker_def)
  then consider (cr) "c = CHR 0x0D" | (lf) "c = CHR 0x0A"
    | (line) "\<not> breaker c" "turn s = (None, line_comment_len s)"
    | (block) "startswith s ''/*''" "turn s = (None, block_comment_len s)"
    | (literal) "c \<in> set QUOTES" "snd (turn s) = 1 + literal_len c cs"
    | (number) "snd (turn s) = end_of_number s"
    | (word) "snd (turn s) = length (takeWhile identifier_character s)"
    | (one) "\<not> breaker c" "snd (turn s) = 1"
    by blast
  then show ?thesis
  proof cases
    case line
    show ?thesis
      by (rule inside [OF bounds], simp only: line(2) snd_conv)
         (auto simp: line_comment_len_def breaker_def takeWhile_eq_take [symmetric] dest: set_takeWhileD)
  next
    case block
    then show ?thesis using block_closed [of s] assms(2) by auto
  next
    case literal
    then show ?thesis using literal_closed [of c cs] assms(2) s by (auto simp: QUOTES_def)
  next
    case number
    show ?thesis by (rule inside [OF bounds]) (metis number end_of_number_chars)
  next
    case word
    show ?thesis
      by (rule inside [OF bounds])
         (metis word takeWhile_eq_take set_takeWhileD breaker_classes)
  next
    case cr
    then show ?thesis using s assms crlf
      by (auto simp: turn_def byte_order_mark_def Let_def split: if_splits)
  qed (use s in \<open>auto simp: turn_def breaker_def byte_order_mark_def Let_def\<close>)
qed

section \<open>Where the tokens stand\<close>

lemma universal_newlines_append:
  "(a \<noteq> [] \<Longrightarrow> last a = CHR 0x0D \<Longrightarrow> b \<noteq> [] \<Longrightarrow> hd b \<noteq> CHR 0x0A) \<Longrightarrow>
     universal_newlines (a @ b) = universal_newlines a @ universal_newlines b"
proof (induction a rule: universal_newlines.induct)
  case (2 c cs)
  show ?case
  proof (cases cs)
    case Nil
    then show ?thesis using 2(4) by (cases b) auto
  next
    case (Cons d ds)
    consider "c = CHR 0x0D" "d = CHR 0x0A" | "c = CHR 0x0D" "d \<noteq> CHR 0x0A" | "c \<noteq> CHR 0x0D" by blast
    then show ?thesis
    proof cases
      case 1
      have "universal_newlines (ds @ b) = universal_newlines ds @ universal_newlines b"
        by (rule "2.IH"(1) [OF 1(1) Cons 1(2)]) (use "2.prems" Cons in auto)
      then show ?thesis using 1 Cons by simp
    next
      case 2
      have "universal_newlines (cs @ b) = universal_newlines cs @ universal_newlines b"
        by (rule "2.IH"(2) [OF 2(1) Cons 2(2)]) (use "2.prems" Cons in auto)
      then show ?thesis using 2 Cons by simp
    next
      case 3
      have "universal_newlines (cs @ b) = universal_newlines cs @ universal_newlines b"
        by (rule "2.IH"(3) [OF 3]) (use "2.prems" Cons in auto)
      then show ?thesis using 3 by simp
    qed
  qed
qed simp

lemma count_list_append [simp]: "count_list (xs @ ys) x = count_list xs x + count_list ys x"
  by (induction xs) auto

lemma line_terminators_append:
  "(a \<noteq> [] \<Longrightarrow> last a = CHR 0x0D \<Longrightarrow> b \<noteq> [] \<Longrightarrow> hd b \<noteq> CHR 0x0A) \<Longrightarrow>
     line_terminators (a @ b) = line_terminators a + line_terminators b"
  by (simp add: line_terminators_def universal_newlines_append)

text \<open>
  The tokens of a list, each the characters of the source at its offset, on the line counted up to
  there, and each after the one before it.
\<close>

fun spans :: "string \<Rightarrow> nat \<Rightarrow> qml_token list \<Rightarrow> bool" where
  "spans s i [] \<longleftrightarrow> True"
| "spans s i (t # ts) \<longleftrightarrow>
     i \<le> qoffset t \<and> qtext t \<noteq> [] \<and>
     qtext t = take (length (qtext t)) (drop (qoffset t) s) \<and>
     qline t = 1 + line_terminators (take (qoffset t) s) \<and>
     spans s (qoffset t + length (qtext t)) ts"

lemma spans_mono: "spans s j ts \<Longrightarrow> i \<le> j \<Longrightarrow> spans s i ts"
  by (cases ts) auto

lemma qml_tokens_spans:
  assumes "i \<le> length s" "0 < i \<Longrightarrow> i < length s \<Longrightarrow> s ! i = CHR 0x0A \<Longrightarrow> s ! (i - 1) \<noteq> CHR 0x0D"
  shows "spans s i (qml_tokens (1 + line_terminators (take i s)) i (drop i s))"
  using assms
proof (induction "length s - i" arbitrary: i rule: less_induct)
  case less
  show ?case
  proof (cases "i = length s")
    case False
    let ?r = "drop i s" and ?n = "snd (turn (drop i s))"
    have r: "?r \<noteq> []" and len: "length ?r = length s - i" and i: "i < length s"
      using False less.prems(1) by auto
    have n: "0 < ?n" "?n \<le> length s - i" using turn_bounds [OF r] len by auto
    have lt: "line_terminators (take (i + ?n) s) = line_terminators (take i s) + line_terminators (take ?n ?r)"
    proof -
      have "last (take i s) = s ! (i - 1)" if "take i s \<noteq> []"
        using that i by (simp add: last_conv_nth min_absorb2)
      moreover have "hd (take ?n ?r) = s ! i" using n(1) i by (simp add: hd_drop_conv_nth)
      ultimately show ?thesis
        unfolding take_add using less.prems(2) i by (intro line_terminators_append) auto
    qed
    have rest: "spans s (i + ?n) (qml_tokens (1 + line_terminators (take (i + ?n) s)) (i + ?n) (drop (i + ?n) s))"
    proof (rule less.hyps)
      show "s ! (i + ?n - 1) \<noteq> CHR 0x0D" if "i + ?n < length s" "s ! (i + ?n) = CHR 0x0A"
        using turn_keeps_crlf [OF r] that n by (simp add: add.assoc)
    qed (use n i in auto)
    have step: "qml_tokens (1 + line_terminators (take i s)) i ?r =
      (case fst (turn ?r) of None \<Rightarrow> []
       | Some k \<Rightarrow> [\<lparr>qkind = k, qtext = take ?n ?r, qline = 1 + line_terminators (take i s), qoffset = i\<rparr>])
      @ qml_tokens (1 + line_terminators (take (i + ?n) s)) (i + ?n) (drop (i + ?n) s)"
      using turn_step [OF r, of "1 + line_terminators (take i s)" i] unfolding lt
      by (simp only: drop_drop add.assoc add.commute [of _ i])
    show ?thesis
      using rest spans_mono [OF rest, of i] n r len unfolding step
      by (auto split: option.split simp: min_absorb2)
  qed simp
qed

text \<open>
  C40. The token stream is exact: every token of a QML source is a non-empty run of characters of
  the source at the offset it carries, the runs stand in order and do not overlap, and the line a
  token carries is one more than the ends of lines (a carriage return and a line feed together
  counting once) in front of it, whatever comments and multi-line literals stand there.
\<close>

theorem qml_tokenize_exact: "spans source 0 (qml_tokenize source)"
  using qml_tokens_spans [of 0 source] by (simp add: qml_tokenize_def)

end
