(* ===== verification/PyValue.thy ===== *)
theory PyValue
  imports PyText "HOL-Library.AList"
begin

text \<open>
  The Python values a YAML document is read into, and the operations on them the sources use:
  \<open>dict.get\<close>, truth, \<open>isinstance\<close>, \<open>str\<close>, \<open>repr\<close>, \<open>int\<close>, iteration and membership. The keys of a
  mapping are strings, and a dictionary keeps the order its keys were first written in.
\<close>

section \<open>Values\<close>

text \<open>
  A float is its \<open>repr\<close> and what \<open>int\<close> makes of it (\<open>None\<close> where that raises). \<open>YOther\<close> is a value of
  another type, such as a date: the name of its type, its \<open>str\<close> and its \<open>repr\<close>.
\<close>

datatype yval =
    YNull
  | YBool bool
  | YInt int
  | YFloat string "int option"
  | YStr string
  | YList "yval list"
  | YMap "(string \<times> yval) list"
  | YOther string string string

type_synonym pydict = "(string \<times> yval) list"

text \<open>What reading a configuration may raise.\<close>

datatype app_error =
    AppGenError string
  | TypeError
  | AttributeError
  | ValueError
  | OverflowError
  | StopIteration
  | IndexError
  | KeyError

type_synonym 'a app = "app_error + 'a"

section \<open>Text\<close>

definition endswith :: "string \<Rightarrow> string \<Rightarrow> bool" where
  "endswith s p \<longleftrightarrow> suffix p s"

text \<open>\<open>s[:1].upper() + s[1:]\<close>.\<close>

fun capitalized :: "string \<Rightarrow> string" where
  "capitalized [] = []"
| "capitalized (c # cs) = to_upper c # cs"

text \<open>\<open>sub in s\<close> and \<open>s.replace(a, b)\<close> of one character by another.\<close>

definition contains_sub :: "string \<Rightarrow> string \<Rightarrow> bool" where
  "contains_sub p s \<longleftrightarrow> find_sub p s \<noteq> None"

definition replace_char :: "char \<Rightarrow> char \<Rightarrow> string \<Rightarrow> string" where
  "replace_char a b = map (\<lambda>c. if c = a then b else c)"

text \<open>\<open>Path(relative).stem\<close>.\<close>

definition path_stem :: "string \<Rightarrow> string" where
  "path_stem relative =
     (let name = last (split_on (CHR ''/'') relative);
          n = length (takeWhile (\<lambda>c. c \<noteq> CHR ''.'') (rev name)) in
      if 0 < n \<and> n + 1 < length name then take (length name - n - 1) name else name)"

definition dec_int :: "int \<Rightarrow> string" where
  "dec_int i = (if i < 0 then CHR ''-'' # dec (nat (- i)) else dec (nat i))"

section \<open>\<open>str\<close> and \<open>repr\<close>\<close>

definition hex_char :: "nat \<Rightarrow> char" where
  "hex_char d = (if d < 10 then digit_char d else char_of (87 + d))"

definition repr_char :: "char \<Rightarrow> char \<Rightarrow> string" where
  "repr_char q c =
     (let n = (of_char c :: nat) in
      if c = q \<or> n = 0x5C then [CHR 0x5C, c]
      else if n = 10 then [CHR 0x5C, CHR ''n''] else if n = 13 then [CHR 0x5C, CHR ''r'']
      else if n = 9 then [CHR 0x5C, CHR ''t'']
      else if n < 32 \<or> 127 \<le> n \<and> n \<le> 160 \<or> n = 173 then [CHR 0x5C, CHR ''x'', hex_char (n div 16), hex_char (n mod 16)]
      else [c])"

definition repr_str :: "string \<Rightarrow> string" where
  "repr_str s =
     (let q = (if CHR 0x27 \<in> set s \<and> CHR 0x22 \<notin> set s then CHR 0x22 else CHR 0x27) in
      q # concat (map (repr_char q) s) @ [q])"

fun py_repr :: "yval \<Rightarrow> string" where
  "py_repr YNull = ''None''"
| "py_repr (YBool b) = (if b then ''True'' else ''False'')"
| "py_repr (YInt i) = dec_int i"
| "py_repr (YFloat r _) = r"
| "py_repr (YStr s) = repr_str s"
| "py_repr (YList vs) = ''['' @ join '', '' (map py_repr vs) @ '']''"
| "py_repr (YMap m) = ''{'' @ join '', '' (map (\<lambda>(k, r). repr_str k @ '': '' @ r) (map (map_prod id py_repr) m)) @ ''}''"
| "py_repr (YOther _ _ r) = r"

definition py_str :: "yval \<Rightarrow> string" where
  "py_str v = (case v of YStr s \<Rightarrow> s | YOther _ s _ \<Rightarrow> s | _ \<Rightarrow> py_repr v)"

section \<open>Truth, identity and numbers\<close>

fun truthy :: "yval \<Rightarrow> bool" where
  "truthy YNull = False"
| "truthy (YBool b) = b"
| "truthy (YInt i) = (i \<noteq> 0)"
| "truthy (YFloat r _) = (r \<noteq> ''0.0'' \<and> r \<noteq> ''-0.0'')"
| "truthy (YStr s) = (s \<noteq> [])"
| "truthy (YList vs) = (vs \<noteq> [])"
| "truthy (YMap m) = (m \<noteq> [])"
| "truthy (YOther _ _ _) = True"

definition is_dict :: "yval \<Rightarrow> bool" where
  "is_dict v = (case v of YMap _ \<Rightarrow> True | _ \<Rightarrow> False)"

definition is_list :: "yval \<Rightarrow> bool" where
  "is_list v = (case v of YList _ \<Rightarrow> True | _ \<Rightarrow> False)"

text \<open>A value of a set or a key has to be hashable; lists and dictionaries are not.\<close>

definition hashable :: "yval \<Rightarrow> bool" where
  "hashable v \<longleftrightarrow> \<not> is_list v \<and> \<not> is_dict v"

text \<open>\<open>int(s)\<close>: blanks around, a sign, digits with single underscores between them.\<close>

definition plain_digits :: "string \<Rightarrow> bool" where
  "plain_digits s \<longleftrightarrow> list_all is_number (split_on (CHR ''_'') s)"

definition int_of_str :: "string \<Rightarrow> int app" where
  "int_of_str s =
     (let t = strip s;
          body = (if startswith t ''-'' \<or> startswith t ''+'' then drop 1 t else t);
          n = int (undec (filter (\<lambda>c. c \<noteq> CHR ''_'') body)) in
      if plain_digits body then Inr (if startswith t ''-'' then - n else n) else Inl ValueError)"

fun py_int :: "yval \<Rightarrow> int app" where
  "py_int (YInt i) = Inr i"
| "py_int (YBool b) = Inr (if b then 1 else 0)"
| "py_int (YFloat _ (Some i)) = Inr i"
| "py_int (YFloat r None) = Inl (if r = ''nan'' then ValueError else OverflowError)"
| "py_int (YStr s) = int_of_str s"
| "py_int _ = Inl TypeError"

section \<open>Dictionaries\<close>

definition get_or :: "pydict \<Rightarrow> string \<Rightarrow> yval \<Rightarrow> yval" where
  "get_or d k v = (case map_of d k of None \<Rightarrow> v | Some w \<Rightarrow> w)"

definition get :: "pydict \<Rightarrow> string \<Rightarrow> yval" where
  "get d k = get_or d k YNull"

text \<open>\<open>dict(v) if isinstance(v, dict) else {}\<close>.\<close>

definition block_of :: "yval \<Rightarrow> pydict" where
  "block_of v = (case v of YMap m \<Rightarrow> m | _ \<Rightarrow> [])"

text \<open>\<open>v.get(k, w)\<close> of a value that may be no dictionary.\<close>

definition get_attr :: "yval \<Rightarrow> string \<Rightarrow> yval \<Rightarrow> yval app" where
  "get_attr v k w = (case v of YMap m \<Rightarrow> Inr (get_or m k w) | _ \<Rightarrow> Inl AttributeError)"

definition dict_update :: "pydict \<Rightarrow> pydict \<Rightarrow> pydict" where
  "dict_update d e = foldl (\<lambda>d (k, v). AList.update k v d) d e"

text \<open>\<open>str(v or "")\<close>, and \<open>v.strip() if isinstance(v, str) else ""\<close>.\<close>

definition text_or_empty :: "yval \<Rightarrow> string" where
  "text_or_empty v = (if truthy v then py_str v else [])"

definition stripped_text :: "yval \<Rightarrow> string" where
  "stripped_text v = (case v of YStr s \<Rightarrow> strip s | _ \<Rightarrow> [])"

definition or_empty :: "yval \<Rightarrow> yval" where
  "or_empty v = (if truthy v then v else YList [])"

section \<open>Equality\<close>

text \<open>
  Equality of two values: dictionaries by their keys, a boolean as the number it is, a float that is
  whole as that number.
\<close>

fun py_eq :: "yval \<Rightarrow> yval \<Rightarrow> bool"
  and py_eqs :: "yval list \<Rightarrow> yval list \<Rightarrow> bool"
  and py_eqm :: "(string \<times> yval) list \<Rightarrow> (string \<times> yval) list \<Rightarrow> bool" where
  "py_eq (YMap m) w = (case w of YMap n \<Rightarrow> length m = length n \<and> py_eqm m n | _ \<Rightarrow> False)"
| "py_eq (YList vs) w = (case w of YList ws \<Rightarrow> py_eqs vs ws | _ \<Rightarrow> False)"
| "py_eq (YBool b) w =
     (let i = (if b then 1 else 0) in
      case w of YBool c \<Rightarrow> b = c | YInt j \<Rightarrow> i = j | YFloat r _ \<Rightarrow> r = dec_int i @ ''.0'' | _ \<Rightarrow> False)"
| "py_eq (YInt i) w =
     (case w of YBool c \<Rightarrow> i = (if c then 1 else 0) | YInt j \<Rightarrow> i = j | YFloat r _ \<Rightarrow> r = dec_int i @ ''.0'' | _ \<Rightarrow> False)"
| "py_eq (YFloat r x) w =
     (case w of YBool c \<Rightarrow> r = dec_int (if c then 1 else 0) @ ''.0'' | YInt j \<Rightarrow> r = dec_int j @ ''.0'' | YFloat q _ \<Rightarrow> r = q | _ \<Rightarrow> False)"
| "py_eq v w = (v = w)"
| "py_eqs [] ws = (ws = [])"
| "py_eqs (v # vs) ws = (case ws of [] \<Rightarrow> False | w # ws \<Rightarrow> py_eq v w \<and> py_eqs vs ws)"
| "py_eqm [] n = True"
| "py_eqm ((k, v) # m) n = ((case map_of n k of None \<Rightarrow> False | Some w \<Rightarrow> py_eq v w) \<and> py_eqm m n)"

text \<open>\<open>type(v).__name__\<close>.\<close>

fun type_name :: "yval \<Rightarrow> string" where
  "type_name YNull = ''NoneType''"
| "type_name (YBool _) = ''bool''"
| "type_name (YInt _) = ''int''"
| "type_name (YFloat _ _) = ''float''"
| "type_name (YStr _) = ''str''"
| "type_name (YList _) = ''list''"
| "type_name (YMap _) = ''dict''"
| "type_name (YOther t _ _) = t"

section \<open>Iteration and membership\<close>

fun py_iter :: "yval \<Rightarrow> yval list app" where
  "py_iter (YList vs) = Inr vs"
| "py_iter (YStr s) = Inr (map (\<lambda>c. YStr [c]) s)"
| "py_iter (YMap m) = Inr (map (\<lambda>(k, _). YStr k) m)"
| "py_iter _ = Inl TypeError"

text \<open>\<open>s in v\<close> for a string \<open>s\<close>.\<close>

fun str_in :: "string \<Rightarrow> yval \<Rightarrow> bool app" where
  "str_in s (YList vs) = Inr (YStr s \<in> set vs)"
| "str_in s (YStr t) = Inr (contains_sub s t)"
| "str_in s (YMap m) = Inr (s \<in> fst ` set m)"
| "str_in s _ = Inl TypeError"

text \<open>\<open>[v for v in vs if isinstance(v, dict)]\<close>.\<close>

fun dicts :: "yval list \<Rightarrow> pydict list" where
  "dicts [] = []"
| "dicts (YMap m # vs) = m # dicts vs"
| "dicts (_ # vs) = dicts vs"

text \<open>The members of a list for which a test that may raise holds.\<close>

fun filterr :: "('a \<Rightarrow> 'e + bool) \<Rightarrow> 'a list \<Rightarrow> 'e + 'a list" where
  "filterr p [] = Inr []"
| "filterr p (x # xs) = bindr (p x) (\<lambda>b. bindr (filterr p xs) (\<lambda>ys. Inr (if b then x # ys else ys)))"

text \<open>Appending what is not there yet, in order.\<close>

definition add_new :: "'a list \<Rightarrow> 'a \<Rightarrow> 'a list" where
  "add_new seen x = (if x \<in> set seen then seen else seen @ [x])"

section \<open>How they compute\<close>

lemma py_eq_YStr [simp]: "py_eq v (YStr s) \<longleftrightarrow> v = YStr s"
  by (cases v) (auto simp: Let_def)

lemma get_Cons [simp, str_simps]: "get ((k, v) # d) k' = (if k = k' then v else get d k')" "get [] k' = YNull"
  by (auto simp: get_def get_or_def)

lemma get_or_Cons [simp, str_simps]: "get_or ((k, v) # d) k' w = (if k = k' then v else get_or d k' w)" "get_or [] k' w = w"
  by (auto simp: get_or_def)

lemma get_or_update [simp]: "get_or (AList.update k v d) k' w = (if k = k' then v else get_or d k' w)"
  by (simp add: get_or_def update_conv')

lemma get_update [simp]: "get (AList.update k v d) k' = (if k = k' then v else get d k')"
  by (simp add: get_def)

lemma dicts_YMap [simp]: "dicts (map YMap ms) = ms"
  by (induction ms) auto

lemma dicts_append [simp]: "dicts (vs @ ws) = dicts vs @ dicts ws"
  by (induction vs rule: dicts.induct) auto

lemma set_dicts: "m \<in> set (dicts vs) \<longleftrightarrow> YMap m \<in> set vs"
  by (induction vs rule: dicts.induct) auto

lemma filterr_Inr [simp]: "filterr (\<lambda>x. Inr (p x)) xs = Inr (filter p xs)"
  by (induction xs) auto

lemma filterr_set: "filterr p xs = Inr ys \<Longrightarrow> y \<in> set ys \<longleftrightarrow> y \<in> set xs \<and> p y = Inr True"
proof (induction xs arbitrary: ys)
  case (Cons x xs)
  then obtain b zs where b: "p x = Inr b" "filterr p xs = Inr zs" "ys = (if b then x # zs else zs)"
    by (auto simp: bindr_eq_Inr)
  then show ?case using Cons.IH [OF b(2)] by (cases b) auto
qed simp

lemma set_add_new [simp]: "set (add_new seen x) = insert x (set seen)"
  by (auto simp: add_new_def)

lemma foldl_add_new_set [simp]: "set (foldl add_new seen xs) = set seen \<union> set xs"
  by (induction xs arbitrary: seen) (auto simp: add_new_def)

lemma foldl_add_new_distinct: "distinct seen \<Longrightarrow> distinct (foldl add_new seen xs)"
  by (induction xs arbitrary: seen) (auto simp: add_new_def)

end
