(* ===== verification/AppModel.thy ===== *)
theory AppModel
  imports PyValue
begin

text \<open>
  The entities and connect points of a project, \<open>synqt/appmodel.py\<close> up to its bundles: what an entity
  is and where its files live, what it may reach, and who owns and consumes which connect point. A
  configuration, an entity and a connect point are dictionaries as YAML reads them, so every shape the
  code does not check for raises here as it raises there.
\<close>

section \<open>Where things live\<close>

definition ascii_alnum :: "char \<Rightarrow> bool" where
  "ascii_alnum c \<longleftrightarrow> is_digit c \<or> is_lower c \<or> is_upper c"

definition qml_uri :: "string \<Rightarrow> string" where
  "qml_uri project_name =
     (let words = filter (\<lambda>w. w \<noteq> []) (split_on (CHR '' '') (map (\<lambda>c. if ascii_alnum c then c else CHR '' '') project_name));
          uri = concat (map capitalized words) in
      if uri \<noteq> [] then uri else ''App'')"

definition TYPE_FOLDERS :: "(string \<times> string) list" where
  "TYPE_FOLDERS =
     [(''client'', ''client''), (''web_edge'', ''web''), (''relational'', ''db/relational''),
      (''document'', ''db/document''), (''cache'', ''cache''), (''api'', ''api''), (''jobs'', ''jobs''),
      (''monitor'', ''monitor''), (''service'', ''service'')]"

definition PLAIN_TYPE :: string where
  "PLAIN_TYPE = ''service''"

definition TYPE_HELPERS :: "(string \<times> string) list" where
  "TYPE_HELPERS = [(''relational'', ''Db''), (''cache'', ''Cache''), (''document'', ''Docs''), (''jobs'', ''Jobs'')]"

definition UNIVERSAL_HELPERS :: "string list" where
  "UNIVERSAL_HELPERS = [''Log'']"

definition NETWORK_HELPERS :: "(string \<times> string) list" where
  "NETWORK_HELPERS = [(''outbound'', ''Http''), (''inbound'', ''Api'')]"

text \<open>\<open>^[A-Za-z][A-Za-z0-9_-]*$\<close>, whose \<open>$\<close> also matches before a line feed at the end.\<close>

definition entity_name_char :: "char \<Rightarrow> bool" where
  "entity_name_char c \<longleftrightarrow> ident_char c \<or> c = CHR ''-''"

definition ENTITY_NAME :: "string \<Rightarrow> bool" where
  "ENTITY_NAME s \<longleftrightarrow>
     (let rest = dropWhile entity_name_char s in
      s \<noteq> [] \<and> (is_lower (hd s) \<or> is_upper (hd s)) \<and> (rest = [] \<or> rest = nl))"

definition ENTITY_NAME_MAX :: nat where
  "ENTITY_NAME_MAX = 64"

definition is_valid_entity_name :: "string \<Rightarrow> bool" where
  "is_valid_entity_name name \<longleftrightarrow> name \<noteq> [] \<and> length name \<le> ENTITY_NAME_MAX \<and> ENTITY_NAME name"

definition entity_type :: "pydict \<Rightarrow> string" where
  "entity_type entity =
     (let declared = strip (text_or_empty (get entity ''type'')) in
      if declared \<noteq> [] then declared else PLAIN_TYPE)"

definition type_dir :: "pydict \<Rightarrow> string" where
  "type_dir entity = (case map_of TYPE_FOLDERS (entity_type entity) of Some d \<Rightarrow> d | None \<Rightarrow> ''service'')"

text \<open>\<open>str(entity.get("name") or "")\<close>, which the code spells out wherever it needs it.\<close>

abbreviation entity_name :: "pydict \<Rightarrow> string" where
  "entity_name entity \<equiv> text_or_empty (get entity ''name'')"

definition entity_dir :: "pydict \<Rightarrow> string" where
  "entity_dir entity =
     (let name = entity_name entity in
      if name \<noteq> [] then type_dir entity @ ''/'' @ name else type_dir entity)"

definition GENERATED_DIR :: string where
  "GENERATED_DIR = ''generated''"

definition GENERATED_CMAKE :: string where
  "GENERATED_CMAKE = ''synqt.cmake''"

definition SHARED_PRAGMA :: string where
  "SHARED_PRAGMA = ''Shared''"

text \<open>Where a file of an entity goes in the mirror under \<open>generated/\<close>, of \<open>synqt/qmlrewrite.py\<close>.\<close>

definition mirrored_path :: "string \<Rightarrow> string" where
  "mirrored_path relative =
     (let prefix = GENERATED_DIR @ ''/'' in
      if relative = GENERATED_DIR \<or> startswith relative prefix then relative else prefix @ relative)"

definition contract_path :: "pydict \<Rightarrow> string \<Rightarrow> string" where
  "contract_path entity contract = GENERATED_DIR @ ''/'' @ entity_dir entity @ ''/'' @ contract @ ''.syn''"

definition source_path :: "pydict \<Rightarrow> string \<Rightarrow> string" where
  "source_path entity contract = entity_dir entity @ ''/'' @ contract @ ''.qml''"

section \<open>What an entity is\<close>

definition is_client :: "pydict \<Rightarrow> bool" where
  "is_client entity \<longleftrightarrow> entity_type entity = ''client''"

definition entity_file_path :: "pydict \<Rightarrow> string" where
  "entity_file_path entity =
     (if is_client entity then entity_dir entity @ ''/Main.qml''
      else entity_dir entity @ ''/'' @ capitalized (entity_name entity) @ ''.qml'')"

definition entities :: "pydict \<Rightarrow> pydict list app" where
  "entities config = bindr (py_iter (get_or config ''entities'' (YList []))) (\<lambda>es. Inr (dicts es))"

text \<open>A dictionary comprehension: of two entities with one name the later one counts.\<close>

definition entity_dirs :: "pydict \<Rightarrow> (string \<times> string) list app" where
  "entity_dirs config =
     bindr (entities config) (\<lambda>es. Inr (foldl (\<lambda>d e. AList.update (entity_name e) (entity_dir e) d) [] es))"

definition client_entity :: "pydict \<Rightarrow> pydict option app" where
  "client_entity config = bindr (entities config) (\<lambda>es. Inr (List.find is_client es))"

definition client_targets :: "pydict \<Rightarrow> string list" where
  "client_targets entity =
     (case get_or entity ''targets'' (YList [YStr ''wasm'']) of YList ts \<Rightarrow> map py_str ts | _ \<Rightarrow> [''wasm''])"

definition has_desktop_client :: "pydict \<Rightarrow> bool app" where
  "has_desktop_client config =
     bindr (entities config) (\<lambda>es. Inr (list_ex (\<lambda>e. is_client e \<and> ''desktop'' \<in> set (client_targets e)) es))"

definition is_edge :: "pydict \<Rightarrow> bool" where
  "is_edge entity \<longleftrightarrow> entity_type entity = ''web_edge''"

definition serves_browser :: "pydict \<Rightarrow> bool" where
  "serves_browser entity \<longleftrightarrow> is_edge entity \<or> entity_type entity = ''monitor''"

section \<open>What an entity may reach\<close>

definition network_settings :: "pydict \<Rightarrow> pydict" where
  "network_settings entity = block_of (get entity ''network'')"

definition declares_outbound :: "pydict \<Rightarrow> bool" where
  "declares_outbound entity \<longleftrightarrow> is_list (get (network_settings entity) ''outbound'')"

definition header_fields :: "yval \<Rightarrow> pydict" where
  "header_fields headers =
     (case headers of
        YMap m \<Rightarrow> if m = [] then [] else [(''headers'', YMap (map (\<lambda>(k, v). (k, YStr (py_str v))) m))]
      | _ \<Rightarrow> [])"

definition outbound_endpoint :: "yval \<Rightarrow> pydict list" where
  "outbound_endpoint entry =
     (case entry of
        YMap m \<Rightarrow>
          (let url = strip (text_or_empty (get m ''url''));
               name = strip (text_or_empty (get m ''name'')) in
           if url = [] then []
           else [[(''url'', YStr url)] @ (if name \<noteq> [] then [(''name'', YStr name)] else [])
                 @ header_fields (get m ''headers'')])
      | _ \<Rightarrow> (let url = strip (py_str entry) in if url \<noteq> [] then [[(''url'', YStr url)]] else []))"

definition outbound_endpoints :: "pydict \<Rightarrow> pydict list" where
  "outbound_endpoints entity =
     (case get (network_settings entity) ''outbound'' of
        YList declared \<Rightarrow> concat (map outbound_endpoint declared)
      | _ \<Rightarrow> [])"

definition outbound_allowlist :: "pydict \<Rightarrow> yval list" where
  "outbound_allowlist entity = map (\<lambda>e. get e ''url'') (outbound_endpoints entity)"

definition inbound_settings :: "pydict \<Rightarrow> pydict" where
  "inbound_settings entity = block_of (get (network_settings entity) ''inbound'')"

definition serves_inbound :: "pydict \<Rightarrow> bool" where
  "serves_inbound entity \<longleftrightarrow> inbound_settings entity \<noteq> []"

definition network_helpers :: "pydict \<Rightarrow> string list" where
  "network_helpers entity =
     (if declares_outbound entity then [''Http''] else []) @ (if serves_inbound entity then [''Api''] else [])"

definition is_shared :: "pydict \<Rightarrow> bool" where
  "is_shared entity =
     (if is_client entity then False else (case get entity ''shared'' of YBool b \<Rightarrow> b | _ \<Rightarrow> True))"

definition is_service :: "pydict \<Rightarrow> bool" where
  "is_service entity \<longleftrightarrow> \<not> is_client entity"

section \<open>Connect points\<close>

definition connect_points :: "pydict \<Rightarrow> pydict list app" where
  "connect_points config = bindr (py_iter (get_or config ''connect_points'' (YList []))) (\<lambda>ps. Inr (dicts ps))"

definition point_name :: "pydict \<Rightarrow> string" where
  "point_name point =
     (if stripped_text (get point ''name'') \<noteq> [] then stripped_text (get point ''name'')
      else text_or_empty (get point ''owner''))"

definition accessor_name :: "string \<Rightarrow> string" where
  "accessor_name owner = capitalized owner"

definition contract_of :: "pydict \<Rightarrow> string" where
  "contract_of point =
     (if stripped_text (get point ''contract'') \<noteq> [] then stripped_text (get point ''contract'')
      else capitalized (text_or_empty (get point ''owner'')))"

definition authored_source_path :: "pydict \<Rightarrow> pydict \<Rightarrow> string" where
  "authored_source_path entity point =
     (let declared = text_or_empty (get point ''server'') in
      if declared \<noteq> [] then declared else source_path entity (contract_of point))"

definition behind :: "pydict \<Rightarrow> (string \<times> string) list" where
  "behind point =
     filter (\<lambda>(scope, entity). scope \<noteq> [] \<and> entity \<noteq> []) (map (map_prod id py_str) (block_of (get point ''behind'')))"

definition is_front :: "pydict \<Rightarrow> bool" where
  "is_front point \<longleftrightarrow> is_dict (get point ''behind'')"

definition fronted_by :: "pydict \<Rightarrow> string \<Rightarrow> pydict list app" where
  "fronted_by config name =
     bindr (connect_points config) (\<lambda>cps. Inr (filter (\<lambda>cp. name \<in> snd ` set (behind cp)) cps))"

abbreviation consumers_of :: "pydict \<Rightarrow> yval" where
  "consumers_of cp \<equiv> or_empty (get cp ''consumers'')"

definition consumed_by :: "pydict \<Rightarrow> string \<Rightarrow> pydict list app" where
  "consumed_by config name =
     bindr (connect_points config) (filterr (\<lambda>cp. str_in name (consumers_of cp)))"

definition owned_by :: "pydict \<Rightarrow> yval \<Rightarrow> pydict list app" where
  "owned_by config name =
     bindr (connect_points config) (\<lambda>cps. Inr (filter (\<lambda>cp. py_eq (get cp ''owner'') name) cps))"

text \<open>The names of the clients.\<close>

definition client_names :: "pydict list \<Rightarrow> string list" where
  "client_names es = map entity_name (filter is_client es)"

text \<open>\<open>named.intersection(values)\<close>, which hashes every value.\<close>

definition meets :: "string list \<Rightarrow> yval list \<Rightarrow> bool app" where
  "meets named vs =
     (if list_all hashable vs then Inr (list_ex (\<lambda>v. v \<in> set (map YStr named)) vs) else Inl TypeError)"

definition client_facing :: "pydict \<Rightarrow> string \<Rightarrow> pydict list app" where
  "client_facing config edge_name =
     bindr (entities config) (\<lambda>es.
     bindr (owned_by config (YStr edge_name)) (filterr (\<lambda>cp. bindr (py_iter (consumers_of cp)) (meets (client_names es)))))"

definition mesh_consumed :: "pydict \<Rightarrow> string \<Rightarrow> pydict list app" where
  "mesh_consumed config name =
     bindr (consumed_by config name) (\<lambda>cps. Inr (filter (\<lambda>cp. get cp ''owner'' \<noteq> YStr name) cps))"

definition contracts_of :: "pydict list \<Rightarrow> string list" where
  "contracts_of points = foldl add_new [] (filter (\<lambda>c. c \<noteq> []) (map contract_of points))"

definition forwards_session :: "pydict \<Rightarrow> pydict \<Rightarrow> bool app" where
  "forwards_session config point =
     bindr (entities config) (\<lambda>es.
     bindr (py_iter (consumers_of point)) (\<lambda>names.
       Inr (list_ex (\<lambda>name. py_str name \<notin> set (client_names es)) names)))"

definition session_forwarding_contracts :: "pydict \<Rightarrow> string set app" where
  "session_forwarding_contracts config =
     bindr (connect_points config) (\<lambda>cps.
     bindr (filterr (\<lambda>point. bindr (forwards_session config point) (\<lambda>b. Inr (b \<and> contract_of point \<noteq> []))) cps) (\<lambda>points.
       Inr (set (map contract_of points))))"

definition FRAMEWORK_CONTRACT_PATHS :: "(string \<times> string) list" where
  "FRAMEWORK_CONTRACT_PATHS =
     [(''Identity'', ''src/identity/contracts/Identity.syn''),
      (''SessionStore'', ''src/identity/contracts/SessionStore.syn''),
      (''Pages'', ''src/edge/contracts/Pages.syn''),
      (''Ingest'', ''src/monitor/contracts/Ingest.syn''),
      (''Console'', ''src/monitor/contracts/Console.syn'')]"

definition framework_contract_path :: "string \<Rightarrow> string" where
  "framework_contract_path contract = (case map_of FRAMEWORK_CONTRACT_PATHS contract of Some p \<Rightarrow> p | None \<Rightarrow> [])"

text \<open>The entity a name stands for: of two with one name the later one.\<close>

definition entity_named :: "pydict list \<Rightarrow> string \<Rightarrow> pydict option" where
  "entity_named es name = List.find (\<lambda>e. entity_name e = name) (rev es)"

definition contract_entry :: "pydict list \<Rightarrow> (string \<times> string) list \<Rightarrow> pydict \<Rightarrow> (string \<times> string) list" where
  "contract_entry es found point =
     (let contract = contract_of point in
      case entity_named es (text_or_empty (get point ''owner'')) of
        Some owner \<Rightarrow> if contract \<noteq> [] \<and> contract \<notin> fst ` set found then found @ [(contract, contract_path owner contract)] else found
      | None \<Rightarrow> found)"

definition contract_paths :: "pydict \<Rightarrow> (string \<times> string) list app" where
  "contract_paths config =
     bindr (entities config) (\<lambda>es. bindr (connect_points config) (\<lambda>cps. Inr (foldl (contract_entry es) [] cps)))"

text \<open>Not filtered: an entry that is no dictionary has no \<open>get\<close>.\<close>

definition as_dict :: "yval \<Rightarrow> pydict app" where
  "as_dict v = (case v of YMap m \<Rightarrow> Inr m | _ \<Rightarrow> Inl AttributeError)"

definition all_contracts :: "pydict \<Rightarrow> string list app" where
  "all_contracts config =
     bindr (py_iter (or_empty (get_or config ''connect_points'' (YList [])))) (\<lambda>vs.
     bindr (mapr as_dict vs) (\<lambda>points. Inr (contracts_of points)))"

text \<open>The names in \<open>tests/\<close>, \<open>None\<close> where the project or the directory is missing.\<close>

definition test_qml_files :: "string list option \<Rightarrow> string list" where
  "test_qml_files tests_dir =
     (case tests_dir of
        None \<Rightarrow> []
      | Some names \<Rightarrow> sort (filter (\<lambda>n. startswith n ''tst_'' \<and> endswith n ''.qml'' \<and> 8 \<le> length n) names))"

section \<open>Scopes\<close>

definition scope_vocab :: "pydict \<Rightarrow> yval list app" where
  "scope_vocab config = bindr (get_attr (get_or config ''scopes'' (YMap [])) ''order'' (YList [YStr ''anonymous''])) py_iter"

definition scopes_hierarchical :: "pydict \<Rightarrow> bool app" where
  "scopes_hierarchical config =
     bindr (get_attr (get_or config ''scopes'' (YMap [])) ''hierarchical'' (YBool True)) (\<lambda>v. Inr (truthy v))"

definition default_scope :: "pydict \<Rightarrow> string" where
  "default_scope config = stripped_text (get (block_of (get config ''scopes'')) ''default'')"

section \<open>Bundles\<close>

datatype bundle_ref = BUNDLE_CLIENT string | BUNDLE_STATIC string

definition bundle_of :: "yval \<Rightarrow> bundle_ref" where
  "bundle_of value =
     (let texts = strip (text_or_empty value) in
      if CHR ''/'' \<in> set texts then BUNDLE_STATIC texts else BUNDLE_CLIENT texts)"

definition bundles_for :: "pydict \<Rightarrow> pydict \<Rightarrow> (string \<times> bundle_ref) list app" where
  "bundles_for config edge =
     (case block_of (get edge ''bundles'') of
        [] \<Rightarrow> bindr (client_entity config) (\<lambda>client. case client of
               None \<Rightarrow> Inr []
             | Some c \<Rightarrow> Inr [(if default_scope config \<noteq> [] then default_scope config else ''anonymous'',
                              BUNDLE_CLIENT (entity_name c))])
      | declared \<Rightarrow> Inr (map (map_prod id bundle_of) declared))"

definition desktop_output_dir :: "pydict \<Rightarrow> pydict \<Rightarrow> string app" where
  "desktop_output_dir config client =
     bindr (entities config) (\<lambda>es.
       Inr (if length (filter is_client es) < 2 then ''build/client-desktop''
            else ''build/client-desktop-'' @ py_str (get client ''name'')))"

definition qml_uri_for :: "pydict \<Rightarrow> pydict \<Rightarrow> string app" where
  "qml_uri_for config client =
     bindr (get_attr (get_or config ''project'' (YMap [])) ''name'' (YStr ''app'')) (\<lambda>name.
     bindr (entities config) (\<lambda>es.
       let base = qml_uri (py_str name) in
       Inr (if length (filter is_client es) < 2 then base else base @ qml_uri (entity_name client))))"

definition bundle_output_dir :: "pydict \<Rightarrow> pydict \<Rightarrow> string app" where
  "bundle_output_dir config client =
     bindr (entities config) (\<lambda>es.
       Inr (if length (filter is_client es) < 2 then ''build/client''
            else ''build/client-'' @ py_str (get client ''name'')))"

end
