(* ===== verification/QmlRewrite.thy ===== *)
theory QmlRewrite
  imports QmlScan AppModel
begin

text \<open>
  The copy of an entity's QML that the engine loads, \<open>synqt/qmlrewrite.py\<close>: the pragma SynQt spells
  its own way is written the engine's way, and a root object named after its file, where no type of
  that name exists, is given a type that does. The lemmas show that the rewrite changes the name of
  the root object and nothing else, and that the copy is rooted at the new type.
\<close>

section \<open>Where the root type stands\<close>

definition FALLBACK_ROOT :: string where
  "FALLBACK_ROOT = ''QtObject''"

text \<open>Walking back over a dotted name: the token the loop ends at, if it is an identifier.\<close>

fun name_start :: "qml_token list \<Rightarrow> qml_token option" where
  "name_start [] = None"
| "name_start (t # back) =
     (if qkind t \<noteq> ''ident'' then None
      else case back of
             [] \<Rightarrow> Some t
           | p # back' \<Rightarrow> if is_punct p ''.'' then name_start back' else Some t)"

definition root_type_span :: "string \<Rightarrow> (nat \<times> nat \<times> string) option" where
  "root_type_span source =
     (case before_brace [] (qml_tokenize source) of
        None \<Rightarrow> None
      | Some back \<Rightarrow>
          (case name_start back of
             None \<Rightarrow> None
           | Some t \<Rightarrow>
               (let start = qoffset t; end = qoffset (hd back) + length (qtext (hd back)) in
                if end \<le> start then None else Some (start, end, take (end - start) (drop start source)))))"

definition retyped :: "string \<Rightarrow> string \<Rightarrow> string" where
  "retyped source replacement =
     (case root_type_span source of
        None \<Rightarrow> source
      | Some (start, end, _) \<Rightarrow> take start source @ replacement @ drop end source)"

section \<open>What a file becomes\<close>

definition needs_retyping :: "string \<Rightarrow> string \<Rightarrow> string set \<Rightarrow> bool" where
  "needs_retyping relative source contracts \<longleftrightarrow>
     suffix ''.qml'' relative \<and> root_type source = Some (path_stem relative)
     \<and> path_stem relative \<notin> contracts"

text \<open>
  The regular expression is anchored to the start of a line, and none of its characters is an end
  of a line, so the substitution works line by line. The word must end where \<open>Shared\<close> does.
\<close>

definition pragma_line :: "string \<Rightarrow> string" where
  "pragma_line line =
     (let blank = (\<lambda>c. c = CHR '' '' \<or> c = CHR 0x09);
          indent = takeWhile blank line; rest = dropWhile blank line;
          gap = takeWhile blank (drop 6 rest); word = dropWhile blank (drop 6 rest);
          after = drop (length SHARED_PRAGMA) word in
      if startswith rest ''pragma'' \<and> gap \<noteq> [] \<and> startswith word SHARED_PRAGMA
         \<and> (after = [] \<or> \<not> word_char (hd after))
      then indent @ ''pragma'' @ gap @ ''Singleton'' @ after
      else line)"

definition with_engine_pragmas :: "string \<Rightarrow> string" where
  "with_engine_pragmas source = join nl (map pragma_line (split_on (CHR 0x0A) source))"

definition transformed :: "string \<Rightarrow> string \<Rightarrow> string set \<Rightarrow> bool \<Rightarrow> string" where
  "transformed relative source contracts retype =
     (if \<not> suffix ''.qml'' relative then source
      else let text = with_engine_pragmas source in
           if \<not> retype \<or> \<not> needs_retyping relative text contracts then text
           else retyped text FALLBACK_ROOT)"

section \<open>Lexing a prefix of the source\<close>

text \<open>What the scanner makes of a source, without lines and offsets.\<close>

definition qml_lexeme :: "qml_token \<Rightarrow> string \<times> string" where
  "qml_lexeme t = (qkind t, qtext t)"

abbreviation qml_lexemes :: "string \<Rightarrow> (string \<times> string) list" where
  "qml_lexemes s \<equiv> map qml_lexeme (qml_tokenize s)"

text \<open>\<open>lexes s ts t\<close>: from \<open>s\<close>, turns of the scanner make the tokens \<open>ts\<close> and leave \<open>t\<close>.\<close>

inductive lexes :: "string \<Rightarrow> (string \<times> string) list \<Rightarrow> string \<Rightarrow> bool" where
  stop: "lexes s [] s"
| skip: "s \<noteq> [] \<Longrightarrow> turn s = (None, n) \<Longrightarrow> lexes (drop n s) ts t \<Longrightarrow> lexes s ts t"
| emit: "s \<noteq> [] \<Longrightarrow> turn s = (Some k, n) \<Longrightarrow> lexes (drop n s) ts t \<Longrightarrow> lexes s ((k, take n s) # ts) t"

inductive_cases lexes_NilE: "lexes [] ts t"

lemma lexemes_shift: "map qml_lexeme (qml_tokens l i s) = map qml_lexeme (qml_tokens l' i' s)"
proof (induction "length s" arbitrary: s l i l' i' rule: less_induct)
  case less
  show ?case
  proof (cases "s = []")
    case False
    have "length (drop (snd (turn s)) s) < length s" using turn_bounds [OF False] by auto
    then show ?thesis
      using less [of "drop (snd (turn s)) s"]
      by (simp add: turn_step [OF False] qml_lexeme_def split: option.split)
  qed simp
qed

lemma qml_lexemes_turn:
  "s \<noteq> [] \<Longrightarrow> qml_lexemes s =
     (case fst (turn s) of None \<Rightarrow> [] | Some k \<Rightarrow> [(k, take (snd (turn s)) s)]) @ qml_lexemes (drop (snd (turn s)) s)"
  using lexemes_shift
  by (fastforce simp: qml_tokenize_def turn_step qml_lexeme_def split: option.split)

lemma lexes_lexemes: "lexes s ts t \<Longrightarrow> qml_lexemes s = ts @ qml_lexemes t"
  by (induction rule: lexes.induct) (simp_all add: qml_lexemes_turn)

lemma lexes_length: "lexes s ts t \<Longrightarrow> length t \<le> length s"
  by (induction rule: lexes.induct) auto

text \<open>The scanner passes through the offset of every token it makes.\<close>

definition at_token :: "nat \<Rightarrow> string \<Rightarrow> qml_token list \<Rightarrow> qml_token \<Rightarrow> bool" where
  "at_token i s ts t \<longleftrightarrow>
     i \<le> qoffset t \<and> qoffset t - i < length s \<and>
     lexes s (map qml_lexeme ts) (drop (qoffset t - i) s) \<and>
     turn (drop (qoffset t - i) s) = (Some (qkind t), length (qtext t)) \<and>
     qtext t = take (length (qtext t)) (drop (qoffset t - i) s)"

lemma at_token_skip:
  assumes "s \<noteq> []" "turn s = (None, n)" "at_token (i + n) (drop n s) ts t"
  shows "at_token i s ts t"
  using assms by (auto simp: at_token_def intro: lexes.skip)

lemma at_token_emit:
  assumes "s \<noteq> []" "turn s = (Some k, n)" "at_token (i + n) (drop n s) ts t"
    and "qml_lexeme u = (k, take n s)"
  shows "at_token i s (u # ts) t"
  using assms by (auto simp: at_token_def intro: lexes.emit)

lemma lexes_to_token: "qml_tokens l i s = ts @ t # us \<Longrightarrow> at_token i s ts t"
proof (induction "length s" arbitrary: s l i ts rule: less_induct)
  case less
  then have s: "s \<noteq> []" by auto
  obtain k n where kn: "turn s = (k, n)" by fastforce
  have n: "0 < n" "n \<le> length s" using turn_bounds [OF s] kn by auto
  let ?rest = "qml_tokens (l + line_terminators (take n s)) (i + n) (drop n s)"
  show ?case
  proof (cases k)
    case None
    then have "?rest = ts @ t # us" using less.prems turn_step [OF s, of l i] kn by simp
    from less.hyps [OF _ this] show ?thesis using n kn None by (intro at_token_skip [OF s]) auto
  next
    case (Some k')
    let ?u = "\<lparr>qkind = k', qtext = take n s, qline = l, qoffset = i\<rparr>"
    have eq: "?u # ?rest = ts @ t # us" using less.prems turn_step [OF s, of l i] kn Some by simp
    show ?thesis
    proof (cases ts)
      case Nil
      then show ?thesis using eq s kn Some n by (auto simp: at_token_def min_absorb2 intro: lexes.stop)
    next
      case (Cons u ts')
      then have u: "u = ?u" and "?rest = ts' @ t # us" using eq by auto
      from less.hyps [OF _ this(2)] have "at_token (i + n) (drop n s) ts' t" using n by auto
      then show ?thesis unfolding Cons using kn Some u
        by (intro at_token_emit [OF s, of k' n]) (auto simp: qml_lexeme_def)
    qed
  qed
qed

section \<open>Changing what follows a token\<close>

text \<open>
  A turn that ends where a word begins does not change when another word begins there, as long as
  that one cannot be read as the rest of a number.
\<close>

definition word_at :: "string \<Rightarrow> bool" where
  "word_at s \<longleftrightarrow> s \<noteq> [] \<and> identifier_character (hd s) \<and> \<not> py_digit (hd s)"

definition fresh_word :: "string \<Rightarrow> bool" where
  "fresh_word s \<longleftrightarrow> word_at s \<and> to_lower (hd s) \<notin> set ''abcdefx''"

lemma identifier_character_not:
  "identifier_character c \<Longrightarrow> \<not> breaker c \<and> c \<noteq> CHR ''/'' \<and> c \<noteq> CHR ''*'' \<and> c \<noteq> CHR ''.'' \<and> c \<noteq> CHR ''+'' \<and> c \<noteq> CHR ''-''"
  by (auto simp: identifier_character_def py_alnum_def word_char_def breaker_def char_class_defs)

lemma startswith2_local:
  assumes "x \<noteq> []" "word_at y" "word_at y'" "\<not> identifier_character b"
  shows "startswith (x @ y) [a, b] \<longleftrightarrow> startswith (x @ y') [a, b]"
  using assms by (cases x; cases "tl x"; cases y; cases y') (auto simp: word_at_def)

lemma takeWhile_local:
  assumes "length (takeWhile P (x @ y)) \<le> length x" "y \<noteq> []" "P (hd y)"
  shows "takeWhile P (x @ y') = takeWhile P (x @ y)"
  using assms by (induction x) (cases y; auto)+

lemma takeWhile_end:
  assumes "y = [] \<or> \<not> P (hd y)"
  shows "takeWhile P (x @ y) = takeWhile P x"
  using assms by (induction x) (cases y; auto)+

lemma find_sub_local:
  assumes "find_sub p (x @ y) = Some e" "e + length p \<le> length x" "p \<noteq> []"
  shows "find_sub p (x @ y') = Some e"
  using assms
proof (induction x arbitrary: e)
  case (Cons c x)
  have sw: "startswith ((c # x) @ z) p \<longleftrightarrow> startswith (c # x) p" if "length p \<le> length (c # x)" for z
    using that by (simp add: startswith_def del: append_Cons)
  have len: "length p \<le> length (c # x)" using Cons.prems(2) by simp
  show ?case
  proof (cases "startswith (c # x) p")
    case True
    then show ?thesis using Cons.prems(1) sw [OF len, of y] sw [OF len, of y'] by simp
  next
    case False
    then obtain e' where "find_sub p (x @ y) = Some e'" "e = Suc e'"
      using Cons.prems(1) sw [OF len, of y] by auto
    then show ?thesis using Cons.IH [of e'] Cons.prems False sw [OF len, of y'] by simp
  qed
qed simp

lemma literal_local: "literal_len q (x @ y) \<le> length x \<Longrightarrow> y \<noteq> [] \<Longrightarrow> literal_len q (x @ y') = literal_len q (x @ y)"
proof (induction q x rule: literal_len.induct)
  case (1 q)
  then show ?case by (cases y) (auto split: if_splits list.splits)
next
  case (2 q c cs)
  then show ?case by (cases cs; cases y) (auto split: if_splits)
qed

lemma number_local:
  assumes "number_len b (x @ y) \<le> length x" "word_at y" "fresh_word y'"
  shows "number_len b (x @ y') = number_len b (x @ y)"
  using assms(1)
proof (induction x arbitrary: b)
  case Nil
  obtain d ds where y': "y' = d # ds" using assms(3) by (cases y') (auto simp: fresh_word_def word_at_def)
  have "d \<noteq> CHR ''.''" using assms(3) y' identifier_character_not by (auto simp: fresh_word_def word_at_def)
  then have "number_len b y' = 0" using assms(3) y' by (simp add: number_len.simps fresh_word_def word_at_def)
  with Nil show ?case by simp
next
  case (Cons c x)
  have sign: "\<not> py_digit (hd z) \<and> hd z \<noteq> CHR ''+'' \<and> hd z \<noteq> CHR ''-''" if "word_at z" for z
    using that identifier_character_not by (auto simp: word_at_def)
  have tw: "takeWhile py_digit (z @ y) = takeWhile py_digit z" "takeWhile py_digit (z @ y') = takeWhile py_digit z" for z
    using assms(2,3) by (auto intro!: takeWhile_end simp: word_at_def fresh_word_def)
  show ?case
  proof (cases "py_digit c \<or> c = CHR ''.'' \<and> \<not> b")
    case True
    then show ?thesis using Cons.IH [of b] Cons.IH [of True] Cons.prems
      by (auto simp: number_len.simps(2) [of b])
  next
    case False
    have unf: "number_len b (c # z) =
        (if to_lower c = CHR ''e'' \<and> z \<noteq> [] \<and> (py_digit (hd z) \<or> hd z = CHR ''+'' \<or> hd z = CHR ''-'')
         then 2 + length (takeWhile py_digit (tl z)) else 0)" for z
      using False by (simp only: number_len.simps(2) de_Morgan_disj if_False simp_thms)
    show ?thesis using sign [OF assms(2)] sign [of y'] assms(3)
      by (cases x) (simp_all add: unf tw fresh_word_def)
  qed
qed

lemma fresh_hd: "fresh_word s \<Longrightarrow> \<not> hex_digit (hd s) \<and> to_lower (hd s) \<noteq> CHR ''x''"
  by (auto simp: fresh_word_def word_at_def hex_digit_def)

lemma end_of_number_local:
  assumes "end_of_number (x @ y) \<le> length x" "x \<noteq> []" "word_at y" "fresh_word y'"
  shows "end_of_number (x @ y') = end_of_number (x @ y)"
proof -
  have ne: "y \<noteq> []" "y' \<noteq> []" using assms by (auto simp: word_at_def fresh_word_def)
  let ?hex = "\<lambda>s. startswith s ''0'' \<and> map to_lower (take 1 (drop 1 s)) = ''x''"
  show ?thesis
  proof (cases "tl x")
    case Nil
    then obtain c where x: "x = [c]" using assms(2) by (cases x) auto
    have "\<not> ?hex (x @ y')" using x ne fresh_hd [OF assms(4)] by (cases y') auto
    moreover have "\<not> ?hex (x @ y)" using assms(1) x by (auto simp: end_of_number_def)
    ultimately show ?thesis
      using number_local [of False x y y'] assms unfolding end_of_number_def by (simp only: if_False)
  next
    case (Cons d ds)
    then obtain c where x: "x = c # d # ds" using assms(2) by (cases x) auto
    have same: "?hex (x @ y') \<longleftrightarrow> ?hex (x @ y)" using x by simp
    show ?thesis
    proof (cases "?hex (x @ y)")
      case True
      have "takeWhile hex_digit (ds @ y') = takeWhile hex_digit (ds @ y)"
      proof (cases "hex_digit (hd y)")
        case h: True
        show ?thesis
          using takeWhile_local [where P = hex_digit, OF _ ne(1) h, of ds y'] assms(1) True x
          by (simp add: end_of_number_def)
      next
        case False
        then show ?thesis using fresh_hd [OF assms(4)] by (simp add: takeWhile_end)
      qed
      with True same x show ?thesis by (simp add: end_of_number_def)
    next
      case False
      then show ?thesis
        using number_local [of False x y y'] assms same unfolding end_of_number_def by (simp only: if_False)
    qed
  qed
qed

lemma block_local:
  assumes "block_comment_len (x @ y) \<le> length x" "startswith (x @ y) ''/*''" "word_at y"
  shows "block_comment_len (x @ y') = block_comment_len (x @ y)"
proof -
  have "2 \<le> length x"
    using assms identifier_character_not [of "hd y"] by (cases x; cases "tl x"; cases y) (auto simp: word_at_def)
  then have d: "drop 2 (x @ z) = drop 2 x @ z" for z by simp
  obtain e where e: "find_sub ''*/'' (drop 2 x @ y) = Some e"
    using assms(1,3) unfolding block_comment_len_def d by (auto simp: word_at_def split: option.splits)
  have "e + 4 \<le> length x" using assms(1) e unfolding block_comment_len_def d by simp
  then have "find_sub ''*/'' (drop 2 x @ y') = Some e"
    using find_sub_local [OF e, of y'] by simp
  with e show ?thesis unfolding block_comment_len_def d by simp
qed

lemma turn_local:
  assumes "turn (x @ y) = (k, n)" "n \<le> length x" "x \<noteq> []" "word_at y" "fresh_word y'"
  shows "turn (x @ y') = (k, n)"
proof -
  obtain c cs where x: "x = c # cs" using assms(3) by (cases x) auto
  have w: "word_at y'" "y \<noteq> []" "identifier_character (hd y)" "\<not> breaker (hd y)"
    using assms(4,5) identifier_character_not by (auto simp: fresh_word_def word_at_def)
  have odd: "\<not> identifier_character (CHR ''/'')" "\<not> identifier_character (CHR ''*'')"
    using identifier_character_not by blast+
  have s2: "startswith (x @ y') ''//'' = startswith (x @ y) ''//''" "startswith (x @ y') ''/*'' = startswith (x @ y) ''/*''"
    using startswith2_local [OF assms(3) w(1) assms(4)] odd by blast+
  have nl1: "startswith (cs @ y') nl = startswith (cs @ y) nl"
    using w identifier_character_not [of "hd y'"] assms(4) by (cases cs; cases y; cases y') (auto simp: word_at_def breaker_def)
  have line: "length (takeWhile P (x @ y)) \<le> length x \<Longrightarrow> P (hd y) \<Longrightarrow> takeWhile P (x @ y') = takeWhile P (x @ y)" for P
    by (rule takeWhile_local) (auto simp: w)
  have lc: "line_comment_len (x @ y) \<le> length x \<Longrightarrow> line_comment_len (x @ y') = line_comment_len (x @ y)"
    using line [of "\<lambda>c. c \<noteq> CHR 0x0A \<and> c \<noteq> CHR 0x0D"] w(4) by (simp add: line_comment_len_def breaker_def)
  have lit: "1 + literal_len c (cs @ y) \<le> length x \<Longrightarrow> literal_len c (cs @ y') = literal_len c (cs @ y)"
    using literal_local [of c cs y y'] w(2) x by simp
  have num: "end_of_number (x @ y) \<le> length x \<Longrightarrow> end_of_number (x @ y') = end_of_number (x @ y)"
    by (rule end_of_number_local [OF _ assms(3-5)])
  have word: "length (takeWhile identifier_character (x @ y)) \<le> length x \<Longrightarrow>
      takeWhile identifier_character (x @ y') = takeWhile identifier_character (x @ y)"
    using line w(3) by blast
  have hd: "hd (x @ z) = c" "tl (x @ z) = cs @ z" for z using x by simp_all
  have tk: "end_of_number (x @ y) \<le> length x \<Longrightarrow>
      take (end_of_number (x @ y)) (x @ y') = take (end_of_number (x @ y)) (x @ y)" by simp
  show ?thesis
    using assms(1,2) unfolding turn_def Let_def hd s2 nl1
    by (simp only: split: if_split_asm)
       (auto simp only: if_True if_False simp_thms prod.inject lc lit num tk word block_local [OF _ _ assms(4)])
qed

lemma turn_inside:
  assumes "x @ t \<noteq> []" "turn (x @ t) = (k, n)" "lexes (drop n (x @ t)) ts t"
  shows "n \<le> length x \<and> x \<noteq> [] \<and> drop n (x @ t) = drop n x @ t"
proof -
  have "length t \<le> length (x @ t) - n" using lexes_length [OF assms(3)] by simp
  moreover have "0 < n" "n \<le> length (x @ t)" using turn_bounds [OF assms(1)] assms(2) by auto
  ultimately show ?thesis by auto
qed

lemma lexes_local:
  "lexes s ts t \<Longrightarrow> s = x @ t \<Longrightarrow> word_at t \<Longrightarrow> fresh_word y' \<Longrightarrow> lexes (x @ y') ts y'"
proof (induction arbitrary: x rule: lexes.induct)
  case (stop s)
  then show ?case by (simp add: lexes.stop)
next
  case (skip s n ts t)
  have i: "n \<le> length x" "x \<noteq> []" "drop n (x @ t) = drop n x @ t"
    using turn_inside [of x t None n ts] skip.hyps unfolding skip.prems(1) by blast+
  have "lexes (drop n x @ y') ts y'" using skip.IH [of "drop n x"] skip.prems i by simp
  moreover have "turn (x @ y') = (None, n)" using turn_local skip.hyps(2) skip.prems i by blast
  ultimately show ?case using i lexes.skip [of "x @ y'" n ts y'] by simp
next
  case (emit s k n ts t)
  have i: "n \<le> length x" "x \<noteq> []" "drop n (x @ t) = drop n x @ t"
    using turn_inside [of x t "Some k" n ts] emit.hyps unfolding emit.prems(1) by blast+
  have "lexes (drop n x @ y') ts y'" using emit.IH [of "drop n x"] emit.prems i by simp
  moreover have "turn (x @ y') = (Some k, n)" using turn_local emit.hyps(2) emit.prems i by blast
  ultimately show ?case using i lexes.emit [of "x @ y'" k n ts y'] emit.prems by simp
qed

section \<open>The root of the copy\<close>

lemma before_brace_split:
  "before_brace bs ts = Some b \<longleftrightarrow>
     (\<exists>xs u us. ts = xs @ u # us \<and> is_punct u ''{'' \<and> (\<forall>v \<in> set xs. \<not> is_punct v ''{'') \<and> b = rev xs @ bs)"
proof (induction ts arbitrary: bs)
  case (Cons t ts)
  show ?case
  proof (cases "is_punct t ''{''")
    case True
    have "b = bs" if "t # ts = xs @ u # us" "\<forall>v \<in> set xs. \<not> is_punct v ''{''" "b = rev xs @ bs" for xs u us
      using that True by (cases xs) auto
    with True show ?thesis by auto
  next
    case False
    have "(\<exists>xs u us. t # ts = xs @ u # us \<and> is_punct u ''{'' \<and> (\<forall>v \<in> set xs. \<not> is_punct v ''{'') \<and> b = rev xs @ bs) \<longleftrightarrow>
      (\<exists>xs u us. ts = xs @ u # us \<and> is_punct u ''{'' \<and> (\<forall>v \<in> set xs. \<not> is_punct v ''{'') \<and> b = rev xs @ t # bs)"
      (is "?l \<longleftrightarrow> ?r")
    proof
      assume ?l
      then obtain xs u us where *: "t # ts = xs @ u # us" "is_punct u ''{''" "\<forall>v \<in> set xs. \<not> is_punct v ''{''" "b = rev xs @ bs"
        by blast
      then obtain xs' where "xs = t # xs'" using False by (cases xs) auto
      with * show ?r by auto
    next
      assume ?r
      then obtain xs u us where "ts = xs @ u # us" "is_punct u ''{''" "\<forall>v \<in> set xs. \<not> is_punct v ''{''" "b = rev xs @ t # bs"
        by blast
      then show ?l using False by (intro exI [of _ "t # xs"]) auto
    qed
    with False Cons show ?thesis by simp
  qed
qed simp

lemma name_start_split:
  "name_start bs = Some t \<Longrightarrow>
     \<exists>mid ts. bs = mid @ t # ts \<and> qkind t = ''ident'' \<and> qkind (hd bs) = ''ident'' \<and>
        (ts = [] \<or> \<not> is_punct (hd ts) ''.'')"
proof (induction bs rule: name_start.induct)
  case (2 u bs)
  show ?case
  proof (cases bs)
    case Nil
    then show ?thesis using 2(2) by (auto split: if_splits)
  next
    case (Cons p bs')
    show ?thesis
    proof (cases "is_punct p ''.''")
      case True
      then have "qkind u = ''ident''" "name_start bs' = Some t" using 2(2) Cons by (auto split: if_splits)
      with 2(1) [OF _ Cons True] obtain mid ts where "bs' = mid @ t # ts" "qkind t = ''ident''" "ts = [] \<or> \<not> is_punct (hd ts) ''.''"
        by auto
      then show ?thesis using Cons \<open>qkind u = ''ident''\<close> by (intro exI [of _ "u # p # mid"] exI [of _ ts]) auto
    next
      case False
      then show ?thesis using 2(2) Cons by (intro exI [of _ "[]"] exI [of _ bs]) (auto split: if_splits)
    qed
  qed
qed simp

lemma name_start_None:
  "name_start bs = None \<Longrightarrow> dotted_name bs name = name \<or> startswith (dotted_name bs name) ''.''"
proof (induction bs arbitrary: name rule: name_start.induct)
  case (2 u bs)
  then show ?case
    by (cases bs) (auto split: if_splits, metis startswith_Cons(3) startswith_Cons(1))
qed simp

lemma turn_ident: "turn s = (Some ''ident'', n) \<Longrightarrow> s \<noteq> [] \<Longrightarrow> word_at s \<and> n = length (takeWhile identifier_character s)"
  by (auto simp: turn_def Let_def word_at_def number_kind_def split: if_splits)

lemma word_at_plain:
  "identifier_character c \<Longrightarrow> \<not> py_space c \<and> c \<notin> set QUOTES"
  by (auto simp: identifier_character_def py_alnum_def word_char_def py_space_def QUOTES_def Let_def char_class_defs)

lemma turn_word:
  assumes "fresh_word s" "takeWhile identifier_character s = r" "word_kind r = k"
  shows "turn s = (Some k, length r)"
proof -
  obtain c cs where s: "s = c # cs" "identifier_character c" "\<not> py_digit c"
    using assms(1) by (cases s) (auto simp: fresh_word_def word_at_def)
  then have "\<not> breaker c" "c \<noteq> CHR ''/''" "\<not> py_space c" "c \<notin> set QUOTES"
    using identifier_character_not word_at_plain by blast+
  with s assms(2,3) show ?thesis by (simp add: turn_def breaker_def)
qed

lemma spans_later: "spans s i ts \<Longrightarrow> l \<in> set ts \<Longrightarrow> i \<le> qoffset l \<and> qtext l \<noteq> []"
proof (induction ts arbitrary: i)
  case (Cons t ts)
  show ?case
  proof (cases "l = t")
    case False
    then have "qoffset t + length (qtext t) \<le> qoffset l \<and> qtext l \<noteq> []"
      using Cons.prems by (intro Cons.IH) auto
    then show ?thesis using Cons.prems by auto
  qed (use Cons.prems in auto)
qed simp

lemma spans_append: "spans s i (xs @ ys) \<Longrightarrow> \<exists>j \<ge> i. spans s j ys"
proof (induction xs arbitrary: i)
  case (Cons t xs)
  then obtain j where "qoffset t + length (qtext t) \<le> j" "spans s j ys" "i \<le> qoffset t" by fastforce
  then show ?case by (intro exI [of _ j]) auto
qed auto

lemma root_type_lexemes:
  assumes "qml_lexemes s = xs @ (''ident'', r) # (''punct'', ''{'') # ys" "(''punct'', ''{'') \<notin> set xs"
    and "xs = [] \<or> last xs \<noteq> (''punct'', ''.'')" "r \<noteq> []"
  shows "root_type s = Some r"
proof -
  obtain ts t u us where ts: "qml_tokenize s = ts @ t # u # us" "map qml_lexeme ts = xs"
      "qml_lexeme t = (''ident'', r)" "qml_lexeme u = (''punct'', ''{'')"
    using assms(1) by (fastforce simp: map_eq_append_conv map_eq_Cons_conv)
  have no: "\<not> is_punct v ''{''" if "v \<in> set ts" for v
    using that ts(2) assms(2) by (force simp: is_punct_def qml_lexeme_def)
  have "before_brace [] (qml_tokenize s) = Some (t # rev ts)"
    unfolding before_brace_split
    by (rule exI [of _ "ts @ [t]"], rule exI [of _ u], rule exI [of _ us])
       (use ts no in \<open>auto simp: is_punct_def qml_lexeme_def\<close>)
  moreover have "rev ts = [] \<or> \<not> is_punct (hd (rev ts)) ''.''"
    using ts(2) assms(3) by (cases ts rule: rev_cases) (auto simp: is_punct_def qml_lexeme_def)
  then have "dotted_name (t # rev ts) [] = r"
    using ts(3) by (cases "rev ts") (auto simp: qml_lexeme_def)
  ultimately show ?thesis using assms(4) by (simp add: root_type_def)
qed

lemma ident_token:
  assumes "qml_tokenize s = ts @ t # us" "qkind t = ''ident''"
  shows "lexes s (map qml_lexeme ts) (drop (qoffset t) s)" "word_at (drop (qoffset t) s)"
    "qoffset t + length (qtext t) \<le> length s"
    "let rest = drop (qoffset t + length (qtext t)) s in
       (rest = [] \<or> \<not> identifier_character (hd rest)) \<and> qml_lexemes rest = map qml_lexeme us"
proof -
  let ?r = "drop (qoffset t) s" and ?n = "length (qtext t)"
  have at: "qoffset t < length s" "lexes s (map qml_lexeme ts) ?r" "turn ?r = (Some ''ident'', ?n)"
      "qtext t = take ?n ?r"
    using lexes_to_token [of 1 0 s ts t us] assms by (auto simp: at_token_def qml_tokenize_def)
  then have w: "word_at ?r" "?n = length (takeWhile identifier_character ?r)" using turn_ident [of ?r ?n] by auto
  have rest: "drop ?n ?r = dropWhile identifier_character ?r" by (simp add: w(2) dropWhile_eq_drop)
  have "qml_lexemes s = map qml_lexeme ts @ (''ident'', qtext t) # qml_lexemes (drop ?n ?r)"
    using lexes_lexemes [OF at(2)] qml_lexemes_turn [of ?r] at by auto
  then have "qml_lexemes (drop ?n ?r) = map qml_lexeme us"
    using assms by (simp add: qml_lexeme_def)
  then show "let rest = drop (qoffset t + ?n) s in
       (rest = [] \<or> \<not> identifier_character (hd rest)) \<and> qml_lexemes rest = map qml_lexeme us"
    using rest hd_dropWhile [of identifier_character ?r] by (auto simp: Let_def add.commute)
  show "qoffset t + ?n \<le> length s" using at w(2) length_takeWhile_le [of identifier_character ?r] by simp
  show "lexes s (map qml_lexeme ts) ?r" "word_at ?r" by (fact at(2) w(1))+
qed

text \<open>The root name of a source, replaced by any word that is not a keyword and cannot extend a number.\<close>

lemma retyped_root:
  assumes span: "root_type_span s = Some (a, b, name)"
    and r: "fresh_word r" "list_all identifier_character r" "word_kind r = ''ident''"
  shows "retyped s r = take a s @ r @ drop b s \<and> a < b \<and> b \<le> length s \<and> name = take (b - a) (drop a s) \<and>
    root_type (retyped s r) = Some r"
proof -
  obtain bs t where bs: "before_brace [] (qml_tokenize s) = Some bs" "name_start bs = Some t"
      and ab: "a = qoffset t" "b = qoffset (hd bs) + length (qtext (hd bs))" "a < b" "name = take (b - a) (drop a s)"
    using span by (auto simp: root_type_span_def Let_def split: option.splits if_splits)
  obtain xs u us where xs: "qml_tokenize s = xs @ u # us" "is_punct u ''{''" "\<forall>v \<in> set xs. \<not> is_punct v ''{''" "bs = rev xs"
    using bs(1) before_brace_split by fastforce
  obtain mid ts where ts: "bs = mid @ t # ts" "qkind t = ''ident''" "qkind (hd bs) = ''ident''" "ts = [] \<or> \<not> is_punct (hd ts) ''.''"
    using name_start_split [OF bs(2)] by blast
  have rev_xs: "xs = rev bs" using xs(4) by simp
  have "bs \<noteq> []" using ts(1) by simp
  then obtain xs' where last: "xs = xs' @ [hd bs]" unfolding rev_xs by (metis list.collapse rev.simps(2))
  note at = ident_token [of s "rev ts" t "rev mid @ u # us", OF _ ts(2)]
  note al = ident_token [of s xs' "hd bs" "u # us", OF _ ts(3)]
  have split: "qml_tokenize s = rev ts @ t # rev mid @ u # us" "qml_tokenize s = xs' @ hd bs # u # us"
    using xs(1) last by (simp_all add: rev_xs ts(1))
  let ?new = "take a s @ r @ drop b s"
  have eq: "retyped s r = ?new" using span by (simp add: retyped_def)
  have tail: "drop b s = [] \<or> \<not> identifier_character (hd (drop b s))" "qml_lexemes (drop b s) = map qml_lexeme (u # us)"
    using al(4) [OF split(2)] ab(2) by (auto simp: Let_def)
  have fresh: "fresh_word (r @ drop b s)" using r(1) by (auto simp: fresh_word_def word_at_def)
  have "lexes s (map qml_lexeme (rev ts)) (drop a s)" "word_at (drop a s)"
    using at(1,2) [OF split(1)] ab(1) by auto
  then have lex: "lexes ?new (map qml_lexeme (rev ts)) (r @ drop b s)"
    using lexes_local [of s _ "drop a s" "take a s", OF _ _ _ fresh] by simp
  have tw: "takeWhile identifier_character (r @ drop b s) = r"
    using takeWhile_end [where P = identifier_character, OF tail(1), of r] r(2) by (simp add: takeWhile_eq_all_conv list_all_iff)
  have turn: "turn (r @ drop b s) = (Some ''ident'', length r)"
    by (rule turn_word [OF fresh]) (simp_all add: tw r(3))
  have "qml_lexemes ?new = map qml_lexeme (rev ts) @ (''ident'', r) # (''punct'', ''{'') # map qml_lexeme us"
    using lexes_lexemes [OF lex] qml_lexemes_turn [of "r @ drop b s"] turn fresh tail(2) xs(2)
    by (auto simp: fresh_word_def word_at_def is_punct_def qml_lexeme_def)
  then have "root_type ?new = Some r"
  proof (rule root_type_lexemes)
    show "(''punct'', ''{'') \<notin> set (map qml_lexeme (rev ts))"
      using xs(3) ts(1) rev_xs by (auto simp: is_punct_def qml_lexeme_def)
    show "map qml_lexeme (rev ts) = [] \<or> last (map qml_lexeme (rev ts)) \<noteq> (''punct'', ''.'')"
      using ts(4) by (cases ts) (auto simp: is_punct_def qml_lexeme_def)
    show "r \<noteq> []" using r(1) by (auto simp: fresh_word_def word_at_def)
  qed
  then show ?thesis using eq ab al(3) [OF split(2)] by simp
qed

section \<open>The pragma\<close>

lemma pragma_line_no_nl: "CHR 0x0A \<notin> set l \<Longrightarrow> CHR 0x0A \<notin> set (pragma_line l)"
  by (auto simp: pragma_line_def Let_def dest!: set_takeWhileD set_dropWhileD in_set_dropD)

lemma pragma_line_idem: "pragma_line (pragma_line l) = pragma_line l"
proof (cases "pragma_line l = l")
  case False
  let ?blank = "\<lambda>c. c = CHR '' '' \<or> c = CHR 0x09"
  let ?indent = "takeWhile ?blank l" and ?gap = "takeWhile ?blank (drop 6 (dropWhile ?blank l))"
  obtain after where eq: "pragma_line l = ?indent @ ''pragma'' @ ?gap @ ''Singleton'' @ after"
    using False unfolding pragma_line_def Let_def by (auto split: if_splits)
  have tw: "takeWhile ?blank (takeWhile ?blank x @ c # ys) = takeWhile ?blank x"
    "dropWhile ?blank (takeWhile ?blank x @ c # ys) = c # ys" if "\<not> ?blank c" for x ys c
    using that by (auto intro!: takeWhile_end [THEN trans] takeWhile_eq_all_conv [THEN iffD2]
        simp: dropWhile_append dest: set_takeWhileD)
  show ?thesis unfolding eq
    by (simp add: pragma_line_def tw SHARED_PRAGMA_def Let_def)
qed simp

lemma split_with_engine_pragmas:
  "split_on (CHR 0x0A) (with_engine_pragmas s) = map pragma_line (split_on (CHR 0x0A) s)"
  unfolding with_engine_pragmas_def
  by (rule split_on_join) (auto dest: split_on_pieces simp: pragma_line_no_nl)

text \<open>
  Rewriting the pragma keeps the layout of a file: the copy has the same lines in the same
  order, each either the line as written or that line with the word \<open>Shared\<close> of its pragma
  replaced, and a file that has been through the pass is not changed by it again.
\<close>

theorem engine_pragmas_stable:
  "split_on (CHR 0x0A) (with_engine_pragmas s) = map pragma_line (split_on (CHR 0x0A) s) \<and>
   with_engine_pragmas (with_engine_pragmas s) = with_engine_pragmas s"
  using split_with_engine_pragmas [of s]
  by (simp add: with_engine_pragmas_def [of "with_engine_pragmas s"] pragma_line_idem comp_def)
     (simp add: with_engine_pragmas_def)

section \<open>The copy is loadable\<close>

lemma FALLBACK_ROOT_word:
  "fresh_word FALLBACK_ROOT" "list_all identifier_character FALLBACK_ROOT" "word_kind FALLBACK_ROOT = ''ident''"
  by code_simp+

lemma needs_retyping_span:
  assumes "needs_retyping relative s contracts" "\<not> startswith (path_stem relative) ''.''"
  obtains a b name where "root_type_span s = Some (a, b, name)"
proof -
  obtain bs where bs: "before_brace [] (qml_tokenize s) = Some bs" "dotted_name bs [] = path_stem relative"
      "path_stem relative \<noteq> []"
    using assms(1) by (auto simp: needs_retyping_def root_type_def Let_def split: option.splits if_splits)
  then obtain t where t: "name_start bs = Some t"
    using name_start_None [of bs "[]"] assms(2) by (cases "name_start bs") auto
  obtain mid ts where ts: "bs = mid @ t # ts" using name_start_split [OF t] by blast
  obtain xs u us where xs: "qml_tokenize s = xs @ u # us" "bs = rev xs"
    using bs(1) before_brace_split by fastforce
  have "qml_tokenize s = rev ts @ (t # rev mid @ u # us)" using xs ts by (metis append.assoc append_Cons rev_append rev.simps(2) rev_rev_ident append_Nil)
  then obtain j where j: "spans s j (t # rev mid @ u # us)"
    using qml_tokenize_exact [of s] spans_append by metis
  have "qoffset t < qoffset (hd bs) + length (qtext (hd bs))"
  proof (cases mid)
    case Nil
    then show ?thesis using ts j by auto
  next
    case (Cons l mid')
    then have "qoffset t + length (qtext t) \<le> qoffset l \<and> qtext l \<noteq> []"
      using j by (intro spans_later [of s _ "rev mid @ u # us"]) auto
    then have "qoffset t < qoffset l + length (qtext l)" by (cases "qtext l") auto
    then show ?thesis using ts Cons by simp
  qed
  then show ?thesis using that bs(1) t by (simp add: root_type_span_def Let_def)
qed

text \<open>
  C29. The copy of an entity's file never has a root object that would instantiate the file itself:
  when the root of the copy is named after the file, a contract of that name exists. To get there the
  pass changes at most one thing besides the pragma, the name of the root object, to the fallback
  type; the text before and after that name is the author's. (A file named \<open>QtObject.qml\<close> is rooted at
  the fallback type already, and a name cannot begin with a dot.)
\<close>

theorem copy_loadable:
  assumes "suffix ''.qml'' relative" "\<not> startswith (path_stem relative) ''.''" "path_stem relative \<noteq> FALLBACK_ROOT"
  shows "(root_type (transformed relative source contracts True) = Some (path_stem relative) \<longrightarrow>
            path_stem relative \<in> contracts) \<and>
    (\<exists>pre name post. with_engine_pragmas source = pre @ name @ post \<and>
       (transformed relative source contracts True = pre @ name @ post \<or>
        name \<noteq> [] \<and> transformed relative source contracts True = pre @ FALLBACK_ROOT @ post \<and>
        root_type (transformed relative source contracts True) = Some FALLBACK_ROOT))"
proof (cases "needs_retyping relative (with_engine_pragmas source) contracts")
  case False
  then have "transformed relative source contracts True = with_engine_pragmas source"
    using assms(1) by (simp add: transformed_def)
  moreover have "root_type (with_engine_pragmas source) = Some (path_stem relative) \<longrightarrow> path_stem relative \<in> contracts"
    using False assms(1) by (auto simp: needs_retyping_def)
  ultimately show ?thesis by (metis append_Nil)
next
  case True
  let ?s = "with_engine_pragmas source"
  have eq: "transformed relative source contracts True = retyped ?s FALLBACK_ROOT"
    using True assms(1) by (simp add: transformed_def)
  obtain a b name where "root_type_span ?s = Some (a, b, name)" using needs_retyping_span [OF True assms(2)] .
  from retyped_root [OF this FALLBACK_ROOT_word]
  have r: "retyped ?s FALLBACK_ROOT = take a ?s @ FALLBACK_ROOT @ drop b ?s" "a < b" "b \<le> length ?s"
      "root_type (retyped ?s FALLBACK_ROOT) = Some FALLBACK_ROOT" by auto
  have "?s = take a ?s @ take (b - a) (drop a ?s) @ drop b ?s"
    using r(2) by (metis append_take_drop_id drop_drop le_add_diff_inverse2 less_imp_le add.commute)
  moreover have "take (b - a) (drop a ?s) \<noteq> []" using r(2,3) by auto
  ultimately have "\<exists>pre name post. ?s = pre @ name @ post \<and> name \<noteq> [] \<and>
      retyped ?s FALLBACK_ROOT = pre @ FALLBACK_ROOT @ post"
    using r(1) by blast
  then show ?thesis unfolding eq r(4) using assms(3) by auto
qed

theorem copy_loadable_witness:
  "root_type (transformed ''web/edge/Edge.qml'' ''import QtQml  Edge { id: root }'' {} True) \<noteq> Some ''Edge'' \<and>
   transformed ''web/edge/Edge.qml'' ''import QtQml  Edge { id: root }'' {} True = ''import QtQml  QtObject { id: root }''"
proof -
  have s: "path_stem ''web/edge/Edge.qml'' = ''Edge''" "\<not> startswith ''Edge'' ''.''" "''Edge'' \<noteq> FALLBACK_ROOT"
      "suffix ''.qml'' ''web/edge/Edge.qml''"
    by code_simp+
  have "transformed ''web/edge/Edge.qml'' ''import QtQml  Edge { id: root }'' {} True = ''import QtQml  QtObject { id: root }''"
    by code_simp
  then show ?thesis
    using copy_loadable [of "''web/edge/Edge.qml''" "''import QtQml  Edge { id: root }''" "{}"] s by simp
qed

end
