(* ===== verification/QmlComments.thy ===== *)
theory QmlComments
  imports QmlScan
begin

text \<open>
  Taking the commentary out of a scaffolded QML file, \<open>synqt/qmlcomments.py\<close>: comments go, the
  licence header stays, and no gap is left where a comment was.
\<close>

section \<open>One line\<close>

text \<open>\<open>^\s*//\s*SPDX-(FileCopyrightText|License-Identifier):\<close>, matched at the start of a line.\<close>

definition LICENCE :: "string \<Rightarrow> bool" where
  "LICENCE line \<longleftrightarrow>
     (let code = lstrip line; tag = lstrip (drop 2 code) in
      startswith code ''//'' \<and>
      (startswith tag ''SPDX-FileCopyrightText:'' \<or> startswith tag ''SPDX-License-Identifier:''))"

text \<open>The characters the loop passes before it returns, by the quote it is inside of.\<close>

fun cut_from :: "char option \<Rightarrow> string \<Rightarrow> string" where
  "cut_from quote [] = []"
| "cut_from (Some q) (c # cs) =
     (if c = CHR 0x5C then (case cs of [] \<Rightarrow> [c] | d # ds \<Rightarrow> c # d # cut_from (Some q) ds)
      else c # cut_from (if c = q then None else Some q) cs)"
| "cut_from None (c # cs) =
     (if c \<in> set QUOTES then c # cut_from (Some c) cs
      else if c = CHR ''/'' \<and> startswith cs ''/'' then []
      else c # cut_from None cs)"

definition cut_trailing :: "string \<Rightarrow> string" where
  "cut_trailing line = cut_from None line"

definition kept_line :: "string \<Rightarrow> string list" where
  "kept_line line =
     (if LICENCE line then [line]
      else if startswith (lstrip line) ''//'' then []
      else let trimmed = rstrip (cut_trailing line) in
           [if trimmed \<noteq> [] \<or> strip line = [] then trimmed else []])"

section \<open>The file\<close>

text \<open>The loop that drops a blank line after a blank one; the flag says the last line kept is blank.\<close>

fun collapse :: "bool \<Rightarrow> string list \<Rightarrow> string list" where
  "collapse after_blank [] = []"
| "collapse after_blank (line # lines) =
     (if strip line = [] \<and> after_blank then collapse after_blank lines
      else line # collapse (strip line = []) lines)"

definition tidied_lines :: "string list \<Rightarrow> string list" where
  "tidied_lines kept = rev (dropWhile (\<lambda>line. strip line = []) (rev (collapse False kept)))"

definition without_commentary :: "string \<Rightarrow> string" where
  "without_commentary text =
     (let tidied = tidied_lines (concat (map kept_line (split_on (CHR 0x0A) text))) in
      if tidied = [] then [] else join nl tidied @ nl)"

section \<open>What is left of a line\<close>

declare lstrip_Nil [simp] rstrip_Nil [simp] strip_Nil [simp]

definition settled :: "string \<Rightarrow> bool" where
  "settled l \<longleftrightarrow> LICENCE l \<or> \<not> startswith (lstrip l) ''//'' \<and> cut_trailing l = l \<and> rstrip l = l"

lemma cut_from_prefix: "prefix (cut_from q s) s"
  by (induction q s rule: cut_from.induct) (auto split: list.splits)

lemma cut_from_cut: "prefix p (cut_from q s) \<Longrightarrow> cut_from q p = p"
proof (induction q s arbitrary: p rule: cut_from.induct)
  case (2 q c cs)
  show ?case
  proof (cases "p = [] \<or> tl p = []")
    case True
    then show ?thesis by (cases p) auto
  next
    case False
    then obtain d e p' where p: "p = d # e # p'" by (cases p; cases "tl p") auto
    show ?thesis
    proof (cases "c = CHR 0x5C")
      case True
      then obtain ds where "cs = e # ds" "d = c" "prefix p' (cut_from (Some q) ds)"
        using "2.prems" p by (auto split: list.splits)
      then show ?thesis using "2.IH"(1) [OF True, of e ds p'] p True by simp
    next
      case c: False
      then have "d = c" "prefix (e # p') (cut_from (if c = q then None else Some q) cs)"
        using "2.prems" p by auto
      then show ?thesis using "2.IH"(2) [OF c, of "e # p'"] p c by simp
    qed
  qed
next
  case (3 c cs)
  show ?case
  proof (cases p)
    case (Cons d p')
    have "startswith cs ''/''" if "startswith p' ''/''" "prefix p' cs"
      using that by (metis prefix_order.trans startswith_prefix)
    then show ?thesis using 3 Cons prefix_order.trans [OF _ cut_from_prefix, of p' None cs]
      by (auto split: if_splits)
  qed simp
qed simp

lemma startswith_lstrip_prefix:
  assumes "prefix p s" "startswith (lstrip p) (x # xs)"
  shows "startswith (lstrip s) (x # xs)"
proof -
  obtain r where s: "s = p @ r" using assms(1) by (auto simp: prefix_def)
  have "lstrip p \<noteq> []" using assms(2) by (cases "lstrip p") auto
  then have "lstrip s = lstrip p @ r" unfolding s lstrip_def by (auto simp: dropWhile_append)
  then show ?thesis using assms(2) by (auto simp: startswith_prefix prefix_def)
qed

lemma kept_settled: "l' \<in> set (kept_line l) \<Longrightarrow> settled l'"
proof -
  assume l': "l' \<in> set (kept_line l)"
  show ?thesis
  proof (cases "LICENCE l")
    case True
    with l' show ?thesis by (simp add: kept_line_def settled_def)
  next
    case False
    let ?t = "rstrip (cut_trailing l)"
    have nc: "\<not> startswith (lstrip l) ''//''" and eq: "l' = ?t"
      using l' False by (auto simp: kept_line_def Let_def simp del: rstrip_Nil strip_Nil split: if_splits)
    have p: "prefix ?t (cut_trailing l)" "prefix ?t l"
      using rstrip_prefix cut_from_prefix [of None l] prefix_order.trans unfolding cut_trailing_def by blast+
    have "\<not> startswith (lstrip ?t) ''//''" using startswith_lstrip_prefix [OF p(2)] nc by blast
    moreover have "cut_trailing ?t = ?t" using cut_from_cut p(1) unfolding cut_trailing_def by blast
    ultimately show ?thesis by (simp add: settled_def eq)
  qed
qed

lemma settled_kept: "settled l \<Longrightarrow> kept_line l = [l]"
  by (auto simp: kept_line_def settled_def Let_def LICENCE_def)

lemma kept_licence: "filter LICENCE (kept_line l) = filter LICENCE [l]"
proof (cases "LICENCE l")
  case False
  have "\<not> LICENCE l'" if "l' \<in> set (kept_line l)" for l'
  proof -
    have "prefix l' l" "\<not> startswith (lstrip l) ''//''"
      using that False rstrip_prefix [of "cut_trailing l"] cut_from_prefix [of None l] prefix_order.trans
      by (auto simp: kept_line_def Let_def cut_trailing_def split: if_splits)
    then show ?thesis using startswith_lstrip_prefix [of l' l] by (auto simp: LICENCE_def Let_def)
  qed
  with False show ?thesis by simp
qed (simp add: kept_line_def)

lemma kept_no_nl: "l' \<in> set (kept_line l) \<Longrightarrow> CHR 0x0A \<notin> set l \<Longrightarrow> CHR 0x0A \<notin> set l'"
proof -
  assume l': "l' \<in> set (kept_line l)" and no: "CHR 0x0A \<notin> set l"
  have "prefix (rstrip (cut_trailing l)) l"
    using rstrip_prefix cut_from_prefix [of None l] prefix_order.trans unfolding cut_trailing_def by blast
  then have "set (rstrip (cut_trailing l)) \<subseteq> set l" by (rule set_mono_prefix)
  with l' no show ?thesis by (auto simp: kept_line_def Let_def split: if_splits)
qed

section \<open>Blank lines\<close>

lemma licence_not_blank: "LICENCE l \<Longrightarrow> strip l \<noteq> []"
  using lstrip_Nil [of l] by (cases "lstrip l") (auto simp: LICENCE_def Let_def)

lemma set_collapse: "set (collapse b ls) \<subseteq> set ls"
  by (induction b ls rule: collapse.induct) auto

lemma filter_collapse: "filter LICENCE (collapse b ls) = filter LICENCE ls"
  by (induction b ls rule: collapse.induct) (auto dest: licence_not_blank simp del: strip_Nil)

text \<open>No blank line after a blank one, and none at the end.\<close>

fun well_spaced :: "bool \<Rightarrow> string list \<Rightarrow> bool" where
  "well_spaced b [] \<longleftrightarrow> True"
| "well_spaced b (l # ls) \<longleftrightarrow> (strip l = [] \<longrightarrow> \<not> b) \<and> well_spaced (strip l = []) ls"

lemma collapse_spaced: "well_spaced b (collapse b ls)"
  by (induction b ls rule: collapse.induct) (auto simp del: strip_Nil)

lemma spaced_collapse: "well_spaced b ls \<Longrightarrow> collapse b ls = ls"
  by (induction b ls rule: well_spaced.induct) (auto simp del: strip_Nil)

lemma spaced_prefix: "well_spaced b (xs @ ys) \<Longrightarrow> well_spaced b xs"
  by (induction b xs rule: well_spaced.induct) auto

lemma spaced_snoc: "well_spaced b xs \<Longrightarrow> xs \<noteq> [] \<Longrightarrow> strip (last xs) \<noteq> [] \<Longrightarrow> well_spaced b (xs @ [l])"
  by (induction b xs rule: well_spaced.induct) (auto simp del: strip_Nil split: if_splits)

lemma tidied_prefix: "prefix (tidied_lines ls) (collapse False ls)"
  unfolding tidied_lines_def by (metis suffix_dropWhile suffix_to_prefix rev_rev_ident)

lemma tidied_last: "tidied_lines ls \<noteq> [] \<Longrightarrow> strip (last (tidied_lines ls)) \<noteq> []"
  unfolding tidied_lines_def using hd_dropWhile [of "\<lambda>l. strip l = []" "rev (collapse False ls)"]
  by (simp add: last_rev del: strip_Nil)

lemma tidied_spaced: "well_spaced False (tidied_lines ls)"
  using tidied_prefix [of ls] collapse_spaced [of False ls] by (auto simp: prefix_def intro: spaced_prefix)

lemma tidied_again: "tidied_lines (tidied_lines ls @ [[]]) = tidied_lines ls"
proof (cases "tidied_lines ls = []")
  case True
  then show ?thesis by (simp add: tidied_lines_def [of "[[]]"])
next
  case False
  then have "well_spaced False (tidied_lines ls @ [[]])" by (intro spaced_snoc tidied_spaced tidied_last)
  from spaced_collapse [OF this] show ?thesis
    unfolding tidied_lines_def [of "tidied_lines ls @ [[]]"]
    using tidied_last [OF False] False by (cases "tidied_lines ls" rule: rev_cases) auto
qed

lemma filter_tidied: "filter LICENCE (tidied_lines ls) = filter LICENCE ls"
proof -
  have "filter LICENCE (rev (dropWhile (\<lambda>l. strip l = []) xs)) = filter LICENCE (rev xs)" for xs
    by (induction xs) (auto dest: licence_not_blank simp del: strip_Nil)
  then show ?thesis using filter_collapse by (simp add: tidied_lines_def rev_rev_ident)
qed

section \<open>The file again\<close>

abbreviation text_lines :: "string \<Rightarrow> string list" where
  "text_lines \<equiv> split_on (CHR 0x0A)"

abbreviation kept_lines :: "string \<Rightarrow> string list" where
  "kept_lines text \<equiv> tidied_lines (concat (map kept_line (text_lines text)))"

lemma tidied_subset: "set (tidied_lines ls) \<subseteq> set ls"
  using set_mono_prefix [OF tidied_prefix [of ls]] set_collapse [of False ls] by blast

lemma kept_lines_settled: "l \<in> set (kept_lines text) \<Longrightarrow> settled l \<and> CHR 0x0A \<notin> set l"
proof -
  assume "l \<in> set (kept_lines text)"
  then obtain l0 where "l0 \<in> set (text_lines text)" "l \<in> set (kept_line l0)"
    using tidied_subset [of "concat (map kept_line (text_lines text))"] by auto
  then show ?thesis using kept_settled kept_no_nl split_on_pieces by blast
qed

lemma text_lines_join:
  assumes "\<And>l. l \<in> set ls \<Longrightarrow> CHR 0x0A \<notin> set l"
  shows "text_lines (if ls = [] then [] else join nl ls @ nl) = ls @ [[]]"
proof (cases "ls = []")
  case False
  then have "join nl ls @ nl = join nl (ls @ [[]])" by (simp add: join_append)
  moreover have "text_lines (join nl (ls @ [[]])) = ls @ [[]]" by (rule split_on_join) (use assms in auto)
  ultimately show ?thesis using False by simp
qed simp

lemma without_commentary_lines: "text_lines (without_commentary text) = kept_lines text @ [[]]"
  unfolding without_commentary_def Let_def by (rule text_lines_join) (use kept_lines_settled in blast)

lemma kept_lines_again: "kept_lines (without_commentary text) = kept_lines text"
proof -
  have "concat (map kept_line (kept_lines text @ [[]])) = kept_lines text @ [[]]"
  proof -
    have "kept_line l = [l]" if "l \<in> set (kept_lines text @ [[]])" for l
      using that kept_lines_settled settled_kept by (auto simp: settled_def cut_trailing_def lstrip_def rstrip_def)
    then have "map kept_line (kept_lines text @ [[]]) = map (\<lambda>l. [l]) (kept_lines text @ [[]])"
      by (intro map_cong refl)
    then show ?thesis by (simp only: concat_map_singleton map_ident)
  qed
  then show ?thesis unfolding without_commentary_lines by (simp only: tidied_again)
qed

text \<open>
  Taking the commentary out keeps the licence and leaves no comment: the licence lines of the
  result are those of the file, in order; every other line has no \<open>//\<close> outside a string literal and
  no trailing blanks; and doing it again changes nothing.
\<close>

theorem without_commentary_spec:
  "filter LICENCE (text_lines (without_commentary text)) = filter LICENCE (text_lines text) \<and>
   list_all (\<lambda>l. LICENCE l \<or> cut_trailing l = l \<and> rstrip l = l) (text_lines (without_commentary text)) \<and>
   without_commentary (without_commentary text) = without_commentary text"
proof (intro conjI)
  have "\<not> LICENCE []" by (simp add: LICENCE_def lstrip_def)
  then have "filter LICENCE (text_lines (without_commentary text)) = filter LICENCE (concat (map kept_line (text_lines text)))"
    unfolding without_commentary_lines by (simp add: filter_tidied)
  also have "\<dots> = filter LICENCE (text_lines text)"
  proof -
    have "filter LICENCE (concat (map kept_line ls)) = filter LICENCE ls" for ls
      by (induction ls) (simp_all add: kept_licence)
    then show ?thesis .
  qed
  finally show "filter LICENCE (text_lines (without_commentary text)) = filter LICENCE (text_lines text)" .
  show "list_all (\<lambda>l. LICENCE l \<or> cut_trailing l = l \<and> rstrip l = l) (text_lines (without_commentary text))"
    unfolding without_commentary_lines list_all_iff
    using kept_lines_settled by (auto simp: settled_def cut_trailing_def rstrip_def)
  show "without_commentary (without_commentary text) = without_commentary text"
    unfolding without_commentary_def [of "without_commentary text"] kept_lines_again
    by (simp add: without_commentary_def)
qed

end
