(* ===== verification/Graphics.thy ===== *)
theory Graphics
  imports QmlScan
begin

text \<open>
  Which routes need the accelerated scene graph, \<open>synqt/graphics.py\<close>: what a QML source imports and
  mentions once its comments and literals are gone, and what a route is given from its own
  declaration and from that scan.
\<close>

section \<open>Scanning a source\<close>

definition ACCELERATED :: string where
  "ACCELERATED = ''accelerated''"

definition ANY :: string where
  "ANY = ''software''"

definition ACCELERATED_IMPORTS :: "string list" where
  "ACCELERATED_IMPORTS = [''QtQuick3D'', ''QtQuick.Effects'', ''QtQuick.Particles'']"

definition ACCELERATED_TYPES :: "string list" where
  "ACCELERATED_TYPES = [''ShaderEffect'']"

text \<open>A semicolon ends a statement as a line does.\<close>

definition statements :: "string \<Rightarrow> string list" where
  "statements body =
     filter (\<lambda>s. s \<noteq> [])
       (map strip (split_on (CHR 0x0A) (map (\<lambda>c. if c = CHR '';'' then CHR 0x0A else c) body)))"

text \<open>Of a string of at most one character, the empty string not being one.\<close>

definition word_edge :: "string \<Rightarrow> bool" where
  "word_edge s \<longleftrightarrow> s = [] \<or> \<not> identifier_character (hd s)"

text \<open>
  The loop from \<open>start\<close>: what is left of the body, and the character before it. The words searched
  for are not empty.
\<close>

function mentions_from :: "string \<Rightarrow> string \<Rightarrow> string \<Rightarrow> bool" where
  "mentions_from word prev rest =
     (case find_sub word rest of
        None \<Rightarrow> False
      | Some found \<Rightarrow>
          if rest = [] then False
          else (let before = (if found > 0 then [rest ! (found - 1)] else prev);
               after = take 1 (drop (found + length word) rest) in
           if word_edge before \<and> word_edge after then True
           else mentions_from word [rest ! found] (drop (found + 1) rest)))"
  by pat_completeness auto
termination by (relation "measure (\<lambda>(word, prev, rest). length rest)") auto

declare mentions_from.simps [simp del]

definition mentions_word :: "string \<Rightarrow> string \<Rightarrow> bool" where
  "mentions_word body word = mentions_from word [] body"

text \<open>The first word after \<open>import\<close>, \<open>rest.split()[0]\<close>.\<close>

definition imported_module :: "string \<Rightarrow> string list" where
  "imported_module statement =
     (let rest = drop 6 statement;
          name = takeWhile (\<lambda>c. \<not> py_space c) (lstrip rest) in
      if \<not> startswith statement ''import'' then []
      else if rest \<noteq> [] \<and> identifier_character (hd rest) then []
      else if name = [] then [] else [name])"

definition imported_modules :: "string \<Rightarrow> string list" where
  "imported_modules body = concat (map imported_module (statements body))"

definition scan_source :: "string \<Rightarrow> bool" where
  "scan_source source =
     (let body = stripped source in
      list_ex (\<lambda>m. m \<in> set ACCELERATED_IMPORTS) (imported_modules body)
      \<or> list_ex (mentions_word body) ACCELERATED_TYPES)"

section \<open>What a route needs\<close>

text \<open>
  A route as the code reads it: its path as the messages print it, and the three keys it looks up,
  \<open>None\<close> where the value is absent or not a string.
\<close>

record route =
  route_path :: string
  route_graphics :: "string option"
  route_view :: "string option"
  route_remote :: "string option"

definition declared :: "route \<Rightarrow> string option" where
  "declared route =
     (case route_graphics route of
        None \<Rightarrow> None
      | Some v \<Rightarrow> if strip v \<noteq> [] then Some (strip v) else None)"

definition non_blank :: "string option \<Rightarrow> bool" where
  "non_blank v = (case v of None \<Rightarrow> False | Some s \<Rightarrow> strip s \<noteq> [])"

text \<open>\<open>client_dir / view\<close>, and the last part of a path, \<open>source_file.name\<close>.\<close>

definition in_dir :: "string \<Rightarrow> string \<Rightarrow> string" where
  "in_dir dir name = dir @ ''/'' @ name"

definition path_name :: "string \<Rightarrow> string" where
  "path_name p = last (split_on (CHR ''/'') p)"

definition route_file :: "route \<Rightarrow> string option \<Rightarrow> string option \<Rightarrow> string option" where
  "route_file route client_dir edge_dir =
     (if non_blank (route_view route)
      then map_option (\<lambda>dir. in_dir dir (strip (the (route_view route)))) client_dir
      else if non_blank (route_remote route)
      then map_option (\<lambda>dir. in_dir (in_dir dir ''pages'') (strip (the (route_remote route)))) edge_dir
      else None)"

text \<open>The outcome of scanning the file a route names: \<open>None\<close> where there is no file or it cannot be read.\<close>

definition scanned_file :: "world \<Rightarrow> string option \<Rightarrow> bool option" where
  "scanned_file w source_file =
     (case source_file of None \<Rightarrow> None | Some path \<Rightarrow> map_option scan_source (read_text w path))"

definition route_requirement ::
    "world \<Rightarrow> route \<Rightarrow> string option \<Rightarrow> string option \<Rightarrow> string \<times> string list" where
  "route_requirement w route client_dir edge_dir =
     (let path = route_path route; value = declared route;
          known = (case value of None \<Rightarrow> None | Some v \<Rightarrow> if v = ACCELERATED \<or> v = ANY then Some v else None);
          unknown = (case value of
             None \<Rightarrow> []
           | Some v \<Rightarrow> if v = ACCELERATED \<or> v = ANY then []
               else [''routes: '' @ path @ '' declares graphics: '' @ v @ '', which is not '' @ ACCELERATED @ '' or '' @ ANY]);
          source_file = route_file route client_dir edge_dir;
          scanned = scanned_file w source_file;
          unread = (case source_file of
             None \<Rightarrow> []
           | Some file \<Rightarrow> if read_text w file \<noteq> None then []
               else [''routes: '' @ path @ '' names '' @ path_name file
                     @ '', which could not be read, so it is treated as '' @ ANY]);
          messages = unknown @ unread in
      case known of
        Some v \<Rightarrow>
          (v, messages
             @ (if scanned = Some True \<and> v = ANY
                then [''routes: '' @ path @ '' declares graphics: '' @ ANY
                      @ '' but its QML needs the accelerated pipeline; following the declaration''] else [])
             @ (if scanned = Some False \<and> v = ACCELERATED
                then [''routes: '' @ path @ '' declares graphics: '' @ ACCELERATED
                      @ '' but its QML does not appear to need it; following the declaration''] else []))
      | None \<Rightarrow>
          if scanned = Some True
          then (ACCELERATED, messages
                  @ [''routes: '' @ path @ '' needs the accelerated pipeline, so it is hidden on a client with none. Write graphics: ''
                     @ ACCELERATED @ '' on this route to make that explicit, or graphics: '' @ ANY @ '' to show it anyway''])
          else (ANY, messages))"

section \<open>Words at an edge\<close>

lemma find_sub_None: "find_sub p s = None \<Longrightarrow> \<not> (\<exists>a b. s = a @ p @ b)"
proof (induction s)
  case Nil
  then show ?case by (auto split: if_splits)
next
  case (Cons c cs)
  then have no: "\<not> prefix p (c # cs)" "find_sub p cs = None" by (auto simp: startswith_prefix split: if_splits)
  have "a = [] \<or> (\<exists>a'. a = c # a' \<and> cs = a' @ p @ b)" if "c # cs = a @ p @ b" for a b
    using that by (cases a) auto
  then show ?case using no Cons.IH by (metis append_Nil prefixI)
qed

lemma occurrence_cases:
  assumes "find_sub w s = Some i" "s = a @ w @ b"
  shows "length a = i \<or> (\<exists>a'. a = take (i + 1) s @ a' \<and> drop (i + 1) s = a' @ w @ b)"
proof -
  have "startswith (drop (length a) s) w" unfolding assms(2) by (simp add: startswith_prefix)
  then have "i \<le> length a" using find_sub_least [OF assms(1)] by (meson not_le)
  moreover have ?thesis if "i < length a"
    using that unfolding assms(2) by (intro disjI2 exI [of _ "drop (i + 1) a"]) auto
  ultimately show ?thesis by (cases "length a = i") auto
qed

lemma occursI:
  "rest = a @ word @ b \<Longrightarrow> word_edge (if a = [] then prev else [last a]) \<Longrightarrow> word_edge (take 1 b) \<Longrightarrow>
     \<exists>a b. rest = a @ word @ b \<and> word_edge (if a = [] then prev else [last a]) \<and> word_edge (take 1 b)"
  by blast

lemma mentions_from_iff:
  "word \<noteq> [] \<Longrightarrow> mentions_from word prev rest \<longleftrightarrow>
    (\<exists>a b. rest = a @ word @ b \<and> word_edge (if a = [] then prev else [last a]) \<and> word_edge (take 1 b))"
    (is "_ \<Longrightarrow> _ \<longleftrightarrow> ?occurs word prev rest")
proof (induction word prev rest rule: mentions_from.induct)
  case (1 word prev rest)
  show ?case
  proof (cases "find_sub word rest")
    case None
    then show ?thesis using find_sub_None [OF None] by (subst mentions_from.simps) auto
  next
    case (Some i)
    have i: "i + length word \<le> length rest" "rest = take i rest @ word @ drop (i + length word) rest"
      using find_sub_bound [OF Some] find_sub_startswith [OF Some]
      by (auto simp: startswith_def) (metis append_take_drop_id drop_drop add.commute)
    then have ne: "rest \<noteq> []" "i < length rest" using "1.prems" by (cases word; fastforce)+
    let ?before = "if i > 0 then [rest ! (i - 1)] else prev" and ?after = "take 1 (drop (i + length word) rest)"
    have before: "(if take i rest = [] then prev else [last (take i rest)]) = ?before"
      using ne(2) by (auto simp: last_conv_nth min_absorb2)
    show ?thesis
    proof (cases "word_edge ?before \<and> word_edge ?after")
      case True
      have "?occurs word prev rest"
        by (rule occursI [OF i(2)]) (use True in \<open>simp_all only: before\<close>)
      then show ?thesis using True Some ne by (subst mentions_from.simps) simp
    next
      case False
      let ?rest = "drop (i + 1) rest"
      have "mentions_from word prev rest = mentions_from word [rest ! i] ?rest"
        using Some ne False by (subst mentions_from.simps) (simp only: option.case Let_def if_False simp_thms)
      also have "\<dots> \<longleftrightarrow> ?occurs word [rest ! i] ?rest"
        by (rule "1.IH" [OF Some ne(1) refl refl False "1.prems"])
      also have "\<dots> \<longleftrightarrow> ?occurs word prev rest"
      proof
        assume "?occurs word [rest ! i] ?rest"
        then obtain a b where ab: "?rest = a @ word @ b" "word_edge (if a = [] then [rest ! i] else [last a])" "word_edge (take 1 b)"
          by blast
        have "rest = (take (i + 1) rest @ a) @ word @ b" using ab(1) by (metis append.assoc append_take_drop_id)
        moreover have "last (take (i + 1) rest @ a) = (if a = [] then rest ! i else last a)"
          using ne(2) by (simp add: take_Suc_conv_app_nth)
        ultimately show "?occurs word prev rest" using ab ne
          by (intro occursI [of _ "take (i + 1) rest @ a" _ b]) (auto split: if_splits)
      next
        assume "?occurs word prev rest"
        then obtain a b where ab: "rest = a @ word @ b" "word_edge (if a = [] then prev else [last a])" "word_edge (take 1 b)"
          by blast
        have "length a \<noteq> i"
        proof
          assume "length a = i"
          then have eqs: "take i rest = a" "drop (i + length word) rest = b" using ab(1) by auto
          show False using False ab(2,3) unfolding before [symmetric] eqs by blast
        qed
        then obtain a' where a': "a = take (i + 1) rest @ a'" "?rest = a' @ word @ b"
          using occurrence_cases [OF Some ab(1)] by blast
        have "last a = (if a' = [] then rest ! i else last a')"
          using ne(2) a'(1) by (simp add: take_Suc_conv_app_nth)
        moreover have "a \<noteq> []" using a'(1) ne by simp
        ultimately have "word_edge (if a' = [] then [rest ! i] else [last a'])" using ab(2) by (simp split: if_splits)
        then show "?occurs word [rest ! i] ?rest" by (rule occursI [OF a'(2) _ ab(3)])
      qed
      finally show ?thesis .
    qed
  qed
qed

text \<open>
  The scan for a type name is the search it stands for: it answers yes exactly when the name
  occurs somewhere in the body with no identifier character on either side.
\<close>

theorem mentions_word_iff:
  assumes "word \<noteq> []"
  shows "mentions_word body word \<longleftrightarrow>
    (\<exists>a b. body = a @ word @ b \<and> (a = [] \<or> \<not> identifier_character (last a)) \<and>
       (b = [] \<or> \<not> identifier_character (hd b)))"
proof -
  have "word_edge (take 1 b) \<longleftrightarrow> b = [] \<or> \<not> identifier_character (hd b)" for b
    by (cases b) (auto simp: word_edge_def)
  moreover have "word_edge (if a = [] then [] else [last a]) \<longleftrightarrow> a = [] \<or> \<not> identifier_character (last a)" for a
    by (auto simp: word_edge_def)
  ultimately show ?thesis unfolding mentions_word_def mentions_from_iff [OF assms] by simp
qed

theorem mentions_word_iff_witness:
  "\<not> mentions_word ''ShaderEffectish { }'' ''ShaderEffect'' \<and> mentions_word ''; ShaderEffect { }'' ''ShaderEffect''"
proof
  have "''; ShaderEffect { }'' = ''; '' @ ''ShaderEffect'' @ '' { }''" by simp
  moreover have "\<not> identifier_character (last ''; '')" "\<not> identifier_character (hd '' { }'')" by code_simp+
  ultimately show "mentions_word ''; ShaderEffect { }'' ''ShaderEffect''"
    using mentions_word_iff [of "''ShaderEffect''" "''; ShaderEffect { }''"] by blast
  show "\<not> mentions_word ''ShaderEffectish { }'' ''ShaderEffect''" by code_simp
qed

section \<open>What a route is given\<close>

text \<open>
  A route's own declaration wins: a route that declares one of the two values is given it,
  whatever the scan of its file says. A route that declares nothing, or something else, is given the
  accelerated pipeline exactly when its file is there and the scan finds a use of it. A route is
  only ever hidden or contradicted with a message that says so.
\<close>

theorem route_requirement_spec:
  "case route_requirement w route client_dir edge_dir of (value, messages) \<Rightarrow>
     value = (case declared route of
        Some v \<Rightarrow> if v = ACCELERATED \<or> v = ANY then v
                  else if scanned_file w (route_file route client_dir edge_dir) = Some True then ACCELERATED else ANY
      | None \<Rightarrow> if scanned_file w (route_file route client_dir edge_dir) = Some True then ACCELERATED else ANY) \<and>
     (messages = [] \<longleftrightarrow>
        (case declared route of
           Some v \<Rightarrow> (v = ACCELERATED \<or> v = ANY) \<and>
              (case route_file route client_dir edge_dir of
                 None \<Rightarrow> True
               | Some f \<Rightarrow> map_option scan_source (read_text w f) = Some (v = ACCELERATED))
         | None \<Rightarrow>
              (case route_file route client_dir edge_dir of
                 None \<Rightarrow> True
               | Some f \<Rightarrow> map_option scan_source (read_text w f) = Some False)))"
proof -
  have ne: "ACCELERATED \<noteq> ANY" by (simp add: ACCELERATED_def ANY_def)
  show ?thesis
    by (cases "declared route"; cases "route_file route client_dir edge_dir")
       (use ne in \<open>auto simp: route_requirement_def scanned_file_def Let_def split: option.splits\<close>)
qed

text \<open>
  A comment between two words is dropped without leaving a space, so an import written with one is
  not seen as an import.
\<close>

lemma comment_joins_words: "\<not> scan_source ''import/**/QtQuick3D'' \<and> scan_source ''import QtQuick3D''"
  by code_simp

end
