(* ===== verification/PlanTree.thy ===== *)
theory PlanTree
  imports PyText "HOL-Library.AList"
begin

text \<open>
  A project directory as \<open>synqt/designplan.py\<close> sees it: files and directories below a root, the
  primitive operations on them, and what it means for one of them to break half way. A path is the
  list of its parts below the root, and the root itself, the empty path, is always a directory.
\<close>

section \<open>Trees\<close>

type_synonym path = "string list"

datatype node = Dir | File string

type_synonym tree = "(path \<times> node) list"

definition is_dir :: "tree \<Rightarrow> path \<Rightarrow> bool" where
  "is_dir t p \<longleftrightarrow> p = [] \<or> map_of t p = Some Dir"

definition text_at :: "tree \<Rightarrow> path \<Rightarrow> string option" where
  "text_at t p = (case map_of t p of Some (File d) \<Rightarrow> Some d | _ \<Rightarrow> None)"

definition exists_at :: "tree \<Rightarrow> path \<Rightarrow> bool" where
  "exists_at t p \<longleftrightarrow> p = [] \<or> map_of t p \<noteq> None"

text \<open>The directories a path is in, the nearest first, without the root.\<close>

definition parents :: "path \<Rightarrow> path list" where
  "parents p = map (\<lambda>n. take n p) (rev [1 ..< length p])"

text \<open>A tree: what exists is below directories, and nothing is recorded for the root.\<close>

definition wf_tree :: "tree \<Rightarrow> bool" where
  "wf_tree t \<longleftrightarrow> map_of t [] = None \<and> (\<forall>p \<in> fst ` set t. \<forall>q \<in> set (parents p). map_of t q = Some Dir)"

section \<open>Operations\<close>

definition put :: "path \<Rightarrow> node \<Rightarrow> tree \<Rightarrow> tree" where
  "put p x t = AList.update p x t"

text \<open>\<open>mkdir(parents=True, exist_ok=True)\<close> of directories that are missing, the outermost first.\<close>

definition make_dirs :: "path list \<Rightarrow> tree \<Rightarrow> tree" where
  "make_dirs ds t = foldl (\<lambda>t d. put d Dir t) t ds"

definition missing_parents :: "tree \<Rightarrow> path \<Rightarrow> path list" where
  "missing_parents t p = rev (takeWhile (\<lambda>q. map_of t q = None) (parents p))"

text \<open>A file among the parents, or a directory in the way: writing raises before it changes anything.\<close>

definition blocked :: "tree \<Rightarrow> path \<Rightarrow> bool" where
  "blocked t p \<longleftrightarrow> is_dir t p \<or> list_ex (\<lambda>q. text_at t q \<noteq> None) (parents p)"

definition write_at :: "path \<Rightarrow> string \<Rightarrow> tree \<Rightarrow> tree" where
  "write_at p d t = put p (File d) (make_dirs (missing_parents t p) t)"

text \<open>\<open>rmtree\<close> of a directory, \<open>unlink\<close> of a file, nothing where there is nothing.\<close>

definition remove_at :: "path \<Rightarrow> tree \<Rightarrow> tree" where
  "remove_at p t = filter (\<lambda>(q, _). \<not> prefix p q) t"

section \<open>Lookups\<close>

named_theorems tree_simps "how lookups in a tree compute"

lemma map_of_put [simp, tree_simps]: "map_of (put p x t) = (map_of t)(p \<mapsto> x)"
  by (simp add: put_def update_conv')

lemma map_of_remove [simp, tree_simps]: "map_of (remove_at p t) q = (if prefix p q then None else map_of t q)"
  by (induction t) (auto simp: remove_at_def)

lemma map_of_make_dirs [simp, tree_simps]:
  "map_of (make_dirs ds t) q = (if q \<in> set ds then Some Dir else map_of t q)"
proof (induction ds arbitrary: t)
  case (Cons d ds)
  have "make_dirs (d # ds) t = make_dirs ds (put d Dir t)" by (simp add: make_dirs_def)
  then show ?case using Cons by simp
qed (simp add: make_dirs_def)

lemma parents_iff: "q \<in> set (parents p) \<longleftrightarrow> q \<noteq> [] \<and> strict_prefix q p"
proof
  assume "q \<in> set (parents p)"
  then obtain n where n: "q = take n p" "1 \<le> n" "n < length p" by (auto simp: parents_def)
  then show "q \<noteq> [] \<and> strict_prefix q p" by (auto simp: strict_prefix_def take_is_prefix)
next
  assume q: "q \<noteq> [] \<and> strict_prefix q p"
  then have "q = take (length q) p" "length q < length p"
    by (auto simp: prefix_length_less strict_prefix_def prefix_def)
  then show "q \<in> set (parents p)" using q by (auto simp: parents_def intro!: image_eqI [of _ _ "length q"] simp: Suc_le_eq)
qed

lemma wf_tree_iff:
  "wf_tree t \<longleftrightarrow> map_of t [] = None \<and>
     (\<forall>p q. map_of t p \<noteq> None \<longrightarrow> q \<noteq> [] \<longrightarrow> strict_prefix q p \<longrightarrow> map_of t q = Some Dir)"
  by (auto simp: wf_tree_def parents_iff map_of_eq_None_iff)

lemma wf_tree_parent:
  "wf_tree t \<Longrightarrow> map_of t p \<noteq> None \<Longrightarrow> q \<noteq> [] \<Longrightarrow> strict_prefix q p \<Longrightarrow> map_of t q = Some Dir"
  by (simp add: wf_tree_iff)

lemma parents_sorted: "sorted_wrt (\<lambda>a b. prefix b a) (parents p)"
proof -
  have "sorted_wrt (\<lambda>m n. n \<le> m) (rev [1 ..< k])" for k by (induction k) (auto simp: sorted_wrt_append)
  then show ?thesis unfolding parents_def sorted_wrt_map
    by (rule sorted_wrt_mono_rel [rotated]) (metis min.absorb_iff1 min.commute take_is_prefix take_take)
qed

lemma set_missing_parents:
  assumes "wf_tree t"
  shows "set (missing_parents t p) = {q. q \<noteq> [] \<and> strict_prefix q p \<and> map_of t q = None}"
proof -
  let ?P = "\<lambda>q. map_of t q = None"
  have "\<not> ?P x" if x: "x \<in> set (dropWhile ?P (parents p))" for x
  proof -
    obtain y ys where y: "dropWhile ?P (parents p) = y # ys" using x by (cases "dropWhile ?P (parents p)") auto
    then have "map_of t y \<noteq> None" using hd_dropWhile [of ?P "parents p"] by simp
    moreover have "sorted_wrt (\<lambda>a b. prefix b a) (y # ys)"
      using sorted_wrt_drop [OF parents_sorted [of p], of "length (takeWhile ?P (parents p))"]
      by (simp add: dropWhile_eq_drop [symmetric] y)
    then have "x = y \<or> prefix x y" using x y by auto
    moreover have "x \<noteq> []" using x by (auto dest!: set_dropWhileD simp: parents_iff)
    ultimately show ?thesis using wf_tree_parent [OF assms, of y x] by (auto simp: strict_prefix_def)
  qed
  then have "takeWhile ?P (parents p) = filter ?P (parents p)" by (rule takeWhile_eq_filter)
  then show ?thesis by (auto simp: missing_parents_def parents_iff)
qed

lemma text_at_put [simp, tree_simps]:
  "text_at (put p x t) q = (if q = p then (case x of Dir \<Rightarrow> None | File d \<Rightarrow> Some d) else text_at t q)"
  by (auto simp: text_at_def split: node.split)

lemma text_at_None: "text_at t p = None \<longleftrightarrow> map_of t p = None \<or> map_of t p = Some Dir"
  by (auto simp: text_at_def split: option.splits node.splits)

lemma text_at_Some: "text_at t p = Some d \<longleftrightarrow> map_of t p = Some (File d)"
  by (auto simp: text_at_def split: option.splits node.splits)

section \<open>Kinds\<close>

text \<open>What each path is, a directory (\<open>True\<close>) or a file (\<open>False\<close>), whatever text it holds.\<close>

definition kind :: "tree \<Rightarrow> path \<Rightarrow> bool option" where
  "kind t p = map_option (\<lambda>n. n = Dir) (map_of t p)"

definition wf_kinds :: "(path \<Rightarrow> bool option) \<Rightarrow> bool" where
  "wf_kinds K \<longleftrightarrow> K [] = None \<and> (\<forall>p q. K p \<noteq> None \<longrightarrow> q \<noteq> [] \<longrightarrow> strict_prefix q p \<longrightarrow> K q = Some True)"

definition within :: "(path \<Rightarrow> bool option) \<Rightarrow> tree \<Rightarrow> bool" where
  "within K t \<longleftrightarrow> (\<forall>p. map_of t p \<noteq> None \<longrightarrow> kind t p = K p)"

lemma wf_kinds_kind: "wf_kinds (kind t) \<longleftrightarrow> wf_tree t"
  by (auto simp: wf_kinds_def wf_tree_iff kind_def)

lemma within_kind [simp]: "within (kind t) t"
  by (simp add: within_def)

lemma write_at_lookup:
  "wf_tree t \<Longrightarrow> map_of (write_at p d t) q =
     (if q = p then Some (File d)
      else if q \<noteq> [] \<and> strict_prefix q p \<and> map_of t q = None then Some Dir else map_of t q)"
  by (simp add: write_at_def set_missing_parents)

lemma text_write_at: "wf_tree t \<Longrightarrow> text_at (write_at p d t) q = (if q = p then Some d else text_at t q)"
  by (auto simp: text_at_def write_at_lookup)

lemma blocked_iff: "blocked t p \<longleftrightarrow> is_dir t p \<or> (\<exists>q. q \<noteq> [] \<and> strict_prefix q p \<and> text_at t q \<noteq> None)"
  by (auto simp: blocked_def list_ex_iff parents_iff)

lemma open_parent:
  "\<not> blocked t p \<Longrightarrow> q \<noteq> [] \<Longrightarrow> strict_prefix q p \<Longrightarrow> map_of t q = None \<or> map_of t q = Some Dir"
  by (auto simp: blocked_iff text_at_None)

lemma wf_write_at:
  assumes "wf_tree t" "\<not> blocked t p"
  shows "wf_tree (write_at p d t)"
proof -
  have p: "p \<noteq> []" "map_of t p \<noteq> Some Dir" using assms(2) by (auto simp: blocked_iff is_dir_def)
  have up: "map_of (write_at p d t) q = Some Dir" if "q \<noteq> []" "strict_prefix q p" for q
    using open_parent [OF assms(2) that] that by (auto simp: write_at_lookup [OF assms(1)])
  have "map_of (write_at p d t) q = Some Dir"
    if r: "map_of (write_at p d t) r \<noteq> None" and q: "q \<noteq> []" "strict_prefix q r" for q r
  proof (cases "prefix r p")
    case True
    then have "strict_prefix q p" using q(2) by (rule prefix_order.less_le_trans [rotated])
    then show ?thesis by (rule up [OF q(1)])
  next
    case False
    then have "map_of t r \<noteq> None" using r by (auto simp: write_at_lookup [OF assms(1)] strict_prefix_def split: if_splits)
    then have "map_of t q = Some Dir" using wf_tree_parent [OF assms(1) _ q] by simp
    then show ?thesis using p(2) by (auto simp: write_at_lookup [OF assms(1)])
  qed
  moreover have "map_of (write_at p d t) [] = None"
    using assms(1) p(1) by (simp add: write_at_lookup wf_tree_iff)
  ultimately show ?thesis unfolding wf_tree_iff by blast
qed

lemma wf_remove_at: "wf_tree t \<Longrightarrow> wf_tree (remove_at p t)"
  unfolding wf_tree_iff by (auto split: if_splits)

end
