(* ===== verification/DesignPlan.thy ===== *)
theory DesignPlan
  imports PlanTree
begin

text \<open>
  A design's change set, \<open>synqt/designplan.py\<close>: how it is read off two trees (\<open>_changes\<close>) and how it is
  applied (\<open>execute\<close>), which either happens whole or is put back. What the disk does with one change
  is a parameter, so that every change may break half way; the locale \<open>disk\<close> states what it may leave
  behind when it does, and the restoring is verified once against that.
\<close>

section \<open>Changes\<close>

record change =
  ch_action :: string
  ch_path :: string
  ch_reason :: string
  ch_before :: "string option"
  ch_after :: "string option"

record plan =
  changes :: "change list"
  findings :: "string list"
  plan_ok :: bool
  git :: string
  stale :: bool

definition target :: "change \<Rightarrow> path" where
  "target c = split_on (CHR ''/'') (ch_path c)"

definition posix :: "path \<Rightarrow> string" where
  "posix p = join ''/'' p"

definition IGNORED :: "string list" where
  "IGNORED = [''build'', ''generated'', ''.git'', ''.synqt'', ''__pycache__'', ''node_modules'', ''.venv'']"

text \<open>Why a path is in the change set: the causes noted for it, or for the folder it was put into.\<close>

definition note_cause :: "string \<Rightarrow> string \<Rightarrow> (string \<rightharpoonup> string list) \<Rightarrow> (string \<rightharpoonup> string list)" where
  "note_cause path why reasons =
     (let causes = (case reasons path of None \<Rightarrow> [] | Some cs \<Rightarrow> cs) in
      reasons(path \<mapsto> (if why \<in> set causes then causes else causes @ [why])))"

definition causes_at :: "(string \<rightharpoonup> string list) \<Rightarrow> string \<Rightarrow> string list" where
  "causes_at reasons path = (case reasons path of None \<Rightarrow> [] | Some cs \<Rightarrow> cs)"

definition reason_for :: "(string \<rightharpoonup> string list) \<Rightarrow> string \<Rightarrow> string \<Rightarrow> string" where
  "reason_for reasons path fallback =
     (let own = causes_at reasons path;
          causes = (if own \<noteq> [] then own
                    else causes_at reasons (hd (split_on (CHR ''/'') path) @ ''/'')) in
      join ''; '' (if causes \<noteq> [] then causes else [fallback]))"

text \<open>The files of a tree that are the project's source, in the order of their names.\<close>

definition relative_files :: "tree \<Rightarrow> path list" where
  "relative_files t =
     sort_key posix (remdups (filter (\<lambda>p. text_at t p \<noteq> None \<and> list_all (\<lambda>part. part \<notin> set IGNORED) p) (map fst t)))"

definition create_or_edit :: "(string \<rightharpoonup> string list) \<Rightarrow> tree \<Rightarrow> tree \<Rightarrow> path \<Rightarrow> change list" where
  "create_or_edit reasons root work p =
     (let path = posix p; after = the (text_at work p) in
      if p \<notin> set (relative_files root)
      then [\<lparr>ch_action = ''create'', ch_path = path, ch_reason = reason_for reasons path ''drawn in the editor'',
             ch_before = None, ch_after = Some after\<rparr>]
      else let before = the (text_at root p) in
           if before \<noteq> after
           then [\<lparr>ch_action = ''edit'', ch_path = path, ch_reason = reason_for reasons path ''drawn in the editor'',
                  ch_before = Some before, ch_after = Some after\<rparr>]
           else [])"

definition plan_changes :: "tree \<Rightarrow> tree \<Rightarrow> path list \<Rightarrow> (string \<rightharpoonup> string list) \<Rightarrow> change list" where
  "plan_changes root work removed reasons =
     (let was = relative_files root; now = relative_files work in
      concat (map (create_or_edit reasons root work) now)
      @ map (\<lambda>name. \<lparr>ch_action = ''delete'', ch_path = posix name,
                ch_reason = reason_for reasons (posix name) ''removed in the editor'',
                ch_before = Some (join nl (map posix (filter (\<lambda>r. prefix name r) was)) @ nl), ch_after = None\<rparr>)
          (sort_key posix removed)
      @ map (\<lambda>p. \<lparr>ch_action = ''delete'', ch_path = posix p,
                ch_reason = reason_for reasons (posix p) ''removed in the editor'',
                ch_before = text_at root p, ch_after = None\<rparr>)
          (filter (\<lambda>p. p \<notin> set now \<and> \<not> list_ex (\<lambda>name. prefix name p) removed) was))"

section \<open>Applying\<close>

text \<open>What is remembered of a path before it is touched: its text, or that it had none.\<close>

type_synonym held = "(path \<times> string option) list"

definition hold :: "tree \<Rightarrow> path \<Rightarrow> held" where
  "hold t p =
     (if is_dir t p
      then map (\<lambda>q. (q, text_at t q)) (sort (remdups (filter (\<lambda>q. strict_prefix p q \<and> text_at t q \<noteq> None) (map fst t))))
      else [(p, text_at t p)])"

text \<open>
  The loop over the changes. The disk answers \<open>Inr\<close> with the tree after the change, or \<open>Inl\<close> with the
  text of the exception and the tree left behind when an operation of the change raises.
\<close>

type_synonym io = "change \<Rightarrow> tree \<Rightarrow> (string \<times> tree) + tree"

fun apply_changes :: "io \<Rightarrow> change list \<Rightarrow> tree \<Rightarrow> held \<Rightarrow> path list \<Rightarrow> string list \<Rightarrow>
    (string \<times> string \<times> tree \<times> held \<times> path list) + (string list \<times> tree)" where
  "apply_changes io [] t held made done = Inr (done, t)"
| "apply_changes io (c # cs) t held made done =
     (let held' = held @ hold t (target c);
          made' = (if ch_action c = ''delete'' then made else made @ missing_parents t (target c)) in
      case io c t of
        Inl (error, t') \<Rightarrow> Inl (ch_path c, error, t', held', made')
      | Inr t' \<Rightarrow> apply_changes io cs t' held' made'
                   (done @ [ch_action c @ '' '' @ ch_path c @ '': '' @ ch_reason c]))"

text \<open>Putting one path back; \<open>None\<close> where writing it back raises.\<close>

definition restore_path :: "path \<times> string option \<Rightarrow> tree \<Rightarrow> tree option" where
  "restore_path h t =
     (case h of
        (p, None) \<Rightarrow> Some (if text_at t p \<noteq> None then remove_at p t else t)
      | (p, Some d) \<Rightarrow> if blocked t p then None else Some (write_at p d t))"

fun restore_held :: "held \<Rightarrow> tree \<Rightarrow> tree option" where
  "restore_held [] t = Some t"
| "restore_held (h # hs) t = (case restore_path h t of None \<Rightarrow> None | Some t' \<Rightarrow> restore_held hs t')"

definition drop_empty :: "path \<Rightarrow> tree \<Rightarrow> tree" where
  "drop_empty d t =
     (if is_dir t d \<and> \<not> list_ex (\<lambda>q. strict_prefix d q) (map fst t) then remove_at d t else t)"

definition restore :: "held \<Rightarrow> path list \<Rightarrow> tree \<Rightarrow> tree option" where
  "restore held made t =
     map_option (\<lambda>t. foldl (\<lambda>t d. drop_empty d t) t (rev made)) (restore_held (rev held) t)"

text \<open>The outcome of \<open>execute\<close>: refused, put back, the restoring itself raised, or done.\<close>

datatype outcome = Refused string | PutBack string | RestoreRaised | Done string

definition execute :: "io \<Rightarrow> plan \<Rightarrow> tree \<Rightarrow> outcome \<times> tree" where
  "execute io plan t =
     (if stale plan
      then (Refused ''the project changed after this plan was worked out; read the design again and have another look at what it would do'', t)
      else if \<not> plan_ok plan
      then (let errors = filter (\<lambda>m. startswith m ''error:'') (findings plan) in
            (Refused (''this design does not pass synqt check: ''
                      @ join ''; '' (if errors \<noteq> [] then errors else [''it was not accepted''])), t))
      else case apply_changes io (changes plan) t [] [] [] of
             Inr (done, t') \<Rightarrow> (Done (join nl done), t')
           | Inl (at_path, error, t', held, made) \<Rightarrow>
               (case restore held made t' of
                  None \<Rightarrow> (RestoreRaised, t')
                | Some t'' \<Rightarrow> (PutBack (at_path @ '': '' @ error @ ''. Nothing was changed; the project is as it was.''), t'')))"

section \<open>A disk\<close>

text \<open>What a change does when every operation of it succeeds.\<close>

definition applied :: "change \<Rightarrow> tree \<Rightarrow> tree" where
  "applied c t =
     (if ch_action c = ''delete'' then remove_at (target c) t
      else write_at (target c) (case ch_after c of None \<Rightarrow> [] | Some d \<Rightarrow> d) t)"

text \<open>
  What a change may leave behind when an operation of it raises: a write, some of the missing parents
  and perhaps a file with part of the text; a removal, a part of the tree below the path.
\<close>

definition broken :: "change \<Rightarrow> tree \<Rightarrow> tree \<Rightarrow> bool" where
  "broken c t t' \<longleftrightarrow>
     (if ch_action c = ''delete''
      then wf_tree t' \<and> (\<forall>q. map_of t' q = map_of t q \<or> prefix (target c) q \<and> map_of t' q = None)
      else t' = t \<or>
        \<not> blocked t (target c) \<and>
        ((\<exists>n. t' = make_dirs (take n (missing_parents t (target c))) t) \<or> (\<exists>d. t' = write_at (target c) d t)))"

locale disk =
  fixes io :: io
  assumes done_applied: "io c t = Inr t' \<Longrightarrow> t' = applied c t \<and> (ch_action c = ''delete'' \<or> \<not> blocked t (target c))"
    and raised_broken: "io c t = Inl (error, t') \<Longrightarrow> wf_tree t \<Longrightarrow> broken c t t'"

text \<open>
  A disk on which any change may be made to fail with any text: a write after some of the missing
  parents, or with part of the text in the file; a removal with some of the paths still there.
\<close>

datatype fault = WriteFault nat "string option" | RemoveFault "path list"

definition disk_io :: "(change \<Rightarrow> (string \<times> fault) option) \<Rightarrow> io" where
  "disk_io faults c t =
     (let p = target c in
      if ch_action c = ''delete''
      then (case faults c of
              None \<Rightarrow> Inr (remove_at p t)
            | Some (error, RemoveFault keep) \<Rightarrow>
                Inl (error, filter (\<lambda>(q, _). \<not> prefix p q \<or> list_ex (\<lambda>k. prefix q k) keep) t)
            | Some (error, _) \<Rightarrow> Inl (error, t))
      else if blocked t p then Inl (''a file or a directory is in the way'', t)
      else (case faults c of
              None \<Rightarrow> Inr (write_at p (case ch_after c of None \<Rightarrow> [] | Some d \<Rightarrow> d) t)
            | Some (error, WriteFault n None) \<Rightarrow> Inl (error, make_dirs (take n (missing_parents t p)) t)
            | Some (error, WriteFault n (Some d)) \<Rightarrow> Inl (error, write_at p d t)
            | Some (error, _) \<Rightarrow> Inl (error, t)))"

section \<open>Putting back\<close>

lemma within_open:
  assumes "wf_kinds K" "within K t" "K p = Some False" "p \<noteq> []"
  shows "\<not> blocked t p"
proof -
  have "\<not> is_dir t p" using assms(2,3,4) by (auto simp: is_dir_def within_def kind_def)
  moreover have "text_at t q = None" if "q \<noteq> []" "strict_prefix q p" for q
  proof -
    have "K q = Some True" using assms(1,3) that by (auto simp: wf_kinds_def)
    then show ?thesis using assms(2) by (fastforce simp: text_at_None within_def kind_def)
  qed
  ultimately show ?thesis by (simp add: blocked_iff) (meson)
qed

lemma within_write_at:
  assumes "wf_kinds K" "within K t" "wf_tree t" "K p = Some False"
  shows "within K (write_at p d t)"
  using assms by (auto simp: within_def write_at_lookup kind_def wf_kinds_def)

lemma within_remove_at: "within K t \<Longrightarrow> within K (remove_at p t)"
  by (auto simp: within_def kind_def)

lemma text_remove_file:
  assumes "wf_tree t" "text_at t p \<noteq> None"
  shows "text_at (remove_at p t) q = (if q = p then None else text_at t q)"
proof -
  have "map_of t q = None" if "strict_prefix p q"
    using that wf_tree_parent [OF assms(1), of q p] assms by (cases "p = []") (auto simp: text_at_def wf_tree_iff)
  then show ?thesis by (auto simp: text_at_def strict_prefix_def)
qed

text \<open>
  Restoring held paths, newest first, gives every one of them the text it was first held with, and
  brings no directory but the parents of what it writes.
\<close>

lemma restore_held_spec:
  assumes "wf_kinds K"
  shows "within K t \<Longrightarrow> wf_tree t \<Longrightarrow> (\<And>p d. (p, Some d) \<in> set hs \<Longrightarrow> K p = Some False) \<Longrightarrow>
    \<exists>t'. restore_held hs t = Some t' \<and> within K t' \<and> wf_tree t' \<and>
      (\<forall>q. text_at t' q = (case map_of (rev hs) q of None \<Rightarrow> text_at t q | Some v \<Rightarrow> v)) \<and>
      (\<forall>q. is_dir t' q \<longrightarrow> is_dir t q \<or> (\<exists>p d. (p, Some d) \<in> set hs \<and> strict_prefix q p))"
proof (induction hs arbitrary: t)
  case (Cons h hs)
  obtain p v where h: "h = (p, v)" by fastforce
  have "\<exists>t1. restore_path h t = Some t1 \<and> within K t1 \<and> wf_tree t1 \<and>
      (\<forall>q. text_at t1 q = (if q = p then v else text_at t q)) \<and>
      (\<forall>q. is_dir t1 q \<longrightarrow> is_dir t q \<or> (\<exists>d. v = Some d \<and> strict_prefix q p))"
  proof (cases v)
    case None
    show ?thesis
    proof (cases "text_at t p = None")
      case True
      then show ?thesis using None h Cons.prems by (auto simp: restore_path_def)
    next
      case False
      have "is_dir (remove_at p t) q \<longrightarrow> is_dir t q" for q by (auto simp: is_dir_def split: if_splits)
      then show ?thesis using None h Cons.prems False text_remove_file [OF Cons.prems(2) False]
        by (auto simp: restore_path_def intro: within_remove_at wf_remove_at)
    qed
  next
    case (Some d)
    then have K: "K p = Some False" using Cons.prems(3) [of p d] h by simp
    then have "p \<noteq> []" using assms by (auto simp: wf_kinds_def)
    then have opn: "\<not> blocked t p" using within_open [OF assms Cons.prems(1) K] by simp
    have "is_dir (write_at p d t) q \<longrightarrow> is_dir t q \<or> strict_prefix q p" for q
      by (auto simp: is_dir_def write_at_lookup [OF Cons.prems(2)])
    then show ?thesis
      using Some h opn within_write_at [OF assms Cons.prems(1,2) K] wf_write_at [OF Cons.prems(2) opn]
      by (auto simp: restore_path_def text_write_at [OF Cons.prems(2)])
  qed
  then obtain t1 where t1: "restore_path h t = Some t1" "within K t1" "wf_tree t1"
      "\<And>q. text_at t1 q = (if q = p then v else text_at t q)"
      "\<And>q. is_dir t1 q \<Longrightarrow> is_dir t q \<or> (\<exists>d. v = Some d \<and> strict_prefix q p)" by blast
  obtain t' where t': "restore_held hs t1 = Some t'" "within K t'" "wf_tree t'"
      "\<And>q. text_at t' q = (case map_of (rev hs) q of None \<Rightarrow> text_at t1 q | Some v \<Rightarrow> v)"
      "\<And>q. is_dir t' q \<Longrightarrow> is_dir t1 q \<or> (\<exists>p d. (p, Some d) \<in> set hs \<and> strict_prefix q p)"
    using Cons.IH [OF t1(2,3)] Cons.prems(3) by (metis list.set_intros(2))
  have "text_at t' q = (case map_of (rev (h # hs)) q of None \<Rightarrow> text_at t q | Some v \<Rightarrow> v)" for q
    using t'(4) t1(4) h by (auto simp: map_add_def split: option.splits)
  moreover have "is_dir t q \<or> (\<exists>p d. (p, Some d) \<in> set (h # hs) \<and> strict_prefix q p)" if "is_dir t' q" for q
    using t'(5) [OF that] t1(5) [of q] h by auto
  ultimately show ?case using t1(1) t'(1-3) by auto
qed simp

section \<open>Dropping what was made\<close>

definition removable :: "path \<Rightarrow> tree \<Rightarrow> bool" where
  "removable d t \<longleftrightarrow> is_dir t d \<and> (\<forall>q. strict_prefix d q \<longrightarrow> map_of t q = None)"

lemma drop_empty_eq: "drop_empty d t = (if removable d t then remove_at d t else t)"
  unfolding drop_empty_def removable_def list_ex_iff set_map
  by (metis map_of_eq_None_iff)

lemma removable_lookup:
  assumes "wf_tree t" "removable d t"
  shows "map_of (remove_at d t) q = (if q = d then None else map_of t q)"
  using assms(2) by (auto simp: removable_def strict_prefix_def)

lemma text_drop_empty: "wf_tree t \<Longrightarrow> text_at (drop_empty d t) q = text_at t q"
proof (cases "removable d t")
  case True
  assume t: "wf_tree t"
  have "text_at t d = None" using True t by (auto simp: removable_def is_dir_def text_at_None wf_tree_iff)
  then show ?thesis using True
    by (cases "q = d") (simp_all add: drop_empty_eq text_at_def removable_lookup [OF t True] del: map_of_remove)
qed (simp add: drop_empty_eq)

lemma wf_drop_empty: "wf_tree t \<Longrightarrow> wf_tree (drop_empty d t)"
  by (simp add: drop_empty_eq wf_remove_at)

lemma dir_drop_empty: "is_dir (drop_empty d t) q \<Longrightarrow> is_dir t q"
  by (auto simp: drop_empty_eq is_dir_def split: if_splits)

lemma dropped: "d \<noteq> [] \<Longrightarrow> removable d t \<Longrightarrow> \<not> is_dir (drop_empty d t) d"
  by (simp add: drop_empty_eq is_dir_def)

abbreviation drop_all :: "path list \<Rightarrow> tree \<Rightarrow> tree" where
  "drop_all ds t \<equiv> foldl (\<lambda>t d. drop_empty d t) t ds"

lemma drop_all_spec:
  "wf_tree t \<Longrightarrow> wf_tree (drop_all ds t) \<and> (\<forall>q. text_at (drop_all ds t) q = text_at t q) \<and>
     (\<forall>q. is_dir (drop_all ds t) q \<longrightarrow> is_dir t q)"
proof (induction ds arbitrary: t)
  case (Cons d ds)
  show ?case
    using Cons.IH [OF wf_drop_empty [OF Cons.prems], of d] text_drop_empty [OF Cons.prems, of d] dir_drop_empty [of d t]
    by simp
qed simp

text \<open>
  Directories that were made are gone again when they are dropped innermost first: what is left
  below one of them is neither a file nor a directory of the tree it all started from.
\<close>

lemma drop_all_made:
  assumes t0: "wf_tree t0" and t: "wf_tree t" "\<And>q. text_at t q = text_at t0 q"
    and made: "\<And>d. is_dir t d \<Longrightarrow> is_dir t0 d \<or> d \<in> set ds"
    and order: "sorted_wrt (\<lambda>a b. \<not> strict_prefix a b) ds"
  shows "is_dir (drop_all ds t) q \<Longrightarrow> is_dir t0 q"
  using t made order
proof (induction ds arbitrary: t)
  case (Cons d ds)
  let ?t = "drop_empty d t"
  have gone: "is_dir t0 q \<or> q \<in> set ds" if q: "is_dir ?t q" for q
  proof (cases "is_dir t0 d \<or> d \<noteq> q")
    case True
    then show ?thesis using Cons.prems(4) [OF dir_drop_empty [OF q]] by auto
  next
    case False
    have "map_of t r = None" if "strict_prefix d r" for r
    proof (rule ccontr)
      assume "map_of t r \<noteq> None"
      moreover have "text_at t0 r = None"
      proof (rule ccontr)
        assume "text_at t0 r \<noteq> None"
        then have "map_of t0 r \<noteq> None" by (simp add: text_at_None)
        then have "is_dir t0 d" using wf_tree_parent [OF t0 _ _ that] by (auto simp: is_dir_def)
        with False show False by simp
      qed
      ultimately have "map_of t r = Some Dir" using text_at_None [of t r] Cons.prems(3) [of r] by auto
      then have "is_dir t r" by (simp add: is_dir_def)
      moreover have "\<not> is_dir t0 r"
      proof
        assume "is_dir t0 r"
        then have "map_of t0 r \<noteq> None" using that by (auto simp: is_dir_def)
        then show False using wf_tree_parent [OF t0 _ _ that] False by (auto simp: is_dir_def)
      qed
      ultimately have "r \<in> set ds" using Cons.prems(4) [of r] that by auto
      with that Cons.prems(5) show False by auto
    qed
    then have "removable d t" using False dir_drop_empty [OF q] by (auto simp: removable_def)
    then show ?thesis using dropped [of d t] False q by (auto simp: is_dir_def)
  qed
  show ?case
    using Cons.IH [of ?t] Cons.prems(1) Cons.prems(5) gone
    by (simp add: wf_drop_empty [OF Cons.prems(2)] text_drop_empty [OF Cons.prems(2)] Cons.prems(3))
qed simp

section \<open>The state of a run\<close>

definition is_delete :: "change \<Rightarrow> bool" where
  "is_delete c \<longleftrightarrow> ch_action c = ''delete''"

text \<open>No change writes after one that deletes, the order in which a change set is worked out.\<close>

definition deletes_last :: "change list \<Rightarrow> bool" where
  "deletes_last cs \<longleftrightarrow> sorted_wrt (\<lambda>a b. is_delete a \<longrightarrow> is_delete b) cs"

text \<open>
  What a run keeps, from the tree it began with: each path it has touched is held with the text it
  began with, each directory it has made is listed, outer ones before inner ones, and no path that
  was a file has become a directory or the other way round.
\<close>

definition run_inv :: "tree \<Rightarrow> (path \<Rightarrow> bool option) \<Rightarrow> tree \<Rightarrow> held \<Rightarrow> path list \<Rightarrow> bool" where
  "run_inv t0 K t held made \<longleftrightarrow>
     wf_tree t \<and> within K t \<and> wf_kinds K \<and>
     (\<forall>p v. map_of held p = Some v \<longrightarrow> v = text_at t0 p) \<and>
     (\<forall>p. text_at t p \<noteq> text_at t0 p \<longrightarrow> map_of held p \<noteq> None) \<and>
     (\<forall>p d. (p, Some d) \<in> set held \<longrightarrow>
        K p = Some False \<and> (\<forall>q. strict_prefix q p \<longrightarrow> is_dir t0 q \<or> q \<in> set made)) \<and>
     (\<forall>d. is_dir t d \<longrightarrow> is_dir t0 d \<or> d \<in> set made) \<and>
     sorted_wrt (\<lambda>a b. \<not> strict_prefix b a) made"

lemma run_invI:
  assumes "wf_tree t" "within K t" "wf_kinds K" "\<And>p v. map_of held p = Some v \<Longrightarrow> v = text_at t0 p"
    and "\<And>p. text_at t p \<noteq> text_at t0 p \<Longrightarrow> map_of held p \<noteq> None"
    and "\<And>p d. (p, Some d) \<in> set held \<Longrightarrow> K p = Some False"
    and "\<And>p d q. (p, Some d) \<in> set held \<Longrightarrow> strict_prefix q p \<Longrightarrow> is_dir t0 q \<or> q \<in> set made"
    and "\<And>d. is_dir t d \<Longrightarrow> is_dir t0 d \<or> d \<in> set made"
    and "sorted_wrt (\<lambda>a b. \<not> strict_prefix b a) made"
  shows "run_inv t0 K t held made"
  unfolding run_inv_def using assms by blast

lemma run_invD:
  assumes "run_inv t0 K t held made"
  shows "wf_tree t" "within K t" "wf_kinds K" "map_of held p = Some v \<Longrightarrow> v = text_at t0 p"
    "text_at t p \<noteq> text_at t0 p \<Longrightarrow> map_of held p \<noteq> None"
    "(p, Some d) \<in> set held \<Longrightarrow> K p = Some False"
    "(p, Some d) \<in> set held \<Longrightarrow> strict_prefix q p \<Longrightarrow> is_dir t0 q \<or> q \<in> set made"
    "is_dir t d' \<Longrightarrow> is_dir t0 d' \<or> d' \<in> set made"
    "sorted_wrt (\<lambda>a b. \<not> strict_prefix b a) made"
  using assms unfolding run_inv_def by blast+

lemma restore_inv:
  assumes t0: "wf_tree t0" and inv: "run_inv t0 K t held made"
  obtains t' where "restore held made t = Some t'" "wf_tree t'" "\<And>p. text_at t' p = text_at t0 p"
    "\<And>d. is_dir t' d \<Longrightarrow> is_dir t0 d"
proof -
  have K: "wf_kinds K" "within K t" "wf_tree t" "\<And>p d. (p, Some d) \<in> set (rev held) \<Longrightarrow> K p = Some False"
    and first: "\<And>p v. map_of held p = Some v \<Longrightarrow> v = text_at t0 p"
    and touched: "\<And>p. text_at t p \<noteq> text_at t0 p \<Longrightarrow> map_of held p \<noteq> None"
    and made: "\<And>d. is_dir t d \<Longrightarrow> is_dir t0 d \<or> d \<in> set made"
    and order: "sorted_wrt (\<lambda>a b. \<not> strict_prefix b a) made"
    using inv by (auto simp: run_inv_def)
  obtain t1 where t1: "restore_held (rev held) t = Some t1" "wf_tree t1"
      "\<And>q. text_at t1 q = (case map_of held q of None \<Rightarrow> text_at t q | Some v \<Rightarrow> v)"
      "\<And>q. is_dir t1 q \<Longrightarrow> is_dir t q \<or> (\<exists>p d. (p, Some d) \<in> set held \<and> strict_prefix q p)"
    using restore_held_spec [OF K(1,2,3), of "rev held"] K(4) unfolding rev_rev_ident set_rev by blast
  have texts: "text_at t1 q = text_at t0 q" for q
    using t1(3) [of q] first touched [of q] by (cases "map_of held q") auto
  have dirs: "is_dir t0 d \<or> d \<in> set (rev made)" if "is_dir t1 d" for d
    using t1(4) [OF that] made inv by (auto simp: run_inv_def)
  have "sorted_wrt (\<lambda>a b. \<not> strict_prefix a b) (rev made)" using order by (simp add: sorted_wrt_rev)
  from drop_all_made [OF t0 t1(2) texts dirs this] drop_all_spec [OF t1(2), of "rev made"]
  show ?thesis using that [of "drop_all (rev made) t1"] t1(1) texts by (simp add: restore_def)
qed

lemma hold_entry: "(q, v) \<in> set (hold t p) \<Longrightarrow> v = text_at t q"
  by (auto simp: hold_def split: if_splits)

lemma map_of_hold: "map_of (hold t p) q = Some v \<Longrightarrow> v = text_at t q"
  by (auto dest!: map_of_SomeD intro: hold_entry)

lemma hold_covers:
  assumes "wf_tree t" "p \<noteq> []" "prefix p q" "text_at t q \<noteq> None"
  shows "map_of (hold t p) q \<noteq> None"
proof (cases "is_dir t p")
  case True
  then have "q \<noteq> p" using assms(2,4) by (auto simp: is_dir_def text_at_def)
  moreover have "q \<in> set (map fst t)" using assms(4) by (auto simp: text_at_None map_of_eq_None_iff)
  ultimately have "q \<in> set (map fst (hold t p))"
    using True assms(3,4) by (auto simp: hold_def strict_prefix_def image_image)
  then show ?thesis by (simp add: map_of_eq_None_iff)
next
  case False
  have "map_of t q \<noteq> None" using assms(4) by (simp add: text_at_None)
  then have "q = p"
    using False wf_tree_parent [OF assms(1) _ assms(2), of q] assms(2,3)
    by (auto simp: strict_prefix_def is_dir_def)
  then show ?thesis using False by (simp add: hold_def)
qed

lemma hold_inv:
  assumes "run_inv t0 K t held made"
  shows "run_inv t0 K t (held @ hold t p) made"
proof -
  have wf: "wf_tree t" and K: "within K t"
    and first: "\<And>q v. map_of held q = Some v \<Longrightarrow> v = text_at t0 q"
    and touched: "\<And>q. text_at t q \<noteq> text_at t0 q \<Longrightarrow> map_of held q \<noteq> None"
    and dirs: "\<And>d. is_dir t d \<Longrightarrow> is_dir t0 d \<or> d \<in> set made"
    using assms by (auto simp: run_inv_def)
  have entry: "K q = Some False \<and> (\<forall>r. strict_prefix r q \<longrightarrow> is_dir t0 r \<or> r \<in> set made)"
    if "(q, Some d) \<in> set (hold t p)" for q d
  proof -
    have f: "map_of t q = Some (File d)" using hold_entry [OF that] by (simp add: text_at_Some [symmetric])
    then have "K q = Some False" using K by (force simp: within_def kind_def)
    moreover have "is_dir t r" if "strict_prefix r q" for r
      using wf_tree_parent [OF wf _ _ that] f by (auto simp: is_dir_def)
    ultimately show ?thesis using dirs by blast
  qed
  show ?thesis
  proof (rule run_invI)
    fix q v assume v: "map_of (held @ hold t p) q = Some v"
    show "v = text_at t0 q"
    proof (cases "map_of held q")
      case None
      then have "v = text_at t q" using v map_of_hold by (simp add: map_add_def)
      then show ?thesis using touched [of q] None by auto
    next
      case (Some v')
      then show ?thesis using v first by (simp add: map_add_def)
    qed
  next
    fix q assume "text_at t q \<noteq> text_at t0 q"
    then show "map_of (held @ hold t p) q \<noteq> None" using touched [of q] by (auto simp: map_add_def split: option.splits)
  next
    fix q d assume "(q, Some d) \<in> set (held @ hold t p)"
    then have *: "K q = Some False \<and> (\<forall>r. strict_prefix r q \<longrightarrow> is_dir t0 r \<or> r \<in> set made)"
      using run_invD(6,7) [OF assms] entry by (metis Un_iff set_append)
    then show "K q = Some False" by simp
    fix r assume "strict_prefix r q"
    with * show "is_dir t0 r \<or> r \<in> set made" by simp
  qed (use run_invD [OF assms] in simp_all)
qed

section \<open>What one change keeps\<close>

definition shrunk :: "path \<Rightarrow> tree \<Rightarrow> tree \<Rightarrow> bool" where
  "shrunk p t t' \<longleftrightarrow> wf_tree t' \<and> (\<forall>q. map_of t' q = map_of t q \<or> prefix p q \<and> map_of t' q = None)"

definition grown :: "path \<Rightarrow> tree \<Rightarrow> tree \<Rightarrow> bool" where
  "grown p t t' \<longleftrightarrow> wf_tree t' \<and>
     (\<forall>q. map_of t' q = map_of t q \<or> q \<in> set (missing_parents t p) \<and> map_of t' q = Some Dir \<or>
        q = p \<and> \<not> is_dir t p \<and> (\<exists>d. map_of t' q = Some (File d)))"

lemma shrunk_inv:
  assumes inv: "run_inv t0 K t held made" and s: "shrunk p t t'" and p: "p \<noteq> []"
  shows "run_inv t0 K t' (held @ hold t p) made"
proof -
  have inv': "run_inv t0 K t (held @ hold t p) made" by (rule hold_inv [OF inv])
  have wf: "wf_tree t" using inv by (simp add: run_inv_def)
  have same: "map_of t' q = map_of t q \<or> prefix p q \<and> map_of t' q = None" for q using s by (auto simp: shrunk_def)
  have "map_of (held @ hold t p) q \<noteq> None" if "text_at t' q \<noteq> text_at t0 q" for q
  proof (cases "text_at t' q = text_at t q")
    case True
    then show ?thesis using that run_invD(5) [OF inv'] by simp
  next
    case False
    then have "prefix p q" "text_at t q \<noteq> None"
      using same [of q] by (auto simp: text_at_def split: option.splits node.splits)
    then show ?thesis using hold_covers [OF wf p] by (auto simp: map_add_def split: option.splits)
  qed
  note touched = this
  have "kind t' q = K q" if "map_of t' q \<noteq> None" for q
    using that same [of q] run_invD(2) [OF inv] unfolding within_def kind_def by metis
  then have K: "within K t'" by (simp add: within_def)
  have dirs: "is_dir t0 d \<or> d \<in> set made" if "is_dir t' d" for d
    using that same [of d] run_invD(8) [OF inv, of d] by (auto simp: is_dir_def)
  show ?thesis
    by (rule run_invI [OF _ K run_invD(3,4) [OF inv'] touched run_invD(6,7) [OF inv'] dirs run_invD(9) [OF inv']])
       (use s in \<open>simp add: shrunk_def\<close>)
qed

lemma missing_sorted: "sorted_wrt (\<lambda>a b. prefix a b) (missing_parents t p)"
proof -
  have "sorted_wrt (\<lambda>a b. prefix b a) (take n (parents p))" for n by (rule sorted_wrt_take [OF parents_sorted])
  then show ?thesis unfolding missing_parents_def sorted_wrt_rev by (metis takeWhile_eq_take)
qed

lemma grown_inv:
  assumes inv: "run_inv t0 (kind t) t held made" and g: "grown p t t'"
    and made: "\<And>d. d \<in> set made \<Longrightarrow> is_dir t d"
  shows "run_inv t0 (kind t') t' (held @ hold t p) (made @ missing_parents t p)"
proof -
  have inv': "run_inv t0 (kind t) t (held @ hold t p) made" by (rule hold_inv [OF inv])
  have wf: "wf_tree t" and wf': "wf_tree t'" using inv g by (simp_all add: run_inv_def grown_def)
  have same: "map_of t' q = map_of t q \<or> map_of t q = None \<and> q \<in> set (missing_parents t p) \<and> map_of t' q = Some Dir \<or>
      q = p \<and> \<not> is_dir t p \<and> (\<exists>d. map_of t' q = Some (File d))" for q
    using g by (auto simp: grown_def set_missing_parents [OF wf])
  have "map_of (held @ hold t p) q \<noteq> None" if "text_at t' q \<noteq> text_at t0 q" for q
  proof (cases "text_at t' q = text_at t q")
    case True
    then show ?thesis using that run_invD(5) [OF inv'] by simp
  next
    case False
    then have "q = p" "\<not> is_dir t p" using same [of q] by (auto simp: text_at_def)
    then show ?thesis by (auto simp: hold_def map_add_def split: option.splits)
  qed
  moreover have "kind t' q = Some False" if "kind t q = Some False" for q
    using that same [of q] by (auto simp: kind_def)
  moreover have "is_dir t d \<or> d \<in> set (missing_parents t p)" if "is_dir t' d" for d
    using that same [of d] by (auto simp: is_dir_def)
  moreover have "sorted_wrt (\<lambda>a b. \<not> strict_prefix b a) (made @ missing_parents t p)"
  proof -
    have "sorted_wrt (\<lambda>a b. \<not> strict_prefix b a) (missing_parents t p)"
      by (rule sorted_wrt_mono_rel [OF _ missing_sorted]) (auto simp: strict_prefix_def)
    moreover have "\<not> strict_prefix b a" if "a \<in> set made" "b \<in> set (missing_parents t p)" for a b
    proof
      assume ba: "strict_prefix b a"
      have "map_of t a \<noteq> None" using made [OF that(1)] ba by (auto simp: is_dir_def)
      then show False using that(2) wf_tree_parent [OF wf _ _ ba] by (auto simp: set_missing_parents [OF wf])
    qed
    ultimately show ?thesis using inv by (auto simp: run_inv_def sorted_wrt_append)
  qed
  ultimately show ?thesis using run_invD [OF inv'] wf'
    by (intro run_invI) (simp_all add: wf_kinds_kind, blast+)
qed

lemma target_ne [simp]: "target c \<noteq> []"
  by (simp add: target_def)

lemma wf_make_dirs:
  assumes "wf_tree t" "\<not> blocked t p"
  shows "wf_tree (make_dirs (take n (missing_parents t p)) t)"
proof -
  let ?ds = "missing_parents t p"
  have "map_of (make_dirs (take n ?ds) t) r = Some Dir"
    if q: "map_of (make_dirs (take n ?ds) t) q \<noteq> None" and r: "r \<noteq> []" "strict_prefix r q" for q r
  proof (cases "q \<in> set (take n ?ds)")
    case True
    then obtain i where i: "i < n" "i < length ?ds" "q = ?ds ! i" by (auto simp: in_set_conv_nth)
    have "q \<in> set ?ds" using i by simp
    then have rp: "strict_prefix r p" using r(2) set_missing_parents [OF assms(1)] by (auto dest: prefix_order.less_trans)
    show ?thesis
    proof (cases "map_of t r")
      case None
      then have "r \<in> set ?ds" using r(1) rp set_missing_parents [OF assms(1)] by blast
      then obtain j where j: "j < length ?ds" "r = ?ds ! j" by (auto simp: in_set_conv_nth)
      have "j < i"
      proof (rule ccontr)
        assume "\<not> j < i"
        then have "i = j \<or> prefix q r"
          using missing_sorted [of t p] i j by (cases "i = j") (simp_all add: sorted_wrt_iff_nth_less)
        then show False using r(2) i j by (auto simp: strict_prefix_def)
      qed
      then have "r \<in> set (take n ?ds)" using i j by (auto simp: in_set_conv_nth intro!: exI [of _ j])
      then show ?thesis by simp
    next
      case (Some x)
      then have "map_of t r = Some Dir" using open_parent [OF assms(2) r(1) rp] by simp
      then show ?thesis by simp
    qed
  next
    case False
    then have "map_of t r = Some Dir" using q wf_tree_parent [OF assms(1) _ r] by simp
    then show ?thesis by simp
  qed
  moreover have "map_of (make_dirs (take n ?ds) t) [] = None"
    using assms(1) set_missing_parents [OF assms(1), of p] set_take_subset [of n ?ds] by (auto simp: wf_tree_iff)
  ultimately show ?thesis unfolding wf_tree_iff by blast
qed

lemma broken_cases:
  assumes "broken c t t'" "wf_tree t"
  shows "if is_delete c then shrunk (target c) t t' else grown (target c) t t'"
proof (cases "is_delete c")
  case True
  then show ?thesis using assms by (simp add: broken_def shrunk_def is_delete_def)
next
  case False
  let ?p = "target c"
  have "t' = t \<or> \<not> blocked t ?p \<and> ((\<exists>n. t' = make_dirs (take n (missing_parents t ?p)) t) \<or> (\<exists>d. t' = write_at ?p d t))"
    using assms False by (simp add: broken_def is_delete_def)
  then consider "t' = t" | n where "\<not> blocked t ?p" "t' = make_dirs (take n (missing_parents t ?p)) t"
    | d where "\<not> blocked t ?p" "t' = write_at ?p d t" by blast
  then have "grown ?p t t'"
  proof cases
    case 1
    then show ?thesis using assms(2) by (simp add: grown_def)
  next
    case 2
    then show ?thesis using wf_make_dirs [OF assms(2)] by (auto simp: grown_def dest: in_set_takeD)
  next
    case 3
    then show ?thesis using wf_write_at [OF assms(2)]
      by (auto simp: grown_def write_at_lookup [OF assms(2)] set_missing_parents [OF assms(2)] blocked_iff)
  qed
  with False show ?thesis by simp
qed

lemma applied_cases:
  assumes "wf_tree t" "is_delete c \<or> \<not> blocked t (target c)"
  shows "if is_delete c then shrunk (target c) t (applied c t) else grown (target c) t (applied c t)"
proof (cases "is_delete c")
  case True
  then show ?thesis using wf_remove_at [OF assms(1)] by (simp add: shrunk_def applied_def is_delete_def)
next
  case False
  then show ?thesis using assms(2) wf_write_at [OF assms(1)]
    by (auto simp: grown_def applied_def is_delete_def write_at_lookup [OF assms(1)] set_missing_parents [OF assms(1)] blocked_iff)
qed

lemma grown_made:
  assumes "wf_tree t" "\<not> blocked t p" "d \<in> set (missing_parents t p) \<or> is_dir t d"
  shows "is_dir (write_at p x t) d"
  using assms by (auto simp: is_dir_def write_at_lookup set_missing_parents blocked_iff)

lemma text_remove_at: "text_at (remove_at p t) q = (if prefix p q then None else text_at t q)"
  by (simp add: text_at_def)

text \<open>What a change does to the texts of a tree.\<close>

definition texts_after :: "(path \<Rightarrow> string option) \<Rightarrow> change \<Rightarrow> path \<Rightarrow> string option" where
  "texts_after f c = (\<lambda>q.
     if is_delete c then (if prefix (target c) q then None else f q)
     else if q = target c then Some (case ch_after c of None \<Rightarrow> [] | Some d \<Rightarrow> d) else f q)"

context disk
begin

text \<open>Where the loop stops, the state of the run is one from which the tree can be put back.\<close>

lemma apply_changes_inv:
  "apply_changes io cs t held made log = Inl (at_path, error, t', held', made') \<Longrightarrow> deletes_last cs \<Longrightarrow>
     run_inv t0 K t held made \<Longrightarrow>
     (list_all is_delete cs \<or> K = kind t \<and> (\<forall>d \<in> set made. is_dir t d)) \<Longrightarrow>
     \<exists>K'. run_inv t0 K' t' held' made'"
proof (induction cs arbitrary: t held made log K)
  case (Cons c cs)
  let ?p = "target c"
  have wf: "wf_tree t" using Cons.prems(3) by (rule run_invD)
  have dl: "deletes_last cs" "is_delete c \<Longrightarrow> list_all is_delete cs"
    using Cons.prems(2) by (auto simp: deletes_last_def list_all_iff)
  let ?made = "if is_delete c then made else made @ missing_parents t ?p"
  have step: "\<exists>K'. run_inv t0 K' s (held @ hold t ?p) ?made \<and> (is_delete c \<or> K' = kind s)"
    if s: "if is_delete c then shrunk ?p t s else grown ?p t s" for s
  proof (cases "is_delete c")
    case True
    then show ?thesis using shrunk_inv [OF Cons.prems(3) _ target_ne] s by (intro exI [of _ K]) simp
  next
    case False
    then have "K = kind t" "\<And>d. d \<in> set made \<Longrightarrow> is_dir t d" using Cons.prems(4) by auto
    then show ?thesis using grown_inv [of t0 t held made ?p s] Cons.prems(3) s False by auto
  qed
  show ?case
  proof (cases "io c t")
    case (Inl x)
    obtain e s where x: "x = (e, s)" by fastforce
    then have "t' = s" "held' = held @ hold t ?p" "made' = ?made"
      using Cons.prems(1) Inl by (auto simp: is_delete_def)
    moreover have "broken c t s" using raised_broken [of c t e s] wf Inl x by simp
    ultimately show ?thesis using step [OF broken_cases [OF _ wf]] by blast
  next
    case (Inr s)
    have s: "s = applied c t" "is_delete c \<or> \<not> blocked t ?p"
      using done_applied [OF Inr] by (auto simp: is_delete_def)
    obtain K' where K': "run_inv t0 K' s (held @ hold t ?p) ?made" "is_delete c \<or> K' = kind s"
      using step applied_cases [OF wf s(2)] s(1) by blast
    have "list_all is_delete cs \<or> K' = kind s \<and> (\<forall>d \<in> set ?made. is_dir s d)"
    proof (cases "is_delete c")
      case False
      then have "\<forall>d \<in> set ?made. is_dir s d"
        using s Cons.prems(4) grown_made [OF wf] by (auto simp: applied_def is_delete_def)
      then show ?thesis using K'(2) False by simp
    qed (use dl in simp)
    moreover obtain log' where
        "apply_changes io cs s (held @ hold t ?p) ?made log' = Inl (at_path, error, t', held', made')"
      using Cons.prems(1) Inr by (auto simp: is_delete_def Let_def)
    ultimately show ?thesis using Cons.IH [OF _ dl(1) K'(1)] by blast
  qed
qed simp

lemma put_back:
  assumes "wf_tree t" "deletes_last (changes plan)" "execute io plan t = (outcome, t')" "\<And>log. outcome \<noteq> Done log"
  shows "outcome \<noteq> RestoreRaised \<and> wf_tree t' \<and> (\<forall>p. text_at t' p = text_at t p) \<and> (\<forall>d. is_dir t' d \<longrightarrow> is_dir t d)"
proof (cases "stale plan \<or> \<not> plan_ok plan")
  case True
  then show ?thesis using assms by (auto simp: execute_def Let_def split: if_splits)
next
  case False
  obtain at_path error s held made where stop:
      "apply_changes io (changes plan) t [] [] [] = Inl (at_path, error, s, held, made)"
    using assms(3,4) False by (auto simp: execute_def split: sum.splits)
  have "run_inv t (kind t) t [] []" using assms(1) by (intro run_invI) (auto simp: wf_kinds_kind)
  then obtain K where "run_inv t K s held made"
    using apply_changes_inv [OF stop assms(2)] by auto
  from restore_inv [OF assms(1) this] obtain r where r: "restore held made s = Some r" "wf_tree r"
      "\<And>p. text_at r p = text_at t p" "\<And>d. is_dir r d \<Longrightarrow> is_dir t d" by blast
  then have "t' = r" "outcome \<noteq> RestoreRaised" using assms(3) False stop by (auto simp: execute_def)
  with r show ?thesis by auto
qed

text \<open>Where the loop comes to its end, the tree is the one every change in turn makes.\<close>

lemma apply_changes_append:
  "apply_changes io (as @ bs) t held made log = Inr (log', t') \<Longrightarrow>
     \<exists>s held' made' log1. apply_changes io as t held made log = Inr (log1, s) \<and>
       apply_changes io bs s held' made' log1 = Inr (log', t')"
proof (induction as arbitrary: t held made log)
  case (Cons c as)
  then show ?case by (cases "io c t") (auto simp: Let_def)
qed auto

lemma apply_changes_texts:
  "apply_changes io cs t held made log = Inr (log', t') \<Longrightarrow> wf_tree t \<Longrightarrow>
     wf_tree t' \<and> text_at t' = foldl texts_after (text_at t) cs"
proof (induction cs arbitrary: t held made log)
  case (Cons c cs)
  then obtain s where s: "io c t = Inr s" by (cases "io c t") (auto simp: Let_def)
  note d = done_applied [OF s]
  have "wf_tree s" using d applied_cases [of t c] Cons.prems(2) by (auto simp: is_delete_def shrunk_def grown_def split: if_splits)
  moreover have "text_at s = texts_after (text_at t) c"
    using d by (auto simp: fun_eq_iff texts_after_def applied_def is_delete_def text_write_at [OF Cons.prems(2)] text_remove_at)
  ultimately show ?case using Cons.IH Cons.prems(1) s by (auto simp: Let_def)
qed auto

end

lemma map_of_kept:
  "map_of (filter (\<lambda>(q, _). P q) t) q = (if P q then map_of t q else None)"
  by (induction t) auto

lemma wf_kept:
  assumes "wf_tree t"
  shows "wf_tree (filter (\<lambda>(q, _). \<not> prefix p q \<or> list_ex (\<lambda>k. prefix q k) keep) t)"
proof -
  have "\<not> prefix p r \<or> list_ex (\<lambda>k. prefix r k) keep"
    if "\<not> prefix p q \<or> list_ex (\<lambda>k. prefix q k) keep" "strict_prefix r q" for q r
    using that by (auto simp: list_ex_iff strict_prefix_def dest: prefix_order.trans)
  then show ?thesis using assms unfolding wf_tree_iff map_of_kept by (auto split: if_splits)
qed

interpretation faulty: disk "disk_io faults" for faults
proof
  fix c t t'
  assume "disk_io faults c t = Inr t'"
  then show "t' = applied c t \<and> (ch_action c = ''delete'' \<or> \<not> blocked t (target c))"
    by (auto simp: disk_io_def Let_def applied_def split: if_splits option.splits fault.splits)
next
  fix c t error t'
  assume io: "disk_io faults c t = Inl (error, t')" and wf: "wf_tree t"
  let ?p = "target c"
  show "broken c t t'"
  proof (cases "ch_action c = ''delete''")
    case True
    then have "t' = t \<or> (\<exists>keep. t' = filter (\<lambda>(q, _). \<not> prefix ?p q \<or> list_ex (\<lambda>k. prefix q k) keep) t)"
      using io by (auto simp: disk_io_def Let_def split: option.splits fault.splits)
    then show ?thesis
    proof
      assume "t' = t"
      then show ?thesis using True wf by (simp add: broken_def)
    next
      assume "\<exists>keep. t' = filter (\<lambda>(q, _). \<not> prefix ?p q \<or> list_ex (\<lambda>k. prefix q k) keep) t"
      then obtain keep where t': "t' = filter (\<lambda>(q, _). \<not> prefix ?p q \<or> list_ex (\<lambda>k. prefix q k) keep) t" ..
      then show ?thesis using True wf_kept [OF wf] unfolding broken_def t' map_of_kept by simp
    qed
  next
    case False
    then show ?thesis using io
      by (auto simp: disk_io_def Let_def broken_def split: if_splits option.splits fault.splits)
  qed
qed

section \<open>Applied whole or put back\<close>

lemma deletes_last_append:
  "deletes_last (as @ bs) \<longleftrightarrow> deletes_last as \<and> deletes_last bs \<and> (list_all is_delete bs \<or> \<not> list_ex is_delete as)"
  by (auto simp: deletes_last_def sorted_wrt_append list_all_iff list_ex_iff)

lemma plan_changes_deletes_last: "deletes_last (plan_changes root work removed reasons)"
proof -
  let ?del = "\<lambda>cs. list_all is_delete cs"
  have all: "deletes_last cs" if "list_all is_delete cs" for cs
    using that unfolding deletes_last_def by (induction cs) (auto simp: list_all_iff)
  have none: "deletes_last cs" if "\<not> list_ex is_delete cs" for cs
    using that unfolding deletes_last_def by (induction cs) auto
  have "\<not> list_ex is_delete (concat (map (create_or_edit reasons root work) ps))" for ps
    by (auto simp: list_ex_iff create_or_edit_def is_delete_def Let_def split: if_splits)
  moreover have "list_all is_delete (map (\<lambda>p. \<lparr>ch_action = ''delete'', ch_path = f p, ch_reason = g p, ch_before = h p, ch_after = None\<rparr>) ps)"
    for f g h and ps :: "path list"
    by (simp add: list_all_iff is_delete_def)
  ultimately show ?thesis
    unfolding plan_changes_def Let_def deletes_last_append by (simp add: all none)
qed

text \<open>
  C27. A plan is applied whole or not at all. Whatever the disk does to the changes of a plan that
  was worked out from two trees, when \<open>execute\<close> does not end in the log of what it did, every file of
  the project holds exactly what it held before and no other file exists; no directory is left that
  was not there, and every directory with a file in it still is. Restoring never raises.
\<close>

theorem execute_atomic:
  assumes "wf_tree t" "changes plan = plan_changes root work removed reasons"
    and "execute (disk_io faults) plan t = (outcome, t')" "\<forall>log. outcome \<noteq> Done log"
  shows "outcome \<noteq> RestoreRaised \<and> (\<forall>p. text_at t' p = text_at t p) \<and> (\<forall>d. is_dir t' d \<longrightarrow> is_dir t d) \<and>
    (\<forall>d p. is_dir t d \<longrightarrow> strict_prefix d p \<longrightarrow> text_at t p \<noteq> None \<longrightarrow> is_dir t' d)"
proof -
  have r: "outcome \<noteq> RestoreRaised" "wf_tree t'" "\<And>p. text_at t' p = text_at t p" "\<And>d. is_dir t' d \<Longrightarrow> is_dir t d"
    using faulty.put_back [OF assms(1) _ assms(3)] plan_changes_deletes_last assms(2,4) by auto
  have "is_dir t' d" if "strict_prefix d p" "text_at t p \<noteq> None" for d p
  proof -
    have "map_of t' p \<noteq> None" using that(2) r(3) [of p] text_at_None [of t' p] by auto
    then show ?thesis using wf_tree_parent [OF r(2) _ _ that(1)] by (auto simp: is_dir_def)
  qed
  with r show ?thesis by blast
qed

definition sample_root :: tree where
  "sample_root = [([''synqt.yaml''], File ''entities: []''), ([''web''], Dir), ([''web'', ''edge''], Dir),
     ([''web'', ''edge'', ''Edge.qml''], File ''Edge { }'')]"

definition sample_work :: tree where
  "sample_work = [([''synqt.yaml''], File ''entities: [one]''), ([''client''], Dir), ([''client'', ''app''], Dir),
     ([''client'', ''app'', ''Main.qml''], File ''Window { }'')]"

definition sample_plan :: plan where
  "sample_plan = \<lparr>changes = plan_changes sample_root sample_work [[''web'', ''edge'']] Map.empty,
     findings = [], plan_ok = True, git = ''clean'', stale = False\<rparr>"

text \<open>The removal of \<open>web/edge\<close>, the last change, breaks after it has removed the file in it.\<close>

definition sample_faults :: "change \<Rightarrow> (string \<times> fault) option" where
  "sample_faults c = (if ch_path c = ''web/edge'' then Some (''Permission denied'', RemoveFault [[''web'', ''edge'']]) else None)"

lemma sample_run:
  "execute (disk_io sample_faults) sample_plan sample_root =
     (PutBack ''web/edge: Permission denied. Nothing was changed; the project is as it was.'',
      [([''synqt.yaml''], File ''entities: []''), ([''web''], Dir), ([''web'', ''edge''], Dir),
       ([''web'', ''edge'', ''Edge.qml''], File ''Edge { }'')])"
  by code_simp

theorem execute_atomic_witness:
  "\<exists>t'. execute (disk_io sample_faults) sample_plan sample_root =
     (PutBack ''web/edge: Permission denied. Nothing was changed; the project is as it was.'', t') \<and>
   text_at t' [''web'', ''edge'', ''Edge.qml''] = Some ''Edge { }'' \<and> \<not> is_dir t' [''client''] \<and> is_dir t' [''web'', ''edge'']"
proof -
  have root: "wf_tree sample_root" by code_simp
  have at: "text_at sample_root [''web'', ''edge'', ''Edge.qml''] = Some ''Edge { }''" "\<not> is_dir sample_root [''client'']"
      "is_dir sample_root [''web'', ''edge'']" "strict_prefix [''web'', ''edge''] [''web'', ''edge'', ''Edge.qml'']"
    by code_simp+
  obtain t' where t': "execute (disk_io sample_faults) sample_plan sample_root =
      (PutBack ''web/edge: Permission denied. Nothing was changed; the project is as it was.'', t')"
    using sample_run by blast
  have "\<forall>log. PutBack ''web/edge: Permission denied. Nothing was changed; the project is as it was.'' \<noteq> Done log" by simp
  from execute_atomic [OF root _ t' this, of sample_root sample_work "[[''web'', ''edge'']]" Map.empty]
  have "\<forall>p. text_at t' p = text_at sample_root p" "\<forall>d. is_dir t' d \<longrightarrow> is_dir sample_root d"
      "\<forall>d p. is_dir sample_root d \<longrightarrow> strict_prefix d p \<longrightarrow> text_at sample_root p \<noteq> None \<longrightarrow> is_dir t' d"
    by (simp_all add: sample_plan_def)
  then have "text_at t' [''web'', ''edge'', ''Edge.qml''] = Some ''Edge { }''" "\<not> is_dir t' [''client'']" "is_dir t' [''web'', ''edge'']"
    using at by (metis option.distinct(1))+
  with t' show ?thesis by blast
qed

section \<open>What an applied plan makes of the project\<close>

definition named :: "path \<Rightarrow> bool" where
  "named p \<longleftrightarrow> p \<noteq> [] \<and> list_all (\<lambda>part. CHR ''/'' \<notin> set part) p"

definition is_source :: "path \<Rightarrow> bool" where
  "is_source p \<longleftrightarrow> list_all (\<lambda>part. part \<notin> set IGNORED) p"

lemma target_posix: "named p \<Longrightarrow> ch_path c = posix p \<Longrightarrow> target c = p"
  using split_on_join [of p "CHR ''/''"] by (simp add: target_def posix_def named_def list_all_iff)

lemma set_relative_files: "p \<in> set (relative_files t) \<longleftrightarrow> text_at t p \<noteq> None \<and> is_source p"
  by (force simp: relative_files_def is_source_def text_at_None map_of_eq_None_iff)

lemma foldl_deletes:
  "list_all is_delete cs \<Longrightarrow> foldl texts_after f cs q = (if list_ex (\<lambda>c. prefix (target c) q) cs then None else f q)"
  by (induction cs arbitrary: f) (auto simp: texts_after_def)

lemma foldl_writes:
  assumes "\<And>p. p \<in> set ps \<Longrightarrow> named p"
  shows "foldl texts_after f (concat (map (create_or_edit reasons root work) ps)) q =
    (if q \<in> set ps \<and> create_or_edit reasons root work q \<noteq> [] then Some (the (text_at work q)) else f q)"
  using assms
proof (induction ps arbitrary: f)
  case (Cons p ps)
  have p: "named p" using Cons.prems by simp
  have one: "foldl texts_after f (create_or_edit reasons root work p) q =
      (if q = p \<and> create_or_edit reasons root work q \<noteq> [] then Some (the (text_at work q)) else f q)" for f
    using target_posix [OF p] by (auto simp: create_or_edit_def texts_after_def is_delete_def Let_def)
  show ?case using Cons.IH [of "foldl texts_after f (create_or_edit reasons root work p)"] Cons.prems one [of f]
    by (cases "q \<in> set ps \<and> create_or_edit reasons root work q \<noteq> []") auto
qed simp

lemma list_ex_target:
  "(\<And>x. x \<in> set xs \<Longrightarrow> target (f x) = x) \<Longrightarrow>
     list_ex (\<lambda>c. prefix (target c) q) (map f xs) \<longleftrightarrow> (\<exists>x. x \<in> set xs \<and> prefix x q)"
  by (induction xs) auto

lemma plan_deletes:
  assumes "list_all named removed" "list_all named (relative_files root)"
  obtains dels where "plan_changes root work removed reasons =
      concat (map (create_or_edit reasons root work) (relative_files work)) @ dels" "list_all is_delete dels"
    "\<And>q. list_ex (\<lambda>c. prefix (target c) q) dels \<longleftrightarrow>
       list_ex (\<lambda>name. prefix name q) removed \<or>
       (\<exists>r. r \<in> set (relative_files root) \<and> r \<notin> set (relative_files work) \<and> \<not> list_ex (\<lambda>name. prefix name r) removed \<and> prefix r q)"
proof -
  define del where "del p before = \<lparr>ch_action = ''delete'', ch_path = posix p,
      ch_reason = reason_for reasons (posix p) ''removed in the editor'', ch_before = before, ch_after = None\<rparr>" for p before
  have tg: "target (del p before) = p" if "named p" for p before using target_posix [OF that] by (simp add: del_def)
  let ?d1 = "map (\<lambda>name. del name (Some (join nl (map posix (filter (prefix name) (relative_files root))) @ nl))) (sort_key posix removed)"
  let ?d2 = "map (\<lambda>p. del p (text_at root p))
      (filter (\<lambda>p. p \<notin> set (relative_files work) \<and> \<not> list_ex (\<lambda>name. prefix name p) removed) (relative_files root))"
  have "plan_changes root work removed reasons =
      concat (map (create_or_edit reasons root work) (relative_files work)) @ ?d1 @ ?d2"
    by (simp add: plan_changes_def Let_def del_def)
  moreover have "list_all is_delete (?d1 @ ?d2)" by (auto simp: list_all_iff is_delete_def del_def)
  moreover have "list_ex (\<lambda>c. prefix (target c) q) (?d1 @ ?d2) \<longleftrightarrow>
       list_ex (\<lambda>name. prefix name q) removed \<or>
       (\<exists>r. r \<in> set (relative_files root) \<and> r \<notin> set (relative_files work) \<and> \<not> list_ex (\<lambda>name. prefix name r) removed \<and> prefix r q)" for q
  proof -
    have "list_ex (\<lambda>c. prefix (target c) q) ?d1 \<longleftrightarrow> (\<exists>x. x \<in> set (sort_key posix removed) \<and> prefix x q)"
      by (rule list_ex_target) (use tg assms(1) in \<open>simp add: list_all_iff\<close>)
    moreover have "list_ex (\<lambda>c. prefix (target c) q) ?d2 \<longleftrightarrow> (\<exists>x. x \<in> set (filter (\<lambda>p. p \<notin> set (relative_files work) \<and>
        \<not> list_ex (\<lambda>name. prefix name p) removed) (relative_files root)) \<and> prefix x q)"
      by (rule list_ex_target) (use tg assms(2) in \<open>simp add: list_all_iff\<close>)
    ultimately show ?thesis by (auto simp: list_ex_iff)
  qed
  ultimately show ?thesis by (rule that)
qed

text \<open>
  C28. A plan that is applied to the end does what was reviewed: afterwards every source file of the
  project is the one in the designed copy, text for text, and no other source file is left. (The
  designed copy holds nothing below the folders the plan removes.)
\<close>

theorem execute_realises:
  assumes "wf_tree root" "wf_tree work" "changes plan = plan_changes root work removed reasons"
    and "execute (disk_io faults) plan root = (Done log, t')"
    and "list_all named (map fst (root @ work) @ removed)"
    and "list_all (\<lambda>name. list_all (\<lambda>p. \<not> prefix name p) (relative_files work)) removed"
    and "is_source p"
  shows "text_at t' p = text_at work p"
proof -
  have ok: "\<not> stale plan" "plan_ok plan" using assms(4) by (auto simp: execute_def Let_def split: if_splits)
  obtain log0 where run: "apply_changes (disk_io faults) (changes plan) root [] [] [] = Inr (log0, t')"
    using assms(4) ok by (auto simp: execute_def split: sum.splits prod.splits option.splits)
  let ?W = "set (relative_files work)" and ?R = "set (relative_files root)"
  have "named r" if "text_at root r \<noteq> None \<or> text_at work r \<noteq> None" for r
    using assms(5) that by (auto simp: list_all_iff text_at_None map_of_eq_None_iff)
  then have named: "list_all named (relative_files root)" "\<And>r. r \<in> ?W \<Longrightarrow> named r" "list_all named removed"
    using assms(5) by (auto simp: list_all_iff set_relative_files)
  obtain dels where dels: "plan_changes root work removed reasons =
      concat (map (create_or_edit reasons root work) (relative_files work)) @ dels" "list_all is_delete dels"
    "\<And>q. list_ex (\<lambda>c. prefix (target c) q) dels \<longleftrightarrow>
       list_ex (\<lambda>name. prefix name q) removed \<or>
       (\<exists>r. r \<in> ?R \<and> r \<notin> ?W \<and> \<not> list_ex (\<lambda>name. prefix name r) removed \<and> prefix r q)"
    using plan_deletes [OF named(3,1), of work reasons] by blast
  obtain s held' made' log1 where s: "apply_changes (disk_io faults)
        (concat (map (create_or_edit reasons root work) (relative_files work))) root [] [] [] = Inr (log1, s)"
      "apply_changes (disk_io faults) dels s held' made' log1 = Inr (log0, t')"
    using faulty.apply_changes_append run unfolding assms(3) dels(1) by blast
  note s1 = faulty.apply_changes_texts [OF s(1) assms(1)]
  have ts: "text_at s q = (if q \<in> ?W then text_at work q else text_at root q)" for q
    using s1 foldl_writes [of "relative_files work" "text_at root" reasons root work q] named(2)
    by (auto simp: set_relative_files create_or_edit_def Let_def split: if_splits)
  have t': "text_at t' p = (if list_ex (\<lambda>c. prefix (target c) p) dels then None else text_at s p)"
    using faulty.apply_changes_texts [OF s(2)] s1 foldl_deletes [OF dels(2)] by simp
  show ?thesis
  proof (cases "p \<in> ?W")
    case True
    have "\<not> prefix r p" if "r \<in> ?R" "r \<notin> ?W" for r
    proof
      assume "prefix r p"
      then have rp: "strict_prefix r p" using True that by (auto simp: strict_prefix_def)
      have "text_at s r \<noteq> None" "text_at s p \<noteq> None" using that True by (auto simp: ts set_relative_files)
      moreover from this have "map_of s r \<noteq> None" by (simp add: text_at_None)
      then have "r \<noteq> []" using s1 by (auto simp: wf_tree_iff)
      ultimately have "map_of s p \<noteq> None" "map_of s r \<noteq> Some Dir" "r \<noteq> []"
        by (simp_all add: text_at_None)
      then show False using wf_tree_parent [OF _ _ _ rp] s1 by blast
    qed
    moreover have "\<not> list_ex (\<lambda>name. prefix name p) removed"
      using assms(6) True by (auto simp: list_all_iff list_ex_iff)
    ultimately show ?thesis using t' dels(3) [of p] ts [of p] True by auto
  next
    case False
    then have "text_at work p = None" using assms(7) by (simp add: set_relative_files)
    moreover have "text_at t' p = None"
    proof (cases "text_at root p")
      case None
      then show ?thesis using t' ts [of p] False by simp
    next
      case (Some d)
      then have "p \<in> ?R" using assms(7) by (simp add: set_relative_files)
      then have "list_ex (\<lambda>c. prefix (target c) p) dels" using dels(3) [of p] False by blast
      then show ?thesis using t' by simp
    qed
    ultimately show ?thesis by simp
  qed
qed

theorem execute_realises_witness:
  "\<exists>log t'. execute (disk_io Map.empty) sample_plan sample_root = (Done log, t') \<and>
     text_at t' [''client'', ''app'', ''Main.qml''] = Some ''Window { }'' \<and> text_at t' [''web'', ''edge'', ''Edge.qml''] = None"
proof -
  have h: "wf_tree sample_root" "wf_tree sample_work" "list_all named (map fst (sample_root @ sample_work) @ [[''web'', ''edge'']])"
      "list_all (\<lambda>name. list_all (\<lambda>p. \<not> prefix name p) (relative_files sample_work)) [[''web'', ''edge'']]"
      "is_source [''client'', ''app'', ''Main.qml'']" "is_source [''web'', ''edge'', ''Edge.qml'']"
      "text_at sample_work [''client'', ''app'', ''Main.qml''] = Some ''Window { }''"
      "text_at sample_work [''web'', ''edge'', ''Edge.qml''] = None"
    by code_simp+
  have "case fst (execute (disk_io Map.empty) sample_plan sample_root) of Done log \<Rightarrow> True | _ \<Rightarrow> False" by code_simp
  then obtain log t' where run: "execute (disk_io Map.empty) sample_plan sample_root = (Done log, t')"
    by (cases "execute (disk_io Map.empty) sample_plan sample_root") (auto split: outcome.splits)
  have c: "changes sample_plan = plan_changes sample_root sample_work [[''web'', ''edge'']] Map.empty" by (simp add: sample_plan_def)
  show ?thesis using run execute_realises [OF h(1,2) c run h(3,4)] h(5-8) by auto
qed

section \<open>Reasons\<close>

text \<open>
  A cause is noted for the folder an entity is scaffolded into, which has two parts, and looked up
  under the first part alone: the files in that folder are shown with the fallback instead.
\<close>

lemma folder_cause_not_found:
  "reason_for (note_cause ''web/edge/'' ''scaffolded with the edge entity'' Map.empty) ''web/edge/Edge.qml'' ''drawn in the editor''
     = ''drawn in the editor''"
  by code_simp

text \<open>An empty directory below a folder whose removal breaks is not among what is put back.\<close>

lemma empty_directory_lost:
  "is_dir (sample_root @ [([''web'', ''edge'', ''pages''], Dir)]) [''web'', ''edge'', ''pages''] \<and>
   \<not> is_dir (snd (execute (disk_io (\<lambda>c. Some (''Permission denied'', RemoveFault [])))
       \<lparr>changes = plan_changes sample_root (filter (\<lambda>(p, _). p = [''synqt.yaml'']) sample_root) [[''web'', ''edge'']] Map.empty,
        findings = [], plan_ok = True, git = ''clean'', stale = False\<rparr>
       (sample_root @ [([''web'', ''edge'', ''pages''], Dir)]))) [''web'', ''edge'', ''pages'']"
  by code_simp

end
