(* ===== verification/YamlEdit.thy ===== *)
theory YamlEdit
  imports PyValue
begin

text \<open>
  Editing \<open>synqt.yaml\<close> as text, \<open>synqt/yamledit.py\<close>: every operation finds the lines an edit belongs
  to, splices new lines in and leaves the rest as it is. PyYAML, which reads one item and writes one
  scalar, is a parameter. Indents are integers, as the code marks their absence with negative ones.
\<close>

section \<open>PyYAML\<close>

text \<open>
  PyYAML: \<open>safe_dump\<close> of the mapping that has a value under the key \<open>v\<close>, in block style; of a list, in
  flow style; and \<open>safe_load\<close>, which may raise.
\<close>

record yaml =
  dump_block :: "yval \<Rightarrow> string"
  dump_flow :: "yval list \<Rightarrow> string"
  safe_load :: "string \<Rightarrow> yval option"

text \<open>\<open>NoFirstLine\<close> is the \<open>IndexError\<close> of \<open>body[0]\<close> for an item with nothing in it.\<close>

datatype edit_error = YamlEditError string | YamlError | NoFirstLine

type_synonym 'a edit = "edit_error + 'a"

section \<open>Reading the text\<close>

definition indent_of :: "string \<Rightarrow> int" where
  "indent_of line = int (length (takeWhile (\<lambda>c. c = CHR '' '') line))"

definition is_comment :: "string \<Rightarrow> bool" where
  "is_comment line = startswith (lstrip line) ''#''"

definition is_skippable :: "string \<Rightarrow> bool" where
  "is_skippable line \<longleftrightarrow> strip line = [] \<or> is_comment line"

definition is_empty_flow :: "string \<Rightarrow> bool" where
  "is_empty_flow inline \<longleftrightarrow> strip inline = ''[]'' \<or> strip inline = ''{}''"

text \<open>\<open>^(?P<indent> *)(?P<key>[A-Za-z_][A-Za-z0-9_.-]*) *:(?P<rest>.*)$\<close>.\<close>

definition key_char :: "char \<Rightarrow> bool" where
  "key_char c \<longleftrightarrow> ident_char c \<or> c = CHR ''.'' \<or> c = CHR ''-''"

definition KEY :: "string \<Rightarrow> (int \<times> string \<times> string) option" where
  "KEY line =
     (let body = dropWhile (\<lambda>c. c = CHR '' '') line;
          key = takeWhile key_char body;
          rest = dropWhile (\<lambda>c. c = CHR '' '') (dropWhile key_char body) in
      if key \<noteq> [] \<and> ident_start (hd key) \<and> startswith rest '':''
      then Some (indent_of line, key, drop 1 rest) else None)"

record block =
  key_line :: int
  key_indent :: int
  blk_inline :: string
  blk_start :: nat
  blk_end :: nat
  blk_indent :: int

definition child_indent_of :: "block \<Rightarrow> int" where
  "child_indent_of b = (if blk_indent b \<ge> 0 then blk_indent b else key_indent b + 2)"

text \<open>How many of the lines from a position on belong to the key at an indent.\<close>

fun block_len :: "int \<Rightarrow> string list \<Rightarrow> nat" where
  "block_len parent_indent [] = 0"
| "block_len parent_indent (line # lines) =
     (if is_skippable line then 1 + block_len parent_indent lines
      else if indent_of line < parent_indent then 0
      else if indent_of line = parent_indent \<and> \<not> startswith (lstrip line) ''- '' then 0
      else 1 + block_len parent_indent lines)"

definition end_of_block :: "string list \<Rightarrow> nat \<Rightarrow> int \<Rightarrow> nat" where
  "end_of_block lines start parent_indent = start + block_len parent_indent (drop start lines)"

fun trimmed_end :: "string list \<Rightarrow> nat \<Rightarrow> nat \<Rightarrow> nat" where
  "trimmed_end lines start 0 = 0"
| "trimmed_end lines start (Suc e) =
     (if Suc e > start \<and> is_skippable (lines ! e) then trimmed_end lines start e else Suc e)"

definition child_indent :: "string list \<Rightarrow> nat \<Rightarrow> nat \<Rightarrow> int" where
  "child_indent lines start end =
     (case filter (\<lambda>i. \<not> is_skippable (lines ! i)) [start ..< end] of [] \<Rightarrow> -1 | i # _ \<Rightarrow> indent_of (lines ! i))"

definition root_block :: "string list \<Rightarrow> block" where
  "root_block lines =
     \<lparr>key_line = -1, key_indent = -2, blk_inline = [], blk_start = 0, blk_end = length lines,
      blk_indent = child_indent lines 0 (length lines)\<rparr>"

definition block_at :: "string list \<Rightarrow> nat \<Rightarrow> block" where
  "block_at lines k =
     (case KEY (lines ! k) of
        Some (indent, _, rest) \<Rightarrow>
          (let end = end_of_block lines (k + 1) indent in
           \<lparr>key_line = int k, key_indent = indent, blk_inline = rest, blk_start = k + 1, blk_end = end,
            blk_indent = child_indent lines (k + 1) end\<rparr>)
      | None \<Rightarrow> root_block lines)"

definition is_key_line :: "string list \<Rightarrow> int \<Rightarrow> string \<Rightarrow> nat \<Rightarrow> bool" where
  "is_key_line lines indent key i \<longleftrightarrow>
     \<not> is_skippable (lines ! i) \<and> indent_of (lines ! i) = indent
     \<and> (case KEY (lines ! i) of Some (_, k, _) \<Rightarrow> k = key | None \<Rightarrow> False)"

definition find_key :: "string list \<Rightarrow> block \<Rightarrow> string \<Rightarrow> nat option" where
  "find_key lines b key =
     (if blk_indent b < 0 then None
      else case filter (is_key_line lines (blk_indent b) key) [blk_start b ..< blk_end b] of [] \<Rightarrow> None | i # _ \<Rightarrow> Some i)"

text \<open>The block the last segment of a path lives in.\<close>

fun locate_block :: "string list \<Rightarrow> string \<Rightarrow> string list \<Rightarrow> block \<Rightarrow> block edit" where
  "locate_block lines path [] b = Inr b"
| "locate_block lines path (segment # segments) b =
     (case find_key lines b segment of
        None \<Rightarrow> Inl (YamlEditError (CHR 0x27 # path @ [CHR 0x27] @ '': there is no '' @ CHR 0x27 # segment @ [CHR 0x27] @ '' section to edit''))
      | Some k \<Rightarrow>
          (let b' = block_at lines k in
           if strip (blk_inline b') \<noteq> [] \<and> \<not> is_empty_flow (blk_inline b')
           then Inl (YamlEditError (CHR 0x27 # path @ [CHR 0x27] @ '': '' @ CHR 0x27 # segment @ [CHR 0x27] @ '' is a value, not a section''))
           else locate_block lines path segments b'))"

definition locate :: "string list \<Rightarrow> string \<Rightarrow> (block \<times> string \<times> nat option) edit" where
  "locate lines path =
     (let segments = split_on (CHR ''.'') path in
      bindr (locate_block lines path (butlast segments) (root_block lines)) (\<lambda>b.
        Inr (b, last segments, find_key lines b (last segments))))"

section \<open>Items of a list\<close>

record item =
  itm_start :: nat
  itm_end :: nat
  itm_indent :: nat
  itm_value :: "(string \<times> yval) list"

definition deindented :: "string list \<Rightarrow> nat \<Rightarrow> string list" where
  "deindented item_lines indent =
     map (\<lambda>line. let body = (if length line > indent then drop indent line else strip line) in
                 if startswith body ''- '' then ''  '' @ drop 2 body else body) item_lines"

definition blanks :: "nat \<Rightarrow> string" where
  "blanks n = replicate n (CHR '' '')"

fun reindented :: "string list \<Rightarrow> nat \<Rightarrow> string list" where
  "reindented [] indent = []"
| "reindented (first # rest) indent =
     (blanks indent @ ''- '' @ drop 2 first)
     # map (\<lambda>line. if strip line \<noteq> [] then blanks indent @ line else line) rest"

definition slice :: "nat \<Rightarrow> nat \<Rightarrow> 'a list \<Rightarrow> 'a list" where
  "slice a b xs = take (b - a) (drop a xs)"

definition item_value :: "yaml \<Rightarrow> string list \<Rightarrow> nat \<Rightarrow> nat \<Rightarrow> nat \<Rightarrow> yval edit" where
  "item_value y lines start end indent =
     (case safe_load y (join nl (deindented (slice start end lines) indent)) of
        None \<Rightarrow> Inl YamlError | Some v \<Rightarrow> Inr v)"

definition starts_item :: "string \<Rightarrow> bool" where
  "starts_item line = startswith (lstrip line) ''- ''"

fun items_from :: "yaml \<Rightarrow> string list \<Rightarrow> string \<Rightarrow> nat \<Rightarrow> nat \<Rightarrow> nat list \<Rightarrow> item list edit" where
  "items_from y lines list_path end indent [] = Inr []"
| "items_from y lines list_path end indent (start # starts) =
     (let stop = trimmed_end lines start (case starts of [] \<Rightarrow> end | next # _ \<Rightarrow> next) in
      bindr (item_value y lines start stop indent) (\<lambda>v.
        case v of
          YMap m \<Rightarrow> bindr (items_from y lines list_path end indent starts) (\<lambda>items.
                      Inr (\<lparr>itm_start = start, itm_end = stop, itm_indent = indent, itm_value = m\<rparr> # items))
        | _ \<Rightarrow> Inl (YamlEditError (CHR 0x27 # list_path @ [CHR 0x27] @ '' holds plain values; these edits address items by name''))))"

definition list_items :: "yaml \<Rightarrow> string list \<Rightarrow> block \<Rightarrow> string \<Rightarrow> item list edit" where
  "list_items y lines b list_path =
     (if strip (blk_inline b) \<noteq> [] \<and> \<not> is_empty_flow (blk_inline b)
      then Inl (YamlEditError (CHR 0x27 # list_path @ [CHR 0x27] @ '' is written on one line; rewrite it as a block list (one '' @ [CHR 0x27] @ ''- name: ...'' @ [CHR 0x27] @ '' per line) before editing it here''))
      else let end = trimmed_end lines (blk_start b) (blk_end b) in
           case filter (\<lambda>i. \<not> is_skippable (lines ! i)) [blk_start b ..< end] of
             [] \<Rightarrow> Inr []
           | first # others \<Rightarrow>
               if \<not> starts_item (lines ! first)
               then Inl (YamlEditError (CHR 0x27 # list_path @ [CHR 0x27] @ '' is not a list; it holds '' @ CHR 0x27 # strip (lines ! first) @ [CHR 0x27]))
               else items_from y lines list_path end (nat (indent_of (lines ! first)))
                      (filter (\<lambda>i. indent_of (lines ! i) = indent_of (lines ! first) \<and> starts_item (lines ! i)) (first # others)))"

definition list_of :: "yaml \<Rightarrow> string list \<Rightarrow> string \<Rightarrow> (block \<times> item list) edit" where
  "list_of y lines list_path =
     bindr (locate lines list_path) (\<lambda>(_, _, k).
       case k of
         None \<Rightarrow> Inl (YamlEditError (CHR 0x27 # list_path @ [CHR 0x27] @ '': there is no such list in this file''))
       | Some k \<Rightarrow> bindr (list_items y lines (block_at lines k) list_path) (\<lambda>items. Inr (block_at lines k, items)))"

definition item_key :: "string \<Rightarrow> string" where
  "item_key list_path = (if list_path = ''connect_points'' then ''owner'' else ''name'')"

definition item_named :: "item list \<Rightarrow> string \<Rightarrow> string \<Rightarrow> item edit" where
  "item_named items name list_path =
     (case filter (\<lambda>it. map_of (itm_value it) (item_key list_path) = Some (YStr name)) items of
        [] \<Rightarrow> Inl (YamlEditError (CHR 0x27 # list_path @ [CHR 0x27] @ '' has no item named '' @ CHR 0x27 # name @ [CHR 0x27]))
      | it # _ \<Rightarrow> Inr it)"

section \<open>Writing the text\<close>

fun is_scalar :: "yval \<Rightarrow> bool" where
  "is_scalar (YList _) = False"
| "is_scalar (YMap _) = False"
| "is_scalar (YOther _ _ _) = False"
| "is_scalar _ = True"

definition scalar_text :: "yaml \<Rightarrow> yval \<Rightarrow> string" where
  "scalar_text y v = drop (length ''v: '') (rstrip_chars nl (dump_block y v))"

definition block_scalar :: "yval \<Rightarrow> string option" where
  "block_scalar v =
     (case v of
        YStr s \<Rightarrow> (let body = rstrip_chars nl (lstrip_chars nl s) in if CHR 0x0A \<in> set body then Some body else None)
      | _ \<Rightarrow> None)"

text \<open>"- " and the body of an item, all of it at an indent.\<close>

definition item_lines :: "nat \<Rightarrow> string list \<Rightarrow> string list edit" where
  "item_lines indent body =
     (case body of
        [] \<Rightarrow> Inl NoFirstLine
      | first # rest \<Rightarrow> Inr ((blanks indent @ ''- '' @ first) # map (\<lambda>line. blanks (indent + 2) @ line) rest))"

fun render_field :: "yaml \<Rightarrow> string \<Rightarrow> yval \<Rightarrow> string list edit"
  and render_mapping :: "yaml \<Rightarrow> (string \<times> yval) list \<Rightarrow> string list edit"
  and render_items :: "yaml \<Rightarrow> yval list \<Rightarrow> string list edit" where
  "render_field y key v =
     (case block_scalar v of
        Some body \<Rightarrow>
          Inr ((key @ '': |'') # map (\<lambda>line. let line = rstrip line in if line \<noteq> [] then ''  '' @ line else []) (splitlines body))
      | None \<Rightarrow>
          if is_scalar v then Inr [key @ '': '' @ scalar_text y v]
          else (case v of
             YList vs \<Rightarrow>
               if vs = [] then Inr [key @ '': []'']
               else if list_all is_scalar vs then Inr [key @ '': '' @ strip (dump_flow y vs)]
               else bindr (render_items y vs) (\<lambda>ls. Inr ((key @ '':'') # ls))
           | YMap m \<Rightarrow>
               if m = [] then Inr [key @ '': {}'']
               else bindr (render_mapping y m) (\<lambda>ls. Inr ((key @ '':'') # map (\<lambda>l. ''  '' @ l) ls))
           | YOther t _ _ \<Rightarrow> Inl (YamlEditError (CHR 0x27 # key @ [CHR 0x27] @ '': '' @ t @ '' is not something to write here''))
           | _ \<Rightarrow> Inr []))"
| "render_mapping y [] = Inr []"
| "render_mapping y ((k, v) # m) =
     bindr (render_field y k v) (\<lambda>ls. bindr (render_mapping y m) (\<lambda>rest. Inr (ls @ rest)))"
| "render_items y [] = Inr []"
| "render_items y (v # vs) =
     bindr (bindr (case v of YMap m \<Rightarrow> render_mapping y m | _ \<Rightarrow> Inr [scalar_text y v]) (item_lines 2)) (\<lambda>ls.
       bindr (render_items y vs) (\<lambda>rest. Inr (ls @ rest)))"

definition render_item :: "yaml \<Rightarrow> yval \<Rightarrow> nat \<Rightarrow> string list edit" where
  "render_item y v indent =
     bindr (case v of YMap m \<Rightarrow> render_mapping y m | _ \<Rightarrow> Inr [scalar_text y v]) (item_lines indent)"

definition spaced :: "string list \<Rightarrow> nat \<Rightarrow> int \<Rightarrow> string list \<Rightarrow> string list" where
  "spaced lines at_line indent rendered =
     (if indent = 0 \<and> at_line > 0 \<and> strip (lines ! (at_line - 1)) \<noteq> [] then [] # rendered else rendered)"

definition put_key :: "yaml \<Rightarrow> string list \<Rightarrow> block \<Rightarrow> string \<Rightarrow> yval \<Rightarrow> string list edit" where
  "put_key y lines b key v =
     (let indent = child_indent_of b in
      bindr (render_field y key v) (\<lambda>ls.
        let rendered = map (\<lambda>line. blanks (nat indent) @ line) ls in
        case find_key lines b key of
          None \<Rightarrow>
            (let at_line = trimmed_end lines (blk_start b) (blk_end b) in
             Inr (take at_line lines @ spaced lines at_line indent rendered @ drop at_line lines))
        | Some k \<Rightarrow>
            (let end = trimmed_end lines (k + 1) (blk_end (block_at lines k)) in
             Inr (take k lines @ rendered @ drop end lines))))"

section \<open>The edits\<close>

definition set_scalar :: "yaml \<Rightarrow> string \<Rightarrow> string \<Rightarrow> yval \<Rightarrow> string edit" where
  "set_scalar y content path v =
     (let lines = split_on (CHR 0x0A) content in
      bindr (locate lines path) (\<lambda>(parent, key, _).
      bindr (put_key y lines parent key v) (\<lambda>lines'. Inr (join nl lines'))))"

fun put_fields :: "yaml \<Rightarrow> (string \<times> yval) list \<Rightarrow> string list \<Rightarrow> string list edit" where
  "put_fields y [] fragment = Inr fragment"
| "put_fields y ((key, v) # kvs) fragment =
     bindr (put_key y fragment (root_block fragment) key v) (put_fields y kvs)"

definition patch_item :: "yaml \<Rightarrow> string \<Rightarrow> string \<Rightarrow> string \<Rightarrow> (string \<times> yval) list \<Rightarrow> string edit" where
  "patch_item y content list_path name kvs =
     (let lines = split_on (CHR 0x0A) content in
      bindr (list_of y lines list_path) (\<lambda>(_, items).
      bindr (item_named items name list_path) (\<lambda>it.
      bindr (put_fields y kvs (deindented (slice (itm_start it) (itm_end it) lines) (itm_indent it))) (\<lambda>fragment.
        Inr (join nl (take (itm_start it) lines @ reindented fragment (itm_indent it) @ drop (itm_end it) lines))))))"

definition remove_field :: "yaml \<Rightarrow> string \<Rightarrow> string \<Rightarrow> string \<Rightarrow> string \<Rightarrow> string edit" where
  "remove_field y content list_path name fld =
     (let lines = split_on (CHR 0x0A) content in
      bindr (list_of y lines list_path) (\<lambda>(_, items).
      bindr (item_named items name list_path) (\<lambda>it.
        let fragment = deindented (slice (itm_start it) (itm_end it) lines) (itm_indent it) in
        case find_key fragment (root_block fragment) fld of
          None \<Rightarrow> Inr content
        | Some 0 \<Rightarrow> Inl (YamlEditError (CHR 0x27 # list_path @ [CHR 0x27] @ '': '' @ CHR 0x27 # fld @ [CHR 0x27]
                     @ '' opens the item '' @ CHR 0x27 # name @ [CHR 0x27] @ '' and cannot be removed alone''))
        | Some k \<Rightarrow>
            (let end = trimmed_end fragment (k + 1) (blk_end (block_at fragment k));
                 fragment' = take k fragment @ drop end fragment in
             Inr (join nl (take (itm_start it) lines @ reindented fragment' (itm_indent it) @ drop (itm_end it) lines))))))"

text \<open>The comments above an item, the blank lines below it, and the seam that is left.\<close>

fun above_comments :: "string list \<Rightarrow> nat \<Rightarrow> nat \<Rightarrow> nat" where
  "above_comments lines low 0 = 0"
| "above_comments lines low (Suc s) =
     (if Suc s > low \<and> is_comment (lines ! s) then above_comments lines low s else Suc s)"

function below_blanks :: "string list \<Rightarrow> nat \<Rightarrow> nat \<Rightarrow> nat" where
  "below_blanks lines high e =
     (if e < high \<and> strip (lines ! e) = [] then below_blanks lines high (Suc e) else e)"
  by pat_completeness auto
termination by (relation "measure (\<lambda>(lines, high, e). high - e)") auto

function close_seam :: "nat \<Rightarrow> string list \<Rightarrow> string list" where
  "close_seam s lines =
     (if s > 0 \<and> s < length lines \<and> strip (lines ! (s - 1)) = [] \<and> strip (lines ! s) = []
      then close_seam s (take s lines @ drop (Suc s) lines) else lines)"
  by pat_completeness auto
termination by (relation "measure (\<lambda>(s, lines). length lines)") auto

declare below_blanks.simps [simp del] close_seam.simps [simp del]

text \<open>\<open>line[:line.index(":") + 1]\<close> of a key line.\<close>

definition to_colon :: "string \<Rightarrow> string" where
  "to_colon line = takeWhile (\<lambda>c. c \<noteq> CHR '':'') line @ '':''"

definition remove_item :: "yaml \<Rightarrow> string \<Rightarrow> string \<Rightarrow> string \<Rightarrow> string edit" where
  "remove_item y content list_path name =
     (let lines = split_on (CHR 0x0A) content in
      bindr (list_of y lines list_path) (\<lambda>(b, items).
      bindr (item_named items name list_path) (\<lambda>it.
        let list_end = trimmed_end lines (blk_start b) (blk_end b);
            start = above_comments lines (blk_start b) (itm_start it);
            end = below_blanks lines list_end (itm_end it);
            lines' = close_seam start (take start lines @ drop end lines);
            k = nat (key_line b) in
        Inr (join nl (if length items = 1 then lines'[k := to_colon (lines' ! k) @ '' []''] else lines')))))"

definition append_item :: "yaml \<Rightarrow> string \<Rightarrow> string \<Rightarrow> yval \<Rightarrow> string \<Rightarrow> string edit" where
  "append_item y content list_path v comment =
     (let lines = split_on (CHR 0x0A) content in
      bindr (locate lines list_path) (\<lambda>(parent, key, k).
        case k of
          None \<Rightarrow>
            (let indent = nat (child_indent_of parent);
                 noted = (if comment \<noteq> [] then [blanks indent @ ''# '' @ comment] else []);
                 at_line = trimmed_end lines (blk_start parent) (blk_end parent) in
             bindr (render_item y v (indent + 2)) (\<lambda>ls.
               let rendered = noted @ [blanks indent @ key @ '':''] @ ls in
               Inr (join nl (take at_line lines @ spaced lines at_line (child_indent_of parent) rendered @ drop at_line lines))))
        | Some k \<Rightarrow>
            (let b = block_at lines k in
             bindr (list_items y lines b list_path) (\<lambda>items.
               let indent = (case items of it # _ \<Rightarrow> itm_indent it | [] \<Rightarrow> nat (child_indent_of b));
                   noted = (if comment \<noteq> [] then [blanks indent @ ''# '' @ comment] else []) in
               bindr (render_item y v indent) (\<lambda>ls.
                 let rendered = noted @ ls in
                 if items = [] \<and> is_empty_flow (blk_inline b)
                 then Inr (join nl (take k lines @ [to_colon (lines ! k)] @ rendered @ drop (k + 1) lines))
                 else let at_line = trimmed_end lines (blk_start b) (blk_end b) in
                      Inr (join nl (take at_line lines @ rendered @ drop at_line lines)))))))"

end
