(* ===== verification/AppIdentity.thy ===== *)
theory AppIdentity
  imports AppModel
begin

text \<open>
  What a project declares about its edge, its login and its monitor, \<open>synqt/appmodel.py\<close> from the edge's
  policy to the client secret, with the provider templates of \<open>synqt/addauth.py\<close> it fills in: the settings
  blocks, the refusals of values this version cannot generate, and the connect points the auth entity
  and the monitor imply.
\<close>

section \<open>The edge's policy\<close>

definition security_settings :: "pydict \<Rightarrow> pydict" where
  "security_settings config = block_of (get config ''security'')"

definition public_settings :: "pydict \<Rightarrow> pydict" where
  "public_settings entity = block_of (get entity ''public'')"

definition web_edges :: "pydict \<Rightarrow> pydict list app" where
  "web_edges config = bindr (entities config) (\<lambda>es. Inr (filter is_edge es))"

text \<open>The first of the edges' values of a \<open>public:\<close> key that is a string and not blank, stripped.\<close>

definition first_public :: "string \<Rightarrow> pydict list \<Rightarrow> string option" where
  "first_public key edges = List.find (\<lambda>t. t \<noteq> []) (map (\<lambda>e. stripped_text (get (public_settings e) key)) edges)"

definition sync_route :: "pydict \<Rightarrow> string app" where
  "sync_route config =
     bindr (web_edges config) (\<lambda>es. Inr (case first_public ''sync_route'' es of Some r \<Rightarrow> r | None \<Rightarrow> ''/sync''))"

definition client_route :: "pydict \<Rightarrow> string app" where
  "client_route config =
     bindr (web_edges config) (\<lambda>es. Inr (case first_public ''client_route'' es of Some r \<Rightarrow> r | None \<Rightarrow> ''/''))"

definition public_origin :: "pydict \<Rightarrow> string app" where
  "public_origin config =
     bindr (web_edges config) (\<lambda>es. Inr (case first_public ''origin'' es of Some r \<Rightarrow> rstrip_chars ''/'' r | None \<Rightarrow> []))"

definition serves_client :: "pydict \<Rightarrow> bool app" where
  "serves_client config =
     bindr (web_edges config) (\<lambda>es. Inr (\<not> list_ex (\<lambda>e. get (public_settings e) ''serve_client'' = YBool False) es))"

definition DEFAULT_PUBLIC_PORT :: int where
  "DEFAULT_PUBLIC_PORT = 8443"

definition public_port :: "pydict \<Rightarrow> int app" where
  "public_port entity =
     (let declared = get (public_settings entity) ''port'' in
      py_int (if truthy declared then declared else YInt DEFAULT_PUBLIC_PORT))"

definition proxy_list :: "pydict \<Rightarrow> string \<Rightarrow> string list app" where
  "proxy_list settings place =
     (case get settings ''trusted_proxies'' of
        YNull \<Rightarrow> Inr []
      | YList entries \<Rightarrow> Inr (map py_str entries)
      | declared \<Rightarrow> Inl (AppGenError (place @ '' must be a list of addresses or CIDR ranges, not '' @ py_repr declared)))"

definition trusted_proxies :: "pydict \<Rightarrow> string list app" where
  "trusted_proxies entity = proxy_list (public_settings entity) ''public.trusted_proxies''"

definition inbound_trusted_proxies :: "pydict \<Rightarrow> string list app" where
  "inbound_trusted_proxies entity = proxy_list (inbound_settings entity) ''network.inbound.trusted_proxies''"

text \<open>A whole number of 1 or more; a boolean is not one, though Python counts it among the integers.\<close>

definition count_of :: "string \<Rightarrow> yval \<Rightarrow> int app" where
  "count_of key declared =
     (case declared of
        YNull \<Rightarrow> Inr 1
      | YInt n \<Rightarrow> if n < 1 then Inl (AppGenError (key @ '' must be a whole number of 1 or more, not '' @ py_repr declared)) else Inr n
      | _ \<Rightarrow> Inl (AppGenError (key @ '' must be a whole number of 1 or more, not '' @ py_repr declared)))"

definition replicas :: "pydict \<Rightarrow> int app" where
  "replicas entity = count_of ''replicas'' (get entity ''replicas'')"

definition threads :: "pydict \<Rightarrow> int app" where
  "threads entity = count_of ''threads'' (get entity ''threads'')"

definition tls_settings :: "pydict \<Rightarrow> pydict" where
  "tls_settings entity = block_of (get entity ''tls'')"

definition env_file :: "pydict \<Rightarrow> string" where
  "env_file entity =
     (let path = stripped_text (get (block_of (get entity ''env'')) ''file'') in
      if path \<noteq> [] then path
      else if truthy (get entity ''name'') then entity_dir entity @ ''/.env'' else [])"

definition origin_model :: "pydict \<Rightarrow> string" where
  "origin_model config = stripped_text (get (block_of (get config ''project'')) ''origin_model'')"

definition SESSION_TRANSPORTS :: "string list" where
  "SESSION_TRANSPORTS = [''cookie'']"

definition session_transport :: "pydict \<Rightarrow> string app" where
  "session_transport config =
     (case get (security_settings config) ''session_transport'' of
        YNull \<Rightarrow> Inr []
      | declared \<Rightarrow>
          (let transport = strip (py_str declared) in
           if transport \<notin> set SESSION_TRANSPORTS
           then Inl (AppGenError (''security.session_transport: '' @ repr_str transport @ '' is not supported; this version ''
             @ ''carries the session in the httpOnly cookie ('' @ repr_str ''cookie'' @ ''). A subprotocol token ''
             @ ''cannot be built on Qt 6.12: the edge'' @ CHR 0x27 # ''s upgrade verifier has no way to select ''
             @ ''the subprotocol it must echo, so Chromium refuses the handshake outright. ''
             @ ''A native client that already holds a session presents it on the handshake ''
             @ ''instead (SynClientConfig::sessionCookie).''))
           else Inr transport))"

section \<open>Privacy\<close>

definition privacy_settings :: "pydict \<Rightarrow> pydict" where
  "privacy_settings config = block_of (get config ''privacy'')"

definition DEFAULT_RETENTION_DAYS :: int where
  "DEFAULT_RETENTION_DAYS = 730"

definition retention_days :: "pydict \<Rightarrow> int" where
  "retention_days config =
     (case get (privacy_settings config) ''retention_days'' of
        YInt n \<Rightarrow> if n \<le> 0 then DEFAULT_RETENTION_DAYS else n
      | _ \<Rightarrow> DEFAULT_RETENTION_DAYS)"

definition cookie_categories :: "pydict \<Rightarrow> string list" where
  "cookie_categories config =
     (case get (privacy_settings config) ''cookies'' of
        YList items \<Rightarrow> map py_str (filter (\<lambda>item. stripped_text item \<noteq> []) items)
      | _ \<Rightarrow> [])"

definition erasure_offered :: "pydict \<Rightarrow> bool" where
  "erasure_offered config \<longleftrightarrow> get (privacy_settings config) ''erasure'' = YBool True"

section \<open>Providers\<close>

definition identity_settings :: "pydict \<Rightarrow> pydict" where
  "identity_settings config = block_of (get config ''identity'')"

definition secret_env :: "string \<Rightarrow> string" where
  "secret_env provider = replace_char (CHR ''-'') (CHR ''_'') (map to_upper provider) @ ''_CLIENT_SECRET''"

definition TEMPLATED_PROVIDERS :: "string list" where
  "TEMPLATED_PROVIDERS = [''github'', ''google'']"

definition provider_template :: "string \<Rightarrow> pydict" where
  "provider_template provider =
     (let secret_ref = YStr (''env:'' @ secret_env provider) in
      if provider = ''github'' then
        [(''name'', YStr ''github''),
         (''authorize_url'', YStr ''https://github.com/login/oauth/authorize''),
         (''token_url'', YStr ''https://github.com/login/oauth/access_token''),
         (''userinfo_url'', YStr ''https://api.github.com/user''),
         (''emails_url'', YStr ''https://api.github.com/user/emails''),
         (''scopes'', YList [YStr ''read:user'', YStr ''user:email'']),
         (''client_id'', YStr ''your-github-client-id''),
         (''client_secret'', secret_ref),
         (''sub_field'', YStr ''id'')]
      else if provider = ''google'' then
        [(''name'', YStr ''google''),
         (''authorize_url'', YStr ''https://accounts.google.com/o/oauth2/v2/auth''),
         (''token_url'', YStr ''https://oauth2.googleapis.com/token''),
         (''jwks_url'', YStr ''https://www.googleapis.com/oauth2/v3/certs''),
         (''issuer'', YStr ''https://accounts.google.com''),
         (''use_id_token'', YBool True),
         (''scopes'', YList [YStr ''openid'', YStr ''email'', YStr ''profile'']),
         (''client_id'', YStr ''your-google-client-id''),
         (''client_secret'', secret_ref)]
      else
        [(''name'', YStr provider),
         (''authorize_url'', YStr (''https://'' @ provider @ ''.example/authorize'')),
         (''token_url'', YStr (''https://'' @ provider @ ''.example/token'')),
         (''jwks_url'', YStr (''https://'' @ provider @ ''.example/.well-known/jwks.json'')),
         (''issuer'', YStr (''https://'' @ provider @ ''.example'')),
         (''use_id_token'', YBool True),
         (''scopes'', YList [YStr ''openid'', YStr ''email'', YStr ''profile'']),
         (''client_id'', YStr (''your-'' @ provider @ ''-client-id'')),
         (''client_secret'', secret_ref)])"

definition DEV_STUB_PORT :: int where
  "DEV_STUB_PORT = 8789"

definition DEV_STUB_SECRET_VARIABLE :: string where
  "DEV_STUB_SECRET_VARIABLE = ''SYNQT_DEV_CLIENT_SECRET''"

definition DEV_STUB_DEFAULT_USER :: pydict where
  "DEV_STUB_DEFAULT_USER =
     [(''sub'', YStr ''dev''), (''login'', YStr ''dev''), (''name'', YStr ''Developer''), (''email'', YStr ''dev@localhost'')]"

definition DEV_STUB_USER_FIELDS :: "string list" where
  "DEV_STUB_USER_FIELDS = [''sub'', ''login'', ''name'', ''email'']"

definition identity_dev_stub :: "pydict \<Rightarrow> pydict" where
  "identity_dev_stub config = block_of (get (identity_settings config) ''dev_stub'')"

text \<open>\<open>not in (None, False)\<close>, where 0 equals \<open>False\<close>.\<close>

definition has_dev_stub :: "pydict \<Rightarrow> bool" where
  "has_dev_stub config =
     (case get (identity_settings config) ''dev_stub'' of
        YNull \<Rightarrow> False | YBool b \<Rightarrow> b | YInt n \<Rightarrow> n \<noteq> 0 | YFloat r i \<Rightarrow> truthy (YFloat r i) | _ \<Rightarrow> True)"

definition dev_stub_port :: "pydict \<Rightarrow> int app" where
  "dev_stub_port config =
     (case py_int (get (identity_dev_stub config) ''port'') of
        Inr port \<Rightarrow> Inr (if 1 \<le> port \<and> port \<le> 65535 then port else DEV_STUB_PORT)
      | Inl TypeError \<Rightarrow> Inr DEV_STUB_PORT
      | Inl ValueError \<Rightarrow> Inr DEV_STUB_PORT
      | Inl e \<Rightarrow> Inl e)"

definition dev_stub_user :: "pydict \<Rightarrow> pydict" where
  "dev_stub_user entry =
     map (\<lambda>f. (f, YStr (py_str (get entry f)))) (filter (\<lambda>f. get entry f \<noteq> YNull) DEV_STUB_USER_FIELDS)"

definition dev_stub_users :: "pydict \<Rightarrow> pydict list" where
  "dev_stub_users config =
     (case get (identity_dev_stub config) ''users'' of
        YList declared \<Rightarrow>
          (let users = filter (\<lambda>u. u \<noteq> []) (map dev_stub_user (dicts declared)) in
           if users \<noteq> [] then users else [DEV_STUB_DEFAULT_USER])
      | _ \<Rightarrow> [DEV_STUB_DEFAULT_USER])"

definition dev_stub_provider :: "pydict \<Rightarrow> pydict app" where
  "dev_stub_provider config =
     bindr (dev_stub_port config) (\<lambda>port.
       let base = ''http://127.0.0.1:'' @ dec_int port in
       Inr [(''name'', YStr ''dev''),
            (''dev_stub'', YBool True),
            (''authorize_url'', YStr (base @ ''/authorize'')),
            (''token_url'', YStr (base @ ''/token'')),
            (''userinfo_url'', YStr (base @ ''/userinfo'')),
            (''jwks_url'', YStr (base @ ''/jwks'')),
            (''issuer'', YStr base),
            (''use_id_token'', YBool True),
            (''scopes'', YList [YStr ''openid'', YStr ''email'', YStr ''profile'']),
            (''client_id'', YStr ''synqt-dev''),
            (''client_secret'', YStr (''env:'' @ DEV_STUB_SECRET_VARIABLE)),
            (''sub_field'', YStr ''sub'')])"

definition resolved_provider :: "pydict \<Rightarrow> pydict" where
  "resolved_provider entry =
     (case get entry ''name'' of
        YStr name \<Rightarrow> if name \<in> set TEMPLATED_PROVIDERS then dict_update (provider_template name) entry else entry
      | _ \<Rightarrow> entry)"

definition identity_providers :: "pydict \<Rightarrow> pydict list app" where
  "identity_providers config =
     (let declared = (case get (identity_settings config) ''providers'' of YList ps \<Rightarrow> map resolved_provider (dicts ps) | _ \<Rightarrow> []) in
      if has_dev_stub config then bindr (dev_stub_provider config) (\<lambda>dev. Inr (declared @ [dev])) else Inr declared)"

definition identity_enabled :: "pydict \<Rightarrow> pydict \<Rightarrow> bool app" where
  "identity_enabled config entity =
     bindr (identity_providers config) (\<lambda>ps. Inr (ps \<noteq> [] \<and> get entity ''identity'' \<noteq> YBool False))"

definition client_secret_variable :: "pydict \<Rightarrow> string app" where
  "client_secret_variable provider =
     (let name = py_str (get_or provider ''name'' (YStr ''?''));
          secret = stripped_text (get provider ''client_secret'') in
      if secret = [] then Inl (AppGenError (''identity provider '' @ CHR 0x27 # name @ CHR 0x27 # '' has no client_secret; the ''
        @ ''edge cannot exchange the authorization code without it''))
      else if \<not> startswith secret ''env:'' then Inl (AppGenError (''identity provider '' @ CHR 0x27 # name @ CHR 0x27 # '' has a literal ''
        @ ''client_secret; it must be an env: reference (e.g. env:GITHUB_CLIENT_SECRET) ''
        @ ''so the secret lives in the edge environment and never in synqt.yaml or the ''
        @ ''generated binary''))
      else Inr (drop 4 secret))"

section \<open>The login\<close>

text \<open>A setting that is one word of a list, its default where it is absent.\<close>

definition one_of :: "string \<Rightarrow> (string \<Rightarrow> string) \<Rightarrow> string list \<Rightarrow> yval \<Rightarrow> string app" where
  "one_of undeclared message words declared =
     (case declared of
        YNull \<Rightarrow> Inr undeclared
      | _ \<Rightarrow> (let word = strip (py_str declared) in
              if word \<notin> set words then Inl (AppGenError (message word)) else Inr word))"

definition IDENTITY_FLOWS :: "string list" where
  "IDENTITY_FLOWS = [''authorization_code'']"

definition identity_flow :: "pydict \<Rightarrow> string app" where
  "identity_flow config =
     one_of [] (\<lambda>flow. ''identity.flow: '' @ repr_str flow @ '' is not supported; the edge runs the server-side ''
                @ ''Authorization Code flow with PKCE ('' @ repr_str ''authorization_code'' @ '')'')
       IDENTITY_FLOWS (get (identity_settings config) ''flow'')"

definition identity_mapping_hook :: "pydict \<Rightarrow> string" where
  "identity_mapping_hook config =
     (case get (identity_settings config) ''mapping'' of
        YStr mapping \<Rightarrow> strip mapping
      | YMap mapping \<Rightarrow> stripped_text (get mapping ''hook'')
      | _ \<Rightarrow> [])"

definition identity_session :: "pydict \<Rightarrow> pydict" where
  "identity_session config = block_of (get (identity_settings config) ''session'')"

definition DESKTOP_SESSIONS :: "string list" where
  "DESKTOP_SESSIONS = [''memory'', ''device'']"

definition DEVICE_BINDINGS :: "string list" where
  "DEVICE_BINDINGS = [''user'', ''application'', ''hardware'']"

definition desktop_session :: "pydict \<Rightarrow> string app" where
  "desktop_session config =
     one_of ''memory'' (\<lambda>session. ''identity.desktop_session: '' @ repr_str session @ '' is not one of ''
                @ join '', '' DESKTOP_SESSIONS @ ''. '' @ repr_str ''memory'' @ '' signs a desktop visitor in once per ''
                @ ''launch; '' @ repr_str ''device'' @ '' keeps a rotating credential in the OS secure store.'')
       DESKTOP_SESSIONS (get (identity_settings config) ''desktop_session'')"

definition device_settings :: "pydict \<Rightarrow> pydict" where
  "device_settings config = block_of (get (identity_settings config) ''device'')"

definition device_store :: "pydict \<Rightarrow> pydict" where
  "device_store config = block_of (get (device_settings config) ''store'')"

definition device_min_binding :: "pydict \<Rightarrow> string app" where
  "device_min_binding config =
     one_of ''user'' (\<lambda>binding. ''identity.device.min_binding: '' @ repr_str binding @ '' is not one of ''
                @ join '', '' DEVICE_BINDINGS @ ''.'')
       DEVICE_BINDINGS (get (device_settings config) ''min_binding'')"

definition identity_refresh :: "pydict \<Rightarrow> pydict" where
  "identity_refresh config = block_of (get (identity_settings config) ''refresh'')"

definition provider_entity :: "pydict \<Rightarrow> string" where
  "provider_entity config = stripped_text (get (identity_settings config) ''provider_entity'')"

section \<open>Libraries and licences\<close>

definition SERVICE_LIBRARIES :: "(string \<times> string) list" where
  "SERVICE_LIBRARIES =
     [(''SynQtService'', ''src/service''), (''SynQtIdentity'', ''src/identity''), (''SynQtEdge'', ''src/edge''),
      (''SynQtGateway'', ''src/gateway''), (''SynQtMonitor'', ''src/monitor'')]"

definition LIBRARY_GPL_MODULES :: "(string \<times> string list) list" where
  "LIBRARY_GPL_MODULES =
     [(''SynQtService'', []),
      (''SynQtIdentity'', [''Qt Network Authorization'']),
      (''SynQtEdge'', [''Qt Network Authorization'', ''Qt HTTP Server'']),
      (''SynQtGateway'', [''Qt HTTP Server'']),
      (''SynQtMonitor'', [''Qt Network Authorization'', ''Qt HTTP Server''])]"

definition service_libraries :: "pydict \<Rightarrow> pydict \<Rightarrow> string list" where
  "service_libraries config entity =
     [if entity_type entity = ''monitor'' then ''SynQtMonitor''
      else if is_edge entity then ''SynQtEdge''
      else if truthy (get entity ''name'') \<and> get entity ''name'' = YStr (provider_entity config) then ''SynQtIdentity''
      else ''SynQtService'']
     @ (if serves_inbound entity \<and> \<not> is_edge entity then [''SynQtGateway''] else [])"

section \<open>The links the framework implies\<close>

definition is_framework_point :: "pydict \<Rightarrow> bool" where
  "is_framework_point point \<longleftrightarrow> truthy (get point ''framework'')"

definition app_points :: "pydict list \<Rightarrow> pydict list" where
  "app_points points = filter (\<lambda>cp. \<not> is_framework_point cp) points"

definition AUTH_POINTS :: "(string \<times> string) list" where
  "AUTH_POINTS = [(''identity'', ''Identity''), (''sessions'', ''SessionStore'')]"

text \<open>\<open>next((e for e in entities if e.get("name") == owner), default)\<close>.\<close>

definition owning_entity :: "pydict list \<Rightarrow> string \<Rightarrow> pydict \<Rightarrow> pydict" where
  "owning_entity es owner missing =
     (case List.find (\<lambda>e. get e ''name'' = YStr owner) es of Some e \<Rightarrow> e | None \<Rightarrow> missing)"

text \<open>The names that are not empty, of the entities a test holds for.\<close>

definition names_where :: "(pydict \<Rightarrow> bool) \<Rightarrow> pydict list \<Rightarrow> yval list" where
  "names_where p es = filter truthy (map (\<lambda>e. get e ''name'') (filter p es))"

definition framework_point :: "string \<Rightarrow> string \<Rightarrow> string \<Rightarrow> yval list \<Rightarrow> pydict \<Rightarrow> pydict \<Rightarrow> pydict" where
  "framework_point name contract owner consumers extra owning =
     [(''name'', YStr name), (''contract'', YStr contract), (''owner'', YStr owner), (''consumers'', YList consumers)]
     @ extra @ [(''server'', YStr (GENERATED_DIR @ ''/'' @ source_path owning contract)), (''framework'', YBool True)]"

definition auth_connect_points :: "pydict \<Rightarrow> pydict list app" where
  "auth_connect_points config =
     (let owner = provider_entity config in
      if owner = [] then Inr [] else
      bindr (identity_providers config) (\<lambda>providers. if providers = [] then Inr [] else
      bindr (entities config) (\<lambda>es.
      bindr (connect_points config) (\<lambda>cps.
        let consumers = names_where (\<lambda>e. is_edge e \<and> get e ''identity'' \<noteq> YBool False) es in
        Inr (map (\<lambda>(name, contract). framework_point name contract owner consumers [] (owning_entity es owner [(''name'', YStr owner)]))
               (filter (\<lambda>(name, _). name \<notin> point_name ` set cps) AUTH_POINTS))))))"

definition append_points :: "pydict \<Rightarrow> pydict list \<Rightarrow> pydict app" where
  "append_points config extra =
     (if extra = [] then Inr config
      else bindr (connect_points config) (\<lambda>cps. Inr (AList.update ''connect_points'' (YList (map YMap (cps @ extra))) config)))"

definition with_auth_connect_points :: "pydict \<Rightarrow> pydict app" where
  "with_auth_connect_points config = bindr (auth_connect_points config) (append_points config)"

definition monitor_entity :: "pydict \<Rightarrow> string" where
  "monitor_entity config = stripped_text (get (block_of (get config ''monitoring'')) ''entity'')"

definition monitor_watches :: "pydict \<Rightarrow> bool" where
  "monitor_watches entity \<longleftrightarrow> truthy (get entity ''console'')"

definition monitoring_connect_points :: "pydict \<Rightarrow> pydict list app" where
  "monitoring_connect_points config =
     (let owner = monitor_entity config in
      if owner = [] then Inr [] else
      bindr (entities config) (\<lambda>es.
      bindr (connect_points config) (\<lambda>cps.
        let owning = owning_entity es owner [(''name'', YStr owner), (''type'', YStr ''monitor'')];
            consumers = names_where (\<lambda>e. \<not> is_client e \<and> get e ''name'' \<noteq> YStr owner) es;
            watchers = names_where (\<lambda>e. is_client e \<and> monitor_watches e) es;
            declared = point_name ` set cps in
        Inr ((if ''ingest'' \<notin> declared then [framework_point ''ingest'' ''Ingest'' owner consumers [] owning] else [])
             @ (if watchers \<noteq> [] \<and> ''console'' \<notin> declared
                then [framework_point ''console'' ''Console'' owner watchers [(''scope'', YStr ''operator'')] owning] else [])))))"

definition with_monitoring_connect_points :: "pydict \<Rightarrow> pydict app" where
  "with_monitoring_connect_points config = bindr (monitoring_connect_points config) (append_points config)"

text \<open>Both kinds of implied links, in the order every reader of the whole topology adds them.\<close>

definition with_implied_points :: "pydict \<Rightarrow> pydict app" where
  "with_implied_points config = bindr (with_auth_connect_points config) with_monitoring_connect_points"

definition TRACE_SEVERITIES :: "string list" where
  "TRACE_SEVERITIES = [''trace'', ''debug'', ''info'', ''warning'', ''error'', ''fatal'', ''off'']"

definition TRACE_CATEGORIES :: "string list" where
  "TRACE_CATEGORIES = [''lifecycle'', ''transport'', ''authorization'', ''call'', ''data'', ''application'']"

definition trace_levels :: "pydict \<Rightarrow> (string \<times> string) list" where
  "trace_levels config =
     map (map_prod id py_str) (block_of (get (block_of (get config ''monitoring'')) ''levels''))"

end
