(* ===== verification/AppRoutes.thy ===== *)
theory AppRoutes
  imports AppIdentity
begin

text \<open>
  Routes, views and the QML files a client compiles in, the last part of \<open>synqt/appmodel.py\<close>. A
  directory is given by the relative paths below it, each the list of its parts.
\<close>

section \<open>Paths\<close>

text \<open>\<open>PurePosixPath\<close>: its root, its parts below the root, and \<open>as_posix\<close>.\<close>

definition posix_root :: "string \<Rightarrow> string" where
  "posix_root s =
     (if startswith s ''//'' \<and> \<not> startswith s ''///'' then ''//'' else if startswith s ''/'' then ''/'' else [])"

definition posix_parts :: "string \<Rightarrow> string list" where
  "posix_parts s = filter (\<lambda>p. p \<noteq> [] \<and> p \<noteq> ''.'') (split_on (CHR ''/'') s)"

definition as_posix :: "string \<Rightarrow> string" where
  "as_posix s =
     (let path = posix_root s @ join ''/'' (posix_parts s) in if path = [] then ''.'' else path)"

definition view_file_name :: "string \<Rightarrow> string" where
  "view_file_name view =
     (let name = strip view;
          name = (if endswith name ''.qml'' then name else name @ ''.qml'') in
      as_posix (replace_char (CHR 0x5C) (CHR ''/'') name))"

definition drive_rooted :: "string \<Rightarrow> bool" where
  "drive_rooted name \<longleftrightarrow>
     (case name of
        d # c # s # _ \<Rightarrow> (is_lower d \<or> is_upper d) \<and> c = CHR '':'' \<and> (s = CHR 0x5C \<or> s = CHR ''/'')
      | _ \<Rightarrow> False)"

definition view_escapes_client_directory :: "string \<Rightarrow> bool" where
  "view_escapes_client_directory view \<longleftrightarrow>
     (let name = view_file_name view in
      posix_root name \<noteq> [] \<or> ''..'' \<in> set (posix_parts name) \<or> drive_rooted name)"

definition normalize_route_path :: "string \<Rightarrow> string" where
  "normalize_route_path path = ''/'' @ join ''/'' (filter (\<lambda>s. s \<noteq> []) (split_on (CHR ''/'') path))"

definition view_file :: "string \<Rightarrow> yval \<Rightarrow> string app" where
  "view_file view route_path =
     (if view_escapes_client_directory view
      then Inl (AppGenError ((if route_path \<noteq> YNull then ''route '' @ py_repr route_path @ '' '' else [])
             @ ''names view '' @ repr_str view @ '': a view is named relative to the ''
             @ ''client entity'' @ CHR 0x27 # ''s directory, so it cannot be an absolute or ''
             @ ''parent path''))
      else Inr (view_file_name view))"

section \<open>Routes\<close>

definition is_remote_route :: "pydict \<Rightarrow> bool" where
  "is_remote_route route \<longleftrightarrow>
     stripped_text (get route ''remote'') \<noteq> [] \<and> stripped_text (get route ''view'') = []"

definition route_view :: "pydict \<Rightarrow> string app" where
  "route_view route =
     (if is_remote_route route then Inr []
      else case get route ''view'' of
        YStr view \<Rightarrow>
          if strip view = []
          then Inl (AppGenError (''route '' @ py_repr (get route ''path'') @ '' declares no view; there is nothing for the router to show there''))
          else view_file view (get route ''path'')
      | _ \<Rightarrow> Inl (AppGenError (''route '' @ py_repr (get route ''path'') @ '' declares no view; there is nothing for the router to show there'')))"

definition routes_for :: "pydict \<Rightarrow> pydict option \<Rightarrow> pydict list app" where
  "routes_for config entity =
     (case map_option (\<lambda>e. get e ''routes'') entity of
        Some (YList own) \<Rightarrow> Inr (dicts own)
      | _ \<Rightarrow> bindr (py_iter (or_empty (get config ''routes''))) (\<lambda>rs. Inr (dicts rs)))"

definition gather :: "pydict list \<Rightarrow> pydict \<Rightarrow> pydict list" where
  "gather gathered route =
     (if list_ex (\<lambda>r. py_eq (YMap r) (YMap route)) gathered then gathered else gathered @ [route])"

definition all_routes :: "pydict \<Rightarrow> pydict list app" where
  "all_routes config =
     bindr (entities config) (\<lambda>es.
       case filter is_client es of
         [] \<Rightarrow> routes_for config None
       | clients \<Rightarrow> bindr (mapr (\<lambda>c. routes_for config (Some c)) clients) (\<lambda>tables. Inr (foldl gather [] (concat tables))))"

definition route_views :: "pydict \<Rightarrow> pydict option \<Rightarrow> string list app" where
  "route_views config entity =
     bindr (routes_for config entity) (\<lambda>routes.
     bindr (mapr route_view (filter (\<lambda>r. \<not> is_remote_route r) routes)) (\<lambda>names.
       Inr (foldl add_new [] (filter (\<lambda>n. n \<noteq> ''Main.qml'') names))))"

section \<open>The QML files of an entity\<close>

text \<open>\<open>^[ \t]*pragma[ \t]+(?:Singleton|Shared)\b\<close> at the start of a line.\<close>

definition singleton_line :: "string \<Rightarrow> bool" where
  "singleton_line line \<longleftrightarrow>
     (let blank = (\<lambda>c. c = CHR '' '' \<or> c = CHR 0x09);
          rest = dropWhile blank line;
          gap = takeWhile blank (drop 6 rest); word = dropWhile blank (drop 6 rest) in
      startswith rest ''pragma'' \<and> gap \<noteq> [] \<and>
      list_ex (\<lambda>w. startswith word w \<and> (drop (length w) word = [] \<or> \<not> word_char (hd (drop (length w) word))))
        [''Singleton'', SHARED_PRAGMA])"

text \<open>A file by its text, \<open>None\<close> where there is no file.\<close>

definition declares_singleton :: "string option \<Rightarrow> bool" where
  "declares_singleton qml_file =
     (case qml_file of None \<Rightarrow> False | Some source \<Rightarrow> list_ex singleton_line (split_on (CHR 0x0A) source))"

text \<open>A directory by what it holds, the names with the text of those that are files.\<close>

definition discover_singletons :: "(string \<times> string option) list option \<Rightarrow> string list" where
  "discover_singletons directory =
     (case directory of
        None \<Rightarrow> []
      | Some entries \<Rightarrow>
          map path_stem (filter (\<lambda>n. declares_singleton (case map_of entries n of Some f \<Rightarrow> f | None \<Rightarrow> None))
            (sort (filter (\<lambda>n. endswith n ''.qml'') (map fst entries)))))"

definition NOT_CLIENT_SOURCE_DIRS :: "string list" where
  "NOT_CLIENT_SOURCE_DIRS = [''build'', ''generated'', ''CMakeFiles'', ''node_modules'']"

fun refuse_shadowed :: "(string \<times> string) list \<Rightarrow> string list \<Rightarrow> unit app" where
  "refuse_shadowed seen [] = Inr ()"
| "refuse_shadowed seen (name # names) =
     (case map_of seen (path_stem name) of
        Some first \<Rightarrow> Inl (AppGenError (''the client'' @ CHR 0x27 # ''s QML module would hold two '' @ CHR 0x27 # path_stem name
          @ CHR 0x27 # '' types, from '' @ CHR 0x27 # first @ CHR 0x27 # '' and '' @ CHR 0x27 # name
          @ CHR 0x27 # '': Qt names a QML type after the file whatever directory ''
          @ ''it sits in, so one would silently shadow the other; rename one of them''))
      | None \<Rightarrow> refuse_shadowed ((path_stem name, name) # seen) names)"

definition refuse_shadowed_type_names :: "string list \<Rightarrow> unit app" where
  "refuse_shadowed_type_names names = refuse_shadowed [] names"

definition client_source :: "string list \<Rightarrow> bool" where
  "client_source parts \<longleftrightarrow>
     parts \<noteq> [] \<and> endswith (last parts) ''.qml'' \<and> \<not> list_ex (\<lambda>p. startswith p ''.'') parts \<and>
     \<not> list_ex (\<lambda>p. p \<in> set NOT_CLIENT_SOURCE_DIRS) (butlast parts)"

text \<open>The paths below the client's directory, \<open>None\<close> where it is not given or is not a directory.\<close>

definition client_qml_files :: "pydict \<Rightarrow> string list list option \<Rightarrow> pydict option \<Rightarrow> string list app" where
  "client_qml_files config client_dir entity =
     bindr (route_views config entity) (\<lambda>views.
       let names = ''Main.qml'' # views;
           names = (case client_dir of
               None \<Rightarrow> names
             | Some paths \<Rightarrow> foldl add_new names (map (join ''/'') (filter client_source (sort paths)))) in
       bindr (refuse_shadowed_type_names names) (\<lambda>_. Inr names))"

end
