(* ===== verification/AppProps.thy ===== *)
theory AppProps
  imports AppRoutes
begin

text \<open>
  What the application model promises: the links the framework implies are added once and only where
  the project declares none of that name, a session travels only where a service may hold one, a
  secret is only ever the name of a variable, the licence follows the libraries, and the files of a
  client are inside its directory with one QML type each.
\<close>

section \<open>The implied links\<close>

text \<open>Two configurations that say the same about everything but their connect points.\<close>

definition agrees :: "pydict \<Rightarrow> pydict \<Rightarrow> bool" where
  "agrees c d \<longleftrightarrow> (\<forall>k v. k \<noteq> ''connect_points'' \<longrightarrow> get_or c k v = get_or d k v)"

lemma agrees_refl [simp, intro]: "agrees c c"
  by (simp add: agrees_def)

lemma agrees_trans: "agrees b c \<Longrightarrow> agrees c d \<Longrightarrow> agrees b d"
  by (auto simp: agrees_def)

lemma agrees_get: "agrees c d \<Longrightarrow> k \<noteq> ''connect_points'' \<Longrightarrow> get c k = get d k"
  by (auto simp: agrees_def get_def)

lemma agrees_entities: "agrees c d \<Longrightarrow> entities c = entities d"
  by (auto simp: agrees_def entities_def)

lemma agrees_identity: "agrees c d \<Longrightarrow> identity_settings c = identity_settings d"
  by (auto simp: identity_settings_def dest!: agrees_get [where k = "''identity''"])

lemma agrees_dev_stub: "agrees c d \<Longrightarrow> dev_stub_provider c = dev_stub_provider d"
  by (simp add: dev_stub_provider_def dev_stub_port_def identity_dev_stub_def agrees_identity [of c d])

lemma agrees_providers: "agrees c d \<Longrightarrow> identity_providers c = identity_providers d"
  unfolding identity_providers_def has_dev_stub_def by (simp only: agrees_dev_stub [of c d] agrees_identity [of c d])

lemma agrees_monitor: "agrees c d \<Longrightarrow> monitor_entity c = monitor_entity d"
  by (simp add: monitor_entity_def agrees_get)

lemma agrees_update: "agrees (AList.update ''connect_points'' v c) c"
  by (simp add: agrees_def)

text \<open>
  Links that follow from the configuration: framework points, under names no declared point has, which
  no longer follow once points of those names are there.
\<close>

locale implied_links =
  fixes points :: "pydict \<Rightarrow> pydict list app"
  assumes framework: "points config = Inr ps \<Longrightarrow> p \<in> set ps \<Longrightarrow> is_framework_point p"
    and fresh: "points config = Inr ps \<Longrightarrow> connect_points config = Inr cps \<Longrightarrow> p \<in> set ps \<Longrightarrow>
      point_name p \<notin> point_name ` set cps"
    and apart: "points config = Inr ps \<Longrightarrow> distinct (map point_name ps)"
    and settled: "points config = Inr ps \<Longrightarrow> agrees c config \<Longrightarrow> connect_points c = Inr cps' \<Longrightarrow>
      (\<And>cps. connect_points config = Inr cps \<Longrightarrow> point_name ` set (cps @ ps) \<subseteq> point_name ` set cps') \<Longrightarrow> points c = Inr []"
    and unread: "points config = Inr ps \<Longrightarrow> agrees c config \<Longrightarrow> connect_points config = Inl e \<Longrightarrow> points c = Inr []"
begin

lemma expands:
  assumes "bindr (points config) (append_points config) = Inr c"
  shows "agrees c config \<and> points c = Inr [] \<and>
    (\<forall>cps. connect_points config = Inr cps \<longrightarrow> (\<exists>ps. points config = Inr ps \<and> connect_points c = Inr (cps @ ps)))"
proof -
  obtain ps where ps: "points config = Inr ps" "append_points config ps = Inr c" using assms by (auto simp: bindr_eq_Inr)
  show ?thesis
  proof (cases "ps = []")
    case True
    then show ?thesis using ps by (auto simp: append_points_def)
  next
    case False
    then obtain cps where cps: "connect_points config = Inr cps"
      and c: "c = AList.update ''connect_points'' (YList (map YMap (cps @ ps))) config"
      using ps(2) by (auto simp: append_points_def bindr_eq_Inr)
    have ag: "agrees c config" unfolding c by (rule agrees_update)
    have cc: "connect_points c = Inr (cps @ ps)" unfolding c by (simp add: connect_points_def flip: map_append)
    have "points c = Inr []" by (rule settled [OF ps(1) ag cc]) (use cps in auto)
    then show ?thesis using ag cc cps ps(1) by auto
  qed
qed

lemma stays:
  assumes "points config = Inr []" "agrees c config" "connect_points c = Inr cps'"
    and "\<And>cps. connect_points config = Inr cps \<Longrightarrow> point_name ` set cps \<subseteq> point_name ` set cps'"
  shows "points c = Inr []"
  using settled [OF assms(1,2,3)] assms(4) by simp

lemma settled_noop: "points config = Inr [] \<Longrightarrow> bindr (points config) (append_points config) = Inr config"
  by (simp add: append_points_def)

end

lemma strip_plain [simp]: "strip ''identity'' = ''identity''" "strip ''sessions'' = ''sessions''"
  "strip ''ingest'' = ''ingest''" "strip ''console'' = ''console''"
  by code_simp+

lemma framework_point_name [simp]:
  "strip name = name \<Longrightarrow> name \<noteq> [] \<Longrightarrow> point_name (framework_point name contract owner consumers extra owning) = name"
  by (simp add: point_name_def framework_point_def stripped_text_def)

lemma get_append: "get (d @ e) k = (if k \<in> fst ` set d then get d k else get e k)"
  by (induction d) (auto, force)

lemma framework_point_framework [simp]:
  "''framework'' \<notin> fst ` set extra \<Longrightarrow> is_framework_point (framework_point name contract owner consumers extra owning)"
  by (simp add: is_framework_point_def framework_point_def get_append)

interpretation auth: implied_links auth_connect_points
proof (unfold_locales, goal_cases)
  case (1 config ps p)
  then show ?case by (auto simp: auth_connect_points_def Let_def bindr_eq_Inr split: if_splits)
next
  case (2 config ps cps p)
  then show ?case by (auto simp: auth_connect_points_def AUTH_POINTS_def Let_def bindr_eq_Inr split: if_splits)
next
  case (3 config ps)
  then show ?case by (auto simp: auth_connect_points_def AUTH_POINTS_def Let_def bindr_eq_Inr split: if_splits)
next
  case (4 config ps c cps')
  then show ?case
    by (auto simp: auth_connect_points_def AUTH_POINTS_def Let_def bindr_eq_Inr provider_entity_def
        agrees_identity agrees_providers agrees_entities split: if_splits)
next
  case (5 config ps c e)
  then show ?case
    by (auto simp: auth_connect_points_def Let_def bindr_eq_Inr provider_entity_def
        agrees_identity agrees_providers agrees_entities split: if_splits)
qed

interpretation monitoring: implied_links monitoring_connect_points
proof (unfold_locales, goal_cases)
  case (1 config ps p)
  then show ?case by (auto simp: monitoring_connect_points_def Let_def bindr_eq_Inr split: if_splits)
next
  case (2 config ps cps p)
  then show ?case by (auto simp: monitoring_connect_points_def Let_def bindr_eq_Inr split: if_splits)
next
  case (3 config ps)
  then show ?case by (auto simp: monitoring_connect_points_def Let_def bindr_eq_Inr split: if_splits)
next
  case (4 config ps c cps')
  then show ?case
    by (cases "entities config"; cases "connect_points config")
      (auto simp: monitoring_connect_points_def Let_def agrees_monitor agrees_entities split: if_splits)
next
  case (5 config ps c e)
  then show ?case
    by (auto simp: monitoring_connect_points_def Let_def bindr_eq_Inr agrees_monitor agrees_entities split: if_splits)
qed


lemma with_implied_pointsE:
  assumes "with_implied_points config = Inr c"
  obtains a where "agrees a config" "auth_connect_points a = Inr []" "agrees c a" "monitoring_connect_points c = Inr []"
    "\<And>cps. connect_points config = Inr cps \<Longrightarrow> \<exists>ps. auth_connect_points config = Inr ps \<and> connect_points a = Inr (cps @ ps)"
    "\<And>cps. connect_points a = Inr cps \<Longrightarrow> \<exists>ps. monitoring_connect_points a = Inr ps \<and> connect_points c = Inr (cps @ ps)"
proof -
  obtain a where "bindr (auth_connect_points config) (append_points config) = Inr a"
    "bindr (monitoring_connect_points a) (append_points a) = Inr c"
    using assms by (auto simp: with_implied_points_def with_auth_connect_points_def with_monitoring_connect_points_def bindr_eq_Inr)
  then show ?thesis using that [of a] auth.expands [of config a] monitoring.expands [of a c] by blast
qed

lemma image_disjointI: "(\<And>p. p \<in> A \<Longrightarrow> f p \<notin> B) \<Longrightarrow> f ` A \<inter> B = {}"
  by blast

text \<open>
  C30. The links the framework implies, for the auth entity and for the monitor, are added to a
  configuration once: adding them again changes nothing. Everything but the connect points is as it
  was; the declared points come first and unchanged; what is added are framework points, under names
  that no declared point and no other added point has.
\<close>

theorem implied_points_once:
  assumes "with_implied_points config = Inr c"
  shows "with_implied_points c = Inr c \<and> (\<forall>k v. k \<noteq> ''connect_points'' \<longrightarrow> get_or c k v = get_or config k v) \<and>
    (\<forall>cps. connect_points config = Inr cps \<longrightarrow>
       (\<exists>ps. connect_points c = Inr (cps @ ps) \<and> list_all is_framework_point ps \<and> distinct (map point_name ps) \<and>
         point_name ` set cps \<inter> point_name ` set ps = {}))"
proof -
  obtain a where a: "agrees a config" "auth_connect_points a = Inr []"
    and c: "agrees c a" "monitoring_connect_points c = Inr []"
    and first: "\<And>cps. connect_points config = Inr cps \<Longrightarrow> \<exists>ps. auth_connect_points config = Inr ps \<and> connect_points a = Inr (cps @ ps)"
    and second: "\<And>cps. connect_points a = Inr cps \<Longrightarrow> \<exists>ps. monitoring_connect_points a = Inr ps \<and> connect_points c = Inr (cps @ ps)"
    using with_implied_pointsE [OF assms] by metis
  have "auth_connect_points c = Inr []"
  proof (cases "connect_points a")
    case (Inl e)
    then show ?thesis using auth.unread [OF a(2) c(1)] by simp
  next
    case (Inr cps)
    then obtain ps where "connect_points c = Inr (cps @ ps)" using second by blast
    then show ?thesis using auth.stays [OF a(2) c(1)] Inr by auto
  qed
  then have once: "with_implied_points c = Inr c"
    using c(2) by (simp add: with_implied_points_def with_auth_connect_points_def with_monitoring_connect_points_def append_points_def)
  have other: "\<forall>k v. k \<noteq> ''connect_points'' \<longrightarrow> get_or c k v = get_or config k v"
    using agrees_trans [OF c(1) a(1)] by (simp add: agrees_def)
  have "\<exists>ps. connect_points c = Inr (cps @ ps) \<and> list_all is_framework_point ps \<and> distinct (map point_name ps) \<and>
      point_name ` set cps \<inter> point_name ` set ps = {}" if cps: "connect_points config = Inr cps" for cps
  proof -
    obtain ps where ps: "auth_connect_points config = Inr ps" "connect_points a = Inr (cps @ ps)" using first [OF cps] by blast
    obtain qs where qs: "monitoring_connect_points a = Inr qs" "connect_points c = Inr ((cps @ ps) @ qs)" using second [OF ps(2)] by blast
    have "list_all is_framework_point (ps @ qs)"
      using auth.framework [OF ps(1)] monitoring.framework [OF qs(1)] by (auto simp: list_all_iff)
    moreover have d: "point_name ` set ps \<inter> point_name ` set cps = {}" "point_name ` set qs \<inter> (point_name ` set cps \<union> point_name ` set ps) = {}"
      using image_disjointI [OF auth.fresh [OF ps(1) cps]] image_disjointI [OF monitoring.fresh [OF qs(1) ps(2)]]
      by (simp_all add: image_Un)
    then have "distinct (map point_name (ps @ qs))"
      using auth.apart [OF ps(1)] monitoring.apart [OF qs(1)] by (simp add: Int_Un_distrib Int_commute)
    moreover have "point_name ` set cps \<inter> point_name ` set (ps @ qs) = {}"
      using d by (simp add: image_Un Int_Un_distrib Int_commute)
    ultimately show ?thesis using qs(2) by auto
  qed
  with once other show ?thesis by blast
qed

text \<open>A project with a login on an auth entity, a monitor and its console.\<close>

definition sample_entities :: "pydict list" where
  "sample_entities =
     [[(''name'', YStr ''app''), (''type'', YStr ''client'')],
      [(''name'', YStr ''ops''), (''type'', YStr ''client''), (''console'', YBool True)],
      [(''name'', YStr ''edge''), (''type'', YStr ''web_edge'')],
      [(''name'', YStr ''auth'')],
      [(''name'', YStr ''watch''), (''type'', YStr ''monitor'')]]"

definition sample_project :: pydict where
  "sample_project =
     [(''entities'', YList (map YMap sample_entities)),
      (''connect_points'', YList [YMap [(''owner'', YStr ''edge''), (''consumers'', YList [YStr ''app''])]]),
      (''identity'', YMap [(''provider_entity'', YStr ''auth''), (''providers'', YList [YMap [(''name'', YStr ''github'')]])]),
      (''monitoring'', YMap [(''entity'', YStr ''watch'')])]"

lemma sample_entities [simp]: "entities sample_project = Inr sample_entities"
  by (simp add: entities_def sample_project_def)

lemma sample_implied: "\<exists>c. with_implied_points sample_project = Inr c \<and>
    map_sum id (map point_name) (connect_points c) = Inr [''edge'', ''identity'', ''sessions'', ''ingest'', ''console'']"
  by (rule exI [of _ "projr (with_implied_points sample_project)"]) code_simp

theorem implied_points_once_witness:
  "\<exists>c. with_implied_points sample_project = Inr c \<and> with_implied_points c = Inr c \<and>
     map_sum id (map point_name) (connect_points c) = Inr [''edge'', ''identity'', ''sessions'', ''ingest'', ''console'']"
  using sample_implied implied_points_once by blast

section \<open>Who may hold a session\<close>

lemma not_client_name: "n \<notin> set (client_names es) \<longleftrightarrow> (\<forall>e \<in> set es. is_client e \<longrightarrow> n \<noteq> entity_name e)"
  by (auto simp: client_names_def)

lemma forwards_session_True:
  "entities config = Inr es \<Longrightarrow> bindr (forwards_session config p) (\<lambda>b. Inr (b \<and> Q)) = Inr True \<longleftrightarrow>
     Q \<and> (\<exists>names. py_iter (consumers_of p) = Inr names \<and> (\<exists>n \<in> set names. py_str n \<notin> set (client_names es)))"
  by (cases "py_iter (consumers_of p)") (auto simp: forwards_session_def list_ex_iff)



end
