(* ===== verification/AppFiles.thy ===== *)
theory AppFiles
  imports AppRoutes AppProps
begin

text \<open>
  The files of a client and the names of entities: which QML files are compiled in, that they stay in
  the client's directory, that a secret is only ever named, and where two names can meet.
\<close>

section \<open>The files of a client\<close>

lemma refuse_shadowed_exact:
  "refuse_shadowed seen names = Inr () \<longleftrightarrow>
     distinct (map path_stem names) \<and> path_stem ` set names \<inter> fst ` set seen = {}"
proof (induction seen names rule: refuse_shadowed.induct)
  case (2 seen name names)
  show ?case
  proof (cases "map_of seen (path_stem name)")
    case None
    then have "path_stem name \<notin> fst ` set seen" by (simp add: map_of_eq_None_iff)
    then show ?thesis by (auto simp: None 2 [OF None])
  next
    case (Some first)
    then have "path_stem name \<in> fst ` set seen" by (metis map_of_eq_None_iff option.distinct(1))
    then show ?thesis using Some by auto
  qed
qed simp

text \<open>A name that stays below the directory it is relative to.\<close>

definition stays_inside :: "string \<Rightarrow> bool" where
  "stays_inside name \<longleftrightarrow> posix_root name = [] \<and> ''..'' \<notin> set (posix_parts name) \<and> \<not> drive_rooted name"

lemma route_view_inside: "route_view r = Inr v \<Longrightarrow> \<not> is_remote_route r \<Longrightarrow> stays_inside v"
  by (auto simp: route_view_def view_file_def view_escapes_client_directory_def stays_inside_def Let_def
      split: if_splits yval.splits)

lemma foldl_add_new_hd: "seen \<noteq> [] \<Longrightarrow> hd (foldl add_new seen xs) = hd seen"
  by (induction xs arbitrary: seen) (auto simp: add_new_def)

lemma mapr_set: "mapr f xs = Inr ys \<Longrightarrow> set ys = {y. \<exists>x \<in> set xs. f x = Inr y}"
  by (induction xs arbitrary: ys) (auto simp: mapr.simps bindr_eq_Inr)



section \<open>Secrets\<close>

text \<open>
  A client secret is only ever the name of a variable: the generator takes exactly the secrets
  written \<open>env:NAME\<close>, with the name after the colon, and every other one, a literal or none, is refused
  with a generation error.
\<close>

theorem secret_only_named:
  "(client_secret_variable p = Inr v \<longleftrightarrow> (\<exists>s. get p ''client_secret'' = YStr s \<and> strip s = ''env:'' @ v)) \<and>
   (\<forall>e. client_secret_variable p = Inl e \<longrightarrow> (\<exists>m. e = AppGenError m))"
proof -
  have take: "startswith s ''env:'' \<and> drop 4 s = v \<longleftrightarrow> s = ''env:'' @ v" for s
    unfolding startswith_prefix by (auto simp: prefix_def)
  show ?thesis
  proof (cases "get p ''client_secret''")
    case (YStr s)
    then show ?thesis using take [of "strip s"] by (auto simp: client_secret_variable_def stripped_text_def Let_def)
  qed (auto simp: client_secret_variable_def stripped_text_def Let_def)
qed

theorem secret_only_named_witness:
  "client_secret_variable [(''client_secret'', YStr ''env:GITHUB_CLIENT_SECRET'')] = Inr ''GITHUB_CLIENT_SECRET'' \<and>
   \<not> is_ok (client_secret_variable [(''client_secret'', YStr ''hunter2'')])"
proof -
  have "strip ''env:GITHUB_CLIENT_SECRET'' = ''env:GITHUB_CLIENT_SECRET''" "strip ''hunter2'' = ''hunter2''" by code_simp+
  then show ?thesis
    using secret_only_named [of "[(''client_secret'', YStr ''env:GITHUB_CLIENT_SECRET'')]" "''GITHUB_CLIENT_SECRET''"]
      secret_only_named [of "[(''client_secret'', YStr ''hunter2'')]"] by (auto simp: is_ok_def)
qed

section \<open>Names that meet\<close>

text \<open>The rule for entity names lets a line feed at the end through.\<close>

lemma newline_name_valid: "is_valid_entity_name (''web'' @ nl)"
  by code_simp

text \<open>Two valid names, one QML module; two clients, one output directory.\<close>

lemma uri_collision: "is_valid_entity_name ''a-b'' \<and> is_valid_entity_name ''a_b'' \<and> qml_uri ''a-b'' = qml_uri ''a_b''"
  by code_simp

lemma output_collision:
  "entities config = Inr [c, d] \<Longrightarrow> is_client c \<Longrightarrow> is_client d \<Longrightarrow>
     get c ''name'' = YStr n \<Longrightarrow> get d ''name'' = YStr (''desktop-'' @ n) \<Longrightarrow>
     desktop_output_dir config c = bundle_output_dir config d"
  by (simp add: desktop_output_dir_def bundle_output_dir_def py_str_def)

end
