(* ===== verification/Licenses.thy ===== *)
theory Licenses
  imports AppProps
begin

text \<open>
  What each entity links and the licence that follows, \<open>synqt/licenses.py\<close>: the Qt modules, the third
  party libraries, the effective licence and the text of \<open>THIRD-PARTY-LICENSES\<close>.
\<close>

section \<open>What an entity links\<close>

definition MODULE_LICENSE :: "(string \<times> string) list" where
  "MODULE_LICENSE =
     [(''Qt Core'', ''LGPL-3.0-only''), (''Qt Gui'', ''LGPL-3.0-only''), (''Qt Network'', ''LGPL-3.0-only''),
      (''Qt Qml'', ''LGPL-3.0-only''), (''Qt Quick'', ''LGPL-3.0-only''),
      (''Qt Quick Controls'', ''LGPL-3.0-only''), (''Qt RemoteObjects'', ''LGPL-3.0-only''),
      (''Qt WebSockets'', ''LGPL-3.0-only''), (''Qt Sql'', ''LGPL-3.0-only''),
      (''Qt HTTP Server'', ''GPL-3.0-only''), (''Qt Network Authorization'', ''GPL-3.0-only''),
      (''Qt Quick 3D'', ''GPL-3.0-only''), (''Qt Quick 3D Physics'', ''GPL-3.0-only''),
      (''Qt for WebAssembly platform'', ''GPL-3.0-only'')]"

definition CLIENT_MODULES :: "(string \<times> string) list" where
  "CLIENT_MODULES =
     [(''Qt6::Core'', ''Qt Core''), (''Qt6::Gui'', ''Qt Gui''), (''Qt6::Network'', ''Qt Network''), (''Qt6::Qml'', ''Qt Qml''),
      (''Qt6::Quick'', ''Qt Quick''), (''Qt6::QuickControls2'', ''Qt Quick Controls''),
      (''Qt6::RemoteObjects'', ''Qt RemoteObjects''), (''Qt6::WebSockets'', ''Qt WebSockets'')]"

definition THIRD_PARTY :: "(string \<times> string) list" where
  "THIRD_PARTY =
     [(''jwt-cpp'', ''MIT''), (''picojson'', ''BSD-2-Clause''), (''OpenSSL'', ''Apache-2.0''),
      (''MariaDB Connector/C'', ''LGPL-2.1-only''),
      (''libsecret (Linux desktop builds only)'', ''LGPL-2.1-or-later'')]"

abbreviation serves_http :: "pydict \<Rightarrow> bool" where
  "serves_http entity \<equiv> entity_type entity \<in> set [''web_edge'', ''monitor'']"

definition gpl_modules :: "string list \<Rightarrow> string list" where
  "gpl_modules libraries = concat (map (\<lambda>l. case map_of LIBRARY_GPL_MODULES l of Some ms \<Rightarrow> ms | None \<Rightarrow> []) libraries)"

text \<open>\<open>owned_by\<close> is asked only where the type does not answer, and only of a given configuration.\<close>

definition links_gui :: "pydict \<Rightarrow> pydict option \<Rightarrow> bool app" where
  "links_gui entity config =
     (if serves_http entity then Inr True
      else case config of
        None \<Rightarrow> Inr False
      | Some c \<Rightarrow> bindr (owned_by c (get entity ''name'')) (\<lambda>ps. Inr (ps \<noteq> [])))"

definition the_config :: "pydict option \<Rightarrow> pydict" where
  "the_config config = (case config of Some c \<Rightarrow> c | None \<Rightarrow> [])"

definition entity_modules :: "pydict \<Rightarrow> string \<Rightarrow> pydict option \<Rightarrow> string list app" where
  "entity_modules entity target config =
     (if entity_type entity = ''client''
      then Inr (map snd CLIENT_MODULES @ (if target = ''wasm'' then [''Qt for WebAssembly platform''] else []))
      else bindr (links_gui entity config) (\<lambda>gui.
        Inr (foldl add_new []
          ([''Qt Core'', ''Qt Network'', ''Qt Qml'', ''Qt RemoteObjects'', ''Qt WebSockets'', ''Qt Sql'']
           @ (if gui then [''Qt Gui''] else []) @ (if serves_http entity then [''Qt HTTP Server''] else [])
           @ gpl_modules (service_libraries (the_config config) entity)))))"

definition entity_third_party :: "pydict \<Rightarrow> pydict option \<Rightarrow> string \<Rightarrow> string list app" where
  "entity_third_party entity config target =
     (if is_client entity
      then Inr (if target = ''desktop'' then [''libsecret (Linux desktop builds only)''] else [])
      else bindr (get_attr (if truthy (get entity ''provider'') then get entity ''provider'' else YMap []) ''name'' (YStr [])) (\<lambda>provider.
        Inr (sort (remdups ([''OpenSSL'']
          @ (if list_ex (\<lambda>l. l \<in> set [''SynQtIdentity'', ''SynQtEdge'', ''SynQtMonitor'']) (service_libraries (the_config config) entity)
             then [''jwt-cpp'', ''picojson''] else [])
          @ (if provider = YStr ''mysql'' then [''MariaDB Connector/C''] else []))))))"

definition effective_license :: "string list \<Rightarrow> string \<Rightarrow> string" where
  "effective_license modules qt_license_mode =
     (if qt_license_mode = ''commercial'' then ''Commercial (proprietary permitted)''
      else if list_ex (\<lambda>m. map_of MODULE_LICENSE m = Some ''GPL-3.0-only'') modules then ''GPL-3.0-only''
      else ''LGPL-3.0-only'')"

definition license_lines :: "(string \<times> string) list \<Rightarrow> string \<Rightarrow> string list \<Rightarrow> string list" where
  "license_lines table missing names =
     map (\<lambda>n. ''  - '' @ n @ '': '' @ (case map_of table n of Some l \<Rightarrow> l | None \<Rightarrow> missing)) names"

definition generate_licenses :: "pydict \<Rightarrow> string \<Rightarrow> string \<Rightarrow> pydict option \<Rightarrow> string app" where
  "generate_licenses entity target qt_license_mode config =
     bindr (entity_modules entity target config) (\<lambda>modules.
     bindr (entity_third_party entity config target) (\<lambda>third_party.
       let effective = effective_license modules qt_license_mode in
       Inr (join nl
         ([''THIRD-PARTY-LICENSES for entity '' @ CHR 0x27 # py_str (get_or entity ''name'' (YStr ''entity'')) @ [CHR 0x27]
             @ (if is_client entity then '' (target: '' @ target @ '')'' else []),
           ''Generated from the resolved topology by `synqt build`; do not edit by hand.'',
           [],
           ''SynQt framework code: Apache-2.0'',
           [],
           ''Qt '' @ replace_char (CHR ''_'') (CHR ''-'') qt_license_mode @ '' modules linked:'']
          @ license_lines MODULE_LICENSE ''LGPL-3.0-only'' modules
          @ (if third_party \<noteq> []
             then [[], ''Third-party libraries linked:''] @ license_lines THIRD_PARTY ''see upstream'' third_party else [])
          @ [[], ''Effective license of this entity artifact: '' @ effective]
          @ (if effective = ''GPL-3.0-only'' \<and> is_client entity
             then [''This client is conveyed to every visitor, so you must offer its complete ''
                   @ ''corresponding source under GPLv3 (or use a commercial Qt license to keep it ''
                   @ ''closed). See https://synqt.org/licensing/.'']
             else if effective = ''GPL-3.0-only''
             then [''Distributing this binary conveys it under GPLv3; a self-hosted SaaS use is ''
                   @ ''not conveyance. See https://synqt.org/licensing/.'']
             else [])) @ nl)))"

section \<open>The licence follows the libraries\<close>

text \<open>The modules that make an entity GPL, of those the table names.\<close>

abbreviation gpl :: "string \<Rightarrow> bool" where
  "gpl m \<equiv> map_of MODULE_LICENSE m = Some ''GPL-3.0-only''"

lemma effective_open_source:
  "effective_license modules ''open_source'' = (if \<exists>m \<in> set modules. gpl m then ''GPL-3.0-only'' else ''LGPL-3.0-only'')"
  by (simp add: effective_license_def list_ex_iff)

lemma gpl_modules_gpl: "m \<in> set (gpl_modules ls) \<Longrightarrow> gpl m"
  by (auto simp: gpl_modules_def LIBRARY_GPL_MODULES_def MODULE_LICENSE_def split: if_splits)

lemma service_modules:
  assumes "entity_modules entity target config = Inr modules" "\<not> is_client entity"
  shows "(\<exists>m \<in> set modules. gpl m) \<longleftrightarrow>
    serves_http entity \<or> gpl_modules (service_libraries (the_config config) entity) \<noteq> []"
proof -
  define B where "B = set [''Qt Core'', ''Qt Network'', ''Qt Qml'', ''Qt RemoteObjects'', ''Qt WebSockets'', ''Qt Sql'', ''Qt Gui'']"
  define H where "H = (if serves_http entity then {''Qt HTTP Server''} else {})"
  define G where "G = set (gpl_modules (service_libraries (the_config config) entity))"
  have "set modules \<subseteq> B \<union> H \<union> G" "H \<union> G \<subseteq> set modules"
    using assms by (auto simp: entity_modules_def is_client_def bindr_eq_Inr B_def H_def G_def split: if_splits)
  moreover have "\<forall>m \<in> B. \<not> gpl m" "\<forall>m \<in> H. gpl m" by (simp_all add: B_def H_def MODULE_LICENSE_def)
  moreover have "\<forall>m \<in> G. gpl m" using gpl_modules_gpl by (simp add: G_def)
  ultimately have "(\<exists>m \<in> set modules. gpl m) \<longleftrightarrow> H \<union> G \<noteq> {}" by blast
  then show ?thesis by (simp add: H_def G_def)
qed

lemma library_modules:
  "gpl_modules (service_libraries c entity) \<noteq> [] \<longleftrightarrow>
     serves_http entity \<or> serves_inbound entity \<or> provider_entity c \<noteq> [] \<and> get entity ''name'' = YStr (provider_entity c)"
  by (auto simp: service_libraries_def gpl_modules_def LIBRARY_GPL_MODULES_def is_edge_def)

text \<open>
  C32. Under open source Qt the artifact of an entity is LGPL exactly where it may be: a desktop build of
  a client, or a service that serves no browser, opens no port and does not run the login. Every other
  one is GPL, and a commercial licence makes neither apply.
\<close>

theorem license_exact:
  assumes "entity_modules entity target config = Inr modules"
  shows "effective_license modules ''open_source'' =
      (if is_client entity \<and> target \<noteq> ''wasm'' \<or>
          is_service entity \<and> \<not> serves_browser entity \<and> \<not> serves_inbound entity \<and>
            (provider_entity (the_config config) = [] \<or> get entity ''name'' \<noteq> YStr (provider_entity (the_config config)))
       then ''LGPL-3.0-only'' else ''GPL-3.0-only'') \<and>
    effective_license modules ''commercial'' = ''Commercial (proprietary permitted)''"
proof (cases "is_client entity")
  case True
  then have "modules = map snd CLIENT_MODULES @ (if target = ''wasm'' then [''Qt for WebAssembly platform''] else [])"
    using assms by (simp add: entity_modules_def is_client_def)
  then show ?thesis using True
    by (simp add: effective_license_def CLIENT_MODULES_def MODULE_LICENSE_def is_service_def)
next
  case False
  have browser: "serves_http entity \<longleftrightarrow> serves_browser entity" by (simp add: serves_browser_def is_edge_def)
  have "(\<exists>m \<in> set modules. gpl m) \<longleftrightarrow> serves_browser entity \<or> serves_inbound entity \<or>
      provider_entity (the_config config) \<noteq> [] \<and> get entity ''name'' = YStr (provider_entity (the_config config))"
    unfolding service_modules [OF assms False] library_modules browser by blast
  then show ?thesis unfolding effective_open_source using False
    by (simp add: effective_license_def [of _ "''commercial''"] is_service_def)
qed

theorem license_exact_witness:
  "(\<exists>modules. entity_modules [(''name'', YStr ''books'')] ''host'' (Some sample_project) = Inr modules \<and>
      effective_license modules ''open_source'' = ''LGPL-3.0-only'') \<and>
   (\<exists>modules. entity_modules [(''name'', YStr ''auth'')] ''host'' (Some sample_project) = Inr modules \<and>
      effective_license modules ''open_source'' = ''GPL-3.0-only'')"
proof -
  have ok: "is_ok (entity_modules [(''name'', YStr ''books'')] ''host'' (Some sample_project))"
    "is_ok (entity_modules [(''name'', YStr ''auth'')] ''host'' (Some sample_project))"
    by (auto simp: entity_modules_def links_gui_def owned_by_def connect_points_def sample_project_def is_ok_bindr)
  have plain: "\<not> is_client [(''name'', YStr n)] \<and> \<not> serves_browser [(''name'', YStr n)] \<and> \<not> serves_inbound [(''name'', YStr n)]" for n
    by (simp add: is_client_def serves_browser_def is_edge_def entity_type_def text_or_empty_def serves_inbound_def
        inbound_settings_def network_settings_def block_of_def strip_def lstrip_def rstrip_def PLAIN_TYPE_def)
  have "provider_entity sample_project = ''auth''" by code_simp
  then show ?thesis using ok plain
    by (fastforce simp: is_service_def the_config_def elim!: is_okE dest: license_exact)
qed

end
