(* ===== verification/ConfigLayers.thy ===== *)
theory ConfigLayers
  imports PyValue
begin

text \<open>
  The layers of the configuration, \<open>synqt/config.py\<close>: the merge of a profile over \<open>synqt.yaml\<close> and the
  variables \<open>SYNQT_<SECTION>_<KEY>\<close> over both. Reading YAML and reading a float are parameters; a file is
  what reading it gives.
\<close>

section \<open>Merging a profile\<close>

definition profile_filename :: "string \<Rightarrow> string" where
  "profile_filename profile = ''synqt.'' @ profile @ ''.yaml''"

definition config_filenames :: "string option \<Rightarrow> string list" where
  "config_filenames profile =
     (case profile of
        Some p \<Rightarrow> if p \<noteq> [] then [''synqt.yaml'', profile_filename p] else [''synqt.yaml'']
      | None \<Rightarrow> [''synqt.yaml''])"

definition is_named_list :: "yval list \<Rightarrow> bool" where
  "is_named_list items \<longleftrightarrow> items \<noteq> [] \<and> list_all (\<lambda>item. is_dict item \<and> truthy (get (block_of item) ''name'')) items"

abbreviation item_name :: "yval \<Rightarrow> yval" where
  "item_name item \<equiv> get (block_of item) ''name''"

text \<open>\<open>by_name\<close>, a dictionary whose keys are names: found and replaced by Python's equality.\<close>

definition lookup_named :: "(yval \<times> yval) list \<Rightarrow> yval \<Rightarrow> yval option" where
  "lookup_named d name = map_option snd (List.find (\<lambda>(n, _). py_eq n name) d)"

fun put_named :: "(yval \<times> yval) list \<Rightarrow> yval \<Rightarrow> yval \<Rightarrow> (yval \<times> yval) list" where
  "put_named [] name item = [(name, item)]"
| "put_named ((n, i) # d) name item = (if py_eq n name then (n, item) # d else (n, i) # put_named d name item)"

definition index_named :: "yval list \<Rightarrow> (yval \<times> yval) list" where
  "index_named items = foldl (\<lambda>d item. put_named d (item_name item) item) [] items"

definition all_hashable :: "yval list \<Rightarrow> bool" where
  "all_hashable items = list_all (\<lambda>item. hashable (item_name item)) items"

text \<open>The entries in the order of their names, which are all there.\<close>

definition in_order :: "(yval \<times> yval) list \<Rightarrow> yval list \<Rightarrow> yval" where
  "in_order by_name ordered = YList (map (\<lambda>n. case lookup_named by_name n of Some item \<Rightarrow> item | None \<Rightarrow> YNull) ordered)"

fun merge :: "yval \<Rightarrow> yval \<Rightarrow> yval app"
  and merge_items :: "pydict \<Rightarrow> pydict \<Rightarrow> pydict app"
  and merge_entries :: "(yval \<times> yval) list \<Rightarrow> yval list \<Rightarrow> yval list \<Rightarrow> yval app" where
  "merge base (YMap override) =
     (case base of YMap b \<Rightarrow> bindr (merge_items b override) (\<lambda>m. Inr (YMap m)) | _ \<Rightarrow> Inr (YMap override))"
| "merge base (YList override) =
     (case base of
        YList b \<Rightarrow>
          if is_named_list b \<and> is_named_list override then
            if all_hashable b \<and> all_hashable override
            then merge_entries (index_named b) (map item_name b) override else Inl TypeError
          else Inr (YList override)
      | _ \<Rightarrow> Inr (YList override))"
| "merge base v = Inr v"
| "merge_items merged [] = Inr merged"
| "merge_items merged ((key, value) # override) =
     bindr (case map_of merged key of Some old \<Rightarrow> merge old value | None \<Rightarrow> Inr value) (\<lambda>new.
       merge_items (AList.update key new merged) override)"
| "merge_entries by_name ordered [] = Inr (in_order by_name ordered)"
| "merge_entries by_name ordered (item # override) =
     (case lookup_named by_name (item_name item) of
        Some old \<Rightarrow> bindr (merge old item) (\<lambda>new. merge_entries (put_named by_name (item_name item) new) ordered override)
      | None \<Rightarrow> merge_entries (put_named by_name (item_name item) item) (ordered @ [item_name item]) override)"

section \<open>The environment\<close>

definition ENV_PREFIX :: string where
  "ENV_PREFIX = ''SYNQT_''"

text \<open>\<open>max\<close> keeps the first of the longest.\<close>

fun longest :: "string list \<Rightarrow> string option" where
  "longest [] = None"
| "longest (k # ks) =
     (case longest ks of None \<Rightarrow> Some k | Some l \<Rightarrow> if length l \<le> length k then Some k else Some l)"

definition longest_key :: "pydict \<Rightarrow> string \<Rightarrow> string option" where
  "longest_key node remainder =
     longest (filter (\<lambda>key. remainder = key \<or> startswith remainder (key @ ''_'')) (map fst node))"

definition after_key :: "string \<Rightarrow> string \<Rightarrow> string" where
  "after_key key remainder = lstrip_chars ''_'' (drop (length key) remainder)"

lemma longest_in: "longest ks = Some k \<Longrightarrow> k \<in> set ks"
  by (induction ks arbitrary: k) (auto split: option.splits if_splits)

lemma longest_key_SomeD:
  "longest_key m remainder = Some key \<Longrightarrow> key \<in> fst ` set m \<and> (remainder = key \<or> startswith remainder (key @ ''_''))"
  by (auto simp: longest_key_def dest!: longest_in)

lemma after_key_shorter:
  assumes "longest_key m remainder = Some key" "remainder \<noteq> []"
  shows "length (after_key key remainder) < length remainder"
proof (cases "key = []")
  case True
  then obtain t where "remainder = CHR ''_'' # t"
    using longest_key_SomeD [OF assms(1)] assms(2) by (cases remainder) auto
  then show ?thesis using True length_dropWhile_le [of "\<lambda>c. c = CHR ''_''" t]
    by (simp add: after_key_def lstrip_chars_def)
next
  case False
  then show ?thesis using length_dropWhile_le [of "\<lambda>c. c \<in> set ''_''" "drop (length key) remainder"] assms(2)
    by (cases key; cases remainder) (auto simp: after_key_def lstrip_chars_def)
qed

text \<open>The loop of \<open>_target_path\<close>: every key it follows shortens what is left.\<close>

function target_from :: "string list \<Rightarrow> yval \<Rightarrow> string \<Rightarrow> string list option" where
  "target_from path node remainder =
     (if remainder = [] then Some path
      else case node of
        YMap m \<Rightarrow>
          (case longest_key m remainder of
             None \<Rightarrow> if path = [] then None else Some (path @ [remainder])
           | Some key \<Rightarrow> target_from (path @ [key]) (get m key) (after_key key remainder))
      | _ \<Rightarrow> None)"
  by pat_completeness auto
termination by (relation "measure (\<lambda>(path, node, remainder). length remainder)") (auto intro: after_key_shorter)

declare target_from.simps [simp del]

definition target_path :: "pydict \<Rightarrow> string \<Rightarrow> string list option" where
  "target_path config name = target_from [] (YMap config) name"

text \<open>What the sources take from PyYAML and from \<open>float\<close>; \<open>None\<close> where they raise.\<close>

record readers =
  yaml_load :: "string \<Rightarrow> yval option"
  read_float :: "string \<Rightarrow> yval option"

datatype config_error = ConfigError string | ConfigTypeError | FileNotFoundError string

definition TRUE_WORDS :: "string list" where
  "TRUE_WORDS = [''true'', ''yes'', ''on'', ''1'']"

definition FALSE_WORDS :: "string list" where
  "FALSE_WORDS = [''false'', ''no'', ''off'', ''0'']"

definition coerce :: "readers \<Rightarrow> yval \<Rightarrow> string \<Rightarrow> string \<Rightarrow> config_error + yval" where
  "coerce r existing raw variable =
     (case existing of
        YBool _ \<Rightarrow>
          if map to_lower (strip raw) \<in> set TRUE_WORDS then Inr (YBool True)
          else if map to_lower (strip raw) \<in> set FALSE_WORDS then Inr (YBool False)
          else Inl (ConfigError (variable @ '': expected a boolean, got '' @ repr_str raw))
      | YStr _ \<Rightarrow> Inr (YStr raw)
      | YInt _ \<Rightarrow>
          (case int_of_str (strip raw) of
             Inr i \<Rightarrow> Inr (YInt i)
           | Inl _ \<Rightarrow> Inl (ConfigError (variable @ '': expected an integer, got '' @ repr_str raw)))
      | YFloat _ _ \<Rightarrow>
          (case read_float r (strip raw) of
             Some v \<Rightarrow> Inr v
           | None \<Rightarrow> Inl (ConfigError (variable @ '': expected a number, got '' @ repr_str raw)))
      | _ \<Rightarrow>
          (case yaml_load r raw of
             None \<Rightarrow> Inr (YStr raw)
           | Some parsed \<Rightarrow>
               Inr (if is_list existing \<and> \<not> is_list parsed
                    then YList (map YStr (filter (\<lambda>i. i \<noteq> []) (map strip (split_on (CHR '','') raw))))
                    else if parsed = YNull \<and> raw \<noteq> [] then YStr raw else parsed)))"

text \<open>The value a path leads to, \<open>None\<close> where it leaves the mappings.\<close>

fun value_at :: "yval \<Rightarrow> string list \<Rightarrow> yval" where
  "value_at node [] = node"
| "value_at node (key # path) = value_at (case node of YMap m \<Rightarrow> get m key | _ \<Rightarrow> YNull) path"

fun assign :: "pydict \<Rightarrow> string list \<Rightarrow> yval \<Rightarrow> pydict" where
  "assign config [] value = config"
| "assign config [key] value = AList.update key value config"
| "assign config (key # path) value = AList.update key (YMap (assign (block_of (get config key)) path value)) config"

definition apply_variable :: "readers \<Rightarrow> pydict \<Rightarrow> string \<Rightarrow> string \<Rightarrow> config_error + (pydict \<times> string list)" where
  "apply_variable r config variable raw =
     (if \<not> startswith variable ENV_PREFIX \<or> variable = ENV_PREFIX then Inr (config, [])
      else case target_path config (map to_lower (drop (length ENV_PREFIX) variable)) of
        None \<Rightarrow> Inr (config, [])
      | Some path \<Rightarrow>
          if length path < 2 then Inr (config, [])
          else bindr (coerce r (value_at (YMap config) path) raw variable) (\<lambda>value.
            Inr (assign config path value, [variable @ '' -> '' @ join ''.'' path])))"

text \<open>The environment in the order of its names.\<close>

fun apply_variables :: "readers \<Rightarrow> pydict \<Rightarrow> (string \<times> string) list \<Rightarrow> config_error + (pydict \<times> string list)" where
  "apply_variables r config [] = Inr (config, [])"
| "apply_variables r config ((variable, raw) # env) =
     bindr (apply_variable r config variable raw) (\<lambda>(config', applied).
     bindr (apply_variables r config' env) (\<lambda>(config'', more). Inr (config'', applied @ more)))"

definition apply_env :: "readers \<Rightarrow> pydict \<Rightarrow> (string \<times> string) list \<Rightarrow> config_error + (pydict \<times> string list)" where
  "apply_env r config environment = apply_variables r config (sort_key fst environment)"

section \<open>Resolving\<close>

text \<open>A file: \<open>None\<close> where there is none, otherwise what \<open>safe_load\<close> makes of it or the error it raises.\<close>

type_synonym yaml_file = "(string + yval) option"

definition read_file :: "string \<Rightarrow> string + yval \<Rightarrow> config_error + pydict" where
  "read_file name loaded =
     (case loaded of
        Inl error \<Rightarrow> Inl (ConfigError (name @ '': '' @ error))
      | Inr v \<Rightarrow>
          (case (if truthy v then v else YMap []) of
             YMap m \<Rightarrow> Inr m
           | _ \<Rightarrow> Inl (ConfigError (name @ '': expected a mapping at the top level''))))"

definition merged_config :: "pydict \<Rightarrow> pydict \<Rightarrow> config_error + pydict" where
  "merged_config base override = (case merge_items base override of Inr m \<Rightarrow> Inr m | Inl _ \<Rightarrow> Inl ConfigTypeError)"

definition resolve_config ::
  "readers \<Rightarrow> string \<Rightarrow> yaml_file \<Rightarrow> (string \<times> yaml_file) option \<Rightarrow> (string \<times> string) list \<Rightarrow> bool \<Rightarrow> config_error + (pydict \<times> string list)" where
  "resolve_config r project_dir base profile env required =
     bindr (case base of
        Some loaded \<Rightarrow> read_file ''synqt.yaml'' loaded
      | None \<Rightarrow> if required then Inl (FileNotFoundError (''no synqt.yaml in '' @ project_dir)) else Inr []) (\<lambda>config.
     bindr (case profile of
        None \<Rightarrow> Inr (config, [])
      | Some (name, file) \<Rightarrow>
          if name = [] then Inr (config, [])
          else (case file of
             None \<Rightarrow> Inl (ConfigError (''no '' @ profile_filename name @ '' in '' @ project_dir
                @ '' (a --profile names a synqt.<profile>.yaml beside synqt.yaml)''))
           | Some loaded \<Rightarrow> bindr (read_file (profile_filename name) loaded) (\<lambda>layer.
               bindr (merged_config config layer) (\<lambda>m. Inr (m, [profile_filename name]))))) (\<lambda>(config, sources).
     bindr (apply_env r config env) (\<lambda>(config, applied). Inr (config, sources @ applied))))"

end
