(* ===== verification/ConfigProps.thy ===== *)
theory ConfigProps
  imports ConfigLayers
begin

text \<open>
  What the layers promise: a profile changes and adds and never takes a key or a named entry away, and
  the environment reaches only into sections that are there. A list of entries without names is
  replaced whole, which is what happens to the connect points.
\<close>

section \<open>A profile\<close>


lemma merge_items_lookup:
  "merge_items b ov = Inr r \<Longrightarrow> distinct (map fst ov) \<Longrightarrow>
     (k \<notin> fst ` set ov \<longrightarrow> map_of r k = map_of b k) \<and>
     (\<forall>v. map_of ov k = Some v \<longrightarrow>
        (case map_of b k of None \<Rightarrow> map_of r k = Some v | Some old \<Rightarrow> \<exists>w. merge old v = Inr w \<and> map_of r k = Some w))"
proof (induction ov arbitrary: b)
  case (Cons p ov)
  obtain key v where p: "p = (key, v)" by fastforce
  obtain new where new: "(case map_of b key of Some old \<Rightarrow> merge old v | None \<Rightarrow> Inr v) = Inr new"
    and rest: "merge_items (AList.update key new b) ov = Inr r"
    using Cons.prems(1) p by (auto simp: bindr_eq_Inr)
  note IH = Cons.IH [OF rest]
  show ?case
  proof (cases "k = key")
    case True
    then have "map_of r k = Some new" using IH Cons.prems(2) p by (auto simp: update_conv')
    then show ?thesis using new True p by (auto split: option.splits)
  next
    case False
    then have "map_of (AList.update key new b) k = map_of b k" by (simp add: update_conv')
    then show ?thesis using IH Cons.prems(2) False p by auto
  qed
qed simp

lemma merge_items_order:
  "merge_items b ov = Inr r \<Longrightarrow> distinct (map fst ov) \<Longrightarrow> map fst r = map fst b @ filter (\<lambda>k. k \<notin> fst ` set b) (map fst ov)"
proof (induction ov arbitrary: b)
  case (Cons p ov)
  obtain key v where p: "p = (key, v)" by fastforce
  obtain new where rest: "merge_items (AList.update key new b) ov = Inr r"
    using Cons.prems(1) p by (auto simp: bindr_eq_Inr)
  have "filter (\<lambda>k. k \<notin> insert key (fst ` set b)) (map fst ov) = filter (\<lambda>k. k \<notin> fst ` set b) (map fst ov)"
    using Cons.prems(2) p by (auto intro!: filter_cong)
  then show ?case using Cons.IH [OF rest] Cons.prems(2) p by (auto simp: update_keys dom_update)
qed simp

text \<open>An entry as a file spells it: a mapping with a name that is a string and with keys that differ.\<close>

definition named_entry :: "yval \<Rightarrow> bool" where
  "named_entry v \<longleftrightarrow> (\<exists>m s. v = YMap m \<and> distinct (map fst m) \<and> get m ''name'' = YStr s \<and> s \<noteq> [])"

lemma named_entryE:
  assumes "named_entry v"
  obtains m s where "v = YMap m" "distinct (map fst m)" "get m ''name'' = YStr s" "s \<noteq> []"
  using assms by (auto simp: named_entry_def)

lemma named_entries_named: "items \<noteq> [] \<Longrightarrow> list_all named_entry items \<Longrightarrow> is_named_list items"
  by (auto simp: is_named_list_def list_all_iff is_dict_def block_of_def elim!: named_entryE)

lemma named_entries_hashable: "list_all named_entry items \<Longrightarrow> all_hashable items"
  by (auto simp: all_hashable_def list_all_iff hashable_def is_list_def is_dict_def block_of_def elim!: named_entryE)

lemma lookup_named_YStr: "lookup_named d (YStr s) = map_of d (YStr s)"
  by (induction d) (auto simp: lookup_named_def)

lemma put_named_YStr: "put_named d (YStr s) i = AList.update (YStr s) i d"
  by (induction d) auto

text \<open>The index of a list: every entry under its own name.\<close>

definition indexed :: "(yval \<times> yval) list \<Rightarrow> bool" where
  "indexed d \<longleftrightarrow> (\<forall>n i. map_of d n = Some i \<longrightarrow> named_entry i \<and> item_name i = n)"

lemma named_entry_name: "named_entry i \<Longrightarrow> \<exists>s. item_name i = YStr s"
  by (auto simp: block_of_def elim!: named_entryE)

lemma keys_update: "fst ` set (AList.update k v d) = insert k (fst ` set d)"
  by (simp add: update_conv' flip: dom_map_of_conv_image_fst)

lemma indexed_put: "indexed d \<Longrightarrow> named_entry i \<Longrightarrow> item_name i = n \<Longrightarrow>
    indexed (put_named d n i) \<and> fst ` set (put_named d n i) = insert n (fst ` set d)"
proof -
  assume a: "indexed d" "named_entry i" "item_name i = n"
  then obtain s where s: "n = YStr s" using named_entry_name [of i] by auto
  have "indexed (AList.update n i d)" using a by (auto simp: indexed_def update_conv' split: if_splits)
  then show ?thesis by (simp add: s put_named_YStr keys_update)
qed

lemma index_named_indexed:
  "list_all named_entry items \<Longrightarrow> indexed d \<Longrightarrow>
     indexed (foldl (\<lambda>d item. put_named d (item_name item) item) d items) \<and>
     fst ` set (foldl (\<lambda>d item. put_named d (item_name item) item) d items) = fst ` set d \<union> item_name ` set items"
  by (induction items arbitrary: d) (auto simp: indexed_put)

lemma merge_named_entry:
  assumes "named_entry old" "named_entry item" "item_name old = item_name item" "merge old item = Inr new"
  shows "named_entry new \<and> item_name new = item_name item"
proof -
  obtain m s where m: "old = YMap m" "distinct (map fst m)" "get m ''name'' = YStr s" using assms(1) by (elim named_entryE)
  obtain m' s' where m': "item = YMap m'" "distinct (map fst m')" "get m' ''name'' = YStr s'" "s' \<noteq> []"
    using assms(2) by (elim named_entryE)
  obtain r where r: "new = YMap r" "merge_items m m' = Inr r" using assms(4) m m' by (auto simp: bindr_eq_Inr)
  have "map_of m' ''name'' = Some (YStr s')" "map_of m ''name'' = Some (YStr s)"
    using m' m by (auto simp: get_def get_or_def split: option.splits)
  then have "get r ''name'' = YStr s'" using merge_items_lookup [OF r(2) m'(2), of "''name''"]
    by (auto simp: get_def get_or_def)
  moreover have "distinct (map fst r)"
    using merge_items_order [OF r(2) m'(2)] m(2) m'(2) by (auto simp: distinct_filter)
  ultimately show ?thesis using r(1) m' by (auto simp: named_entry_def block_of_def)
qed

lemma in_order_names:
  assumes "indexed d" "set ordered \<subseteq> fst ` set d"
  shows "\<exists>rs. in_order d ordered = YList rs \<and> map item_name rs = ordered"
proof -
  have "item_name (case lookup_named d n of Some item \<Rightarrow> item | None \<Rightarrow> YNull) = n" if "n \<in> set ordered" for n
  proof -
    have "map_of d n \<noteq> None" using assms(2) that by (auto simp: map_of_eq_None_iff)
    then obtain i where i: "map_of d n = Some i" by blast
    then have "named_entry i" "item_name i = n" using assms(1) by (auto simp: indexed_def)
    then obtain s where "n = YStr s" using named_entry_name [of i] by auto
    then show ?thesis using i assms(1) by (auto simp: indexed_def lookup_named_YStr)
  qed
  then have "map (\<lambda>n. item_name (case lookup_named d n of Some item \<Rightarrow> item | None \<Rightarrow> YNull)) ordered = ordered"
    by (intro map_idI)
  then show ?thesis unfolding in_order_def by (auto simp: comp_def)
qed

lemma merge_entries_names:
  "merge_entries d ordered items = Inr v \<Longrightarrow> indexed d \<Longrightarrow> set ordered = fst ` set d \<Longrightarrow> list_all named_entry items \<Longrightarrow>
     distinct (map item_name items) \<Longrightarrow>
     \<exists>rs. v = YList rs \<and> map item_name rs = ordered @ filter (\<lambda>n. n \<notin> set ordered) (map item_name items)"
proof (induction items arbitrary: d ordered)
  case Nil
  then show ?case using in_order_names [of d ordered] by auto
next
  case (Cons item items)
  obtain s where s: "item_name item = YStr s" using Cons.prems(4) named_entry_name by auto
  show ?case
  proof (cases "map_of d (item_name item)")
    case None
    then have "merge_entries (put_named d (item_name item) item) (ordered @ [item_name item]) items = Inr v"
      using Cons.prems(1) s by (simp add: lookup_named_YStr)
    then obtain rs where rs: "v = YList rs" "map item_name rs = (ordered @ [item_name item])
        @ filter (\<lambda>n. n \<notin> set (ordered @ [item_name item])) (map item_name items)"
      using Cons.IH [of "put_named d (item_name item) item" "ordered @ [item_name item]"] indexed_put [OF Cons.prems(2), of item] Cons.prems by auto
    moreover have "filter (\<lambda>n. n \<notin> set (ordered @ [item_name item])) (map item_name items)
        = filter (\<lambda>n. n \<notin> set ordered) (map item_name items)"
      using Cons.prems(5) by (intro filter_cong) (auto, metis imageI)
    moreover have "item_name item \<notin> set ordered" using None Cons.prems(3) by (simp add: map_of_eq_None_iff)
    ultimately show ?thesis by simp
  next
    case (Some old)
    then have old: "named_entry old" "item_name old = item_name item" using Cons.prems(2) by (auto simp: indexed_def)
    obtain new where new: "merge old item = Inr new" "merge_entries (put_named d (item_name item) new) ordered items = Inr v"
      using Cons.prems(1) s Some by (auto simp: lookup_named_YStr bindr_eq_Inr)
    have "named_entry new" "item_name new = item_name item" using merge_named_entry [OF old(1) _ old(2) new(1)] Cons.prems(4) by auto
    moreover have "item_name item \<in> fst ` set d" using Some by (metis map_of_eq_None_iff option.distinct(1))
    ultimately show ?thesis using Cons.IH [OF new(2)] indexed_put [OF Cons.prems(2), of new] Cons.prems by auto
  qed
qed



text \<open>Connect points have an owner and no name, so a profile that mentions one replaces them all.\<close>

lemma profile_drops_points:
  "merged_config
     [(''connect_points'', YList [YMap [(''owner'', YStr ''edge'')], YMap [(''owner'', YStr ''books'')]])]
     [(''connect_points'', YList [YMap [(''owner'', YStr ''edge''), (''port'', YInt 9000)]])]
   = Inr [(''connect_points'', YList [YMap [(''owner'', YStr ''edge''), (''port'', YInt 9000)]])]"
  by code_simp

section \<open>The environment\<close>

lemma target_from_prefix: "target_from path node remainder = Some p \<Longrightarrow> prefix path p"
proof (induction path node remainder rule: target_from.induct)
  case (1 path node remainder)
  then show ?case
    by (subst (asm) (2) target_from.simps)
      (auto split: if_splits yval.splits option.splits dest: append_prefixD)
qed

lemma target_section:
  assumes "target_path config name = Some path" "2 \<le> length path"
  shows "\<exists>m. map_of config (hd path) = Some (YMap m)"
proof -
  obtain key where key: "longest_key config name = Some key" "target_from [key] (get config key) (after_key key name) = Some path"
    using assms by (auto simp: target_path_def target_from.simps [of "[]"] split: if_splits option.splits)
  have hd: "hd path = key" using target_from_prefix [OF key(2)] by (auto simp: prefix_def)
  have "map_of config key \<noteq> None" using longest_key_SomeD [OF key(1)] by (auto simp: map_of_eq_None_iff)
  then obtain v where v: "map_of config key = Some v" by blast
  have "\<exists>m. v = YMap m"
    using key(2) assms(2) v by (auto simp: target_from.simps [of "[key]"] get_def get_or_def split: if_splits yval.splits)
  then show ?thesis using v hd by auto
qed

lemma assign_section:
  assumes "map_of config (hd path) = Some (YMap m)" "2 \<le> length path"
  shows "map fst (assign config path val) = map fst config \<and>
    (\<forall>k. k \<noteq> hd path \<longrightarrow> map_of (assign config path val) k = map_of config k) \<and>
    (\<exists>m'. map_of (assign config path val) (hd path) = Some (YMap m'))"
proof -
  obtain key k2 rest where path: "path = key # k2 # rest" using assms(2) by (cases path; cases "tl path") auto
  have "key \<in> set (map fst config)" using assms(1) path by (auto dest: map_of_SomeD intro: rev_image_eqI)
  then show ?thesis using path by (simp add: update_keys update_conv')
qed

text \<open>What the environment may do to a configuration.\<close>

definition keeps_sections :: "pydict \<Rightarrow> pydict \<Rightarrow> bool" where
  "keeps_sections config c \<longleftrightarrow> map fst c = map fst config \<and>
     (\<forall>k v. map_of config k = Some v \<longrightarrow> (\<exists>w. map_of c k = Some w \<and> (if is_dict v then is_dict w else w = v)))"

lemma keeps_sections_refl: "keeps_sections c c"
  by (simp add: keeps_sections_def)

lemma keeps_sections_trans: "keeps_sections a b \<Longrightarrow> keeps_sections b c \<Longrightarrow> keeps_sections a c"
  unfolding keeps_sections_def by (intro conjI allI impI) (simp, metis)

lemma apply_variable_keeps: "apply_variable r config variable raw = Inr (c, applied) \<Longrightarrow> keeps_sections config c"
proof -
  assume a: "apply_variable r config variable raw = Inr (c, applied)"
  show ?thesis
  proof (cases "c = config")
    case False
    then obtain path val where p: "target_path config (map to_lower (drop (length ENV_PREFIX) variable)) = Some path"
      "2 \<le> length path" "c = assign config path val"
      using a by (auto simp: apply_variable_def bindr_eq_Inr split: if_splits option.splits)
    obtain m where m: "map_of config (hd path) = Some (YMap m)" using target_section [OF p(1,2)] by blast
    obtain m' where as: "map fst c = map fst config" "\<And>k. k \<noteq> hd path \<Longrightarrow> map_of c k = map_of config k"
      "map_of c (hd path) = Some (YMap m')"
      using assign_section [OF m p(2), of val] p(3) by blast
    have "\<exists>w. map_of c k = Some w \<and> (if is_dict v then is_dict w else w = v)" if "map_of config k = Some v" for k v
      using that m as(2) [of k] as(3) by (cases "k = hd path") (auto simp: is_dict_def)
    then show ?thesis using as(1) by (simp add: keeps_sections_def)
  qed (simp add: keeps_sections_refl)
qed

text \<open>
  C9. The environment cannot invent a section and cannot replace one: after the variables are applied
  the configuration has the same keys in the same order, a section that was a mapping is a mapping, and
  everything that is not a mapping, the lists of entities and of connect points among them, is as it was.
\<close>

theorem env_keeps_sections:
  assumes "apply_env r config env = Inr (c, applied)"
  shows "map fst c = map fst config \<and>
    (\<forall>k v. map_of config k = Some v \<longrightarrow> (\<exists>w. map_of c k = Some w \<and> (if is_dict v then is_dict w else w = v)))"
proof -
  have "apply_variables r config es = Inr (c, applied) \<Longrightarrow> keeps_sections config c" for es
  proof (induction es arbitrary: config c applied)
    case (Cons e es)
    obtain variable raw where e: "e = (variable, raw)" by fastforce
    obtain c' a' a'' where "apply_variable r config variable raw = Inr (c', a')" "apply_variables r c' es = Inr (c, a'')"
      using Cons.prems e by (auto simp: bindr_eq_Inr)
    then show ?case using Cons.IH apply_variable_keeps keeps_sections_trans by blast
  qed (simp add: keeps_sections_refl)
  then show ?thesis using assms unfolding apply_env_def keeps_sections_def by blast
qed

theorem env_keeps_sections_witness:
  "\<exists>c. apply_env \<lparr>yaml_load = (\<lambda>_. None), read_float = (\<lambda>_. None)\<rparr>
       [(''public'', YMap [(''port'', YInt 8080)]), (''entities'', YList [YStr ''web''])]
       [(''SYNQT_ROOT'', ''/opt''), (''SYNQT_PUBLIC_PORT'', ''443''), (''SYNQT_ENTITIES'', ''none'')] = Inr (c, [''SYNQT_PUBLIC_PORT -> public.port'']) \<and>
     map fst c = [''public'', ''entities''] \<and>
     map_of c ''entities'' = Some (YList [YStr ''web''])"
proof -
  let ?r = "\<lparr>yaml_load = (\<lambda>_. None), read_float = (\<lambda>_. None)\<rparr>"
  let ?c = "[(''public'', YMap [(''port'', YInt 8080)]), (''entities'', YList [YStr ''web''])]"
  let ?e = "[(''SYNQT_ROOT'', ''/opt''), (''SYNQT_PUBLIC_PORT'', ''443''), (''SYNQT_ENTITIES'', ''none'')]"
  have "map_sum id snd (apply_env ?r ?c ?e) = Inr [''SYNQT_PUBLIC_PORT -> public.port'']" by code_simp
  then obtain c where c: "apply_env ?r ?c ?e = Inr (c, [''SYNQT_PUBLIC_PORT -> public.port''])"
    by (cases "apply_env ?r ?c ?e") auto
  have e: "map_of c ''entities'' = Some (YList [YStr ''web''])"
    using env_keeps_sections [OF c, THEN conjunct2, rule_format, of "''entities''" "YList [YStr ''web'']"] by (simp add: is_dict_def)
  have "map fst c = [''public'', ''entities'']" using env_keeps_sections [OF c, THEN conjunct1] by simp
  with c e show ?thesis by (intro exI [of _ c] conjI)
qed

end
