(* ===== verification/Topology.thy ===== *)
theory Topology
  imports AppProps TextStore
begin

text \<open>
  The resolved topology every service reads at startup, \<open>synqt/topologywriter.py\<close>: one endpoint per
  connect point, shared by its owner and its consumers, and the slice of the topology each entity gets.
  Making a path absolute, the text of a \<open>schema.sql\<close> and the JSON printer are parameters.
\<close>

section \<open>Endpoints\<close>

definition MESH_PORT_BASE :: int where
  "MESH_PORT_BASE = 9440"

text \<open>Runs of other characters become one hyphen, none at the ends.\<close>

definition sanitize :: "string \<Rightarrow> string" where
  "sanitize name =
     (let words = filter (\<lambda>w. w \<noteq> []) (split_on (CHR '' '') (map (\<lambda>c. if ascii_alnum c then c else CHR '' '') name)) in
      if words \<noteq> [] then join ''-'' words else ''cp'')"

definition owner_entity :: "pydict list \<Rightarrow> pydict \<Rightarrow> pydict" where
  "owner_entity es point =
     (case List.find (\<lambda>e. py_eq (get e ''name'') (get point ''owner'')) es of Some e \<Rightarrow> e | None \<Rightarrow> [])"

definition mesh_settings :: "pydict list \<Rightarrow> pydict \<Rightarrow> pydict" where
  "mesh_settings es point =
     (let entity_mesh = block_of (get (owner_entity es point) ''mesh'') in
      concat (map (\<lambda>key. let v = get_or point key (get entity_mesh key) in if v \<noteq> YNull then [(key, v)] else [])
        [''transport'', ''host'', ''port'', ''socket'']))"

datatype endpoint = LocalEndpoint yval | MtlsEndpoint string int

definition resolve_endpoint :: "pydict list \<Rightarrow> yval \<Rightarrow> int \<Rightarrow> pydict \<Rightarrow> (string \<times> endpoint) app" where
  "resolve_endpoint es project_name index point =
     (let name = point_name point; settings = mesh_settings es point in
      if get settings ''transport'' = YStr ''local''
      then Inr (name, LocalEndpoint (if truthy (get settings ''socket'') then get settings ''socket''
             else YStr (sanitize (''synqt-'' @ py_str project_name @ ''-'' @ name))))
      else bindr (py_int (if truthy (get settings ''port'') then get settings ''port'' else YInt (MESH_PORT_BASE + index))) (\<lambda>port.
        Inr (name, MtlsEndpoint (py_str (get_or settings ''host'' (YStr ''127.0.0.1''))) port)))"

text \<open>The points that have a name, by name; the position is the index.\<close>

definition ordered_points :: "pydict list \<Rightarrow> pydict list" where
  "ordered_points cps = sort_key point_name (filter (\<lambda>cp. point_name cp \<noteq> []) cps)"

definition resolve_endpoints :: "pydict list \<Rightarrow> pydict list \<Rightarrow> yval \<Rightarrow> (string \<times> endpoint) list app" where
  "resolve_endpoints es cps project_name =
     bindr (mapr (\<lambda>(index, cp). resolve_endpoint es project_name (int index) cp) (enumerate 0 (ordered_points cps))) (\<lambda>eps.
       Inr (foldl (\<lambda>d (name, ep). AList.update name ep d) [] eps))"

definition LOOPBACK_HOSTS :: "string list" where
  "LOOPBACK_HOSTS = [''127.0.0.1'', ''::1'', ''localhost'']"

fun is_cross_host :: "endpoint \<Rightarrow> bool" where
  "is_cross_host (LocalEndpoint _) = False"
| "is_cross_host (MtlsEndpoint host _) = (map to_lower (strip host) \<notin> set LOOPBACK_HOSTS)"

definition default_endpoint :: endpoint where
  "default_endpoint = MtlsEndpoint ''127.0.0.1'' MESH_PORT_BASE"

fun endpoint_json :: "endpoint \<Rightarrow> yval" where
  "endpoint_json (LocalEndpoint socket) = YMap [(''transport'', YStr ''local''), (''socket'', socket)]"
| "endpoint_json (MtlsEndpoint host port) = YMap [(''transport'', YStr ''mtls''), (''host'', YStr host), (''port'', YInt port)]"

section \<open>The slice of an entity\<close>

text \<open>What the code takes from the outside: an absolute path, and the text of a file if it exists.\<close>

record project_files =
  absolute :: "string \<Rightarrow> string"
  file_text :: "string \<Rightarrow> string option"

definition before_dashes :: "string \<Rightarrow> string" where
  "before_dashes line = (case find_sub ''--'' line of Some i \<Rightarrow> take i line | None \<Rightarrow> line)"

definition schema_steps :: "project_files \<Rightarrow> pydict \<Rightarrow> string list" where
  "schema_steps pf entity =
     (case get entity ''schema'' of
        YList steps \<Rightarrow> filter (\<lambda>s. strip s \<noteq> []) (map py_str steps)
      | _ \<Rightarrow>
        (case file_text pf (entity_dir entity @ ''/schema.sql'') of
           None \<Rightarrow> []
         | Some sql \<Rightarrow>
             filter (\<lambda>s. s \<noteq> []) (map strip (split_on (CHR '';'') (join nl (map before_dashes (splitlines sql)))))))"

definition server_file :: "project_files \<Rightarrow> pydict list \<Rightarrow> pydict \<Rightarrow> string app" where
  "server_file pf es point =
     (case entity_named es (text_or_empty (get point ''owner'')) of
        None \<Rightarrow>
          if \<not> truthy (get point ''server'') then Inr []
          else (case get point ''server'' of YStr s \<Rightarrow> Inr (absolute pf (mirrored_path s)) | _ \<Rightarrow> Inl AttributeError)
      | Some owner \<Rightarrow> Inr (absolute pf (mirrored_path (authored_source_path owner point))))"

definition point_json :: "(string \<times> endpoint) list \<Rightarrow> yval list \<Rightarrow> string \<Rightarrow> pydict \<Rightarrow> pydict" where
  "point_json endpoints consumers server point =
     [(''name'', YStr (point_name point)),
      (''contract'', YStr (contract_of point)),
      (''owner'', get point ''owner''),
      (''consumers'', YList consumers),
      (''server'', YStr server)]
     @ (if is_framework_point point then [(''framework'', YBool True)] else [])
     @ [(''endpoint'', endpoint_json (case map_of endpoints (point_name point) of Some ep \<Rightarrow> ep | None \<Rightarrow> default_endpoint))]"

text \<open>\<open>name in consumers\<close> of a list.\<close>

definition among :: "yval \<Rightarrow> yval list \<Rightarrow> bool" where
  "among name vs = list_ex (\<lambda>v. py_eq v name) vs"

definition entity_point :: "project_files \<Rightarrow> pydict list \<Rightarrow> (string \<times> endpoint) list \<Rightarrow> yval \<Rightarrow> bool \<Rightarrow> pydict \<Rightarrow> yval list app" where
  "entity_point pf es endpoints name consumed_only point =
     bindr (py_iter (consumers_of point)) (\<lambda>consumers.
       let owns = py_eq (get point ''owner'') name; consumes = among name consumers in
       if (if consumed_only then owns \<or> \<not> consumes else \<not> owns \<and> \<not> consumes) then Inr []
       else bindr (server_file pf es point) (\<lambda>server. Inr [YMap (point_json endpoints consumers server point)]))"

definition monitoring_block :: "project_files \<Rightarrow> pydict \<Rightarrow> pydict \<Rightarrow> pydict" where
  "monitoring_block pf config entity =
     (let monitor = monitor_entity config; name = get entity ''name''; levels = trace_levels config in
      if monitor \<noteq> [] \<and> name \<noteq> YStr monitor \<and> \<not> is_client entity
      then [(''monitoring'', YMap ([(''spool_dir'', YStr (absolute pf (''build/'' @ py_str name @ ''/state'')))]
             @ (if levels \<noteq> [] then [(''levels'', YMap (map (map_prod id YStr) levels))] else [])))]
      else [])"

text \<open>Everything but the connect points.\<close>

definition topology_head :: "project_files \<Rightarrow> pydict \<Rightarrow> pydict \<Rightarrow> pydict" where
  "topology_head pf config entity =
     (let name = get entity ''name''; schema = schema_steps pf entity in
      [(''entity'', name)]
      @ (if is_shared entity then [] else [(''shared'', YBool False)])
      @ [(''credentials'', YMap
           [(''ca'', YStr (absolute pf ''synqt/mesh/ca.crt'')),
            (''cert'', YStr (absolute pf (''synqt/mesh/'' @ py_str name @ ''.crt''))),
            (''key'', YStr (absolute pf (''synqt/mesh/'' @ py_str name @ ''.key'')))])]
      @ (if entity_type entity \<noteq> PLAIN_TYPE then [(''type'', YStr (entity_type entity))] else [])
      @ (if truthy (get entity ''provider'') then [(''provider'', get entity ''provider'')]
         else if truthy (get entity ''settings'') then [(''settings'', get entity ''settings'')] else [])
      @ (if schema \<noteq> [] then [(''schema'', YList (map YStr schema))] else [])
      @ (if declares_outbound entity then [(''network'', YMap [(''outbound'', YList (map YMap (outbound_endpoints entity)))])] else [])
      @ monitoring_block pf config entity)"

definition entity_topology ::
  "project_files \<Rightarrow> pydict \<Rightarrow> pydict \<Rightarrow> (string \<times> endpoint) list \<Rightarrow> bool \<Rightarrow> pydict app" where
  "entity_topology pf config entity endpoints consumed_only =
     bindr (entities config) (\<lambda>es.
     bindr (connect_points config) (\<lambda>cps.
     bindr (concatr (map (entity_point pf es endpoints (get entity ''name'') consumed_only) cps)) (\<lambda>points.
       Inr (topology_head pf config entity @ [(''connect_points'', YList points)]))))"

text \<open>\<open>name in v\<close> of a value as it was read.\<close>

definition val_in :: "yval \<Rightarrow> yval \<Rightarrow> bool app" where
  "val_in name v =
     (case v of
        YList vs \<Rightarrow> Inr (among name vs)
      | _ \<Rightarrow> (case name of YStr s \<Rightarrow> str_in s v | _ \<Rightarrow> Inl TypeError))"

text \<open>\<open>any\<close> stops at the first point that answers.\<close>

fun anyr :: "('a \<Rightarrow> 'e + bool) \<Rightarrow> 'a list \<Rightarrow> 'e + bool" where
  "anyr p [] = Inr False"
| "anyr p (x # xs) = bindr (p x) (\<lambda>b. if b then Inr True else anyr p xs)"

definition consumes_over_mesh :: "pydict list \<Rightarrow> yval \<Rightarrow> bool app" where
  "consumes_over_mesh cps name =
     anyr (\<lambda>cp. bindr (val_in name (consumers_of cp)) (\<lambda>b. Inr (b \<and> \<not> py_eq (get cp ''owner'') name))) cps"

definition topology_path :: "string \<Rightarrow> string" where
  "topology_path name = ''build/'' @ name @ ''/topology.json''"

text \<open>One file, unless the entity has no name; a name that is no string is no part of a path.\<close>

definition topology_file :: "project_files \<Rightarrow> pydict \<Rightarrow> (string \<times> endpoint) list \<Rightarrow> bool \<Rightarrow> pydict \<Rightarrow> (string \<times> pydict) list app" where
  "topology_file pf config endpoints consumed_only entity =
     (case get entity ''name'' of
        YStr name \<Rightarrow> bindr (entity_topology pf config entity endpoints consumed_only) (\<lambda>t. Inr [(topology_path name, t)])
      | _ \<Rightarrow> Inl TypeError)"

definition service_file :: "project_files \<Rightarrow> pydict \<Rightarrow> (string \<times> endpoint) list \<Rightarrow> pydict \<Rightarrow> (string \<times> pydict) list app" where
  "service_file pf config endpoints entity =
     (if \<not> truthy (get entity ''name'') then Inr [] else topology_file pf config endpoints False entity)"

definition edge_file :: "project_files \<Rightarrow> pydict \<Rightarrow> (string \<times> endpoint) list \<Rightarrow> pydict \<Rightarrow> (string \<times> pydict) list app" where
  "edge_file pf config endpoints entity =
     (if \<not> truthy (get entity ''name'') \<or> \<not> is_edge entity then Inr []
      else bindr (connect_points config) (\<lambda>cps.
           bindr (consumes_over_mesh cps (get entity ''name'')) (\<lambda>b.
             if b then topology_file pf config endpoints True entity else Inr [])))"

text \<open>The files in the order they are written, each with the error it may end in.\<close>

definition topology_slices :: "project_files \<Rightarrow> pydict \<Rightarrow> (string \<times> pydict) list app list app" where
  "topology_slices pf config =
     bindr (with_implied_points config) (\<lambda>c.
     bindr (get_attr (get_or c ''project'' (YMap [])) ''name'' (YStr ''app'')) (\<lambda>project_name.
     bindr (entities c) (\<lambda>es.
     bindr (connect_points c) (\<lambda>cps.
     bindr (resolve_endpoints es cps project_name) (\<lambda>endpoints.
       Inr (map (service_file pf c endpoints) (filter (\<lambda>e. is_service e \<and> \<not> is_edge e) es) @ map (edge_file pf c endpoints) es))))))"

text \<open>
  Writing them, each only where its text changes, up to the first that raises; \<open>dumps\<close> is
  \<open>json.dumps(..., indent=2)\<close>.
\<close>

definition write_slice :: "(pydict \<Rightarrow> string) \<Rightarrow> (string \<times> pydict) list \<Rightarrow> world \<Rightarrow> world" where
  "write_slice dumps fs w = foldl (\<lambda>w (path, t). snd (write_if_changed path (dumps t @ nl) w)) w fs"

fun write_slices :: "(pydict \<Rightarrow> string) \<Rightarrow> (string \<times> pydict) list app list \<Rightarrow> world \<Rightarrow> string list app \<times> world" where
  "write_slices dumps [] w = (Inr [], w)"
| "write_slices dumps (Inl e # slices) w = (Inl e, w)"
| "write_slices dumps (Inr fs # slices) w =
     (let (r, w') = write_slices dumps slices (write_slice dumps fs w) in (bindr r (\<lambda>ps. Inr (map fst fs @ ps)), w'))"

definition write_topologies :: "project_files \<Rightarrow> (pydict \<Rightarrow> string) \<Rightarrow> pydict \<Rightarrow> world \<Rightarrow> string list app \<times> world" where
  "write_topologies pf dumps config w =
     (case topology_slices pf config of Inl e \<Rightarrow> (Inl e, w) | Inr slices \<Rightarrow> write_slices dumps slices w)"

end
