(* ===== verification/Startup.thy ===== *)
theory Startup
  imports AppProps
begin

text \<open>
  The order services are started in, \<open>synqt/run.py\<close>: owners before consumers as far as the links
  allow, and a cycle placed by name rather than waited for. The sets of names are lists without
  repeats. A name that is not a string is refused as Python refuses to sort it beside a string.
\<close>

section \<open>The order\<close>

definition service_name :: "pydict \<Rightarrow> string app" where
  "service_name e = (case get e ''name'' of YStr s \<Rightarrow> Inr s | _ \<Rightarrow> Inl TypeError)"

definition service_names :: "pydict list \<Rightarrow> string list app" where
  "service_names es = bindr (mapr service_name (filter is_service es)) (\<lambda>names. Inr (remdups names))"

text \<open>
  \<open>after\<close>, as the pairs of a consumer and an owner it waits for. The tests run from the left, and asking
  whether a value is in a set hashes it.
\<close>

definition consumer_link :: "string list \<Rightarrow> yval \<Rightarrow> yval \<Rightarrow> (string \<times> string) list app" where
  "consumer_link services owner consumer =
     (if \<not> hashable consumer then Inl TypeError
      else case consumer of
        YStr c \<Rightarrow>
          if c \<notin> set services then Inr []
          else if \<not> hashable owner then Inl TypeError
          else Inr (case owner of YStr o' \<Rightarrow> if o' \<in> set services \<and> o' \<noteq> c then [(c, o')] else [] | _ \<Rightarrow> [])
      | _ \<Rightarrow> Inr [])"

definition point_links :: "string list \<Rightarrow> yval \<Rightarrow> (string \<times> string) list app" where
  "point_links services point =
     bindr (as_dict point) (\<lambda>cp.
     bindr (py_iter (get_or cp ''consumers'' (YList []))) (\<lambda>cs.
       concatr (map (consumer_link services (get cp ''owner'')) cs)))"

definition ready :: "(string \<times> string) list \<Rightarrow> string list \<Rightarrow> string \<Rightarrow> bool" where
  "ready after placed name \<longleftrightarrow> list_all (\<lambda>(c, o'). c = name \<longrightarrow> o' \<in> set placed) after"

lemma filter_smaller: "x \<in> set xs \<Longrightarrow> \<not> P x \<Longrightarrow> length (filter P xs) < length xs"
  by (induction xs) (auto simp: less_Suc_eq_le)

function place :: "(string \<times> string) list \<Rightarrow> string list \<Rightarrow> string list \<Rightarrow> string list" where
  "place after ordered remaining =
     (if remaining = [] then ordered
      else let now = sort (filter (ready after ordered) remaining);
               now = (if now = [] then sort remaining else now) in
           place after (ordered @ now) (filter (\<lambda>n. n \<notin> set now) remaining))"
  by pat_completeness auto

termination
proof (relation "measure (\<lambda>(after, ordered, remaining). length remaining)", simp)
  fix after :: "(string \<times> string) list" and ordered remaining now now' :: "string list"
  assume "remaining \<noteq> []" and now: "now = sort (filter (ready after ordered) remaining)"
    "now' = (if now = [] then sort remaining else now)"
  then have "now' \<noteq> []" "set now' \<subseteq> set remaining" by (metis length_0_conv length_sort, auto)
  then have "hd now' \<in> set now' \<and> hd now' \<in> set remaining" using hd_in_set by blast
  then show "((after, ordered @ now', filter (\<lambda>n. n \<notin> set now') remaining), after, ordered, remaining)
      \<in> measure (\<lambda>(after, ordered, remaining). length remaining)"
    using filter_smaller [of "hd now'" remaining "\<lambda>n. n \<notin> set now'"] by auto
qed

declare place.simps [simp del]

text \<open>The services of the whole topology and their links.\<close>

definition topology :: "pydict \<Rightarrow> (string list \<times> (string \<times> string) list) app" where
  "topology config =
     bindr (with_implied_points config) (\<lambda>c.
     bindr (entities c) (\<lambda>es.
     bindr (service_names es) (\<lambda>services.
     bindr (py_iter (get_or c ''connect_points'' (YList []))) (\<lambda>points.
     bindr (concatr (map (point_links services) points)) (\<lambda>after.
       Inr (services, after))))))"

definition startup_order :: "pydict \<Rightarrow> string list app" where
  "startup_order config = bindr (topology config) (\<lambda>(services, after). Inr (place after [] services))"

section \<open>What the order promises\<close>

text \<open>One round: what is placed now, and what is left.\<close>

definition round_of :: "(string \<times> string) list \<Rightarrow> string list \<Rightarrow> string list \<Rightarrow> string list" where
  "round_of after ordered remaining =
     (let now = sort (filter (ready after ordered) remaining) in if now = [] then sort remaining else now)"

lemma place_Nil [simp]: "place after ordered [] = ordered"
  by (simp add: place.simps)

lemma place_round:
  "remaining \<noteq> [] \<Longrightarrow> place after ordered remaining =
     place after (ordered @ round_of after ordered remaining) (filter (\<lambda>n. n \<notin> set (round_of after ordered remaining)) remaining)"
  by (subst place.simps) (simp add: round_of_def Let_def)

lemma round_of_set: "set (round_of after ordered remaining) \<subseteq> set remaining"
  by (auto simp: round_of_def Let_def)

lemma round_of_distinct: "distinct remaining \<Longrightarrow> distinct (round_of after ordered remaining)"
  by (simp add: round_of_def Let_def)

lemma place_permutes:
  "distinct (ordered @ remaining) \<Longrightarrow>
     set (place after ordered remaining) = set ordered \<union> set remaining \<and> distinct (place after ordered remaining) \<and>
     prefix ordered (place after ordered remaining)"
proof (induction after ordered remaining rule: place.induct)
  case (1 after ordered remaining)
  show ?case
  proof (cases "remaining = []")
    case False
    let ?now = "round_of after ordered remaining"
    let ?rest = "filter (\<lambda>n. n \<notin> set ?now) remaining"
    have "distinct ((ordered @ ?now) @ ?rest)"
      using "1.prems" round_of_set [of after ordered remaining] round_of_distinct [of remaining after ordered] by auto
    from "1.IH" [OF False refl refl, folded round_of_def [unfolded Let_def], OF this]
    show ?thesis unfolding place_round [OF False] using round_of_set [of after ordered remaining]
      by (auto intro: append_prefixD)
  qed (use "1.prems" in simp)
qed

text \<open>
  A service is grounded when following the owners it waits for, and those they wait for, always comes
  to an end: there is no cycle above it.
\<close>

abbreviation grounded :: "(string \<times> string) list \<Rightarrow> string set" where
  "grounded after \<equiv> Wellfounded.acc ((set after)\<inverse>)"

lemma ready_iff: "ready after placed n \<longleftrightarrow> (\<forall>o'. (n, o') \<in> set after \<longrightarrow> o' \<in> set placed)"
  by (auto simp: ready_def list_all_iff)

lemma grounded_ready:
  assumes "c \<in> grounded after" "c \<in> set remaining" "\<And>c o'. (c, o') \<in> set after \<Longrightarrow> o' \<in> set ordered \<union> set remaining"
  shows "\<exists>n \<in> set remaining. ready after ordered n"
  using assms(1,2)
proof (induction rule: acc.induct)
  case (accI c)
  show ?case
  proof (cases "ready after ordered c")
    case False
    then obtain o' where o': "(c, o') \<in> set after" "o' \<notin> set ordered" by (auto simp: ready_iff)
    then have "o' \<in> set remaining" using assms(3) by blast
    then show ?thesis using accI.IH o'(1) by blast
  qed (use accI.prems in blast)
qed

lemma grounded_round:
  assumes "c \<in> grounded after" "c \<in> set remaining" "\<And>c o'. (c, o') \<in> set after \<Longrightarrow> o' \<in> set ordered \<union> set remaining"
    "n \<in> set (round_of after ordered remaining)"
  shows "ready after ordered n"
proof -
  have "filter (ready after ordered) remaining \<noteq> []"
    using grounded_ready [OF assms(1,2,3)] by (auto simp: filter_empty_conv)
  then have "sort (filter (ready after ordered) remaining) \<noteq> []" by (metis length_0_conv length_sort)
  then show ?thesis using assms(4) by (auto simp: round_of_def Let_def)
qed

lemma place_owner_first:
  "distinct (ordered @ remaining) \<Longrightarrow> (\<And>c o'. (c, o') \<in> set after \<Longrightarrow> o' \<in> set ordered \<union> set remaining) \<Longrightarrow>
     (c, o') \<in> set after \<Longrightarrow> c \<in> grounded after \<Longrightarrow> c \<in> set remaining \<Longrightarrow>
     \<exists>xs ys. place after ordered remaining = xs @ c # ys \<and> o' \<in> set xs"
proof (induction after ordered remaining rule: place.induct)
  case (1 after ordered remaining)
  let ?now = "round_of after ordered remaining"
  let ?rest = "filter (\<lambda>n. n \<notin> set ?now) remaining"
  have ne: "remaining \<noteq> []" using "1.prems"(5) by auto
  have dist: "distinct ((ordered @ ?now) @ ?rest)"
    using "1.prems"(1) round_of_set [of after ordered remaining] round_of_distinct [of remaining after ordered] by auto
  show ?case
  proof (cases "c \<in> set ?now")
    case True
    then have "o' \<in> set ordered" using grounded_round [OF "1.prems"(4,5,2)] "1.prems"(3) by (auto simp: ready_iff)
    moreover obtain us vs where "?now = us @ c # vs" using True by (meson split_list)
    moreover obtain zs where "place after ordered remaining = (ordered @ ?now) @ zs"
      using place_permutes [OF dist, of after] place_round [OF ne, of after ordered] by (auto simp: prefix_def)
    ultimately show ?thesis by (intro exI [of _ "ordered @ us"] exI [of _ "vs @ zs"]) simp
  next
    case False
    then show ?thesis unfolding place_round [OF ne]
      by (intro "1.IH" [OF ne refl refl, folded round_of_def [unfolded Let_def], OF dist])
        (use "1.prems" round_of_set [of after ordered remaining] in auto)
  qed
qed

section \<open>The services of a topology\<close>

lemma consumer_link_iff:
  "consumer_link services owner consumer = Inr ls \<Longrightarrow>
     (c, o') \<in> set ls \<longleftrightarrow> consumer = YStr c \<and> owner = YStr o' \<and> c \<in> set services \<and> o' \<in> set services \<and> c \<noteq> o'"
  by (auto simp: consumer_link_def split: if_splits yval.splits)

lemma consumer_link_ok: "hashable consumer \<Longrightarrow> hashable owner \<Longrightarrow> is_ok (consumer_link services owner consumer)"
  by (auto simp: consumer_link_def split: yval.splits)

lemma concatr_set: "concatr ps = Inr xs \<Longrightarrow> x \<in> set xs \<longleftrightarrow> (\<exists>ys. Inr ys \<in> set ps \<and> x \<in> set ys)"
proof (induction ps arbitrary: xs)
  case (Cons p ps)
  then obtain ys zs where ys: "p = Inr ys" "concatr ps = Inr zs" "xs = ys @ zs"
    by (auto simp: concatr.simps bindr_eq_Inr)
  show ?case using Cons.IH [OF ys(2)] ys by auto
qed (simp add: concatr.simps)

lemma concatr_all: "concatr ps = Inr xs \<Longrightarrow> p \<in> set ps \<Longrightarrow> \<exists>ys. p = Inr ys"
  by (induction ps arbitrary: xs) (auto simp: concatr.simps bindr_eq_Inr)

lemma point_links_iff:
  assumes "point_links services point = Inr ls"
  shows "(c, o') \<in> set ls \<longleftrightarrow> c \<in> set services \<and> o' \<in> set services \<and> c \<noteq> o' \<and>
    (\<exists>cp cs. point = YMap cp \<and> get cp ''owner'' = YStr o' \<and> py_iter (get_or cp ''consumers'' (YList [])) = Inr cs \<and> YStr c \<in> set cs)"
proof -
  obtain cp cs where cp: "point = YMap cp" "py_iter (get_or cp ''consumers'' (YList [])) = Inr cs"
    and ls: "concatr (map (consumer_link services (get cp ''owner'')) cs) = Inr ls"
    using assms by (auto simp: point_links_def as_dict_def bindr_eq_Inr split: yval.splits)
  have "(c, o') \<in> set ls \<longleftrightarrow> (\<exists>v \<in> set cs. \<exists>ys. consumer_link services (get cp ''owner'') v = Inr ys \<and> (c, o') \<in> set ys)"
    using concatr_set [OF ls, of "(c, o')"] by (auto simp: image_iff) (metis imageI)+
  moreover have "\<exists>ys. consumer_link services (get cp ''owner'') v = Inr ys" if "v \<in> set cs" for v
    using concatr_all [OF ls] that by auto
  ultimately show ?thesis using cp consumer_link_iff [of services "get cp ''owner''"] by (auto 4 4)
qed

lemma service_names_set:
  assumes "service_names es = Inr names"
  shows "distinct names \<and> (\<forall>n. n \<in> set names \<longleftrightarrow> (\<exists>e \<in> set es. is_service e \<and> get e ''name'' = YStr n))"
proof -
  obtain ns where ns: "mapr service_name (filter is_service es) = Inr ns" and names: "names = remdups ns"
    using assms by (auto simp: service_names_def bindr_eq_Inr)
  have "list_all2 (\<lambda>e n. get e ''name'' = YStr n) (filter is_service es) ns"
    by (rule list_all2_mono [OF mapr_eq_Inr [OF ns]]) (auto simp: service_name_def split: yval.splits)
  then have "n \<in> set ns \<longleftrightarrow> (\<exists>e \<in> set (filter is_service es). get e ''name'' = YStr n)" for n
    by (induction rule: list_all2_induct) auto
  then show ?thesis unfolding names by auto
qed

lemma topologyE:
  assumes "topology config = Inr (services, after)"
  obtains c es points where "with_implied_points config = Inr c" "entities c = Inr es" "service_names es = Inr services"
    "py_iter (get_or c ''connect_points'' (YList [])) = Inr points" "concatr (map (point_links services) points) = Inr after"
  using assms by (auto simp: topology_def bindr_eq_Inr)

lemma topology_links: "topology config = Inr (services, after) \<Longrightarrow> (c, o') \<in> set after \<Longrightarrow> c \<in> set services \<and> o' \<in> set services"
  by (elim topologyE) (auto simp: concatr_set point_links_iff dest!: concatr_all)

lemma topology_distinct: "topology config = Inr (services, after) \<Longrightarrow> distinct services"
  by (elim topologyE) (auto dest: service_names_set)

text \<open>
  C33. A service that waits for an owner is started after it, unless its chain of owners runs into a
  cycle: whatever else the topology holds, cycles included, the owner is earlier in the order.
\<close>

theorem startup_owner_first:
  assumes "topology config = Inr (services, after)" "(c, o') \<in> set after" "c \<in> grounded after"
  shows "\<exists>xs ys. startup_order config = Inr (xs @ c # ys) \<and> o' \<in> set xs"
proof -
  have "\<exists>xs ys. place after [] services = xs @ c # ys \<and> o' \<in> set xs"
    using assms topology_links [OF assms(1)] topology_distinct [OF assms(1)] by (intro place_owner_first) auto
  then show ?thesis using assms(1) by (auto simp: startup_order_def)
qed

text \<open>
  C34. Every service is started: on a topology whose services have names and whose connect points are
  mappings with a list of consumers, the order is computed, also where the links run in a circle, and
  every service is in it exactly once.
\<close>

theorem startup_all_placed:
  assumes "with_implied_points config = Inr c" "entities c = Inr es"
    and named: "\<forall>e \<in> set es. is_service e \<longrightarrow> (\<exists>s. get e ''name'' = YStr s)"
    and points: "get_or c ''connect_points'' (YList []) = YList (map YMap cps)"
    and shaped: "\<forall>cp \<in> set cps. hashable (get cp ''owner'') \<and>
      (\<exists>vs. get_or cp ''consumers'' (YList []) = YList vs \<and> list_all hashable vs)"
  shows "\<exists>order. startup_order config = Inr order \<and> distinct order \<and>
    (\<forall>n. n \<in> set order \<longleftrightarrow> (\<exists>e \<in> set es. is_service e \<and> get e ''name'' = YStr n))"
proof -
  have "is_ok (mapr service_name (filter is_service es))" using named by (auto simp: service_name_def)
  then obtain ns where "mapr service_name (filter is_service es) = Inr ns" by (rule is_okE)
  then obtain services where services: "service_names es = Inr services" by (simp add: service_names_def)
  have "is_ok (point_links services (YMap cp))" if cp: "cp \<in> set cps" for cp
  proof -
    obtain vs where "hashable (get cp ''owner'')" "get_or cp ''consumers'' (YList []) = YList vs" "list_all hashable vs"
      using bspec [OF shaped cp] by auto
    then show ?thesis by (auto simp: point_links_def as_dict_def list_all_iff intro!: consumer_link_ok)
  qed
  then have "is_ok (concatr (map (point_links services) (map YMap cps)))" by auto
  then obtain after where after: "concatr (map (point_links services) (map YMap cps)) = Inr after" by (elim is_okE)
  then have "startup_order config = Inr (place after [] services)"
    using assms(1,2) points services by (simp add: startup_order_def topology_def)
  then show ?thesis using place_permutes [of "[]" services after] service_names_set [OF services] by auto
qed

section \<open>Examples\<close>

definition sample_topology_config :: pydict where
  "sample_topology_config = projr (with_implied_points sample_project)"

definition sample_points :: "yval list" where
  "sample_points = projr (py_iter (get_or sample_topology_config ''connect_points'' (YList [])))"

lemma sample_topology: "topology sample_project =
    Inr ([''edge'', ''auth'', ''watch''],
      [(''edge'', ''auth''), (''edge'', ''auth''), (''edge'', ''watch''), (''auth'', ''watch'')])"
proof -
  have "is_ok (with_implied_points sample_project)" by code_simp
  then have c: "with_implied_points sample_project = Inr sample_topology_config"
    by (auto simp: sample_topology_config_def elim: is_okE)
  have e: "entities sample_topology_config = Inr sample_entities" by code_simp
  have s: "service_names sample_entities = Inr [''edge'', ''auth'', ''watch'']" by code_simp
  have "is_ok (py_iter (get_or sample_topology_config ''connect_points'' (YList [])))" by code_simp
  then have p: "py_iter (get_or sample_topology_config ''connect_points'' (YList [])) = Inr sample_points"
    by (auto simp: sample_points_def elim: is_okE)
  have "concatr (map (point_links [''edge'', ''auth'', ''watch'']) sample_points) =
      Inr [(''edge'', ''auth''), (''edge'', ''auth''), (''edge'', ''watch''), (''auth'', ''watch'')]" by code_simp
  then show ?thesis by (simp add: topology_def c e s p)
qed

theorem startup_owner_first_witness:
  "\<exists>xs ys. startup_order sample_project = Inr (xs @ ''edge'' # ys) \<and> ''auth'' \<in> set xs"
proof (rule startup_owner_first [OF sample_topology])
  let ?after = "[(''edge'', ''auth''), (''edge'', ''auth''), (''edge'', ''watch''), (''auth'', ''watch'')]"
  have w: "''watch'' \<in> grounded ?after" by (rule accI) auto
  have a: "''auth'' \<in> grounded ?after" by (rule accI) (use w in auto)
  show "''edge'' \<in> grounded ?after" by (rule accI) (use w a in auto)
qed simp

text \<open>Two services that consume each other's points.\<close>

definition circular_project :: pydict where
  "circular_project =
     [(''entities'', YList (map YMap [[(''name'', YStr ''a'')], [(''name'', YStr ''b'')]])),
      (''connect_points'', YList (map YMap
        [[(''owner'', YStr ''a''), (''consumers'', YList [YStr ''b''])], [(''owner'', YStr ''b''), (''consumers'', YList [YStr ''a''])]]))]"

theorem startup_all_placed_witness:
  "\<exists>order. startup_order circular_project = Inr order \<and> distinct order \<and> ''a'' \<in> set order \<and> ''b'' \<in> set order"
proof -
  have c: "with_implied_points circular_project = Inr circular_project" by code_simp
  have e: "entities circular_project = Inr [[(''name'', YStr ''a'')], [(''name'', YStr ''b'')]]"
    by (simp add: entities_def circular_project_def)
  have p: "get_or circular_project ''connect_points'' (YList []) = YList (map YMap
        [[(''owner'', YStr ''a''), (''consumers'', YList [YStr ''b''])], [(''owner'', YStr ''b''), (''consumers'', YList [YStr ''a''])]])"
    by (simp add: circular_project_def)
  have s: "is_service [(''name'', YStr ''a'')]" "is_service [(''name'', YStr ''b'')]" by code_simp+
  show ?thesis using startup_all_placed [OF c e _ p] s by (auto simp: hashable_def is_list_def is_dict_def)
qed

end
