(* ===== verification/TopologyProps.thy ===== *)
theory TopologyProps
  imports Topology Startup
begin

text \<open>
  What the resolved topology promises: an owner and each of its consumers hold the same record of the
  point they share, and points that declare no port get different ones.
\<close>

section \<open>One record of a point\<close>

definition points_of :: "pydict \<Rightarrow> yval list" where
  "points_of t = (case get t ''connect_points'' of YList ps \<Rightarrow> ps | _ \<Rightarrow> [])"

lemma topology_head_keys: "''connect_points'' \<notin> fst ` set (topology_head pf config entity)"
  by (auto simp: topology_head_def monitoring_block_def Let_def split: if_splits)

lemma entity_topology_points:
  assumes "entity_topology pf config entity endpoints consumed_only = Inr t"
    "entities config = Inr es" "connect_points config = Inr cps"
  shows "concatr (map (entity_point pf es endpoints (get entity ''name'') consumed_only) cps) = Inr (points_of t)"
proof -
  obtain ps where ps: "concatr (map (entity_point pf es endpoints (get entity ''name'') consumed_only) cps) = Inr ps"
    "t = topology_head pf config entity @ [(''connect_points'', YList ps)]"
    using assms by (auto simp: entity_topology_def bindr_eq_Inr)
  have "points_of t = ps" by (simp add: points_of_def ps(2) get_append topology_head_keys)
  then show ?thesis using ps(1) by simp
qed

lemma entity_point_in:
  assumes "concatr (map (entity_point pf es endpoints name consumed_only) cps) = Inr ps" "cp \<in> set cps"
    "py_iter (consumers_of cp) = Inr vs" "server_file pf es cp = Inr server"
    "if consumed_only then \<not> py_eq (get cp ''owner'') name \<and> among name vs else py_eq (get cp ''owner'') name \<or> among name vs"
  shows "YMap (point_json endpoints vs server cp) \<in> set ps"
proof -
  have "entity_point pf es endpoints name consumed_only cp = Inr [YMap (point_json endpoints vs server cp)]"
    using assms(3-5) by (auto simp: entity_point_def Let_def)
  then have "Inr [YMap (point_json endpoints vs server cp)] \<in> set (map (entity_point pf es endpoints name consumed_only) cps)"
    using assms(2) by force
  then show ?thesis using concatr_set [OF assms(1)] by (metis list.set_intros(1))
qed

lemma anyr_True: "anyr p xs = Inr b \<Longrightarrow> x \<in> set xs \<Longrightarrow> p x = Inr True \<Longrightarrow> b"
  by (induction xs) (auto simp: bindr_eq_Inr split: if_splits)

text \<open>An entity that is given a slice: a service with a name; an edge where it consumes what another owns.\<close>

lemma slice_of:
  assumes slices: "topology_slices pf config = Inr slices" "concatr slices = Inr fs"
    and c: "with_implied_points config = Inr c" "entities c = Inr es" "connect_points c = Inr cps"
    and e: "e \<in> set es" "is_service e" "get e ''name'' = YStr n" "n \<noteq> []"
    and cp: "cp \<in> set cps" "get cp ''owner'' = YStr na" "get cp ''consumers'' = YList vs"
    and part: "if is_edge e then n \<noteq> na \<and> YStr n \<in> set vs else n = na \<or> YStr n \<in> set vs"
    and server: "server_file pf es cp = Inr server"
  obtains pn endpoints t where "get_attr (get_or c ''project'' (YMap [])) ''name'' (YStr ''app'') = Inr pn"
    "resolve_endpoints es cps pn = Inr endpoints"
    "(topology_path n, t) \<in> set fs" "YMap (point_json endpoints vs server cp) \<in> set (points_of t)"
proof -
  obtain pn endpoints where pe: "get_attr (get_or c ''project'' (YMap [])) ''name'' (YStr ''app'') = Inr pn"
      "resolve_endpoints es cps pn = Inr endpoints"
    and sl: "slices = map (service_file pf c endpoints) (filter (\<lambda>e. is_service e \<and> \<not> is_edge e) es) @ map (edge_file pf c endpoints) es"
    using slices(1) c by (auto simp: topology_slices_def bindr_eq_Inr)
  have iter: "py_iter (consumers_of cp) = Inr vs" using cp(3) by (cases vs) (auto simp: or_empty_def)
  have among: "among (YStr n) vs \<longleftrightarrow> YStr n \<in> set vs" by (auto simp: among_def list_ex_iff)
  have owns: "py_eq (get cp ''owner'') (YStr n) \<longleftrightarrow> n = na" using cp(2) by auto
  let ?file = "if is_edge e then edge_file pf c endpoints e else service_file pf c endpoints e"
  have mem: "?file \<in> set slices" using e(1,2) sl by auto
  then obtain gs where gs: "?file = Inr gs" using concatr_all [OF slices(2)] by blast
  have "\<exists>t. gs = [(topology_path n, t)] \<and> entity_topology pf c e endpoints (is_edge e) = Inr t"
  proof (cases "is_edge e")
    case True
    then obtain b where b: "consumes_over_mesh cps (YStr n) = Inr b"
        "(if b then topology_file pf c endpoints True e else Inr []) = Inr gs"
      using gs e(3,4) c(3) by (auto simp: edge_file_def bindr_eq_Inr)
    have "val_in (YStr n) (consumers_of cp) = Inr True"
      using cp(3) part True among by (cases vs) (auto simp: or_empty_def val_in_def)
    then have b by (intro anyr_True [OF b(1) [unfolded consumes_over_mesh_def] cp(1)]) (use owns part True in auto)
    then show ?thesis using b(2) True e(3) by (auto simp: topology_file_def bindr_eq_Inr)
  next
    case False
    then show ?thesis using gs e(3,4) by (auto simp: service_file_def topology_file_def bindr_eq_Inr)
  qed
  then obtain t where t: "gs = [(topology_path n, t)]" "entity_topology pf c e endpoints (is_edge e) = Inr t" by blast
  have "(topology_path n, t) \<in> set fs" using concatr_set [OF slices(2), of "(topology_path n, t)"] mem gs t(1) by auto
  moreover have "YMap (point_json endpoints vs server cp) \<in> set (points_of t)"
    using entity_topology_points [OF t(2) c(2,3)] cp(1) iter server part among owns e(3)
    by (intro entity_point_in [of pf es endpoints "get e ''name''" "is_edge e" cps]) (auto split: if_splits)
  ultimately show ?thesis using that pe by blast
qed

lemma server_file_owner:
  assumes "a \<in> set es" "get a ''name'' = YStr na" "na \<noteq> []" "get cp ''owner'' = YStr na"
  shows "\<exists>s. server_file pf es cp = Inr s"
proof -
  have "entity_named es na \<noteq> None"
    using assms(1-3) by (auto simp: entity_named_def find_None_iff text_or_empty_def py_str_def)
  then show ?thesis using assms(3,4) by (auto simp: server_file_def text_or_empty_def py_str_def)
qed

text \<open>
  C7. Owner and consumer meet: for a connect point that one service owns and another, or the edge,
  consumes, both get a topology file, and both files hold one and the same record of the point, the
  endpoint included, so the owner listens where the consumer dials.
\<close>

theorem topology_wired:
  assumes "topology_slices pf config = Inr slices" "concatr slices = Inr fs"
    and c: "with_implied_points config = Inr c" "entities c = Inr es" "connect_points c = Inr cps"
    and a: "a \<in> set es" "is_service a" "\<not> is_edge a" "get a ''name'' = YStr na" "na \<noteq> []"
    and b: "b \<in> set es" "is_service b" "get b ''name'' = YStr nb" "nb \<noteq> []" "na \<noteq> nb"
    and cp: "cp \<in> set cps" "get cp ''owner'' = YStr na" "get cp ''consumers'' = YList vs" "YStr nb \<in> set vs"
  shows "\<exists>ta tb p ep. (topology_path na, ta) \<in> set fs \<and> (topology_path nb, tb) \<in> set fs \<and>
    YMap p \<in> set (points_of ta) \<and> YMap p \<in> set (points_of tb) \<and>
    get p ''name'' = YStr (point_name cp) \<and> get p ''endpoint'' = endpoint_json ep"
proof -
  obtain server where s: "server_file pf es cp = Inr server" using server_file_owner [OF a(1,4,5) cp(2)] by blast
  obtain pn endpoints ta where ta: "get_attr (get_or c ''project'' (YMap [])) ''name'' (YStr ''app'') = Inr pn"
    "resolve_endpoints es cps pn = Inr endpoints" "(topology_path na, ta) \<in> set fs"
    "YMap (point_json endpoints vs server cp) \<in> set (points_of ta)"
    using slice_of [OF assms(1,2) c a(1,2,4,5) cp(1-3) _ s] a(3) by auto
  have part: "if is_edge b then nb \<noteq> na \<and> YStr nb \<in> set vs else nb = na \<or> YStr nb \<in> set vs" using b(5) cp(4) by auto
  obtain pn' endpoints' tb where tb: "get_attr (get_or c ''project'' (YMap [])) ''name'' (YStr ''app'') = Inr pn'"
    "resolve_endpoints es cps pn' = Inr endpoints'" "(topology_path nb, tb) \<in> set fs"
    "YMap (point_json endpoints' vs server cp) \<in> set (points_of tb)"
    using slice_of [OF assms(1,2) c b(1-4) cp(1-3) part s] by blast
  have "endpoints' = endpoints" using ta(1,2) tb(1,2) by simp
  moreover have "get (point_json endpoints vs server cp) ''name'' = YStr (point_name cp)"
    "\<exists>ep. get (point_json endpoints vs server cp) ''endpoint'' = endpoint_json ep"
    by (auto simp: point_json_def get_append)
  ultimately show ?thesis using ta(3,4) tb(3,4) by blast
qed

section \<open>Ports\<close>

lemma map_of_foldl_update: "map_of (foldl (\<lambda>d e. AList.update (fst e) (snd e) d) d0 eps) = map_of d0 ++ map_of (rev eps)"
  by (induction eps rule: rev_induct) (auto simp: update_conv' map_add_def fun_eq_iff)

lemma mapr_nth: "mapr f xs = Inr ys \<Longrightarrow> i < length xs \<Longrightarrow> f (xs ! i) = Inr (ys ! i)"
  by (rule list_all2_nthD [OF mapr_eq_Inr])

lemma resolve_endpoint_name: "resolve_endpoint es pn i cp = Inr (n, ep) \<Longrightarrow> n = point_name cp"
  by (auto simp: resolve_endpoint_def Let_def bindr_eq_Inr split: if_splits)

text \<open>The endpoint of a point is resolved at its place in the order, where names are unique.\<close>

lemma endpoint_at:
  assumes "resolve_endpoints es cps pn = Inr eps" "distinct (map point_name cps)" "cp \<in> set cps" "point_name cp \<noteq> []"
  obtains i ep where "i < length cps" "ordered_points cps ! i = cp" "map_of eps (point_name cp) = Some ep"
    "resolve_endpoint es pn (int i) cp = Inr (point_name cp, ep)"
proof -
  let ?o = "ordered_points cps"
  obtain rs where rs: "mapr (\<lambda>(index, cp). resolve_endpoint es pn (int index) cp) (enumerate 0 ?o) = Inr rs"
    and eps: "eps = foldl (\<lambda>d (name, ep). AList.update name ep d) [] rs"
    using assms(1) by (auto simp: resolve_endpoints_def bindr_eq_Inr)
  have len: "length rs = length ?o" using mapr_length [OF rs] by simp
  have nth: "resolve_endpoint es pn (int i) (?o ! i) = Inr (rs ! i)" if "i < length ?o" for i
    using mapr_nth [OF rs, of i] that by (simp add: nth_enumerate_eq)
  have name: "fst (rs ! i) = point_name (?o ! i)" if "i < length ?o" for i
    using resolve_endpoint_name [of es pn "int i" "?o ! i" "fst (rs ! i)" "snd (rs ! i)"] nth [OF that] by simp
  then have names: "map fst rs = map point_name ?o" using len by (intro nth_equalityI) auto
  have "distinct (map point_name ?o)"
    using assms(2) by (auto simp: distinct_map ordered_points_def intro: inj_on_subset)
  then have dist: "distinct (map fst rs)" using names by simp
  have "cp \<in> set ?o" using assms(3,4) by (simp add: ordered_points_def)
  then obtain i where i: "i < length ?o" "?o ! i = cp" by (auto simp: in_set_conv_nth)
  have "(point_name cp, snd (rs ! i)) \<in> set (rev rs)" using name [OF i(1)] i len by (metis nth_mem prod.collapse set_rev)
  moreover have "distinct (map fst (rev rs))" using dist by (simp add: rev_map [symmetric])
  ultimately have "map_of (rev rs) (point_name cp) = Some (snd (rs ! i))" by simp
  then have "map_of eps (point_name cp) = Some (snd (rs ! i))" by (simp add: eps case_prod_beta' map_of_foldl_update map_add_def)
  moreover have "resolve_endpoint es pn (int i) cp = Inr (point_name cp, snd (rs ! i))"
    using nth [OF i(1)] name [OF i(1)] i(2) by (metis prod.collapse)
  moreover have "i < length cps" using i(1) length_filter_le [of _ cps] by (simp add: ordered_points_def less_le_trans)
  ultimately show ?thesis using that i(2) by blast
qed

text \<open>
  C36. Where names are unique, two links over mutual TLS that declare no port never get the same one:
  their ports are different numbers from \<open>MESH_PORT_BASE\<close> up, fewer than there are connect points.
\<close>

theorem mesh_ports_distinct:
  assumes "resolve_endpoints es cps pn = Inr eps" "distinct (map point_name cps)"
    and p: "p \<in> set cps" "point_name p \<noteq> []" "get (mesh_settings es p) ''transport'' \<noteq> YStr ''local''" "\<not> truthy (get (mesh_settings es p) ''port'')"
    and q: "q \<in> set cps" "point_name q \<noteq> []" "get (mesh_settings es q) ''transport'' \<noteq> YStr ''local''" "\<not> truthy (get (mesh_settings es q) ''port'')"
    and "p \<noteq> q"
  shows "\<exists>hp hq i j. map_of eps (point_name p) = Some (MtlsEndpoint hp i) \<and> map_of eps (point_name q) = Some (MtlsEndpoint hq j) \<and>
    i \<noteq> j \<and> {i, j} \<subseteq> {MESH_PORT_BASE ..< MESH_PORT_BASE + int (length cps)}"
proof -
  obtain i ep where i: "i < length cps" "ordered_points cps ! i = p" "map_of eps (point_name p) = Some ep"
    "resolve_endpoint es pn (int i) p = Inr (point_name p, ep)"
    using endpoint_at [OF assms(1,2) p(1,2)] by blast
  obtain j eq where j: "j < length cps" "ordered_points cps ! j = q" "map_of eps (point_name q) = Some eq"
    "resolve_endpoint es pn (int j) q = Inr (point_name q, eq)"
    using endpoint_at [OF assms(1,2) q(1,2)] by blast
  have "i \<noteq> j" using i(2) j(2) assms(11) by auto
  moreover have "\<exists>h. ep = MtlsEndpoint h (MESH_PORT_BASE + int i)" using i(4) p(3,4) by (auto simp: resolve_endpoint_def Let_def)
  moreover have "\<exists>h. eq = MtlsEndpoint h (MESH_PORT_BASE + int j)" using j(4) q(3,4) by (auto simp: resolve_endpoint_def Let_def)
  ultimately show ?thesis using i(1,3) j(1,3) by auto
qed

section \<open>Examples\<close>

definition sample_files :: project_files where
  "sample_files = \<lparr>absolute = (\<lambda>p. ''/srv/'' @ p), file_text = (\<lambda>_. None)\<rparr>"

lemma sample_config: "with_implied_points sample_project = Inr sample_topology_config"
proof -
  have "is_ok (with_implied_points sample_project)" by code_simp
  then show ?thesis by (auto simp: sample_topology_config_def elim: is_okE)
qed

lemma sample_config_entities: "entities sample_topology_config = Inr sample_entities"
  by code_simp

lemma sample_cps: "connect_points sample_topology_config = Inr (dicts sample_points)"
  by code_simp

definition sample_identity_point :: pydict where
  "sample_identity_point = dicts sample_points ! 1"

lemma sample_identity_point: "sample_identity_point \<in> set (dicts sample_points)"
  "get sample_identity_point ''owner'' = YStr ''auth''" "get sample_identity_point ''consumers'' = YList [YStr ''edge'']"
  by code_simp+

theorem topology_wired_witness:
  "\<exists>slices fs. topology_slices sample_files sample_project = Inr slices \<and> concatr slices = Inr fs \<and>
    (\<exists>ta tb p ep. (topology_path ''auth'', ta) \<in> set fs \<and> (topology_path ''edge'', tb) \<in> set fs \<and>
      YMap p \<in> set (points_of ta) \<and> YMap p \<in> set (points_of tb) \<and>
      get p ''name'' = YStr (point_name sample_identity_point) \<and> get p ''endpoint'' = endpoint_json ep)"
proof -
  have "is_ok (bindr (topology_slices sample_files sample_project) concatr)" by code_simp
  then obtain slices fs where fs: "topology_slices sample_files sample_project = Inr slices" "concatr slices = Inr fs"
    by (auto simp: is_ok_def bindr_eq_Inr)
  have a: "[(''name'', YStr ''auth'')] \<in> set sample_entities"
    and b: "[(''name'', YStr ''edge''), (''type'', YStr ''web_edge'')] \<in> set sample_entities"
    by (simp_all add: sample_entities_def)
  have sa: "is_service [(''name'', YStr ''auth'')]" "\<not> is_edge [(''name'', YStr ''auth'')]"
    and sb: "is_service [(''name'', YStr ''edge''), (''type'', YStr ''web_edge'')]"
    by code_simp+
  from topology_wired [OF fs sample_config sample_config_entities sample_cps a sa _ _ b sb _ _ _ sample_identity_point]
  show ?thesis using fs by simp
qed

theorem mesh_ports_distinct_witness:
  "\<exists>hp hq i j. map_of (projr (resolve_endpoints [] [[(''owner'', YStr ''a'')], [(''owner'', YStr ''b'')]] (YStr ''app''))) ''a'' = Some (MtlsEndpoint hp i) \<and>
     map_of (projr (resolve_endpoints [] [[(''owner'', YStr ''a'')], [(''owner'', YStr ''b'')]] (YStr ''app''))) ''b'' = Some (MtlsEndpoint hq j) \<and>
     i \<noteq> j \<and> {i, j} \<subseteq> {MESH_PORT_BASE ..< MESH_PORT_BASE + 2}"
proof -
  let ?cps = "[[(''owner'', YStr ''a'')], [(''owner'', YStr ''b'')]]"
  have "is_ok (resolve_endpoints [] ?cps (YStr ''app''))" by code_simp
  then obtain eps where eps: "resolve_endpoints [] ?cps (YStr ''app'') = Inr eps" by (rule is_okE)
  have names: "point_name [(''owner'', YStr ''a'')] = ''a''" "point_name [(''owner'', YStr ''b'')] = ''b''" by code_simp+
  have settings: "mesh_settings [] [(''owner'', YStr n)] = []" for n
    by (simp add: mesh_settings_def owner_entity_def block_of_def Let_def)
  show ?thesis
    using mesh_ports_distinct [OF eps, of "[(''owner'', YStr ''a'')]" "[(''owner'', YStr ''b'')]"] names settings eps by simp
qed

text \<open>The port of a link follows its place in the order, so an unrelated link before it moves it.\<close>

lemma port_moves:
  "map_of (projr (resolve_endpoints [] [[(''owner'', YStr ''books'')]] (YStr ''app''))) ''books''
     = Some (MtlsEndpoint ''127.0.0.1'' 9440)"
  "map_of (projr (resolve_endpoints [] [[(''owner'', YStr ''books'')], [(''owner'', YStr ''audit'')]] (YStr ''app''))) ''books''
     = Some (MtlsEndpoint ''127.0.0.1'' 9441)"
  by code_simp+

end
