(* ===== verification/ScopeGen.thy ===== *)
theory ScopeGen
  imports PyValue
begin

text \<open>
  The scope vocabulary as a QML enum, \<open>synqt/scopegen.py\<close>, and what a build profile means,
  \<open>synqt/profiles.py\<close>.
\<close>

section \<open>Scopes\<close>

definition ENUM_NAME :: string where
  "ENUM_NAME = ''Value''"

definition scope_member :: "string \<Rightarrow> string" where
  "scope_member scope = concat (map capitalized (filter (\<lambda>part. part \<noteq> []) (split_on (CHR ''_'') scope)))"

text \<open>\<open>str.isidentifier\<close> over the characters below 256: letters and the underscore, then digits too.\<close>

definition letter :: "char \<Rightarrow> bool" where
  "letter c \<longleftrightarrow> ident_start c \<or> (let n = (of_char c :: nat) in n \<in> set [0xAA, 0xB5, 0xBA] \<or> 0xC0 \<le> n \<and> n \<noteq> 0xD7 \<and> n \<noteq> 0xF7)"

definition is_identifier :: "string \<Rightarrow> bool" where
  "is_identifier s \<longleftrightarrow> s \<noteq> [] \<and> letter (hd s) \<and> list_all (\<lambda>c. letter c \<or> is_digit c \<or> c = CHR 0xB7) s"

text \<open>The \<open>ValueError\<close> with its message.\<close>

type_synonym 'a scoped = "string + 'a"

fun members_from :: "(string \<times> string) list \<Rightarrow> string list \<Rightarrow> (string \<times> string) list scoped" where
  "members_from seen [] = Inr []"
| "members_from seen (scope # order) =
     (let member = scope_member scope in
      if member = ENUM_NAME then
        Inl (''scope '' @ CHR 0x27 # scope @ CHR 0x27 # '' becomes the enum member '' @ CHR 0x27 # member
          @ CHR 0x27 # '', which is also what this enum is called, so '' @ CHR 0x27 # ''Scope.'' @ member
          @ CHR 0x27 # '' would name both; rename the scope'')
      else if \<not> is_identifier member then
        Inl (''scope '' @ CHR 0x27 # scope @ CHR 0x27 # '' does not make a QML enum member ('' @ CHR 0x27 # member
          @ CHR 0x27 # ''); scope names are lower case words separated by underscores'')
      else case map_of seen member of
        Some other \<Rightarrow>
          Inl (''scopes '' @ CHR 0x27 # other @ CHR 0x27 # '' and '' @ CHR 0x27 # scope
            @ CHR 0x27 # '' both become the enum member '' @ CHR 0x27 # member
            @ CHR 0x27 # ''; rename one, because one member cannot mean two scopes'')
      | None \<Rightarrow> bindr (members_from ((member, scope) # seen) order) (\<lambda>pairs. Inr ((scope, member) # pairs)))"

definition members :: "string list \<Rightarrow> (string \<times> string) list scoped" where
  "members order = members_from [] order"

definition render_scope_qml :: "string list \<Rightarrow> string scoped" where
  "render_scope_qml order =
     bindr (members order) (\<lambda>pairs.
       if pairs = [] then Inl (''scopes.order is empty, so there is no vocabulary to generate; declare the ''
         @ ''scopes this project'' @ CHR 0x27 # ''s sessions can hold, lowest authority first'')
       else Inr (join nl
         [''// SPDX-FileCopyrightText: 2026 Alexandre '' @ CHR 0x27 # ''kidev'' @ CHR 0x27 # '' Poumaroux'',
          ''// SPDX-License-Identifier: Apache-2.0'',
          [],
          ''// Generated from scopes.order in synqt.yaml. Do not edit; edit the project instead.'',
          ''//'',
          ''// A member'' @ CHR 0x27 # ''s value is its index in scopes.order, which is also its authority rank under'',
          ''// scopes.hierarchical:'',
          join nl (map (\<lambda>(index, scope, _). ''//   '' @ dec index @ '' = '' @ scope) (enumerate 0 pairs)),
          ''import QtQml'',
          [],
          ''QtObject {'',
          ''    enum '' @ ENUM_NAME @ '' { '' @ join '', '' (map snd pairs) @ '' }'',
          ''}'',
          []]))"

text \<open>\<open>posixpath.dirname\<close>: what stands before the last slash, without slashes at its end unless it is all slashes.\<close>

definition posix_dirname :: "string \<Rightarrow> string" where
  "posix_dirname path =
     (let head = rev (dropWhile (\<lambda>c. c \<noteq> CHR ''/'') (rev path)) in
      if list_all (\<lambda>c. c = CHR ''/'') head then head else rstrip_chars ''/'' head)"

definition scope_qml_path :: "string \<Rightarrow> string" where
  "scope_qml_path hook_relative =
     (let folder = posix_dirname hook_relative in
      if folder = [] then ''Scope.qml''
      else if endswith folder ''/'' then folder @ ''Scope.qml'' else folder @ ''/Scope.qml'')"

section \<open>What the enum promises\<close>

text \<open>The scopes that have a member each, none of them one of those taken.\<close>

definition nameable :: "string set \<Rightarrow> string list \<Rightarrow> bool" where
  "nameable taken order \<longleftrightarrow> distinct (map scope_member order) \<and>
     (\<forall>s \<in> set order. is_identifier (scope_member s) \<and> scope_member s \<noteq> ENUM_NAME \<and> scope_member s \<notin> taken)"

lemma nameable_Cons:
  "nameable taken (s # order) \<longleftrightarrow> is_identifier (scope_member s) \<and> scope_member s \<noteq> ENUM_NAME \<and> scope_member s \<notin> taken \<and>
     nameable (insert (scope_member s) taken) order"
  by (auto simp: nameable_def image_iff)

lemma members_from_exact:
  "(nameable (fst ` set seen) order \<longrightarrow> members_from seen order = Inr (map (\<lambda>s. (s, scope_member s)) order)) \<and>
   (\<not> nameable (fst ` set seen) order \<longrightarrow> \<not> is_ok (members_from seen order))"
proof (induction seen order rule: members_from.induct)
  case (1 seen)
  then show ?case by (simp add: nameable_def)
next
  case (2 seen scope order)
  show ?case
  proof (cases "scope_member scope = ENUM_NAME \<or> \<not> is_identifier (scope_member scope) \<or> scope_member scope \<in> fst ` set seen")
    case True
    then have "\<not> is_ok (members_from seen (scope # order))"
      by (auto simp: Let_def map_of_eq_None_iff image_iff split: option.splits)
    then show ?thesis using True by (auto simp: nameable_Cons)
  next
    case False
    then have none: "map_of seen (scope_member scope) = None" by (simp add: map_of_eq_None_iff)
    then show ?thesis using "2.IH" [OF refl _ _ none] False by (simp add: nameable_Cons Let_def is_ok_bindr)
  qed
qed

text \<open>
  C39. The scope enum means the vocabulary: where every scope makes an identifier that is not the name
  of the enum and no two make the same one, the members are the scopes in their order, each member a
  different identifier, so a value is the index of exactly one scope; in every other case, and for an
  empty vocabulary, generation is refused.
\<close>

theorem scope_members_exact:
  "(nameable {} order \<longrightarrow> members order = Inr (map (\<lambda>s. (s, scope_member s)) order) \<and>
      (\<forall>i < length order. \<forall>j < length order. scope_member (order ! i) = scope_member (order ! j) \<longrightarrow> i = j)) \<and>
   (\<not> nameable {} order \<longrightarrow> \<not> is_ok (members order)) \<and>
   (is_ok (render_scope_qml order) \<longleftrightarrow> nameable {} order \<and> order \<noteq> [])"
proof -
  have "\<forall>i < length order. \<forall>j < length order. scope_member (order ! i) = scope_member (order ! j) \<longrightarrow> i = j" if "nameable {} order"
    using that by (auto simp: nameable_def distinct_conv_nth)
  then show ?thesis using members_from_exact [of "[]" order]
    by (auto simp: members_def render_scope_qml_def is_ok_bindr)
qed

theorem scope_members_exact_witness:
  "members [''anonymous'', ''power_user''] = Inr [(''anonymous'', ''Anonymous''), (''power_user'', ''PowerUser'')] \<and>
   \<not> is_ok (members [''value'']) \<and> \<not> is_ok (members [''ab'', ''ab_''])"
proof -
  have n: "nameable {} [''anonymous'', ''power_user'']" "\<not> nameable {} [''value'']" "\<not> nameable {} [''ab'', ''ab_'']"
    by code_simp+
  moreover have "scope_member ''anonymous'' = ''Anonymous''" "scope_member ''power_user'' = ''PowerUser''" by code_simp+
  ultimately show ?thesis using scope_members_exact [of "[''anonymous'', ''power_user'']"] scope_members_exact [of "[''value'']"]
      scope_members_exact [of "[''ab'', ''ab_'']"] by simp
qed

section \<open>Profiles\<close>

definition PROFILES :: "string list" where
  "PROFILES = [''debug'', ''release'', ''custom'']"

definition CUSTOM_TYPES :: "string list" where
  "CUSTOM_TYPES = [''Debug'', ''Release'', ''RelWithDebInfo'', ''MinSizeRel'']"

definition RELEASE_TYPE :: "(string \<times> string) list" where
  "RELEASE_TYPE = [(''wasm'', ''MinSizeRel''), (''host'', ''Release'')]"

definition build_type :: "string \<Rightarrow> string \<Rightarrow> string \<Rightarrow> string scoped" where
  "build_type profile environment custom =
     (case map_of RELEASE_TYPE environment of
        None \<Rightarrow> Inl (''unknown build environment '' @ CHR 0x27 # environment @ CHR 0x27 # ''; it is one of ''
          @ join '', '' (sort (map fst RELEASE_TYPE)))
      | Some release \<Rightarrow>
          if profile = ''custom'' then
            if custom \<notin> set CUSTOM_TYPES
            then Inl (''--custom takes a CMake build type, not '' @ CHR 0x27 # custom @ CHR 0x27 # ''; the four are ''
              @ join '', '' CUSTOM_TYPES)
            else Inr custom
          else if profile = ''release'' then Inr release
          else if profile = ''debug'' then Inr ''Debug''
          else Inl (''unknown profile '' @ CHR 0x27 # profile @ CHR 0x27 # ''; it is one of '' @ join '', '' PROFILES))"

definition strips :: "string \<Rightarrow> bool \<Rightarrow> bool" where
  "strips profile asked \<longleftrightarrow> profile = ''release'' \<or> asked"

text \<open>\<open>kit.replace('wasm_', 'wasm-')\<close>: every occurrence from the left.\<close>

function replace_kit :: "string \<Rightarrow> string" where
  "replace_kit kit =
     (if kit = [] then [] else if startswith kit ''wasm_'' then ''wasm-'' @ replace_kit (drop 5 kit)
      else hd kit # replace_kit (tl kit))"
  by pat_completeness auto
termination by (relation "measure length") auto

declare replace_kit.simps [simp del]

definition build_dir :: "string \<Rightarrow> string \<Rightarrow> string \<Rightarrow> bool \<Rightarrow> string" where
  "build_dir environment profile kit dev_tools =
     (let suffix = (if dev_tools then ''-dev'' else []) in
      if environment = ''wasm'' then ''build/'' @ (if kit \<noteq> [] then replace_kit kit else ''wasm'') @ ''-'' @ profile @ suffix
      else ''build/'' @ environment @ ''-'' @ profile @ suffix)"

lemma build_dir_end: "\<exists>front. build_dir environment profile kit dev_tools = front @ ''-'' @ profile @ (if dev_tools then ''-dev'' else [])"
  by (simp add: build_dir_def Let_def)

lemma profile_ends:
  assumes "p \<in> set PROFILES" "q \<in> set PROFILES"
    "x @ ''-'' @ p @ (if d then ''-dev'' else []) = y @ ''-'' @ q @ (if e then ''-dev'' else [])"
  shows "p = q \<and> d = e"
  using assms(1,2) arg_cong [OF assms(3), of "\<lambda>s. take 12 (rev s)"]
  by (auto simp: PROFILES_def split: if_splits)

text \<open>
  A build directory says what was built in it: two builds that share a directory have the same
  profile, and either both carry the development code or neither does, so what a development build
  leaves behind is never found by a release.
\<close>

theorem build_dirs_apart:
  assumes "p \<in> set PROFILES" "q \<in> set PROFILES" "build_dir env p kit dev = build_dir env' q kit' dev'"
  shows "p = q \<and> dev = dev'"
proof -
  obtain x y where "build_dir env p kit dev = x @ ''-'' @ p @ (if dev then ''-dev'' else [])"
    "build_dir env' q kit' dev' = y @ ''-'' @ q @ (if dev' then ''-dev'' else [])"
    using build_dir_end by metis
  then show ?thesis using profile_ends [OF assms(1,2), of x dev y dev'] assms(3) by simp
qed

theorem build_dirs_apart_witness: "build_dir ''host'' ''release'' [] False \<noteq> build_dir ''host'' ''debug'' [] True"
  using build_dirs_apart [of "''release''" "''debug''" "''host''" "[]" False "''host''" "[]" True] by (auto simp: PROFILES_def)

end
