(* ===== verification/Launch.thy ===== *)
theory Launch
  imports Startup AppRoutes ScopeGen
begin

text \<open>
  Starting a project, the rest of \<open>synqt/run.py\<close> and \<open>synqt/devidentities.py\<close>: which binary is run with
  which arguments, what \<open>serve\<close> reports, and which files a watcher takes for edited. A directory of the
  project is its path as a string; the disk is asked through \<open>host\<close>. Processes themselves, ports and
  the clock are outside the model.
\<close>

section \<open>Binaries\<close>

record host =
  is_file :: "string \<Rightarrow> bool"
  is_directory :: "string \<Rightarrow> bool"
  entries_of :: "string \<Rightarrow> (string \<times> string option) list option"

text \<open>\<open>directory / name\<close>.\<close>

definition path_div :: "string \<Rightarrow> string \<Rightarrow> string" where
  "path_div directory name = as_posix (if startswith name ''/'' then name else directory @ ''/'' @ name)"

definition executable :: "host \<Rightarrow> string \<Rightarrow> string \<Rightarrow> string option" where
  "executable h directory name =
     List.find (is_file h)
       [path_div directory name, path_div directory (name @ ''.exe''),
        path_div directory (name @ ''.app/Contents/MacOS/'' @ name)]"

definition host_build_dir :: "string \<Rightarrow> string \<Rightarrow> bool \<Rightarrow> string" where
  "host_build_dir root profile_name dev_tools = path_div root (build_dir ''host'' profile_name [] dev_tools)"

definition host_binary :: "host \<Rightarrow> string \<Rightarrow> string \<Rightarrow> string \<Rightarrow> bool \<Rightarrow> string option" where
  "host_binary h root name profile_name dev_tools = executable h (host_build_dir root profile_name dev_tools) name"

definition built_profiles :: "host \<Rightarrow> string \<Rightarrow> string \<Rightarrow> string list" where
  "built_profiles h root name =
     concat (map (\<lambda>candidate. concat (map (\<lambda>dev.
       if host_binary h root name candidate dev \<noteq> None then [candidate @ (if dev then ''-dev'' else [])] else []) [False, True])) PROFILES)"

definition host_artifact :: "host \<Rightarrow> string \<Rightarrow> string \<Rightarrow> string \<Rightarrow> bool \<Rightarrow> string option" where
  "host_artifact h root name profile_name dev_tools =
     (let app_bundle = path_div (host_build_dir root profile_name dev_tools) (name @ ''.app'') in
      if is_directory h app_bundle then Some app_bundle else host_binary h root name profile_name dev_tools)"

definition deployed_binary :: "host \<Rightarrow> string \<Rightarrow> string \<Rightarrow> string option" where
  "deployed_binary h root name = executable h (path_div root (''build/'' @ name)) name"

section \<open>Serving\<close>

definition edge_entity :: "pydict \<Rightarrow> pydict option app" where
  "edge_entity config = bindr (entities config) (\<lambda>es. Inr (List.find is_edge es))"

text \<open>The report, and the binaries started, in order.\<close>

definition serve :: "host \<Rightarrow> string \<Rightarrow> pydict \<Rightarrow> (string \<times> string list) app" where
  "serve h root config =
     bindr (startup_order config) (\<lambda>order.
       let missing = filter (\<lambda>n. deployed_binary h root n = None) order;
           launched = filter (\<lambda>n. deployed_binary h root n \<noteq> None) order;
           arrows = ''  '' @ join '' -> '' order in
       Inr (join nl
         ([''Startup order (owners before consumers):'', if arrows \<noteq> [] then arrows else ''  (none)'']
          @ (if missing \<noteq> [] then [[], ''Not yet built (run '' @ CHR 0x27 # ''synqt build'' @ CHR 0x27 # '' first): '' @ join '', '' missing] else [])
          @ (if launched \<noteq> [] then [''Launched: '' @ join '', '' launched @ ''. The web edge binds the public port; others bind loopback.''] else [])
          @ [''The edge serves the client from build/client/ (or a CDN for split-origin).'']),
         map (\<lambda>n. the (deployed_binary h root n)) launched))"

section \<open>Named development identities\<close>

definition DEV_IDENTITIES_FILE :: string where
  "DEV_IDENTITIES_FILE = ''.dev-identities''"

text \<open>\<open>", ".join(scope_order)\<close>.\<close>

definition joined_names :: "yval list \<Rightarrow> string app" where
  "joined_names vs = bindr (mapr (\<lambda>v. case v of YStr s \<Rightarrow> Inr s | _ \<Rightarrow> Inl TypeError) vs) (\<lambda>names. Inr (join '', '' names))"

definition problem_with :: "nat \<Rightarrow> yval \<Rightarrow> yval list \<Rightarrow> string app" where
  "problem_with index item scope_order =
     (let place = DEV_IDENTITIES_FILE @ '' entry '' @ dec index in
      case item of
        YMap m \<Rightarrow>
          (case get m ''email'' of
             YStr email \<Rightarrow>
               if strip email = [] then Inr (place @ '' names no email; ignored'')
               else (case get m ''scope'' of
                  YStr scope \<Rightarrow>
                    if strip scope = [] then Inr (place @ '' ('' @ email @ '') names no scope; ignored'')
                    else if list_ex (\<lambda>c. py_space c \<or> (of_char c :: nat) < 32) email
                    then Inr (place @ '' ('' @ repr_str email @ '') has whitespace or a control character in its email; ignored'')
                    else if YStr scope \<notin> set scope_order
                    then bindr (joined_names scope_order) (\<lambda>names.
                      Inr (place @ '' ('' @ email @ '') names scope '' @ CHR 0x27 # scope @ CHR 0x27 # '', which this project does not declare; declared: ''
                        @ (if names \<noteq> [] then names else ''none'') @ ''. Ignored''))
                    else Inr []
                | _ \<Rightarrow> Inr (place @ '' ('' @ email @ '') names no scope; ignored''))
           | _ \<Rightarrow> Inr (place @ '' names no email; ignored''))
      | _ \<Rightarrow> Inr (place @ '' is a '' @ type_name item @ '', not an email/scope pair; ignored''))"

text \<open>The file: missing, with the error of reading it, or the document in it.\<close>

type_synonym identities_file = "(string + yval) option"

definition identity_entry :: "yval \<Rightarrow> string \<times> string" where
  "identity_entry item = (py_str (get (block_of item) ''scope''), py_str (get (block_of item) ''email''))"

definition read_identities :: "identities_file \<Rightarrow> yval list \<Rightarrow> ((string \<times> string) list \<times> string list) app" where
  "read_identities file scope_order =
     (case file of
        None \<Rightarrow> Inr ([], [])
      | Some (Inl error) \<Rightarrow> Inr ([], [DEV_IDENTITIES_FILE @ '' is not valid YAML and was ignored entirely: '' @ error])
      | Some (Inr document) \<Rightarrow>
          (case if truthy document then document else YList [] of
             YList items \<Rightarrow>
               bindr (mapr (\<lambda>(i, item). bindr (problem_with i item scope_order) (\<lambda>p. Inr (p, item))) (enumerate 1 items)) (\<lambda>judged.
                 Inr (map (identity_entry \<circ> snd) (filter (\<lambda>(p, _). p = []) judged), filter (\<lambda>p. p \<noteq> []) (map fst judged)))
           | v \<Rightarrow> Inr ([], [DEV_IDENTITIES_FILE @ '' must be a list of entries, and this one is a '' @ type_name v @ ''; the whole file was ignored''])))"

definition identity_arguments :: "(string \<times> string) list \<Rightarrow> string list \<Rightarrow> string list" where
  "identity_arguments entries problems =
     map (\<lambda>(scope, email). ''--dev-identity='' @ scope @ ''='' @ email) entries
     @ map (\<lambda>p. ''--dev-identity-problem='' @ p) problems"

definition identities_for_project :: "identities_file \<Rightarrow> pydict \<Rightarrow> (string list \<times> string list) app" where
  "identities_for_project file config =
     bindr (scope_vocab config) (\<lambda>scopes.
     bindr (read_identities file scopes) (\<lambda>(entries, problems).
       Inr (identity_arguments entries problems, problems)))"

section \<open>The command of an entity\<close>

definition bundle_argument :: "string \<Rightarrow> pydict \<Rightarrow> pydict \<Rightarrow> pydict list \<Rightarrow> string \<times> bundle_ref \<Rightarrow> string list app" where
  "bundle_argument root config edge clients sb =
     (case sb of
        (scope, BUNDLE_STATIC dir) \<Rightarrow> Inr [''--bundle'', scope @ ''='' @ path_div (path_div root (entity_dir edge)) dir]
      | (scope, BUNDLE_CLIENT name) \<Rightarrow>
          (case entity_named clients name of
             None \<Rightarrow> Inr []
           | Some client \<Rightarrow> bindr (bundle_output_dir config client) (\<lambda>dir. Inr [''--bundle'', scope @ ''='' @ path_div root dir])))"

definition bundle_arguments :: "string \<Rightarrow> pydict \<Rightarrow> pydict \<Rightarrow> string list app" where
  "bundle_arguments root edge config =
     (if block_of (get edge ''bundles'') = [] then Inr [''--bundle'', path_div root ''build/client'']
      else bindr (entities config) (\<lambda>es.
           bindr (bundles_for config edge) (\<lambda>bundles.
             concatr (map (bundle_argument root config edge (filter is_client es)) (sort_key fst bundles)))))"

definition dev_command ::
  "host \<Rightarrow> string \<Rightarrow> pydict \<Rightarrow> pydict \<Rightarrow> int \<Rightarrow> string \<Rightarrow> bool \<Rightarrow> identities_file option \<Rightarrow> string list app" where
  "dev_command h root entity config port profile_name dev_tools identity_picker =
     (let name = py_str (get entity ''name'');
          binary = (case host_binary h root name profile_name dev_tools of
             Some b \<Rightarrow> b | None \<Rightarrow> path_div (host_build_dir root profile_name dev_tools) name);
          qml_dir = [''--qml-dir'', path_div root GENERATED_DIR];
          topology_args = [''--topology'', path_div root (''build/'' @ name @ ''/topology.json'')] in
      if is_edge entity then
        bindr (bundle_arguments root entity config) (\<lambda>bundles.
          let command = [binary] @ bundles @ qml_dir @ [''--port'', dec_int port, ''--dev''] in
          case identity_picker of
            None \<Rightarrow> Inr command
          | Some file \<Rightarrow> bindr (identities_for_project file config) (\<lambda>(flags, _). Inr (command @ [''--identity-picker''] @ flags)))
      else if entity_type entity = ''monitor'' then
        bindr (bundle_arguments root entity config) (\<lambda>bundles.
          let port_value = get (public_settings entity) ''port'' in
          Inr ([binary] @ topology_args @ qml_dir
               @ [''--port'', py_str (if truthy port_value then port_value else YInt 8443)] @ bundles))
      else
        Inr ([binary] @ topology_args
             @ (if discover_singletons (entries_of h (path_div root (entity_dir entity))) \<noteq> [] then qml_dir else [])
             @ (if get entity ''name'' = YStr (provider_entity config) then [''--dev''] else [])))"

text \<open>The edge last: its name leaves its place in the order and goes to the end.\<close>

definition launch_order :: "pydict \<Rightarrow> string list app" where
  "launch_order config =
     bindr (edge_entity config) (\<lambda>edge.
     bindr (startup_order config) (\<lambda>order.
       case map_option (\<lambda>e. get e ''name'') edge of
         Some (YStr n) \<Rightarrow> Inr (filter (\<lambda>m. m \<noteq> n) order @ (if n \<noteq> [] then [n] else []))
       | _ \<Rightarrow> Inr order))"

text \<open>
  What is started, with the command of each, and what is not built. The entity of a name is the first
  that has it; \<open>es\<close> is \<open>config["entities"]\<close>. \<open>identity_picker\<close> is \<open>None\<close> where the flag is off, and the identities file where it is on.
\<close>

fun find_entity :: "yval list \<Rightarrow> string \<Rightarrow> pydict app" where
  "find_entity [] name = Inl StopIteration"
| "find_entity (YMap e # es) name = (if get e ''name'' = YStr name then Inr e else find_entity es name)"
| "find_entity (v # es) name = Inl AttributeError"

fun launch_entities ::
  "host \<Rightarrow> string \<Rightarrow> yval list \<Rightarrow> pydict \<Rightarrow> string list \<Rightarrow> int \<Rightarrow> string \<Rightarrow> identities_file option \<Rightarrow>
     ((string \<times> string list) list \<times> string list) app" where
  "launch_entities h root es config [] port profile_name identity_picker = Inr ([], [])"
| "launch_entities h root es config (name # order) port profile_name identity_picker =
     bindr (find_entity es name) (\<lambda>entity.
          if host_binary h root name profile_name True = None
          then bindr (launch_entities h root es config order port profile_name identity_picker) (\<lambda>(processes, missing).
            Inr (processes, name # missing))
          else
            bindr (dev_command h root entity config port profile_name True identity_picker) (\<lambda>command.
            bindr (launch_entities h root es config order port profile_name identity_picker) (\<lambda>(processes, missing).
              Inr ((name, command) # processes, missing))))"

definition dev_summary :: "pydict \<Rightarrow> string \<Rightarrow> string list \<Rightarrow> string app" where
  "dev_summary config url launched =
     (let summary = ''synqt dev: serving '' @ url @ '' (plaintext localhost).'' @ nl
            @ ''  Launched: '' @ join '', '' launched @ '' (edge last, on the dev port).'';
          person = (\<lambda>user. let login = get user ''login'' in
            py_str (if truthy login then login else get_or user ''sub'' (YStr []))) in
      if has_dev_stub config then
        bindr (dev_stub_port config) (\<lambda>port.
          Inr (summary @ nl @ ''  Development sign-in on port '' @ dec_int port @ '': ''
               @ join '', '' (map person (dev_stub_users config)) @ ''. Not in a build.''))
      else Inr summary)"

section \<open>Watching\<close>

definition IGNORED_DIRS :: "string list" where
  "IGNORED_DIRS = [GENERATED_DIR, ''build'', ''.git'', ''synqt'', ''node_modules'', ''toolchain'']"

text \<open>\<open>Path(name).suffix\<close>.\<close>

definition path_suffix :: "string \<Rightarrow> string" where
  "path_suffix name = drop (length (path_stem name)) (last (split_on (CHR ''/'') name))"

definition watched :: "string list \<Rightarrow> string list \<Rightarrow> bool" where
  "watched config_names parts \<longleftrightarrow>
     parts \<noteq> [] \<and> \<not> list_ex (\<lambda>d. d \<in> set IGNORED_DIRS \<or> startswith d ''.'') (butlast parts) \<and>
     (path_suffix (last parts) = ''.qml'' \<or> last parts \<in> set config_names)"

text \<open>The files below the project with their time of modification; the snapshot is the watched ones.\<close>

type_synonym snapshot = "(string list \<times> int) list"

definition scan :: "string list \<Rightarrow> snapshot \<Rightarrow> snapshot" where
  "scan config_names tree = filter (\<lambda>(parts, _). watched config_names parts) tree"

definition poll :: "string list \<Rightarrow> snapshot \<Rightarrow> snapshot \<Rightarrow> string list set \<times> snapshot" where
  "poll config_names snapshot tree =
     (let current = scan config_names tree in
      (set (filter (\<lambda>p. map_of snapshot p \<noteq> map_of current p) (map fst current))
         \<union> set (filter (\<lambda>p. p \<notin> set (map fst current)) (map fst snapshot)),
       current))"

text \<open>\<open>None\<close> is a path that is not below the project. The loop stops at a configuration file.\<close>

fun categorize_from :: "yval list \<Rightarrow> yval option \<Rightarrow> string list \<Rightarrow> bool \<times> bool \<Rightarrow> (string \<times> string option) list \<Rightarrow> bool \<times> bool" where
  "categorize_from services client_name config_names hc [] = hc"
| "categorize_from services client_name config_names (h, c) ((name, folder) # changed) =
     (if name \<in> set config_names then (True, True)
      else categorize_from services client_name config_names
        (case folder of
           None \<Rightarrow> (True, True)
         | Some t \<Rightarrow>
             if client_name = Some (YStr t) then (h, True)
             else if YStr t \<in> set services then (True, c)
             else (True, True)) changed)"

definition categorize :: "pydict \<Rightarrow> string list \<Rightarrow> (string \<times> string option) list \<Rightarrow> (bool \<times> bool) app" where
  "categorize config config_names changed =
     bindr (entities config) (\<lambda>es.
       Inr (categorize_from (map (\<lambda>e. get e ''name'') (filter is_service es))
              (map_option (\<lambda>e. get e ''name'') (List.find is_client es)) config_names (False, False) changed))"

section \<open>Every development identity is accounted for\<close>

lemma problem_free:
  assumes "problem_with i item scopes = Inr []"
  obtains m scope email where "item = YMap m" "get m ''email'' = YStr email" "get m ''scope'' = YStr scope" "YStr scope \<in> set scopes"
    "strip email \<noteq> []" "\<forall>c \<in> set email. \<not> py_space c \<and> 32 \<le> (of_char c :: nat)"
  using assms
  by (cases item) (auto simp: problem_with_def Let_def bindr_eq_Inr DEV_IDENTITIES_FILE_def list_ex_iff not_less split: yval.splits if_splits)

lemma judged_items:
  assumes "mapr (\<lambda>(i, item). bindr (problem_with i item scopes) (\<lambda>p. Inr (p, item))) (enumerate n items) = Inr judged"
  shows "map snd judged = items" "\<forall>(p, item) \<in> set judged. \<exists>i. problem_with i item scopes = Inr p"
proof -
  have "list_all2 (\<lambda>(i, item) (p, item'). item' = item \<and> problem_with i item scopes = Inr p) (enumerate n items) judged"
    by (rule list_all2_mono [OF mapr_eq_Inr [OF assms]]) (auto simp: bindr_eq_Inr)
  then have "map snd judged = map snd (enumerate n items) \<and> (\<forall>(p, item) \<in> set judged. \<exists>i. problem_with i item scopes = Inr p)"
    by (induction rule: list_all2_induct) auto
  then show "map snd judged = items" "\<forall>(p, item) \<in> set judged. \<exists>i. problem_with i item scopes = Inr p"
    by (simp_all)
qed

lemma filter_lengths: "length (filter (\<lambda>(p, _). P p) xs) + length (filter (\<lambda>p. \<not> P p) (map fst xs)) = length xs"
  by (induction xs) auto

text \<open>
  No entry of \<open>.dev-identities\<close> is lost in silence: each one is offered in the picker or reported, never both.
  What is offered was written in the file, under a scope the project declares and with an address that
  is not blank and has no whitespace or control character.
\<close>

theorem identities_accounted:
  assumes "read_identities (Some (Inr (YList items))) scopes = Inr (entries, problems)"
  shows "length entries + length problems = length items \<and> (\<forall>(scope, email) \<in> set entries.
      YStr scope \<in> set scopes \<and> strip email \<noteq> [] \<and> (\<forall>c \<in> set email. \<not> py_space c \<and> 32 \<le> (of_char c :: nat)) \<and>
      (\<exists>m. YMap m \<in> set items \<and> get m ''email'' = YStr email \<and> get m ''scope'' = YStr scope))"
proof -
  have "(if truthy (YList items) then YList items else YList []) = YList items" by simp
  then obtain judged where j: "mapr (\<lambda>(i, item). bindr (problem_with i item scopes) (\<lambda>p. Inr (p, item))) (enumerate 1 items) = Inr judged"
    and e: "entries = map (identity_entry \<circ> snd) (filter (\<lambda>(p, _). p = []) judged)" and p: "problems = filter (\<lambda>p. p \<noteq> []) (map fst judged)"
    using assms by (auto simp: read_identities_def bindr_eq_Inr)
  have n: "length entries + length problems = length items"
    unfolding e p using filter_lengths [of "\<lambda>p. p = []" judged] arg_cong [OF judged_items(1) [OF j], of length] by simp
  have "YStr scope \<in> set scopes \<and> strip email \<noteq> [] \<and> (\<forall>c \<in> set email. \<not> py_space c \<and> 32 \<le> (of_char c :: nat)) \<and>
      (\<exists>m. YMap m \<in> set items \<and> get m ''email'' = YStr email \<and> get m ''scope'' = YStr scope)" if "(scope, email) \<in> set entries" for scope email
  proof -
    from that obtain item where item: "([], item) \<in> set judged" "identity_entry item = (scope, email)" by (auto simp: e)
    then obtain i where i: "problem_with i item scopes = Inr []" using judged_items(2) [OF j] by auto
    have "item \<in> set items" using item(1) judged_items(1) [OF j] by force
    then show ?thesis using i item(2) by (auto simp: identity_entry_def block_of_def py_str_def elim!: problem_free)
  qed
  then show ?thesis using n by auto
qed

theorem identities_accounted_witness:
  "\<exists>entries problems. read_identities (Some (Inr (YList [YMap [(''email'', YStr ''a@b''), (''scope'', YStr ''user'')], YNull]))) [YStr ''user'']
     = Inr (entries, problems) \<and> length entries + length problems = 2"
proof -
  let ?r = "read_identities (Some (Inr (YList [YMap [(''email'', YStr ''a@b''), (''scope'', YStr ''user'')], YNull]))) [YStr ''user'']"
  have "is_ok ?r" by code_simp
  then obtain entries problems where "?r = Inr (entries, problems)" by (metis is_okE surj_pair)
  then show ?thesis using identities_accounted by fastforce
qed

text \<open>The file of a client lies in \<open>client/<name>/\<close>, and its first segment is no entity: the host side counts as changed too.\<close>

lemma client_edit_restarts_host:
  "categorize [(''entities'', YList [YMap [(''name'', YStr ''app''), (''type'', YStr ''client'')]])] [''synqt.yaml''] [(''Main.qml'', Some ''client'')]
     = Inr (True, True)"
  by code_simp

end
