(* ===== verification/HotReload.thy ===== *)
theory HotReload
  imports Launch ConfigLayers
begin

text \<open>
  A \<open>synqt dev\<close> session, \<open>_watch_loop\<close> and \<open>_hot_reload\<close> of \<open>synqt/run.py\<close>, as a step relation: the
  processes that run, the configuration in force and what the watcher saw last. Every step takes what
  the outside answers: the disk, the result of reading the configuration again and of the incremental
  build, and whether the last process still runs. The invariant is that whatever edits and failures
  come, every process runs under a command of this session, with its port, its build profile and its
  sign-in picker.
\<close>

section \<open>One reload\<close>

text \<open>What the session was started with; it never changes.\<close>

record session =
  root_dir :: string
  dev_port :: int
  build_profile :: string
  layer :: "string option"
  picks_identity :: bool

record dev_state =
  processes :: "(string \<times> string list) list"
  config_now :: pydict

text \<open>What one reload finds outside.\<close>

record outside =
  disk :: host
  reloaded :: "string + pydict"
  rebuilt :: "string + unit"
  people :: identities_file

datatype reload_result =
    ConfigUnreadable string
  | RebuildFailed string
  | NotBuilt "string list"
  | Reloaded
  | Raised app_error

definition picker_of :: "session \<Rightarrow> outside \<Rightarrow> identities_file option" where
  "picker_of s out = (if picks_identity s then Some (people out) else None)"

definition relaunch :: "session \<Rightarrow> outside \<Rightarrow> pydict \<Rightarrow> ((string \<times> string list) list \<times> string list) app" where
  "relaunch s out config =
     bindr (launch_order config) (\<lambda>order.
     bindr (py_iter (get_or config ''entities'' (YList []))) (\<lambda>es.
       launch_entities (disk out) (root_dir s) es config order (dev_port s) (build_profile s) (picker_of s out)))"

text \<open>
  The name and the first path segment of each changed file. A failed rebuild leaves the processes alone,
  but the configuration read just before it stays. After \<open>_terminate\<close> an exception of the launch leaves
  the stopped processes in the state.
\<close>

definition hot_reload :: "session \<Rightarrow> outside \<Rightarrow> (string \<times> string option) list \<Rightarrow> dev_state \<Rightarrow> dev_state \<times> reload_result" where
  "hot_reload s out changed st =
     (let config_names = config_filenames (layer s);
          touched = list_ex (\<lambda>(name, _). name \<in> set config_names) changed in
      case (if touched then reloaded out else Inr (config_now st)) of
        Inl error \<Rightarrow> (st, ConfigUnreadable error)
      | Inr config \<Rightarrow>
          (let st = st\<lparr>config_now := config\<rparr> in
           case rebuilt out of
             Inl error \<Rightarrow> (st, RebuildFailed error)
           | Inr _ \<Rightarrow>
               (case categorize config config_names changed of
                  Inl e \<Rightarrow> (st, Raised e)
                | Inr (False, _) \<Rightarrow> (st, Reloaded)
                | Inr (True, _) \<Rightarrow>
                    (case relaunch s out config of
                       Inl e \<Rightarrow> (st, Raised e)
                     | Inr (started, missing) \<Rightarrow>
                         (st\<lparr>processes := started\<rparr>, if missing \<noteq> [] then NotBuilt missing else Reloaded)))))"

section \<open>The session\<close>

datatype watching = Watching dev_state snapshot | Stopped | Crashed app_error

text \<open>One turn of the loop: the last process is asked first, then the watcher is polled.\<close>

definition segment_of :: "string list \<Rightarrow> string \<times> string option" where
  "segment_of parts = (last parts, Some (hd parts))"

definition watch_turn :: "session \<Rightarrow> outside \<Rightarrow> bool \<Rightarrow> snapshot \<Rightarrow> string list list \<Rightarrow> dev_state \<Rightarrow> snapshot \<Rightarrow> watching" where
  "watch_turn s out last_exited tree changed st snap =
     (if processes st = [] then Crashed IndexError
      else if last_exited then Stopped
      else let snap' = snd (poll (config_filenames (layer s)) snap tree) in
        if changed = [] then Watching st snap'
        else case hot_reload s out (map segment_of changed) st of
               (_, Raised e) \<Rightarrow> Crashed e
             | (st', _) \<Rightarrow> Watching st' snap')"

inductive watch_step :: "session \<Rightarrow> watching \<Rightarrow> watching \<Rightarrow> bool" for s where
  turned: "set changed = fst (poll (config_filenames (layer s)) snap tree) \<Longrightarrow>
    watch_step s (Watching st snap) (watch_turn s out last_exited tree changed st snap)"
| interrupted: "watch_step s (Watching st snap) Stopped"

text \<open>A session starts with every entity of the order launched.\<close>

inductive watched_session :: "session \<Rightarrow> watching \<Rightarrow> bool" for s where
  started: "edge_entity config = Inr (Some edge) \<Longrightarrow> relaunch s out config = Inr (ps, []) \<Longrightarrow>
    watched_session s (Watching \<lparr>processes = ps, config_now = config\<rparr> (scan (config_filenames (layer s)) tree))"
| stepped: "watched_session s w \<Longrightarrow> watch_step s w w' \<Longrightarrow> watched_session s w'"

inductive_cases watch_stepE: "watch_step s w w'"
inductive_cases watch_step_WatchingE: "watch_step s (Watching st snap) w'"

section \<open>What is launched\<close>

lemma launch_entities_spec:
  "launch_entities h root es config order port profile picker = Inr (ps, missing) \<Longrightarrow>
     map fst ps = filter (\<lambda>n. host_binary h root n profile True \<noteq> None) order \<and>
     missing = filter (\<lambda>n. host_binary h root n profile True = None) order \<and>
     (\<forall>(n, command) \<in> set ps. \<exists>e. find_entity es n = Inr e \<and> dev_command h root e config port profile True picker = Inr command)"
  by (induction order arbitrary: ps missing) (auto simp: bindr_eq_Inr split: if_splits)

lemma launch_order_members:
  assumes "launch_order config = Inr order" "startup_order config = Inr names" "edge_entity config = Inr (Some e)" "get e ''name'' = YStr n" "n \<noteq> []"
  shows "order = filter (\<lambda>m. m \<noteq> n) names @ [n]"
  using assms by (simp add: launch_order_def)

text \<open>The commands of one launch, in the order they were started.\<close>

definition launched_by :: "session \<Rightarrow> (string \<times> string list) list \<Rightarrow> bool" where
  "launched_by s ps \<longleftrightarrow>
     (\<exists>out config order es. launch_order config = Inr order \<and>
        map fst ps = filter (\<lambda>n. host_binary (disk out) (root_dir s) n (build_profile s) True \<noteq> None) order \<and>
        (\<forall>(n, command) \<in> set ps. \<exists>e. find_entity es n = Inr e \<and>
           dev_command (disk out) (root_dir s) e config (dev_port s) (build_profile s) True (picker_of s out) = Inr command))"

lemma relaunch_launched: "relaunch s out config = Inr (ps, missing) \<Longrightarrow> launched_by s ps"
  unfolding relaunch_def bindr_eq_Inr launched_by_def by (elim exE conjE) (blast dest: launch_entities_spec)

text \<open>A reload that reads no configuration or builds nothing leaves the processes alone; any other starts them anew or leaves them.\<close>

lemma hot_reload_cases:
  assumes "hot_reload s out changed st = (st', r)"
  obtains (kept) "processes st' = processes st"
  | (anew) missing where "relaunch s out (config_now st') = Inr (processes st', missing)" "is_ok (rebuilt out)"
  using assms by (auto simp: hot_reload_def Let_def split: sum.splits bool.splits prod.splits if_splits)

section \<open>What a watcher reports\<close>

lemma map_of_filter: "map_of (filter (\<lambda>(k, _). P k) xs) k = (if P k then map_of xs k else None)"
  by (induction xs) auto

lemma scan_map: "map_of (scan names tree) p = (if watched names p then map_of tree p else None)"
  unfolding scan_def by (rule map_of_filter)

lemma map_of_keys: "p \<in> fst ` set xs \<longleftrightarrow> map_of xs p \<noteq> None"
  by (simp add: map_of_eq_None_iff)

text \<open>
  The watcher reports exactly the edits it watches for: between two looks at the project a file is
  reported when, and only when, it is a QML file or a configuration file outside the ignored folders and
  it was created, removed or given another time of modification. What it remembers afterwards is the
  second look, so no edit is reported twice.
\<close>

theorem poll_exact:
  "poll names (scan names before) after = ({p. watched names p \<and> map_of before p \<noteq> map_of after p}, scan names after)"
  unfolding poll_def Let_def prod.inject set_filter set_map map_of_keys scan_map by (auto split: if_splits) (metis not_None_eq)

section \<open>The invariant of a session\<close>

lemma watch_turn_keeps:
  assumes "watch_turn s out gone tree changed st snap = Watching st' snap'" "launched_by s (processes st)"
  shows "launched_by s (processes st') \<and> snap' = scan (config_filenames (layer s)) tree"
proof -
  obtain st2 r where r: "hot_reload s out (map segment_of changed) st = (st2, r)" by fastforce
  have "launched_by s (processes st2)" using r by (rule hot_reload_cases) (use assms(2) relaunch_launched in auto)
  then show ?thesis using assms r by (auto simp: watch_turn_def Let_def poll_def split: if_splits reload_result.splits)
qed

text \<open>
  C10. Through any sequence of edits, failed rebuilds, unreadable configurations and restarts, the
  processes of a running session are those of one launch, in launch order and none started that has no binary,
  each under the command its entity has in some configuration with the port, build profile and sign-in picker the session
  was started with; and the watcher's memory is a look at the project.
\<close>

theorem session_keeps_its_flags:
  assumes "watched_session s (Watching st snap)"
  shows "launched_by s (processes st) \<and> (\<exists>tree. snap = scan (config_filenames (layer s)) tree)"
proof -
  have "watched_session s w \<Longrightarrow> w = Watching st snap \<Longrightarrow> launched_by s (processes st) \<and> (\<exists>tree. snap = scan (config_filenames (layer s)) tree)" for w
  proof (induction arbitrary: st snap rule: watched_session.induct)
    case (started config edge out ps tree)
    then show ?case using relaunch_launched by auto
  next
    case (stepped w w')
    from stepped.hyps(2) stepped.prems stepped.IH show ?case
      by (elim watch_stepE) (auto dest: watch_turn_keeps)
  qed
  then show ?thesis using assms by blast
qed

text \<open>
  A reload that starts nothing is not the end of the session for \<open>_hot_reload\<close>, but the next turn asks for the
  last of no processes.
\<close>

lemma empty_session_crashes:
  "relaunch s out [] = Inr ([], [])"
  "watch_turn s out gone tree changed \<lparr>processes = [], config_now = c\<rparr> snap = Crashed IndexError"
proof -
  have "entities [] = Inr []" by code_simp
  moreover have "startup_order [] = Inr []" by code_simp
  ultimately show "relaunch s out [] = Inr ([], [])" by (simp add: relaunch_def launch_order_def edge_entity_def)
qed (simp add: watch_turn_def)

section \<open>Examples\<close>

definition dev_project :: pydict where
  "dev_project =
     [(''entities'', YList (map YMap
        [[(''name'', YStr ''edge''), (''type'', YStr ''web_edge'')], [(''name'', YStr ''store''), (''type'', YStr ''database'')]])),
      (''connect_points'', YList [YMap [(''owner'', YStr ''store''), (''consumers'', YList [YStr ''edge''])]])]"

definition dev_session :: session where
  "dev_session = \<lparr>root_dir = ''/p'', dev_port = 80, build_profile = ''debug'', layer = None, picks_identity = True\<rparr>"

definition all_built :: outside where
  "all_built =
     \<lparr>disk = \<lparr>is_file = (\<lambda>_. True), is_directory = (\<lambda>_. False), entries_of = (\<lambda>_. None)\<rparr>, reloaded = Inl ''half typed'', rebuilt = Inr (),
      people = Some (Inr (YList [YMap [(''email'', YStr ''a@b''), (''scope'', YStr ''anonymous'')]]))\<rparr>"

definition dev_processes :: "(string \<times> string list) list" where
  "dev_processes =
     [(''store'', [''/p/build/host-debug-dev/store'', ''--topology'', ''/p/build/store/topology.json'']),
      (''edge'', [''/p/build/host-debug-dev/edge'', ''--bundle'', ''/p/build/client'', ''--qml-dir'', ''/p/generated'',
         ''--port'', ''80'', ''--dev'', ''--identity-picker'', ''--dev-identity=anonymous=a@b''])]"

lemma dev_project_starts: "edge_entity dev_project = Inr (Some [(''name'', YStr ''edge''), (''type'', YStr ''web_edge'')])"
    "launch_order dev_project = Inr [''store'', ''edge'']"
  by code_simp+

lemma dev_project_commands:
  "dev_command (disk all_built) ''/p'' [(''name'', YStr ''store''), (''type'', YStr ''database'')] dev_project 80 ''debug'' True (Some (people all_built)) =
     Inr (snd (dev_processes ! 0))"
  "dev_command (disk all_built) ''/p'' [(''name'', YStr ''edge''), (''type'', YStr ''web_edge'')] dev_project 80 ''debug'' True (Some (people all_built)) =
     Inr (snd (dev_processes ! 1))"
  by code_simp+

lemma dev_project_runs: "relaunch dev_session all_built dev_project = Inr (dev_processes, [])"
proof -
  have "host_binary (disk all_built) ''/p'' n ''debug'' True \<noteq> None" for n
    by (simp add: host_binary_def executable_def all_built_def)
  then show ?thesis using dev_project_commands
    by (simp add: relaunch_def dev_project_starts(2) dev_session_def picker_of_def) (simp add: dev_project_def dev_processes_def)
qed

text \<open>Saving a half-typed configuration: it is refused and the session goes on with the same processes.\<close>

theorem session_keeps_its_flags_witness:
  "\<exists>st snap. watched_session dev_session (Watching st snap) \<and> snap \<noteq> [] \<and> processes st = dev_processes \<and> launched_by dev_session (processes st)"
proof -
  let ?st = "\<lparr>processes = dev_processes, config_now = dev_project\<rparr>"
  let ?tree = "[([''synqt.yaml''], 2)]"
  have "watched_session dev_session (Watching ?st (scan (config_filenames (layer dev_session)) [([''synqt.yaml''], 1)]))"
    by (rule started [OF dev_project_starts(1) dev_project_runs])
  moreover have "scan (config_filenames (layer dev_session)) [([''synqt.yaml''], 1)] = [([''synqt.yaml''], 1)]" by code_simp
  ultimately have s: "watched_session dev_session (Watching ?st [([''synqt.yaml''], 1)])" by metis
  have "watch_step dev_session (Watching ?st [([''synqt.yaml''], 1)]) (watch_turn dev_session all_built False ?tree [[''synqt.yaml'']] ?st [([''synqt.yaml''], 1)])"
    by (rule turned) code_simp
  moreover have "watch_turn dev_session all_built False ?tree [[''synqt.yaml'']] ?st [([''synqt.yaml''], 1)] = Watching ?st ?tree"
    by code_simp
  ultimately have s': "watched_session dev_session (Watching ?st ?tree)" using s stepped by metis
  show ?thesis
    using s' session_keeps_its_flags [OF s'] by (intro exI [of _ ?st] exI [of _ ?tree]) simp
qed

end
