(* ===== verification/CheckContracts.thy ===== *)
theory CheckContracts
  imports DesignDoc AppIdentity "HOL-Library.Product_Lexorder"
begin

text \<open>
  The rules of \<open>synqt check\<close> over what crosses a connect point, from \<open>synqt/check.py\<close>: the lines of an
  \<open>export:\<close> block, what \<open>capture\<close> may record, the scopes members are gated on, and the fronts, which
  hand each caller to the entity that serves the scope the caller holds. A rule answers with its
  messages; each message is a definition of its own, so that the proofs never look inside one.
\<close>

section \<open>Text\<close>

text \<open>\<open>s.split()\<close> and \<open>s.split(sub, 1)[0]\<close>.\<close>

definition split_words :: "string \<Rightarrow> string list" where
  "split_words s = filter (\<lambda>w. w \<noteq> []) (split_on (CHR '' '') (map (\<lambda>c. if py_space c then CHR '' '' else c) s))"

definition before_sub :: "string \<Rightarrow> string \<Rightarrow> string" where
  "before_sub sub s = (case find_sub sub s of Some i \<Rightarrow> take i s | None \<Rightarrow> s)"

text \<open>A connect point as the contract generator reads it.\<close>

definition contract_point :: "pydict \<Rightarrow> point" where
  "contract_point p =
     \<lparr>point_export = (case get p ''export'' of YStr s \<Rightarrow> Some s | _ \<Rightarrow> None),
      point_scope = text_or_empty (get p ''scope''),
      point_owner = py_str (get p ''owner'')\<rparr>"

abbreviation exports :: "pydict \<Rightarrow> bool" where
  "exports p \<equiv> has_export (contract_point p)"

abbreviation export_of :: "pydict \<Rightarrow> string" where
  "export_of p \<equiv> export_text (contract_point p)"

definition is_error :: "string \<Rightarrow> bool" where
  "is_error message = startswith message ''error:''"

abbreviation clean :: "string list \<Rightarrow> bool" where
  "clean ms \<equiv> \<forall>m \<in> set ms. \<not> is_error m"

definition connect_point_named :: "string \<Rightarrow> string" where
  "connect_point_named name = ''connect point '' @ quoted name"

section \<open>The lines of an export block\<close>

definition CONTRACT_MEMBERS :: "string list" where
  "CONTRACT_MEMBERS = [''prop'', ''model'', ''slot'', ''signal'']"

text \<open>What a line declares once its gate is taken off.\<close>

definition statement_of :: "string \<Rightarrow> string" where
  "statement_of line = strip (snd (split_gate (strip line)))"

definition lint_export_line :: "string \<Rightarrow> string \<Rightarrow> string list" where
  "lint_export_line place line =
     (let statement = statement_of line in
      if statement = [] \<or> bare_name line \<noteq> [] then []
      else if hd (split_words statement) \<notin> set (CONTRACT_MEMBERS @ [''record''])
      then [''error: '' @ place @ '': unexpected declaration '' @ quoted (take 32 statement) @ '' in '' @ quoted ''export:''
            @ '' (want prop/model/slot/signal, a record, or the name of a member the owner already has)'']
      else [])"

definition lint_export :: "pydict \<Rightarrow> string list" where
  "lint_export point =
     (let place = connect_point_named (py_str (get point ''name'')) in
      if \<not> exports point
      then [''error: '' @ place @ '': no '' @ quoted ''export:'' @ '' block, so nothing may cross it. Write what ''
            @ ''it carries there (prop/model/slot/signal lines), or remove the point'']
      else
        let code = join nl (map (before_sub ''//'') (splitlines (export_of point))) in
        concat (map (lint_export_line place) (splitlines code))
        @ (if CHR ''{'' \<in> set code \<or> CHR ''}'' \<in> set code
           then [''error: '' @ place @ '': '' @ quoted ''export:'' @ '' holds the members themselves, with no ''
                 @ quoted ''contract'' @ '' wrapper around them; the point is already named'']
           else []))"

definition lint_contracts :: "pydict \<Rightarrow> string list app" where
  "lint_contracts config = bindr (connect_points config) (\<lambda>cps. Inr (concat (map lint_export (app_points cps))))"

section \<open>Capture\<close>

definition IDENTITY_FIELDS :: "string list" where
  "IDENTITY_FIELDS = [''sub'', ''email'', ''login'']"

definition asks_for_capture :: "string \<Rightarrow> bool" where
  "asks_for_capture statement \<longleftrightarrow>
     startswith statement ''slot '' \<and>
     (let rest = lstrip (drop 5 statement); tail = drop 7 rest in
      startswith rest ''capture'' \<and>
      (case tail of c # _ \<Rightarrow> \<not> py_alnum c \<and> c \<noteq> CHR ''_'' | [] \<Rightarrow> True) \<and>
      \<not> startswith (lstrip tail) ''('')"

text \<open>From the first opening bracket to the last closing one, as pairs of a name and a type.\<close>

definition slot_parameters :: "string \<Rightarrow> (string \<times> string) list" where
  "slot_parameters statement =
     (if CHR ''('' \<notin> set statement \<or> CHR '')'' \<notin> set statement then []
      else let start = length (takeWhile (\<lambda>c. c \<noteq> CHR ''('') statement) + 1;
               stop = length statement - length (takeWhile (\<lambda>c. c \<noteq> CHR '')'') (rev statement)) - 1;
               inside = drop start (take stop statement) in
           concat (map (\<lambda>part. let ws = split_words part in
             if 2 \<le> length ws then [(last ws, last (butlast ws))] else []) (split_on (CHR '','') inside)))"

definition base_type :: "string \<Rightarrow> string" where
  "base_type written = before_sub ''['' written"

definition declared_member :: "string \<Rightarrow> (string \<times> string \<times> string) option" where
  "declared_member line =
     (let code = strip (snd (split_gate (strip (before_sub ''//'' line))));
          ws = split_words (before_sub ''('' code) in
      if length ws < 2 \<or> hd ws \<notin> set CONTRACT_MEMBERS then None
      else Some (hd ws, last ws, base_type (if hd ws = ''prop'' \<and> 2 < length ws then ws ! 1 else [])))"

text \<open>The later of the two functions of this name in the module, which is the one in force.\<close>

definition line_member_name :: "string \<Rightarrow> string" where
  "line_member_name line = (case declared_member line of Some (_, name, _) \<Rightarrow> name | None \<Rightarrow> [])"

definition record_fields :: "string list \<Rightarrow> (string \<times> string list) list" where
  "record_fields code =
     foldl (\<lambda>recs line. let statement = statement_of line in
       if \<not> startswith statement ''record '' \<or> CHR ''('' \<notin> set statement then recs
       else AList.update (strip (before_sub ''('' (drop 7 statement))) (map fst (slot_parameters statement)) recs) [] code"

definition capture_message :: "string \<Rightarrow> string \<Rightarrow> string list \<Rightarrow> string" where
  "capture_message place member carried =
     ''error: '' @ place @ '': '' @ quoted ''capture'' @ '' on '' @ quoted member @ '' would record ''
     @ join '', '' (sort (remdups carried)) @ '', which says who the caller is. A ''
     @ ''monitoring record is kept longer than a session and exported to ''
     @ ''whatever collector an operator points it at, so this makes it a ''
     @ ''second copy of the identity store. Drop '' @ quoted ''capture'' @ '' from this member, ''
     @ ''or write '' @ quoted ''monitoring: {capture_identity: acknowledged}'' @ '' to say you meant it''"

text \<open>The identity fields one argument carries: its own name, and the fields of its record.\<close>

definition carried_identity :: "(string \<times> string list) list \<Rightarrow> string \<times> string \<Rightarrow> string list" where
  "carried_identity recs param =
     (let (name, spelling) = param in
      (if name \<in> set IDENTITY_FIELDS then [name] else [])
      @ filter (\<lambda>field. field \<in> set IDENTITY_FIELDS) (case map_of recs (base_type spelling) of Some fs \<Rightarrow> fs | None \<Rightarrow> []))"

definition lint_capture_point :: "bool \<Rightarrow> pydict \<Rightarrow> string list" where
  "lint_capture_point acknowledged point =
     (if \<not> exports point then []
      else let place = connect_point_named (point_name point);
               code = map (before_sub ''//'') (splitlines (export_of point));
               recs = record_fields code in
        concat (map (\<lambda>line. let statement = statement_of line in
          if \<not> asks_for_capture statement then []
          else concat (map (\<lambda>param. let carried = carried_identity recs param in
                 if carried = [] \<or> acknowledged then []
                 else [capture_message place (line_member_name statement) carried]) (slot_parameters statement))) code))"

definition capture_acknowledged :: "pydict \<Rightarrow> bool" where
  "capture_acknowledged config =
     (case get config ''monitoring'' of
        YMap m \<Rightarrow> text_or_empty (get m ''capture_identity'') = ''acknowledged''
      | _ \<Rightarrow> False)"

definition lint_capture :: "pydict \<Rightarrow> string list app" where
  "lint_capture config =
     bindr (connect_points config) (\<lambda>cps. Inr (concat (map (lint_capture_point (capture_acknowledged config)) (app_points cps))))"

end
