(* ===== verification/CheckDrift.thy ===== *)
theory CheckDrift
  imports CheckContracts
begin

text \<open>
  The rules of \<open>synqt check\<close> that hold a contract to the QML on its two ends, \<open>synqt/check.py\<close>: an
  exported member to the owner that has to answer for it, and what consumers reach for to what the
  contract declares. What the QML was read to say (\<open>synqt/infer.py\<close>) is an argument: the members the
  owner implements, and every reach across a link.
\<close>

section \<open>The owner's end\<close>

definition OWNER_VERBS :: "(string \<times> string) list" where
  "OWNER_VERBS = [(''prop'', ''writes''), (''model'', ''publishes''), (''signal'', ''raises''), (''slot'', ''implements'')]"

text \<open>The kinds a member has are the four of the table.\<close>

definition owner_verb :: "string \<Rightarrow> string" where
  "owner_verb kind = (case map_of OWNER_VERBS kind of Some verb \<Rightarrow> verb | None \<Rightarrow> [])"

definition TYPE_FAMILIES :: "(string \<times> string) list" where
  "TYPE_FAMILIES =
     [(''int'', ''number''), (''real'', ''number''), (''double'', ''number''),
      (''string'', ''text''), (''url'', ''text''), (''date'', ''text''),
      (''bool'', ''truth'')]"

definition converts :: "string \<Rightarrow> string \<Rightarrow> bool" where
  "converts inferred_type declared_type =
     (case (map_of TYPE_FAMILIES inferred_type, map_of TYPE_FAMILIES declared_type) of
        (Some f, Some g) \<Rightarrow> f = g
      | _ \<Rightarrow> True)"

type_synonym implemented = "(string \<times> inferred) list"

definition unknown_name_message :: "string \<Rightarrow> string \<Rightarrow> string \<Rightarrow> implemented \<Rightarrow> string" where
  "unknown_name_message named place server impl =
     ''error: '' @ place @ '': '' @ quoted named @ '' is exported by name, and '' @ server @ '' has no such member to read it from (it has ''
     @ join '', '' (sort (map fst impl)) @ ''). Write the member out, or name one of those''"

definition unsure_name_message :: "string \<Rightarrow> string \<Rightarrow> string \<Rightarrow> inferred \<Rightarrow> string" where
  "unsure_name_message named place server found =
     ''error: '' @ place @ '': '' @ quoted named @ '' is exported by name, and what '' @ server @ '' does with it does not say what type it is. Write it out: ''
     @ quoted (rendered found) @ '' is what was read, with whatever it left open to fill in''"

definition bare_name_messages :: "string \<Rightarrow> string \<Rightarrow> string \<Rightarrow> implemented \<Rightarrow> string list" where
  "bare_name_messages named place server impl =
     (case map_of impl named of
        None \<Rightarrow> [unknown_name_message named place server impl]
      | Some found \<Rightarrow> if \<not> inf_certain found then [unsure_name_message named place server found] else [])"

definition unanswered_message :: "string \<Rightarrow> string \<Rightarrow> string \<Rightarrow> string \<Rightarrow> string" where
  "unanswered_message name kind place server =
     ''error: '' @ place @ '': '' @ quoted name @ '' is exported and nothing in '' @ server @ '' '' @ owner_verb kind @ '' it, so nothing would answer for it''"

definition other_kind_message :: "string \<Rightarrow> string \<Rightarrow> string \<Rightarrow> string \<Rightarrow> string \<Rightarrow> string" where
  "other_kind_message name kind place server found_kind =
     ''error: '' @ place @ '': '' @ quoted name @ '' is exported as a '' @ kind @ '', and '' @ server @ '' '' @ owner_verb found_kind @ '' it as a '' @ found_kind"

definition other_type_message :: "string \<Rightarrow> string \<Rightarrow> string \<Rightarrow> string \<Rightarrow> string \<Rightarrow> string" where
  "other_type_message name written place server found_type =
     ''error: '' @ place @ '': '' @ quoted name @ '' is exported as '' @ written @ '', and '' @ server @ '' puts a '' @ found_type @ '' in it''"

definition export_line_messages :: "string \<Rightarrow> string \<Rightarrow> string \<Rightarrow> implemented \<Rightarrow> string list" where
  "export_line_messages line place server impl =
     (if bare_name line \<noteq> [] then bare_name_messages (bare_name line) place server impl
      else case declared_member line of
        None \<Rightarrow> []
      | Some (kind, name, written) \<Rightarrow>
          (case map_of impl name of
             None \<Rightarrow> [unanswered_message name kind place server]
           | Some found \<Rightarrow>
               if inf_kind found \<noteq> kind then [other_kind_message name kind place server (inf_kind found)]
               else if kind = ''prop'' \<and> inf_certain found \<and> inf_type found \<noteq> [] \<and> written \<noteq> [] \<and> written \<noteq> ''var''
                       \<and> \<not> converts (inf_type found) written
               then [other_type_message name written place server (inf_type found)]
               else []))"

text \<open>Where the owner's Source is; \<open>server_path\<close> of \<open>synqt/infer.py\<close>.\<close>

definition server_path :: "pydict list \<Rightarrow> pydict \<Rightarrow> string" where
  "server_path es point =
     (case entity_named es (text_or_empty (get point ''owner'')) of
        None \<Rightarrow> []
      | Some owning \<Rightarrow> if contract_of point = [] then [] else authored_source_path owning point)"

definition lint_point_exports :: "(pydict \<Rightarrow> implemented) \<Rightarrow> pydict list \<Rightarrow> pydict \<Rightarrow> string list" where
  "lint_point_exports owner_members es point =
     (if \<not> exports point \<or> owner_members point = [] then []
      else concat (map (\<lambda>line. export_line_messages line (connect_point_named (py_str (get point ''name''))) (server_path es point) (owner_members point))
             (splitlines (export_of point))))"

definition lint_exports :: "(pydict \<Rightarrow> implemented) \<Rightarrow> pydict \<Rightarrow> string list app" where
  "lint_exports owner_members config =
     bindr (connect_points config) (\<lambda>cps.
     bindr (entities config) (\<lambda>es. Inr (concat (map (lint_point_exports owner_members es) (app_points cps)))))"

section \<open>The consumers' end\<close>

record use =
  use_point :: string
  use_member :: inferred
  use_evidence :: "string list"

record edge =
  edge_point :: string
  edge_members :: "inferred list"
  edge_dynamic :: bool

text \<open>The members a point exports, its own scope filled in; \<open>None\<close> where it declares none or its block does not read.\<close>

definition declared_members :: "string \<Rightarrow> pydict \<Rightarrow> owner_members \<Rightarrow> doc_member list option" where
  "declared_members contract point owner =
     (if contract = [] \<or> \<not> exports point then None
      else case parse_from_text (contract_source contract (contract_point point) owner True) contract of
        Inr ms \<Rightarrow> Some ms | Inl _ \<Rightarrow> None)"

definition undeclared_message :: "string \<Rightarrow> use \<Rightarrow> string \<Rightarrow> string" where
  "undeclared_message place u contract =
     ''error: '' @ place @ '': connect point '' @ quoted (use_point u) @ '' has no '' @ quoted (inf_name (use_member u)) @ '': the '' @ contract
     @ '' contract declares no member of that name, so this reaches for something that never crosses the link''"

definition uncallable_message :: "string \<Rightarrow> use \<Rightarrow> string \<Rightarrow> string \<Rightarrow> string" where
  "uncallable_message place u contract kind =
     ''error: '' @ place @ '': connect point '' @ quoted (use_point u) @ '': '' @ quoted (inf_name (use_member u)) @ '' is called here and the '' @ contract
     @ '' contract declares it as a '' @ kind @ '', which is not something a consumer can call''"

definition argument_message :: "string \<Rightarrow> use \<Rightarrow> string \<Rightarrow> doc_pair \<Rightarrow> string \<Rightarrow> string" where
  "argument_message place u contract expected given =
     ''error: '' @ place @ '': connect point '' @ quoted (use_point u) @ '': '' @ inf_name (use_member u) @ CHR 0x27 # ''s '' @ quoted (pair_name expected)
     @ '' is declared '' @ pair_type expected @ '' on the '' @ contract @ '' contract and this call hands it a '' @ given"

definition argument_messages :: "use \<Rightarrow> string \<Rightarrow> doc_member \<Rightarrow> string \<Rightarrow> string list" where
  "argument_messages u contract found place =
     concat (map (\<lambda>((given, _), expected).
       if given = ''var'' \<or> converts given (pair_type expected) then [] else [argument_message place u contract expected given])
       (zip (inf_params (use_member u)) (doc_params found)))"

definition use_messages :: "use \<Rightarrow> (string \<times> pydict) list \<Rightarrow> (string \<times> doc_member list) list \<Rightarrow> string list" where
  "use_messages u points declared =
     (case map_of declared (use_point u) of
        None \<Rightarrow> []
      | Some ms \<Rightarrow>
          (let place = (case use_evidence u of e # _ \<Rightarrow> e | [] \<Rightarrow> use_point u);
               contract = contract_of (case map_of points (use_point u) of Some p \<Rightarrow> p | None \<Rightarrow> []) in
           case List.find (\<lambda>m. doc_name m = inf_name (use_member u)) ms of
             None \<Rightarrow> [undeclared_message place u contract]
           | Some found \<Rightarrow>
               if inf_kind (use_member u) = ''slot'' \<and> doc_kind found \<noteq> ''slot'' then [uncallable_message place u contract (doc_kind found)]
               else if inf_kind (use_member u) \<noteq> ''slot'' then []
               else argument_messages u contract found place))"

definition unused_message :: "string \<Rightarrow> string \<Rightarrow> doc_member \<Rightarrow> string" where
  "unused_message point contract m =
     ''note: '' @ connect_point_named point @ '': '' @ quoted (doc_name m) @ '' is declared on the '' @ contract @ '' contract and nothing on either end of ''
     @ quoted point @ '' uses it''"

definition unused_messages :: "edge \<Rightarrow> (string \<times> pydict) list \<Rightarrow> (string \<times> doc_member list) list \<Rightarrow> string list" where
  "unused_messages e points declared =
     (case map_of declared (edge_point e) of
        None \<Rightarrow> []
      | Some ms \<Rightarrow>
          if edge_dynamic e then []
          else map (unused_message (edge_point e) (contract_of (case map_of points (edge_point e) of Some p \<Rightarrow> p | None \<Rightarrow> [])))
                 (filter (\<lambda>m. doc_name m \<notin> inf_name ` set (edge_members e)) ms))"

text \<open>A dictionary by point name, the later point of a name in force.\<close>

definition points_by_name :: "pydict list \<Rightarrow> (string \<times> pydict) list" where
  "points_by_name cps = foldl (\<lambda>d p. AList.update (point_name p) p d) [] cps"

definition declared_by_point :: "(pydict \<Rightarrow> owner_members) \<Rightarrow> (string \<times> pydict) list \<Rightarrow> (string \<times> doc_member list) list" where
  "declared_by_point owner points =
     concat (map (\<lambda>(name, point). case declared_members (contract_of point) point (owner point) of Some ms \<Rightarrow> [(name, ms)] | None \<Rightarrow> []) points)"

text \<open>The survey of the QML: what it raised, or every reach across a link and both ends of each.\<close>

definition lint_contract_drift :: "(pydict \<Rightarrow> owner_members) \<Rightarrow> string + use list \<times> edge list \<Rightarrow> pydict \<Rightarrow> string list app" where
  "lint_contract_drift owner survey config =
     (case survey of
        Inl error \<Rightarrow> Inr [''note: the contracts could not be compared with the QML that uses them: '' @ error]
      | Inr (uses, edges) \<Rightarrow>
          bindr (connect_points config) (\<lambda>cps.
            let points = points_by_name cps; declared = declared_by_point owner points in
            Inr (concat (map (\<lambda>u. use_messages u points declared) uses) @ concat (map (\<lambda>e. unused_messages e points declared) edges))))"

section \<open>What a clean comparison says\<close>

lemma drift_errors [simp]:
  "is_error (undeclared_message place u contract)" "is_error (uncallable_message place u contract kind)"
  "is_error (argument_message place u contract expected given)"
  by (simp_all add: is_error_def undeclared_message_def uncallable_message_def argument_message_def)

lemma argument_messages_clean:
  assumes "\<forall>m \<in> set (argument_messages u contract found place). \<not> is_error m"
    and "i < length (inf_params (use_member u))" "i < length (doc_params found)"
  shows "fst (inf_params (use_member u) ! i) = ''var'' \<or> converts (fst (inf_params (use_member u) ! i)) (pair_type (doc_params found ! i))"
proof (rule ccontr)
  obtain given n where g: "inf_params (use_member u) ! i = (given, n)" by fastforce
  let ?e = "doc_params found ! i"
  assume "\<not> (fst (inf_params (use_member u) ! i) = ''var'' \<or> converts (fst (inf_params (use_member u) ! i)) (pair_type ?e))"
  then have no: "\<not> (given = ''var'' \<or> converts given (pair_type ?e))" by (simp only: g fst_conv not_False_eq_True)
  have "((given, n), ?e) \<in> set (zip (inf_params (use_member u)) (doc_params found))"
    unfolding set_zip using assms(2,3) g by force
  then have "argument_message place u contract ?e given \<in> set (argument_messages u contract found place)"
    unfolding argument_messages_def set_concat set_map image_image
    by (rule UN_I) (simp only: prod.case no if_False list.set insertI1)
  with assms(1) have "\<not> is_error (argument_message place u contract ?e given)" by (rule bspec)
  then show False by simp
qed

text \<open>
  C37. Where the comparison of the contracts with the QML reports no error, every reach across a link whose contract
  is known finds a declared member of that name; where it is a call the member is a slot, and every
  argument whose type is known converts to the type declared for it.
\<close>

theorem clean_uses_conform:
  assumes "lint_contract_drift owner (Inr (uses, edges)) config = Inr messages" "\<forall>m \<in> set messages. \<not> is_error m"
    and "connect_points config = Inr cps" "u \<in> set uses"
    and declared: "map_of (declared_by_point owner (points_by_name cps)) (use_point u) = Some ms"
  shows "\<exists>found \<in> set ms. doc_name found = inf_name (use_member u) \<and>
    (inf_kind (use_member u) = ''slot'' \<longrightarrow> doc_kind found = ''slot'' \<and>
      (\<forall>i. i < length (inf_params (use_member u)) \<and> i < length (doc_params found) \<longrightarrow>
         fst (inf_params (use_member u) ! i) = ''var'' \<or> converts (fst (inf_params (use_member u) ! i)) (pair_type (doc_params found ! i))))"
proof -
  have c: "\<forall>m \<in> set (use_messages u (points_by_name cps) (declared_by_point owner (points_by_name cps))). \<not> is_error m"
    using assms(1-4) by (auto simp: lint_contract_drift_def Let_def)
  then obtain found where f: "List.find (\<lambda>m. doc_name m = inf_name (use_member u)) ms = Some found"
    using declared by (auto simp: use_messages_def Let_def split: option.splits)
  then have "found \<in> set ms" "doc_name found = inf_name (use_member u)" by (auto simp: find_Some_iff)
  moreover have "doc_kind found = ''slot''" if "inf_kind (use_member u) = ''slot''"
    using c that f declared by (auto simp: use_messages_def Let_def split: if_splits)
  moreover have "fst (inf_params (use_member u) ! i) = ''var'' \<or> converts (fst (inf_params (use_member u) ! i)) (pair_type (doc_params found ! i))"
    if "inf_kind (use_member u) = ''slot''" "i < length (inf_params (use_member u))" "i < length (doc_params found)" for i
    by (rule argument_messages_clean [OF _ that(2,3)]) (use c that(1) f declared in \<open>auto simp: use_messages_def Let_def split: if_splits\<close>)
  ultimately show ?thesis by blast
qed

definition sample_use :: use where
  "sample_use =
     \<lparr>use_point = ''edge'',
      use_member = \<lparr>inf_kind = ''slot'', inf_name = ''w'', inf_type = [], inf_params = [(''real'', ''0'')], inf_roles = [], inf_certain = True\<rparr>,
      use_evidence = [''Main.qml:3'']\<rparr>"

definition sample_drift_point :: pydict where
  "sample_drift_point = [(''owner'', YStr ''edge''), (''export'', YStr ''slot w(int n)'')]"

definition sample_drift :: pydict where
  "sample_drift = [(''connect_points'', YList [YMap sample_drift_point])]"

definition sample_slot :: doc_member where
  "sample_slot = \<lparr>doc_kind = ''slot'', doc_name = ''w'', doc_type = [], doc_params = [\<lparr>pair_type = ''int'', pair_name = ''n''\<rparr>], doc_roles = [], doc_scope = None\<rparr>"

theorem clean_uses_conform_witness:
  "\<exists>found \<in> set [sample_slot]. doc_name found = ''w'' \<and> doc_kind found = ''slot''"
proof -
  have d: "declared_by_point (\<lambda>_. Map.empty) (points_by_name [sample_drift_point]) = [(''edge'', [sample_slot])]"
  proof -
    have "points_by_name [sample_drift_point] = [(''edge'', sample_drift_point)]" by code_simp
    moreover have "declared_members (contract_of sample_drift_point) sample_drift_point Map.empty = Some [sample_slot]" by code_simp
    ultimately show ?thesis by (simp add: declared_by_point_def)
  qed
  have "connect_points sample_drift = Inr [sample_drift_point]" by code_simp
  moreover have "use_messages sample_use (points_by_name [sample_drift_point]) [(''edge'', [sample_slot])] = []" by code_simp
  ultimately have "lint_contract_drift (\<lambda>_. Map.empty) (Inr ([sample_use], [])) sample_drift = Inr []"
    by (simp add: lint_contract_drift_def d)
  from clean_uses_conform [OF this _ \<open>connect_points sample_drift = Inr [sample_drift_point]\<close>, of sample_use "[sample_slot]"] d
  show ?thesis by (simp add: sample_use_def)
qed

section \<open>What the rules miss\<close>

text \<open>
  The identity of a caller inside a record inside a record: the contract is one the compiler takes, and
  nothing is said about capturing it.
\<close>

definition nested_capture :: pydict where
  "nested_capture =
     [(''owner'', YStr ''edge''),
      (''export'', YStr (''record Who(string email)'' @ nl @ ''record Bid(Who who)'' @ nl @ ''slot capture bid(Bid b)''))]"

lemma nested_identity_missed:
  "lint_capture_point False nested_capture = []" "declared_members (contract_of nested_capture) nested_capture Map.empty \<noteq> None"
  by code_simp+

text \<open>A connect point has no name of its own, and two rules call it by that name all the same.\<close>

lemma unnamed_point_message: "startswith (hd (lint_export [(''owner'', YStr ''edge'')])) (''error: connect point '' @ quoted ''None'')"
  by code_simp

end
