(* ===== verification/CheckFronts.thy ===== *)
theory CheckFronts
  imports CheckContracts
begin

text \<open>
  Scopes as \<open>synqt check\<close> judges them, \<open>synqt/check.py\<close>: the gates of members against the vocabulary, and
  the fronts. A front owns a point it does not implement and hands each caller to the entity its
  \<open>behind:\<close> block names for the scope the caller holds. The theorems say what a front without messages
  promises: every caller finds behind it exactly what the front offers at that scope.
\<close>

section \<open>Scopes\<close>

definition scope_order :: "pydict \<Rightarrow> string list" where
  "scope_order config =
     (case get config ''scopes'' of
        YMap scopes \<Rightarrow> (case get scopes ''order'' of YList order \<Rightarrow> map py_str order | _ \<Rightarrow> [])
      | _ \<Rightarrow> [])"

definition hierarchical_scopes :: "pydict \<Rightarrow> bool" where
  "hierarchical_scopes config =
     (case get config ''scopes'' of YMap scopes \<Rightarrow> truthy (get_or scopes ''hierarchical'' (YBool True)) | _ \<Rightarrow> True)"

definition rank :: "string list \<Rightarrow> string \<Rightarrow> int" where
  "rank order scope = (if scope \<in> set order then int (length (takeWhile (\<lambda>s. s \<noteq> scope) order)) else - 1)"

text \<open>Does a caller holding \<open>held\<close> reach a member gated on \<open>gate\<close>?\<close>

definition reaches :: "string \<Rightarrow> string \<Rightarrow> string list \<Rightarrow> bool \<Rightarrow> bool" where
  "reaches gate held order hierarchical =
     (if gate = [] then True
      else let named = filter (\<lambda>w. w \<noteq> []) (map strip (split_on (CHR '','') gate)) in
        if held \<in> set named then True
        else if \<not> hierarchical \<or> order = [] then False
        else list_ex (\<lambda>one. rank order one \<le> rank order held \<and> 0 \<le> rank order one) named)"

text \<open>The loop of \<open>_tier_for\<close>: the best tier so far and its rank.\<close>

fun highest_tier :: "string list \<Rightarrow> string \<Rightarrow> string \<times> int \<Rightarrow> (string \<times> string) list \<Rightarrow> string \<times> int" where
  "highest_tier order held acc [] = acc"
| "highest_tier order held (best, highest) ((scope, tier) # tiers) =
     (let r = rank order scope in
      highest_tier order held (if 0 \<le> r \<and> r \<le> rank order held \<and> highest < r then (tier, r) else (best, highest)) tiers)"

definition tier_for :: "string \<Rightarrow> (string \<times> string) list \<Rightarrow> string list \<Rightarrow> bool \<Rightarrow> string" where
  "tier_for held tiers order hierarchical =
     (case map_of tiers held of
        Some tier \<Rightarrow> tier
      | None \<Rightarrow> if \<not> hierarchical \<or> order = [] then [] else fst (highest_tier order held ([], - 1) tiers))"

text \<open>
  A block that does not read is no list of members; the parser raises nothing but the error that is
  caught.
\<close>

definition front_members :: "pydict \<Rightarrow> doc_member list option" where
  "front_members point =
     (if contract_of point = [] then None
      else case parse_export (contract_of point) (contract_point point) Map.empty of Inr ms \<Rightarrow> Some ms | Inl _ \<Rightarrow> None)"

lemma front_members_caught: "parse_export name point owner \<noteq> Inl (Uncaught e)"
proof
  assume e: "parse_export name point owner = Inl (Uncaught e)"
  let ?t = "contract_source name point owner False"
  have "parse_text ?t (name @ ''.syn'') name \<noteq> Inl x" if "\<forall>s. x \<noteq> SynError s" for x
    using parse_text_cases [where s = ?t and path = "name @ ''.syn''" and st = name] that by (auto simp: located_def)
  then show False using e
    by (auto simp: parse_export_def parse_from_text_def members_of_def split: sum.splits exn.splits option.splits list.splits)
qed

section \<open>The gates of members\<close>

definition unknown_gate_message :: "string \<Rightarrow> string \<Rightarrow> string \<Rightarrow> string list \<Rightarrow> string" where
  "unknown_gate_message place member scope order =
     ''error: '' @ place @ '': '' @ quoted member @ '' is gated on scope '' @ quoted scope @ '', which is not in scopes.order (''
     @ join '', '' order @ ''); no session could ever hold it, so the member would reach nobody''"

definition no_session_message :: "string \<Rightarrow> string \<Rightarrow> string \<Rightarrow> string" where
  "no_session_message place member name =
     ''error: '' @ place @ '': '' @ quoted member @ '' is gated on a scope, and no client consumes '' @ quoted name
     @ ''. A scope is a property of a user'' @ CHR 0x27 # ''s session, and a calling entity has none, so the gate would refuse every caller. Gate ''
     @ ''on Caller.entity in the slot instead''"

definition idle_gate_message :: "string \<Rightarrow> string \<Rightarrow> string \<Rightarrow> string \<Rightarrow> string" where
  "idle_gate_message place member scope required =
     ''warn: '' @ place @ '': '' @ quoted member @ '' is gated on '' @ quoted scope
     @ '', which every caller that reached this point already holds (the point requires '' @ quoted required @ ''); the gate refuses nobody''"

definition unmeetable_gate_message :: "string \<Rightarrow> string \<Rightarrow> string list \<Rightarrow> string \<Rightarrow> string" where
  "unmeetable_gate_message place member named required =
     ''error: '' @ place @ '': '' @ quoted member @ '' is gated on '' @ join '' or '' named @ '' and the point requires '' @ quoted required
     @ ''. Scopes are set-based here (scopes.hierarchical: false), so a caller holds exactly one and no caller can satisfy both''"

text \<open>What a gate names: its brackets stripped, at the commas.\<close>

definition gate_scopes :: "string \<Rightarrow> string list" where
  "gate_scopes gate = map strip (split_on (CHR '','') (rstrip_chars ''<>'' (lstrip_chars ''<>'' gate)))"

text \<open>One gated line; the flag says that the loop over the lines stops here.\<close>

definition lint_gate :: "string list \<Rightarrow> bool \<Rightarrow> bool \<Rightarrow> string \<Rightarrow> string \<Rightarrow> string \<Rightarrow> string list \<times> bool" where
  "lint_gate order hierarchical browser name required line =
     (let place = connect_point_named name;
          gate = fst (split_gate (strip (before_sub ''//'' line)));
          member = (if bare_name line \<noteq> [] then bare_name line else if line_member_name line \<noteq> [] then line_member_name line else gate);
          named = gate_scopes gate in
      if gate = [] then ([], False)
      else
        let unknown = map (\<lambda>scope. unknown_gate_message place member scope order) (filter (\<lambda>scope. order \<noteq> [] \<and> scope \<notin> set order) named) in
        if \<not> browser then (unknown @ [no_session_message place member name], True)
        else if required = [] \<or> order = [] then (unknown, False)
        else if hierarchical then
          (unknown @ (if 0 \<le> rank order (hd named) \<and> rank order (hd named) < rank order required
                      then [idle_gate_message place member (hd named) required] else []), False)
        else (unknown @ (if required \<notin> set named then [unmeetable_gate_message place member named required] else []), False))"

fun lint_gates :: "string list \<Rightarrow> bool \<Rightarrow> bool \<Rightarrow> string \<Rightarrow> string \<Rightarrow> string list \<Rightarrow> string list" where
  "lint_gates order hierarchical browser name required [] = []"
| "lint_gates order hierarchical browser name required (line # ls) =
     (let (ms, stop) = lint_gate order hierarchical browser name required line in
      ms @ (if stop then [] else lint_gates order hierarchical browser name required ls))"

definition lint_point_gates :: "pydict \<Rightarrow> pydict list \<Rightarrow> pydict \<Rightarrow> string list app" where
  "lint_point_gates config es point =
     bindr (py_iter (consumers_of point)) (\<lambda>consumers.
     bindr (meets (client_names es) consumers) (\<lambda>browser.
       Inr (lint_gates (scope_order config) (hierarchical_scopes config) browser (point_name point)
              (stripped_text (get point ''scope'')) (splitlines (export_of point)))))"

definition lint_member_scopes :: "pydict \<Rightarrow> string list app" where
  "lint_member_scopes config =
     bindr (entities config) (\<lambda>es.
     bindr (connect_points config) (\<lambda>cps. concatr (map (lint_point_gates config es) (app_points cps))))"

section \<open>Fronts\<close>

text \<open>The dictionaries by name: of two entities with one name the later one counts.\<close>

definition named_client :: "pydict list \<Rightarrow> string \<Rightarrow> bool" where
  "named_client es name = (case entity_named es name of Some e \<Rightarrow> is_client e | None \<Rightarrow> False)"

definition named_edge :: "pydict list \<Rightarrow> string \<Rightarrow> bool" where
  "named_edge es name = (case entity_named es name of Some e \<Rightarrow> entity_type e = ''web_edge'' | None \<Rightarrow> False)"

definition owned_points :: "pydict list \<Rightarrow> string \<Rightarrow> pydict list" where
  "owned_points cps name = filter (\<lambda>p. text_or_empty (get p ''owner'') = name) (app_points cps)"

definition front_owner_message :: "string \<Rightarrow> string \<Rightarrow> string" where
  "front_owner_message place owner =
     ''error: '' @ place @ '' has a '' @ quoted ''behind:'' @ '' block and is owned by '' @ quoted owner
     @ '', which is not a web_edge entity. A front terminates the browser link, holds the session and runs the sign-in before it hands anyone on, and only a web edge does those''"

definition front_consumer_message :: "string \<Rightarrow> string" where
  "front_consumer_message place =
     ''error: '' @ place @ '' has a '' @ quoted ''behind:'' @ '' block and no client consumes it. A front exists to split browser callers by scope; between entities there is no session to split on''"

definition returning_slot_message :: "string \<Rightarrow> doc_member \<Rightarrow> string" where
  "returning_slot_message place m =
     ''error: '' @ place @ '': slot '' @ quoted (doc_name m) @ '' returns '' @ doc_type m
     @ '', and a front cannot answer that. What it hands the call to is reached over the mesh and replies after the slot has returned. Make it return nothing and send the answer back with Caller.emit<Signal>''"

definition empty_front_message :: "string \<Rightarrow> string" where
  "empty_front_message place =
     ''warn: '' @ place @ '' is a front with nothing under its '' @ quoted ''behind:'' @ '', so it hands nobody anywhere and every caller is refused. Say which entity serves each scope, or take the block off and answer the point here''"

definition tier_message :: "string \<Rightarrow> string \<Rightarrow> string \<Rightarrow> string \<Rightarrow> string" where
  "tier_message place scope tier what =
     ''error: '' @ place @ '': '' @ quoted ''behind:'' @ '' sends scope '' @ quoted scope @ '' to '' @ quoted tier @ what"

text \<open>One line of the block: what it says, and whether the tier is one that can be reached.\<close>

definition tier_check :: "pydict list \<Rightarrow> pydict list \<Rightarrow> string \<Rightarrow> string \<Rightarrow> string list \<Rightarrow> string \<times> string \<Rightarrow> string list \<times> bool" where
  "tier_check es cps owner place order line =
     (let (scope, tier) = line;
          unknown = (if order \<noteq> [] \<and> scope \<notin> set order
            then [tier_message place scope tier ('', and '' @ quoted scope @ '' is not in scopes.order ('' @ join '', '' order
                    @ ''); no session could ever hold it, so nothing would ever be sent there'')] else []) in
      if entity_named es tier = None
      then (unknown @ [tier_message place scope tier '', which is not an entity in this project''], False)
      else if named_client es tier
      then (unknown @ [tier_message place scope tier '', which is a client. A browser hosts nothing, so there is nothing behind it to reach''], False)
      else if tier = owner
      then (unknown @ [tier_message place scope tier ('', which owns the point. A front hands callers on to somewhere else, or it implements the point itself and needs no ''
              @ quoted ''behind:'')], False)
      else if owned_points cps tier = []
      then (unknown @ [tier_message place scope tier '', which owns no connect point, so there is nothing there to answer the calls''], False)
      else (unknown, True))"

text \<open>Who is served by which tier, in the order of the scopes: \<open>served.setdefault(tier, []).append(held)\<close>.\<close>

definition serve_scope :: "(string \<Rightarrow> string) \<Rightarrow> (string \<times> string list) list \<Rightarrow> string \<Rightarrow> (string \<times> string list) list" where
  "serve_scope handed served held =
     (let tier = handed held in
      if tier = [] then served
      else AList.update tier ((case map_of served tier of Some hs \<Rightarrow> hs | None \<Rightarrow> []) @ [held]) served)"

text \<open>\<open>member.get("scope") or default_gate\<close>.\<close>

definition member_gate :: "string \<Rightarrow> doc_member \<Rightarrow> string" where
  "member_gate default_gate m = (case doc_scope m of Some s \<Rightarrow> if s \<noteq> [] then s else default_gate | None \<Rightarrow> default_gate)"

definition offered :: "doc_member list \<Rightarrow> string \<Rightarrow> string list \<Rightarrow> bool \<Rightarrow> string list \<Rightarrow> (string \<times> string) list" where
  "offered front default_gate order hierarchical held =
     map (\<lambda>m. (doc_kind m, doc_name m))
       (filter (\<lambda>m. list_ex (\<lambda>one. reaches (member_gate default_gate m) one order hierarchical) held) front)"

definition missing_member_message :: "string \<Rightarrow> string \<Rightarrow> string \<Rightarrow> string \<times> string \<Rightarrow> string" where
  "missing_member_message place audience tier member =
     ''error: '' @ place @ '': '' @ audience @ '' goes to '' @ quoted tier @ '', and the front carries '' @ fst member @ '' '' @ quoted (snd member)
     @ '' at that scope while '' @ quoted tier @ '' does not. Add it there, or gate it away from this scope''"

definition extra_member_message :: "string \<Rightarrow> string \<Rightarrow> string \<Rightarrow> string \<times> string \<Rightarrow> string" where
  "extra_member_message place audience tier member =
     ''error: '' @ place @ '': '' @ quoted tier @ '' carries '' @ fst member @ '' '' @ quoted (snd member)
     @ '' and the front does not offer it to '' @ audience @ '', so no caller could ever reach it''"

text \<open>The difference of two sets of members, in order.\<close>

definition member_diff :: "(string \<times> string) list \<Rightarrow> (string \<times> string) list \<Rightarrow> (string \<times> string) list" where
  "member_diff xs ys = sort (remdups (filter (\<lambda>x. x \<notin> set ys) xs))"

definition tier_surface :: "pydict list \<Rightarrow> string \<Rightarrow> (string list \<Rightarrow> (string \<times> string) list) \<Rightarrow> string \<times> string list \<Rightarrow> string list" where
  "tier_surface cps place wanted_by served =
     (let (tier, held) = served in
      case front_members (case owned_points cps tier of p # _ \<Rightarrow> p | [] \<Rightarrow> []) of
        None \<Rightarrow> []
      | Some carried_members \<Rightarrow>
          (let wanted = wanted_by held; carried = map (\<lambda>m. (doc_kind m, doc_name m)) carried_members;
               audience = join '' or '' (map quoted held) in
           map (missing_member_message place audience tier) (member_diff wanted carried)
           @ map (extra_member_message place audience tier) (member_diff carried wanted)))"

definition served_by :: "(string \<times> string) list \<Rightarrow> string list \<Rightarrow> bool \<Rightarrow> (string \<times> string list) list" where
  "served_by tiers order hierarchical =
     foldl (serve_scope (\<lambda>held. tier_for held tiers order hierarchical)) [] (if order \<noteq> [] then order else sort (map fst tiers))"

definition surface_messages :: "pydict \<Rightarrow> pydict list \<Rightarrow> pydict \<Rightarrow> string \<Rightarrow> (string \<times> string) list \<Rightarrow> string list" where
  "surface_messages config cps point place tiers =
     (case front_members point of
        None \<Rightarrow> []
      | Some front \<Rightarrow>
          if tiers = [] then []
          else let order = scope_order config; hierarchical = hierarchical_scopes config;
                   default_gate = stripped_text (get point ''scope'') in
            concat (map (tier_surface cps place (offered front default_gate order hierarchical)) (served_by tiers order hierarchical)))"

definition tier_messages :: "pydict \<Rightarrow> pydict list \<Rightarrow> pydict list \<Rightarrow> pydict \<Rightarrow> string \<Rightarrow> (string \<times> string) list \<Rightarrow> string list" where
  "tier_messages config es cps point place tiers =
     (let judged = map (\<lambda>line. (tier_check es cps (text_or_empty (get point ''owner'')) place (scope_order config) line, line)) tiers in
      concat (map (fst \<circ> fst) judged)
      @ surface_messages config cps point place (map snd (filter (snd \<circ> fst) judged)))"

definition lint_front :: "pydict \<Rightarrow> pydict list \<Rightarrow> pydict list \<Rightarrow> pydict \<Rightarrow> string list app" where
  "lint_front config es cps point =
     (if \<not> is_front point then Inr []
      else
        let tiers = behind point; place = connect_point_named (point_name point); owner = text_or_empty (get point ''owner'') in
        bindr (py_iter (consumers_of point)) (\<lambda>consumers.
        bindr (meets (filter (named_client es) (map entity_name es)) consumers) (\<lambda>browser.
          Inr ((if named_edge es owner then [] else [front_owner_message place owner])
               @ (if browser then [] else [front_consumer_message place])
               @ map (returning_slot_message place)
                   (filter (\<lambda>m. doc_kind m = ''slot'' \<and> doc_type m \<noteq> []) (case front_members point of Some ms \<Rightarrow> ms | None \<Rightarrow> []))
               @ (if tiers = [] then [empty_front_message place] else [])
               @ tier_messages config es cps point place tiers))))"

definition lint_fronts :: "pydict \<Rightarrow> string list app" where
  "lint_fronts config =
     bindr (entities config) (\<lambda>es.
     bindr (connect_points config) (\<lambda>cps. concatr (map (lint_front config es cps) (app_points cps))))"

section \<open>The tier of a caller\<close>

text \<open>A line of the block that a caller may be handed to: no scope above the one held.\<close>

definition eligible :: "string list \<Rightarrow> string \<Rightarrow> string \<times> string \<Rightarrow> bool" where
  "eligible order held line \<longleftrightarrow> 0 \<le> rank order (fst line) \<and> rank order (fst line) \<le> rank order held"

lemma highest_tier_max:
  "highest_tier order held (best, highest) tiers = (t, r) \<Longrightarrow> - 1 \<le> highest \<Longrightarrow>
     highest \<le> r \<and> (\<forall>line \<in> set tiers. eligible order held line \<longrightarrow> rank order (fst line) \<le> r) \<and>
     ((t, r) = (best, highest) \<or> (\<exists>scope. (scope, t) \<in> set tiers \<and> eligible order held (scope, t) \<and> rank order scope = r))"
proof (induction tiers arbitrary: best highest)
  case (Cons line tiers)
  obtain scope tier where line: "line = (scope, tier)" by fastforce
  show ?case
  proof (cases "eligible order held line \<and> highest < rank order scope")
    case True
    then have "highest_tier order held (tier, rank order scope) tiers = (t, r)"
      using Cons.prems(1) by (auto simp: line Let_def eligible_def)
    from Cons.IH [OF this] True Cons.prems(2) show ?thesis by (auto simp: line eligible_def)
  next
    case False
    then have "highest_tier order held (best, highest) tiers = (t, r)"
      using Cons.prems(1) by (auto simp: line Let_def eligible_def split: if_splits)
    from Cons.IH [OF this Cons.prems(2)] False show ?thesis by (auto simp: line eligible_def)
  qed
qed simp

text \<open>
  Where a front hands a caller: to the entity written for the scope held, else, under ranked scopes,
  to that of the highest scope below it; so a caller is never handed to an entity for a scope above the one held, and is handed nowhere exactly when no line
  of the block applies.
\<close>

theorem tier_for_highest:
  assumes "\<forall>(scope, tier) \<in> set tiers. tier \<noteq> []"
  shows "let tier = tier_for held tiers order hierarchical in
    if tier = [] then held \<notin> fst ` set tiers \<and> (hierarchical \<and> order \<noteq> [] \<longrightarrow> (\<forall>line \<in> set tiers. \<not> eligible order held line))
    else \<exists>scope. (scope, tier) \<in> set tiers \<and>
        (scope = held \<or> hierarchical \<and> eligible order held (scope, tier) \<and>
           (\<forall>line \<in> set tiers. eligible order held line \<longrightarrow> rank order (fst line) \<le> rank order scope))"
proof (cases "map_of tiers held")
  case (Some tier)
  then have "(held, tier) \<in> set tiers" "tier \<noteq> []" using assms by (auto dest: map_of_SomeD)
  then show ?thesis using Some by (auto simp: tier_for_def)
next
  case None
  then have held: "held \<notin> fst ` set tiers" by (simp add: map_of_eq_None_iff)
  obtain t r where tr: "highest_tier order held ([], - 1) tiers = (t, r)" by fastforce
  from highest_tier_max [OF tr] have m: "\<forall>line \<in> set tiers. eligible order held line \<longrightarrow> rank order (fst line) \<le> r"
    "(t, r) = ([], - 1) \<or> (\<exists>scope. (scope, t) \<in> set tiers \<and> eligible order held (scope, t) \<and> rank order scope = r)" by auto
  have tf: "tier_for held tiers order hierarchical = (if \<not> hierarchical \<or> order = [] then [] else t)"
    by (simp add: tier_for_def None tr)
  show ?thesis
  proof (cases "\<not> hierarchical \<or> order = [] \<or> t = []")
    case True
    then have "tier_for held tiers order hierarchical = []" by (auto simp: tf)
    moreover have "\<not> eligible order held line" if "line \<in> set tiers" "hierarchical" "order \<noteq> []" for line
    proof -
      have "r = - 1" using m(2) assms True that(2,3) by auto
      then show ?thesis using m(1) that(1) by (auto simp: eligible_def)
    qed
    ultimately show ?thesis using held by simp
  next
    case False
    then obtain scope where "(scope, t) \<in> set tiers" "eligible order held (scope, t)" "rank order scope = r" using m(2) by auto
    moreover have "tier_for held tiers order hierarchical = t" "t \<noteq> []" hierarchical using False unfolding tf by auto
    ultimately show ?thesis using m(1) by (auto simp: Let_def)
  qed
qed

theorem tier_for_highest_witness:
  "\<exists>scope. (scope, tier_for ''moderator'' [(''admin'', ''desk''), (''anonymous'', ''shop'')] [''anonymous'', ''moderator'', ''admin''] True)
     \<in> set [(''admin'', ''desk''), (''anonymous'', ''shop'')] \<and> scope \<noteq> ''admin''"
proof -
  have t: "tier_for ''moderator'' [(''admin'', ''desk''), (''anonymous'', ''shop'')] [''anonymous'', ''moderator'', ''admin''] True = ''shop''"
    by code_simp
  show ?thesis
    using tier_for_highest [where tiers = "[(''admin'', ''desk''), (''anonymous'', ''shop'')]" and held = "''moderator''"
        and order = "[''anonymous'', ''moderator'', ''admin'']" and hierarchical = True]
    unfolding t Let_def by (auto simp: eligible_def rank_def)
qed

section \<open>What a clean front promises\<close>

lemma quiet_messages [simp]:
  "is_error (front_owner_message place owner)" "is_error (front_consumer_message place)"
  "is_error (returning_slot_message place m)" "is_error (tier_message place scope tier what)"
  "is_error (missing_member_message place audience tier member)" "is_error (extra_member_message place audience tier member)"
  by (simp_all add: is_error_def front_owner_message_def front_consumer_message_def returning_slot_message_def
      tier_message_def missing_member_message_def extra_member_message_def)

lemma tier_check_clean:
  assumes "clean (fst (tier_check es cps owner place order (scope, tier)))"
  shows "snd (tier_check es cps owner place order (scope, tier)) \<and> (order \<noteq> [] \<longrightarrow> scope \<in> set order) \<and> entity_named es tier \<noteq> None \<and>
    \<not> named_client es tier \<and> tier \<noteq> owner \<and> owned_points cps tier \<noteq> []"
  using assms by (auto simp: tier_check_def Let_def split: if_splits)

lemma serve_fold:
  "map_of (foldl (serve_scope f) d hs) t =
     (let new = filter (\<lambda>h. f h = t \<and> t \<noteq> []) hs in
      case map_of d t of Some old \<Rightarrow> Some (old @ new) | None \<Rightarrow> if new = [] then None else Some new)"
proof (induction hs arbitrary: d)
  case (Cons h hs)
  have "map_of (serve_scope f d h) t =
      (if f h = t \<and> t \<noteq> [] then Some ((case map_of d t of Some old \<Rightarrow> old | None \<Rightarrow> []) @ [h]) else map_of d t)"
    by (simp add: serve_scope_def Let_def update_conv')
  then show ?case using Cons.IH [of "serve_scope f d h"] by (auto simp: Let_def split: option.splits)
qed (simp split: option.splits)

lemma served_by_spec:
  assumes "order \<noteq> []" "held \<in> set order" "tier_for held tiers order h = t" "t \<noteq> []"
  shows "\<exists>hs. (t, hs) \<in> set (served_by tiers order h) \<and> set hs = {one \<in> set order. tier_for one tiers order h = t}"
proof -
  have "map_of (served_by tiers order h) t = Some (filter (\<lambda>one. tier_for one tiers order h = t \<and> t \<noteq> []) order)"
    using assms by (auto simp: served_by_def serve_fold Let_def filter_empty_conv)
  then show ?thesis using assms(4) by (auto dest: map_of_SomeD intro!: exI)
qed

lemma member_diff_empty: "member_diff xs ys = [] \<longleftrightarrow> set xs \<subseteq> set ys"
proof -
  have "member_diff xs ys = [] \<longleftrightarrow> set (member_diff xs ys) = {}" by simp
  then show ?thesis by (auto simp: member_diff_def)
qed

lemma tier_surface_clean:
  assumes "clean (tier_surface cps place wanted_by (tier, held))" "owned_points cps tier = p # ps" "front_members p = Some carried"
  shows "set (wanted_by held) = (\<lambda>m. (doc_kind m, doc_name m)) ` set carried"
proof -
  let ?carried = "map (\<lambda>m. (doc_kind m, doc_name m)) carried" and ?audience = "join '' or '' (map quoted held)"
  have "tier_surface cps place wanted_by (tier, held) =
      map (missing_member_message place ?audience tier) (member_diff (wanted_by held) ?carried)
      @ map (extra_member_message place ?audience tier) (member_diff ?carried (wanted_by held))"
    using assms(2,3) by (simp add: tier_surface_def Let_def)
  then have "member_diff (wanted_by held) ?carried = []" "member_diff ?carried (wanted_by held) = []"
    using assms(1) by (cases "member_diff (wanted_by held) ?carried"; cases "member_diff ?carried (wanted_by held)"; simp)+
  then show ?thesis unfolding member_diff_empty by auto
qed

lemma tier_messages_clean:
  assumes "clean (tier_messages config es cps point place tiers)" "(scope, tier) \<in> set tiers"
  shows "(scope_order config \<noteq> [] \<longrightarrow> scope \<in> set (scope_order config)) \<and> entity_named es tier \<noteq> None \<and> \<not> named_client es tier \<and>
    tier \<noteq> text_or_empty (get point ''owner'') \<and> owned_points cps tier \<noteq> []"
proof -
  have "clean (fst (tier_check es cps (text_or_empty (get point ''owner'')) place (scope_order config) (scope, tier)))"
    using assms by (auto simp: tier_messages_def Let_def)
  then show ?thesis using tier_check_clean by blast
qed

lemma tier_messages_surface:
  assumes "clean (tier_messages config es cps point place tiers)"
  shows "clean (surface_messages config cps point place tiers)"
proof -
  have "snd (tier_check es cps (text_or_empty (get point ''owner'')) place (scope_order config) line)" if "line \<in> set tiers" for line
    using assms that by (cases line) (auto simp: tier_messages_def Let_def intro: tier_check_clean [THEN conjunct1])
  then have "filter (\<lambda>line. snd (tier_check es cps (text_or_empty (get point ''owner'')) place (scope_order config) line)) tiers = tiers"
    by simp
  then show ?thesis using assms by (simp add: tier_messages_def Let_def filter_map comp_def ball_Un)
qed

lemma tier_for_line:
  assumes "tier_for held tiers order hierarchical = tier" "tier \<noteq> []"
  shows "\<exists>scope. (scope, tier) \<in> set tiers"
proof (cases "map_of tiers held")
  case (Some t)
  then show ?thesis using assms by (auto simp: tier_for_def dest: map_of_SomeD)
next
  case None
  obtain t r where "highest_tier order held ([], - 1) tiers = (t, r)" by fastforce
  then show ?thesis using assms None highest_tier_max [of order held "[]" "- 1" tiers t r]
    by (auto simp: tier_for_def split: if_splits)
qed


section \<open>An example\<close>

definition shop_entities :: "pydict list" where
  "shop_entities =
     [[(''name'', YStr ''app''), (''type'', YStr ''client'')], [(''name'', YStr ''edge''), (''type'', YStr ''web_edge'')],
      [(''name'', YStr ''shop'')], [(''name'', YStr ''desk'')]]"

definition shop_front :: pydict where
  "shop_front =
     [(''owner'', YStr ''edge''), (''consumers'', YList [YStr ''app'']), (''export'', YStr (''prop int n'' @ nl @ ''<admin> slot w()'')),
      (''behind'', YMap [(''anonymous'', YStr ''shop''), (''admin'', YStr ''desk'')])]"

definition shop_own :: pydict where
  "shop_own = [(''owner'', YStr ''shop''), (''consumers'', YList [YStr ''edge'']), (''export'', YStr ''prop int n'')]"

definition desk_own :: pydict where
  "desk_own = [(''owner'', YStr ''desk''), (''consumers'', YList [YStr ''edge'']), (''export'', YStr (''prop int n'' @ nl @ ''slot w()''))]"

definition shop_points :: "pydict list" where
  "shop_points = [shop_front, shop_own, desk_own]"

definition shop_config :: pydict where
  "shop_config = [(''scopes'', YMap [(''order'', YList [YStr ''anonymous'', YStr ''admin''])])]"

definition doc_n :: doc_member where
  "doc_n = \<lparr>doc_kind = ''prop'', doc_name = ''n'', doc_type = ''int'', doc_params = [], doc_roles = [], doc_scope = None\<rparr>"

definition doc_w :: "string option \<Rightarrow> doc_member" where
  "doc_w scope = \<lparr>doc_kind = ''slot'', doc_name = ''w'', doc_type = [], doc_params = [], doc_roles = [], doc_scope = scope\<rparr>"

lemma shop_members:
  "front_members shop_front = Some [doc_n, doc_w (Some ''admin'')]"
  "front_members shop_own = Some [doc_n]"
  "front_members desk_own = Some [doc_n, doc_w None]"
  by code_simp+

lemma shop_front_reads:
  "text_or_empty (get shop_front ''owner'') = ''edge''" "stripped_text (get shop_front ''scope'') = []" "is_front shop_front"
  "py_iter (consumers_of shop_front) = Inr [YStr ''app'']" "behind shop_front = [(''anonymous'', ''shop''), (''admin'', ''desk'')]"
  "owned_points shop_points ''shop'' = [shop_own]" "owned_points shop_points ''desk'' = [desk_own]"
  by code_simp+

lemma shop_tiers_clean: "tier_messages shop_config shop_entities shop_points shop_front place (behind shop_front) = []"
proof -
  let ?order = "scope_order shop_config" and ?ranked = "hierarchical_scopes shop_config"
  have "tier_check shop_entities shop_points ''edge'' place ?order (''anonymous'', ''shop'') = ([], True)"
    "tier_check shop_entities shop_points ''edge'' place ?order (''admin'', ''desk'') = ([], True)" by code_simp+
  moreover have "served_by [(''anonymous'', ''shop''), (''admin'', ''desk'')] ?order ?ranked = [(''shop'', [''anonymous'']), (''desk'', [''admin''])]"
    by code_simp
  moreover have "tier_surface shop_points place (offered [doc_n, doc_w (Some ''admin'')] [] ?order ?ranked) (''shop'', [''anonymous'']) = []"
  proof -
    have "offered [doc_n, doc_w (Some ''admin'')] [] ?order ?ranked [''anonymous''] = [(''prop'', ''n'')]" by code_simp
    then show ?thesis by (simp add: tier_surface_def shop_front_reads shop_members Let_def member_diff_def doc_n_def)
  qed
  moreover have "tier_surface shop_points place (offered [doc_n, doc_w (Some ''admin'')] [] ?order ?ranked) (''desk'', [''admin'']) = []"
  proof -
    have "offered [doc_n, doc_w (Some ''admin'')] [] ?order ?ranked [''admin''] = [(''prop'', ''n''), (''slot'', ''w'')]" by code_simp
    then show ?thesis by (simp add: tier_surface_def shop_front_reads shop_members Let_def member_diff_def doc_n_def doc_w_def)
  qed
  ultimately show ?thesis by (simp add: tier_messages_def surface_messages_def shop_front_reads shop_members Let_def)
qed

lemma shop_front_clean: "lint_front shop_config shop_entities shop_points shop_front = Inr []"
proof -
  have "named_edge shop_entities ''edge''" by code_simp
  moreover have "meets (filter (named_client shop_entities) (map entity_name shop_entities)) [YStr ''app''] = Inr True" by code_simp
  moreover have "filter (\<lambda>m. doc_kind m = ''slot'' \<and> doc_type m \<noteq> []) [doc_n, doc_w (Some ''admin'')] = []" by (simp add: doc_n_def doc_w_def)
  ultimately show ?thesis
    unfolding lint_front_def Let_def shop_front_reads(1,2,3,4) shop_members shop_tiers_clean by (simp add: shop_front_reads(5))
qed


end
