(* ===== verification/CheckTopology.thy ===== *)
theory CheckTopology
  imports CheckContracts Topology
begin

text \<open>
  The rules of \<open>synqt check\<close> over entities and connect points, from \<open>synqt/check.py\<close>: names, types and
  ports of entities, and for every connect point who owns it, who may consume it, under which scope and
  over which transport. The dictionary of entities has the names as they are written for its keys; a
  name that cannot be a key is refused as Python refuses to hash it.
\<close>

section \<open>Entities\<close>

text \<open>\<open>entities[name]\<close>: of two entities with one name the later one counts.\<close>

definition entity_at :: "pydict list \<Rightarrow> yval \<Rightarrow> pydict option" where
  "entity_at es name = List.find (\<lambda>e. py_eq (get e ''name'') name) (rev es)"

definition duplicate_messages :: "yval list \<Rightarrow> string \<Rightarrow> string \<Rightarrow> string list" where
  "duplicate_messages names what consequence =
     (let seen = map py_str (filter truthy names) in
      map (\<lambda>name. ''error: '' @ what @ '' '' @ quoted name @ '' is declared more than once; '' @ consequence)
        (sort (remdups (filter (\<lambda>n. 1 < count_list seen n) seen))))"

definition named_point_message :: "pydict \<Rightarrow> string" where
  "named_point_message point =
     (let owner = (if truthy (get point ''owner'') then py_str (get point ''owner'') else ''?'') in
      ''error: the connect point owned by '' @ quoted owner @ '' sets name: '' @ quoted (py_str (get point ''name''))
      @ ''; a connect point is not named any more, because an entity has one and the owner names it. Delete the line: consumers already reach it as ''
      @ quoted (accessor_name owner))"

definition named_point_messages :: "pydict \<Rightarrow> string list app" where
  "named_point_messages config =
     bindr (py_iter (or_empty (get config ''connect_points''))) (\<lambda>vs.
       Inr (map named_point_message (filter (\<lambda>p. truthy (get p ''name'')) (dicts vs))))"

definition unnamed_entity_message :: string where
  "unnamed_entity_message =
     ''error: an entity declares no name; every entity needs one, because it is the folder its files live in and the name other entities reach it by''"

definition bad_name_message :: "string \<Rightarrow> string" where
  "bad_name_message name =
     ''error: entity name '' @ quoted (take 80 name) @ '' cannot be used; an entity name starts with a letter and is made of letters, digits, underscores and hyphens, up to ''
     @ dec ENTITY_NAME_MAX @ '' characters. It becomes a directory, a build target, the accessor other entities reach this one by, and the subject of its mesh certificate''"

definition entity_name_messages :: "pydict list \<Rightarrow> string list" where
  "entity_name_messages es =
     concat (map (\<lambda>e. if get e ''name'' = YNull then [unnamed_entity_message]
       else let name = py_str (get e ''name'') in if is_valid_entity_name name then [] else [bad_name_message name]) es)"

definition shared_uri_message :: "string \<Rightarrow> string \<Rightarrow> string \<Rightarrow> string" where
  "shared_uri_message first name uri =
     ''error: client entities '' @ quoted first @ '' and '' @ quoted name @ '' both give their QML module the URI '' @ quoted uri
     @ '', so one would claim the other'' @ CHR 0x27 # ''s views and the wrong page would load with nothing reported. A URI is made of letters and digits, so names that differ only in punctuation are one URI; rename one of them''"

fun uri_messages :: "pydict \<Rightarrow> (string \<times> string) list \<Rightarrow> pydict list \<Rightarrow> string list app" where
  "uri_messages config seen [] = Inr []"
| "uri_messages config seen (e # es) =
     bindr (qml_uri_for config e) (\<lambda>uri.
       let name = entity_name e; first = (case map_of seen uri of Some n \<Rightarrow> n | None \<Rightarrow> name) in
       bindr (uri_messages config ((uri, first) # seen) es) (\<lambda>ms.
         Inr ((if first \<noteq> name then [shared_uri_message first name uri] else []) @ ms)))"

definition qml_uri_messages :: "pydict \<Rightarrow> pydict list \<Rightarrow> string list app" where
  "qml_uri_messages config es =
     (let clients = filter is_client es in if length clients < 2 then Inr [] else uri_messages config [] clients)"

definition entity_type_messages :: "pydict list \<Rightarrow> string list" where
  "entity_type_messages es =
     concat (map (\<lambda>e.
       let name = (if truthy (get e ''name'') then py_str (get e ''name'') else ''?''); declared_type = stripped_text (get e ''type'') in
       if declared_type \<noteq> [] \<and> declared_type \<notin> fst ` set TYPE_FOLDERS
       then [''error: entity '' @ quoted name @ '' has type '' @ quoted declared_type @ '', which is not one of ''
             @ py_repr (YList (map YStr (sort (map fst TYPE_FOLDERS))))]
       else []) es)"

definition shared_messages :: "pydict list \<Rightarrow> string list" where
  "shared_messages es =
     concat (map (\<lambda>e.
       case map_of e ''shared'' of
         None \<Rightarrow> []
       | Some (YBool _) \<Rightarrow>
           if is_client e
           then [''error: entity '' @ quoted (entity_name e) @ '' is the client and sets '' @ quoted ''shared''
                 @ ''; a client is one browser and shares with nobody, so the word says nothing there. Put it on the edge if what you meant is a Source per session'']
           else []
       | Some v \<Rightarrow> [''error: entity '' @ quoted (entity_name e) @ '' has shared '' @ quoted (py_str v)
                 @ ''; it is true (one of this entity for everybody, the default) or false (one per caller)'']) es)"

definition orphan_messages :: "pydict \<Rightarrow> pydict list \<Rightarrow> string list app" where
  "orphan_messages config es =
     concatr (map (\<lambda>e.
       let name = entity_name e in
       if name = [] \<or> is_client e \<or> is_edge e \<or> serves_inbound e then Inr []
       else bindr (owned_by config (YStr name)) (\<lambda>owned.
         if owned \<noteq> [] then Inr []
         else bindr (consumed_by config name) (\<lambda>consumed.
           Inr (if consumed \<noteq> [] then []
                else [''warn: entity '' @ quoted name @ '' owns no connect point and consumes none, so nothing can reach it and it can reach nothing; give it a connect point or take it out (see https://synqt.org/entities/)''])))) es)"

text \<open>
  The keys of the dictionary of entities in its order, a name that cannot be a key refused; and names as \<open>sorted\<close> orders them, where
  they can be compared.
\<close>

definition add_key :: "yval list \<Rightarrow> yval \<Rightarrow> yval list" where
  "add_key seen n = (if list_ex (\<lambda>k. py_eq k n) seen then seen else seen @ [n])"

definition entity_keys :: "pydict list \<Rightarrow> yval list app" where
  "entity_keys es =
     (let names = map (\<lambda>e. get e ''name'') es in
      if list_all hashable names then Inr (foldl add_key [] names)
      else Inl TypeError)"

definition sort_names :: "yval list \<Rightarrow> yval list app" where
  "sort_names names =
     (if length names \<le> 1 then Inr names
      else if list_all (\<lambda>n. case n of YStr _ \<Rightarrow> True | _ \<Rightarrow> False) names then Inr (map YStr (sort (map py_str names)))
      else if list_all (\<lambda>n. case n of YInt _ \<Rightarrow> True | YBool _ \<Rightarrow> True | _ \<Rightarrow> False) names
      then bindr (mapr (\<lambda>n. bindr (py_int n) (\<lambda>i. Inr (i, n))) names) (\<lambda>ns. Inr (map snd (sort_key fst ns)))
      else Inl TypeError)"

definition entity_names :: "pydict list \<Rightarrow> yval list app" where
  "entity_names es = bindr (entity_keys es) sort_names"

definition port_taken_message :: "yval \<Rightarrow> yval \<Rightarrow> string \<Rightarrow> int \<Rightarrow> string" where
  "port_taken_message taken name host port =
     ''error: entities '' @ quoted (py_str taken) @ '' and '' @ quoted (py_str name) @ '' both serve browsers on '' @ host @ '':'' @ dec_int port
     @ ''; only one of them can bind it, so give one a port of its own (public.port)''"

definition public_address :: "pydict \<Rightarrow> (string \<times> int) app" where
  "public_address e =
     (let host = get (public_settings e) ''host'' in
      bindr (public_port e) (\<lambda>port. Inr (if truthy host then py_str host else ''127.0.0.1'', port)))"

fun port_messages :: "pydict list \<Rightarrow> ((string \<times> int) \<times> yval) list \<Rightarrow> yval list \<Rightarrow> string list app" where
  "port_messages es seen [] = Inr []"
| "port_messages es seen (name # names) =
     (case entity_at es name of
        None \<Rightarrow> Inl KeyError
      | Some e \<Rightarrow>
          if \<not> serves_browser e then port_messages es seen names
          else bindr (public_address e) (\<lambda>(host, port).
            case map_of seen (host, port) of
              Some taken \<Rightarrow> bindr (port_messages es seen names) (\<lambda>ms. Inr (port_taken_message taken name host port # ms))
            | None \<Rightarrow> port_messages es (((host, port), name) # seen) names))"

definition public_port_messages :: "pydict list \<Rightarrow> string list app" where
  "public_port_messages es = bindr (entity_names es) (port_messages es [])"

section \<open>Connect points\<close>

text \<open>\<open>name in entities\<close> and \<open>name in clients\<close>, which hash the name.\<close>

definition among_entities :: "(pydict \<Rightarrow> bool) \<Rightarrow> pydict list \<Rightarrow> yval \<Rightarrow> bool app" where
  "among_entities p es name =
     (if hashable name then Inr (case entity_at es name of Some e \<Rightarrow> p e | None \<Rightarrow> False) else Inl TypeError)"

definition point_message :: "string \<Rightarrow> string \<Rightarrow> string" where
  "point_message name what = ''error: connect point '' @ quoted name @ what"

definition owner_messages :: "pydict list \<Rightarrow> string \<Rightarrow> pydict \<Rightarrow> string list app" where
  "owner_messages es name point =
     (let owner = get point ''owner'' in
      bindr (among_entities (\<lambda>_. True) es owner) (\<lambda>known.
      bindr (val_in owner (get_or point ''consumers'' (YList []))) (\<lambda>consumes.
      bindr (among_entities is_client es owner) (\<lambda>client.
        Inr ((if known then [] else [point_message name ('' has unknown owner '' @ quoted (py_str owner))])
             @ (if consumes then [point_message name ('' lists its owner '' @ quoted (py_str owner)
                  @ '' as a consumer; an entity holds its own Source and does not acquire a replica of it'')] else [])
             @ (if client then [point_message name ('' is owned by the client entity '' @ quoted (py_str owner)
                  @ ''; an owner listens for consumers and a browser cannot listen, so a connect point the client takes part in must be owned by a web_edge entity'')] else []))))))"

text \<open>Keys a point does not have any more.\<close>

definition key_messages :: "string \<Rightarrow> pydict \<Rightarrow> string list" where
  "key_messages name point =
     (if map_of point ''instance'' \<noteq> None
      then [point_message name ('' sets '' @ quoted ''instance'' @ ''; how many Sources there are is the owning entity'' @ CHR 0x27 # ''s answer now, so write ''
              @ quoted ''shared: false'' @ '' on '' @ quoted (py_str (get point ''owner'')) @ '' to give each caller their own'')] else [])
     @ (if map_of point ''contract'' \<noteq> None \<and> \<not> is_framework_point point
        then [point_message name ('' names a '' @ quoted ''contract'' @ ''; what crosses a point is written on the point itself, in its '' @ quoted ''export:''
                @ '' block, and the type it becomes is named after the owner ('' @ quoted (contract_of [(''owner'', get point ''owner'')]) @ '')'')] else [])
     @ (case map_of point ''export'' of
          None \<Rightarrow> []
        | Some (YStr _) \<Rightarrow> []
        | Some v \<Rightarrow> [point_message name ('': '' @ quoted ''export:'' @ '' is the lines of the contract, written as a block (`export: |`), not a '' @ type_name v)])"

definition client_reach_message :: "string \<Rightarrow> yval \<Rightarrow> yval \<Rightarrow> string" where
  "client_reach_message name owner consumer =
     ''error: client '' @ quoted (py_str consumer) @ '' consumes '' @ quoted name @ '', owned by '' @ quoted (py_str owner)
     @ '', which is not a web_edge entity (the browser can only reach a web edge)''"

definition consumer_messages :: "pydict list \<Rightarrow> string \<Rightarrow> yval \<Rightarrow> yval \<Rightarrow> string list app" where
  "consumer_messages es name owner consumer =
     bindr (among_entities (\<lambda>_. True) es consumer) (\<lambda>known.
     bindr (among_entities is_client es consumer) (\<lambda>client.
     bindr (among_entities serves_browser es owner) (\<lambda>facing.
       Inr ((if known then [] else [point_message name ('' has unknown consumer '' @ quoted (py_str consumer))])
            @ (if client \<and> \<not> facing
               then [client_reach_message name owner consumer] else [])))))"

text \<open>The scope a point requires, which a framework point of the monitor takes from another vocabulary.\<close>

definition required_scope :: "pydict list \<Rightarrow> pydict \<Rightarrow> yval app" where
  "required_scope es point =
     (if is_framework_point point then
        bindr (among_entities (\<lambda>e. entity_type e = ''monitor'') es (get point ''owner'')) (\<lambda>monitor.
          Inr (if monitor then YNull else get point ''scope''))
      else Inr (get point ''scope''))"

definition scope_messages :: "string list \<Rightarrow> string \<Rightarrow> yval \<Rightarrow> string list" where
  "scope_messages order name scope =
     (if scope \<noteq> YNull \<and> order \<noteq> [] \<and> py_str scope \<notin> set order
      then [point_message name ('' requires scope '' @ quoted (py_str scope) @ '', which is not in scopes.order ('' @ join '', '' order
              @ ''); no session could ever hold it'')] else [])"

definition local_messages :: "string \<Rightarrow> pydict \<Rightarrow> yval list \<Rightarrow> string list app" where
  "local_messages name point consumers =
     bindr (if 1 < length consumers \<and> is_dict (get_or point ''consumers'' (YList [])) then Inl KeyError else Inr ()) (\<lambda>_.
       Inr ((if \<not> truthy (get_or point ''transport_local_explicit'' (YBool True))
             then [point_message name '' uses transport local implicitly'']
             else [''warn: connect point '' @ quoted name @ '' uses transport local: its caller entity is colocation-trusted, not certificate-authenticated (gate privileged actions on Caller.isEntityVerified)''])
            @ (if 1 < length consumers
               then [point_message name ('' uses transport local with '' @ dec (length consumers) @ '' consumers ('' @ join '', '' (map py_str consumers)
                       @ ''); a local socket cannot tell them apart, so every caller would be reported as '' @ quoted (py_str (hd consumers))
                       @ ''. Keep one consumer on it, or use transport mtls'')] else [])))"

definition connect_point_messages :: "pydict list \<Rightarrow> string list \<Rightarrow> (string \<times> endpoint) list \<Rightarrow> yval \<Rightarrow> string list app" where
  "connect_point_messages es order endpoints v =
     bindr (as_dict v) (\<lambda>point.
       let name = (if point_name point \<noteq> [] then point_name point else ''<no owner>'') in
       bindr (owner_messages es name point) (\<lambda>owner.
       bindr (py_iter (get_or point ''consumers'' (YList []))) (\<lambda>consumers.
       bindr (concatr (map (consumer_messages es name (get point ''owner'')) consumers)) (\<lambda>each.
       bindr (required_scope es point) (\<lambda>scope.
       bindr (case map_of endpoints name of Some (LocalEndpoint _) \<Rightarrow> local_messages name point consumers | _ \<Rightarrow> Inr []) (\<lambda>transport.
         Inr (owner @ key_messages name point @ each @ scope_messages order name scope @ transport)))))))"

section \<open>What a clean topology promises\<close>

lemma topology_errors [simp]:
  "is_error (point_message name what)" "is_error (client_reach_message name owner consumer)" "is_error (port_taken_message taken taker host port)"
  by (simp_all add: is_error_def point_message_def client_reach_message_def port_taken_message_def)

lemma among_entities_Inr:
  "among_entities p es name = Inr b \<longleftrightarrow> hashable name \<and> b = (case entity_at es name of Some e \<Rightarrow> p e | None \<Rightarrow> False)"
  by (auto simp: among_entities_def)

lemma owner_messages_clean:
  assumes "owner_messages es name point = Inr ms" "clean ms"
  shows "\<exists>e. entity_at es (get point ''owner'') = Some e \<and> \<not> is_client e \<and> val_in (get point ''owner'') (get_or point ''consumers'' (YList [])) = Inr False"
  using assms by (auto simp: owner_messages_def Let_def bindr_eq_Inr among_entities_Inr split: if_splits option.splits)

lemma consumer_messages_clean:
  assumes "consumer_messages es name owner consumer = Inr ms" "clean ms"
  shows "\<exists>e. entity_at es consumer = Some e \<and> (is_client e \<longrightarrow> (\<exists>oe. entity_at es owner = Some oe \<and> serves_browser oe))"
  using assms by (auto simp: consumer_messages_def bindr_eq_Inr among_entities_Inr split: if_splits option.splits)

lemma concatr_member: "concatr (map f xs) = Inr ms \<Longrightarrow> x \<in> set xs \<Longrightarrow> \<exists>fs. f x = Inr fs \<and> set fs \<subseteq> set ms"
  by (induction xs arbitrary: ms) (fastforce simp: concatr.simps bindr_eq_Inr)+

lemma concatr_clean:
  assumes "concatr (map f xs) = Inr ms" "clean ms" "x \<in> set xs"
  obtains fs where "f x = Inr fs" "clean fs"
  using concatr_member [OF assms(1,3)] assms(2) that by blast

text \<open>
  C14. What a connect point that passes the check promises: an entity of the project owns it and is no
  client; the owner is not among its consumers; every consumer is an entity of the project, and a client
  consumes it only where a browser can reach the owner; the scope it requires is in the vocabulary; and over a local socket it has at most one
  consumer.
\<close>

theorem clean_point_sound:
  assumes "connect_point_messages es order endpoints (YMap point) = Inr ms" "clean ms"
    and "get_or point ''consumers'' (YList []) = YList consumers"
  shows "\<exists>owner. entity_at es (get point ''owner'') = Some owner \<and> \<not> is_client owner \<and> \<not> among (get point ''owner'') consumers \<and>
    (\<forall>c \<in> set consumers. \<exists>e. entity_at es c = Some e \<and> (is_client e \<longrightarrow> serves_browser owner)) \<and>
    (\<not> is_framework_point point \<and> get point ''scope'' \<noteq> YNull \<and> order \<noteq> [] \<longrightarrow> py_str (get point ''scope'') \<in> set order) \<and>
    (\<forall>socket. map_of endpoints (point_name point) = Some (LocalEndpoint socket) \<and> point_name point \<noteq> [] \<longrightarrow> length consumers \<le> 1)"
proof -
  let ?name = "if point_name point \<noteq> [] then point_name point else ''<no owner>''"
  obtain os each scope transport where m: "owner_messages es ?name point = Inr os" "clean os"
    "concatr (map (consumer_messages es ?name (get point ''owner'')) consumers) = Inr each" "clean each"
    "required_scope es point = Inr scope" "clean (scope_messages order ?name scope)"
    "(case map_of endpoints ?name of Some (LocalEndpoint _) \<Rightarrow> local_messages ?name point consumers | _ \<Rightarrow> Inr []) = Inr transport" "clean transport"
    using assms by (auto simp: connect_point_messages_def as_dict_def Let_def bindr_eq_Inr)
  from owner_messages_clean [OF m(1,2)] obtain owner where o: "entity_at es (get point ''owner'') = Some owner" "\<not> is_client owner"
    "\<not> among (get point ''owner'') consumers" unfolding assms(3) val_in_def by auto
  have "\<exists>e. entity_at es c = Some e \<and> (is_client e \<longrightarrow> serves_browser owner)" if c: "c \<in> set consumers" for c
    using concatr_clean [OF m(3,4) c] consumer_messages_clean o(1) by (metis option.inject)
  moreover have "py_str (get point ''scope'') \<in> set order" if "\<not> is_framework_point point" "get point ''scope'' \<noteq> YNull" "order \<noteq> []"
    using m(5,6) that by (auto simp: required_scope_def scope_messages_def split: if_splits)
  moreover have "length consumers \<le> 1" if "map_of endpoints (point_name point) = Some (LocalEndpoint socket)" "point_name point \<noteq> []" for socket
    using m(7,8) that by (auto simp: local_messages_def bindr_eq_Inr split: if_splits)
  ultimately show ?thesis using o by (intro exI [of _ owner]) blast
qed

definition apart :: "pydict list \<Rightarrow> ((string \<times> int) \<times> yval) list \<Rightarrow> yval list \<Rightarrow> bool" where
  "apart es seen names \<longleftrightarrow>
     (\<forall>n \<in> set names. \<forall>e. entity_at es n = Some e \<and> serves_browser e \<longrightarrow> (\<exists>host port. public_address e = Inr (host, port) \<and> (host, port) \<notin> fst ` set seen)) \<and>
     (\<forall>n \<in> set names. \<forall>k \<in> set names. \<forall>e f. n \<noteq> k \<and> entity_at es n = Some e \<and> entity_at es k = Some f \<and>
        serves_browser e \<and> serves_browser f \<longrightarrow> public_address e \<noteq> public_address f)"

lemma apart_closed:
  "entity_at es name = Some e \<Longrightarrow> \<not> serves_browser e \<Longrightarrow> apart es seen names \<Longrightarrow> apart es seen (name # names)"
  unfolding apart_def by auto

lemma apart_serving:
  assumes "entity_at es name = Some e" "public_address e = Inr a" "a \<notin> fst ` set seen" "apart es ((a, name) # seen) names"
  shows "apart es seen (name # names)"
proof -
  have "public_address f \<noteq> Inr a" if "k \<in> set names" "entity_at es k = Some f" "serves_browser f" for k f
    using assms(4) that unfolding apart_def by fastforce
  then show ?thesis using assms unfolding apart_def by (cases a) (auto simp: eq_commute [of "Inr a"], metis+)
qed

lemma port_messages_apart: "port_messages es seen names = Inr ms \<Longrightarrow> clean ms \<Longrightarrow> apart es seen names"
proof (induction names arbitrary: seen ms)
  case (Cons name names)
  obtain e where e: "entity_at es name = Some e" using Cons.prems(1) by (auto split: option.splits)
  show ?case
  proof (cases "serves_browser e")
    case False
    then show ?thesis using Cons e by (intro apart_closed) auto
  next
    case True
    then obtain host port where a: "public_address e = Inr (host, port)" using Cons.prems(1) e by (auto simp: bindr_eq_Inr)
    have new: "map_of seen (host, port) = None" using Cons.prems e True a by (auto simp: bindr_eq_Inr split: option.splits)
    then have "port_messages es (((host, port), name) # seen) names = Inr ms" using Cons.prems(1) e True a by simp
    from Cons.IH [OF this Cons.prems(2)] show ?thesis using e a new by (intro apart_serving) (auto simp: map_of_eq_None_iff)
  qed
qed (simp add: apart_def)

lemma add_key_mem: "YStr m \<in> set (add_key seen n) \<longleftrightarrow> YStr m \<in> set seen \<or> n = YStr m"
proof (cases "n = YStr m")
  case True
  then show ?thesis by (auto simp: add_key_def list_ex_iff)
qed (simp add: add_key_def)

lemma keys_mem: "YStr m \<in> set (foldl add_key seen names) \<longleftrightarrow> YStr m \<in> set seen \<or> YStr m \<in> set names"
  by (induction names arbitrary: seen) (auto simp: add_key_mem)

lemma sort_names_set:
  assumes "sort_names names = Inr ns" "YStr m \<in> set names"
  shows "YStr m \<in> set ns"
proof (cases "length names \<le> 1")
  case False
  have "\<not> list_all (\<lambda>n. case n of YInt _ \<Rightarrow> True | YBool _ \<Rightarrow> True | _ \<Rightarrow> False) names"
    using assms(2) by (auto simp: list_all_iff intro!: bexI)
  then have "ns = map YStr (sort (map py_str names))" using assms(1) False by (auto simp: sort_names_def split: if_splits)
  moreover have "m \<in> set (map py_str names)" using assms(2) by (force simp: py_str_def)
  ultimately show ?thesis by simp
qed (use assms in \<open>simp add: sort_names_def\<close>)

lemma entity_key_among:
  assumes "entity_keys es = Inr keys" "entity_at es (YStr m) = Some e"
  shows "YStr m \<in> set keys"
proof -
  have "e \<in> set (rev es)" "get e ''name'' = YStr m" using assms(2) unfolding entity_at_def by (auto simp: find_Some_iff simp del: set_rev)
  then have e: "YStr m \<in> set (map (\<lambda>e. get e ''name'') es)" by force
  have "keys = foldl add_key [] (map (\<lambda>e. get e ''name'') es)" using assms(1) by (simp add: entity_keys_def Let_def split: if_splits)
  then show ?thesis using e keys_mem [of m "[]" "map (\<lambda>e. get e ''name'') es"] by simp
qed

lemma entity_name_among: "entity_names es = Inr names \<Longrightarrow> entity_at es (YStr m) = Some e \<Longrightarrow> YStr m \<in> set names"
  using entity_key_among sort_names_set by (auto simp: entity_names_def bindr_eq_Inr)

lemma ports_differ:
  assumes "public_port_messages es = Inr ms" "clean ms"
    and "entity_at es (YStr n) = Some e" "entity_at es (YStr k) = Some f" "n \<noteq> k" "serves_browser e" "serves_browser f"
  shows "\<exists>a b. public_address e = Inr a \<and> public_address f = Inr b \<and> a \<noteq> b"
proof -
  obtain names where names: "entity_names es = Inr names" "port_messages es [] names = Inr ms"
    using assms(1) by (auto simp: public_port_messages_def bindr_eq_Inr)
  have "YStr n \<in> set names" "YStr k \<in> set names" using assms(3,4) entity_name_among [OF names(1)] by blast+
  then show ?thesis using port_messages_apart [OF names(2) assms(2)] assms(3-7) unfolding apart_def by (metis yval.inject(4))
qed

text \<open>
  In a project whose public ports pass the check, no two entities that a browser reaches are given the same
  host and port, the defaults included.
\<close>

theorem public_ports_apart:
  assumes "public_port_messages es = Inr ms" "clean ms"
    and "entity_at es (YStr n) = Some e" "entity_at es (YStr k) = Some f" "n \<noteq> k" "serves_browser e" "serves_browser f"
  shows "\<exists>a b. public_address e = Inr a \<and> public_address f = Inr b \<and> a \<noteq> b"
  using assms by (rule ports_differ)

section \<open>Examples\<close>

definition small_entities :: "pydict list" where
  "small_entities =
     [[(''name'', YStr ''app''), (''type'', YStr ''client'')], [(''name'', YStr ''edge''), (''type'', YStr ''web_edge'')],
      [(''name'', YStr ''watch''), (''type'', YStr ''monitor''), (''public'', YMap [(''port'', YInt 9000)])]]"

definition small_point :: pydict where
  "small_point = [(''owner'', YStr ''edge''), (''consumers'', YList [YStr ''app'']), (''scope'', YStr ''user''), (''export'', YStr ''prop int n'')]"

theorem clean_point_sound_witness:
  "\<exists>owner. entity_at small_entities (YStr ''edge'') = Some owner \<and> \<not> is_client owner \<and>
     (\<exists>e. entity_at small_entities (YStr ''app'') = Some e \<and> (is_client e \<longrightarrow> serves_browser owner))"
proof -
  have "connect_point_messages small_entities [''user''] [] (YMap small_point) = Inr []" by code_simp
  then show ?thesis using clean_point_sound [of small_entities "[''user'']" "[]" small_point "[]" "[YStr ''app'']"] by (auto simp: small_point_def)
qed

theorem public_ports_apart_witness:
  "\<exists>a b. public_address (small_entities ! 1) = Inr a \<and> public_address (small_entities ! 2) = Inr b \<and> a \<noteq> b"
proof -
  have m: "public_port_messages small_entities = Inr []" by code_simp
  have e: "entity_at small_entities (YStr ''edge'') = Some (small_entities ! 1)" "entity_at small_entities (YStr ''watch'') = Some (small_entities ! 2)"
    "serves_browser (small_entities ! 1)" "serves_browser (small_entities ! 2)" by code_simp+
  show ?thesis using public_ports_apart [OF m _ e(1,2) _ e(3,4)] by simp
qed

text \<open>
  What the rules miss or trip over: a wildcard address takes the port of every other one, and the key
  \<open>consumers:\<close> left empty is no list.
\<close>

lemma wildcard_port_missed:
  "public_port_messages [[(''name'', YStr ''a''), (''type'', YStr ''web_edge'')],
     [(''name'', YStr ''b''), (''type'', YStr ''monitor''), (''public'', YMap [(''host'', YStr ''0.0.0.0'')])]] = Inr []"
  by code_simp

lemma empty_consumers_raise:
  "connect_point_messages small_entities [] [] (YMap [(''owner'', YStr ''edge''), (''consumers'', YNull)]) = Inl TypeError"
  by code_simp

end
