(* ===== verification/PyNet.thy ===== *)
theory PyNet
  imports PyValue
begin

text \<open>
  What the checks use of Python's \<open>ipaddress\<close> and \<open>urllib.parse\<close>, as Python 3.11 has them: whether a
  text is an address, and the parts of a URL.
\<close>

section \<open>Addresses\<close>

definition is_octet :: "string \<Rightarrow> bool" where
  "is_octet s \<longleftrightarrow> is_number s \<and> length s \<le> 3 \<and> (s = ''0'' \<or> hd s \<noteq> CHR ''0'') \<and> undec s \<le> 255"

definition is_ipv4_address :: "string \<Rightarrow> bool" where
  "is_ipv4_address s \<longleftrightarrow> (let octets = split_on (CHR ''.'') s in length octets = 4 \<and> list_all is_octet octets)"

definition is_hextet :: "string \<Rightarrow> bool" where
  "is_hextet s \<longleftrightarrow> s \<noteq> [] \<and> length s \<le> 4 \<and> list_all (\<lambda>c. is_digit c \<or> c \<in> set ''abcdefABCDEF'') s"

text \<open>The places of an empty part that is neither the first nor the last.\<close>

definition skips :: "string list \<Rightarrow> nat list" where
  "skips parts = filter (\<lambda>i. parts ! i = []) [1 ..< length parts - 1]"

text \<open>An address whose last part is an IPv4 address counts it as two parts.\<close>

definition ipv6_parts :: "string \<Rightarrow> string list option" where
  "ipv6_parts s =
     (let parts = split_on (CHR '':'') s in
      if length parts < 3 then None
      else if CHR ''.'' \<in> set (last parts)
      then if is_ipv4_address (last parts) then Some (butlast parts @ [''0'', ''0'']) else None
      else Some parts)"

definition ipv6_body :: "string list \<Rightarrow> bool" where
  "ipv6_body parts \<longleftrightarrow>
     length parts \<le> 9 \<and>
     (case skips parts of
        [] \<Rightarrow> length parts = 8 \<and> list_all is_hextet parts
      | [i] \<Rightarrow>
          (let hi = (if hd parts = [] then i - 1 else i);
               lo = (if last parts = [] then length parts - i - 2 else length parts - i - 1) in
           (hd parts = [] \<longrightarrow> hi = 0) \<and> (last parts = [] \<longrightarrow> lo = 0) \<and> hi + lo < 8 \<and>
           list_all is_hextet (take hi parts) \<and> list_all is_hextet (drop (length parts - lo) parts))
      | _ \<Rightarrow> False)"

definition is_ipv6_address :: "string \<Rightarrow> bool" where
  "is_ipv6_address s \<longleftrightarrow>
     CHR ''/'' \<notin> set s \<and>
     (case split_on (CHR ''%'') s of
        [addr] \<Rightarrow> (case ipv6_parts addr of Some parts \<Rightarrow> ipv6_body parts | None \<Rightarrow> False)
      | [addr, zone] \<Rightarrow> zone \<noteq> [] \<and> (case ipv6_parts addr of Some parts \<Rightarrow> ipv6_body parts | None \<Rightarrow> False)
      | _ \<Rightarrow> False)"

definition is_ip_address :: "string \<Rightarrow> bool" where
  "is_ip_address s \<longleftrightarrow> is_ipv4_address s \<or> is_ipv6_address s"

section \<open>URLs\<close>

record url_parts =
  url_scheme :: string
  url_netloc :: string
  url_path :: string
  url_query :: string
  url_fragment :: string

definition scheme_char :: "char \<Rightarrow> bool" where
  "scheme_char c \<longleftrightarrow> is_lower c \<or> is_upper c \<or> is_digit c \<or> c \<in> set ''+-.''"

text \<open>\<open>s.partition(c)\<close>: what is before, whether the separator is there, and what is after.\<close>

definition cut :: "char \<Rightarrow> string \<Rightarrow> string \<times> bool \<times> string" where
  "cut c s = (let head = takeWhile (\<lambda>d. d \<noteq> c) s in (head, c \<in> set s, drop (length head + 1) s))"

text \<open>An address of a future version: a \<open>v\<close>, hexadecimal digits, a dot and something after it, on one line.\<close>

definition ip_future :: "string \<Rightarrow> bool" where
  "ip_future s \<longleftrightarrow>
     (let digits = takeWhile (\<lambda>c. is_digit c \<or> c \<in> set ''abcdefABCDEF'') (drop 1 s); rest = drop (1 + length digits) s in
      digits \<noteq> [] \<and> startswith rest ''.'' \<and> 2 \<le> length rest \<and> CHR 0x0A \<notin> set rest)"

definition bracketed_host :: "string \<Rightarrow> bool" where
  "bracketed_host host \<longleftrightarrow> (if startswith host ''v'' then ip_future host else is_ipv6_address host \<and> \<not> is_ipv4_address host)"

definition urlsplit :: "string \<Rightarrow> url_parts app" where
  "urlsplit text =
     (let url = filter (\<lambda>c. c \<notin> {CHR 0x09, CHR 0x0A, CHR 0x0D}) (dropWhile (\<lambda>c. (of_char c :: nat) \<le> 32) text);
          (head, colon, after) = cut (CHR '':'') url;
          schemed = colon \<and> head \<noteq> [] \<and> (is_lower (hd head) \<or> is_upper (hd head)) \<and> list_all scheme_char head;
          scheme = (if schemed then map to_lower head else []);
          url = (if schemed then after else url);
          netloc = (if startswith url ''//'' then takeWhile (\<lambda>c. c \<notin> set ''/?#'') (drop 2 url) else []);
          url = (if startswith url ''//'' then drop (2 + length netloc) url else url);
          (url, _, fragment) = cut (CHR ''#'') url;
          (path, _, query) = cut (CHR ''?'') url;
          opened = CHR ''['' \<in> set netloc; closed = CHR '']'' \<in> set netloc in
      if opened \<noteq> closed then Inl ValueError
      else if opened \<and> \<not> bracketed_host (fst (cut (CHR '']'') (snd (snd (cut (CHR ''['') netloc))))) then Inl ValueError
      else Inr \<lparr>url_scheme = scheme, url_netloc = netloc, url_path = path, url_query = query, url_fragment = fragment\<rparr>)"

text \<open>\<open>parts.hostname or ""\<close>: after the last \<open>@\<close>, inside the brackets or before the port, the zone as it is.\<close>

definition url_hostname :: "url_parts \<Rightarrow> string" where
  "url_hostname parts =
     (let hostinfo = last (split_on (CHR ''@'') (url_netloc parts));
          (_, opened, inner) = cut (CHR ''['') hostinfo;
          host = (if opened then fst (cut (CHR '']'') inner) else fst (cut (CHR '':'') hostinfo));
          (name, percent, zone) = cut (CHR ''%'') host in
      map to_lower name @ (if percent then CHR ''%'' # zone else []))"

section \<open>What an IPv4 address is\<close>

lemma dec_length: "n < 10 ^ k \<Longrightarrow> 0 < k \<Longrightarrow> length (dec n) \<le> k"
proof (induction n arbitrary: k rule: dec.induct)
  case (1 n)
  show ?case
  proof (cases "n < 10")
    case False
    then obtain k' where k: "k = Suc k'" "0 < k'" using "1.prems" by (cases k) (auto, (cases "k = 1"; simp))
    then have "n div 10 < 10 ^ k'" using "1.prems" by (simp add: less_mult_imp_div_less mult.commute)
    then show ?thesis using "1.IH" [OF False] k False by (subst dec.simps) auto
  qed (use "1.prems" in \<open>subst dec.simps, simp\<close>)
qed

lemma digit_char_digit_val: "is_digit c \<Longrightarrow> digit_char (digit_val c) = c \<and> digit_val c < 10"
  by (auto simp: is_digit_def digit_char_def digit_val_def less_eq_char_def)

lemma digit_char_0 [simp]: "digit_char 0 = CHR ''0''"
  by (simp add: digit_char_def char_of_def bit_simps)

lemma undec_snoc: "undec (s @ [c]) = 10 * undec s + digit_val c"
  by (simp add: undec_def)

text \<open>A numeral without a leading zero is the one \<open>str\<close> writes.\<close>

lemma dec_undec:
  assumes "is_number s" "hd s \<noteq> CHR ''0''"
  shows "dec (undec s) = s \<and> 0 < undec s"
  using assms
proof (induction s rule: rev_induct)
  case (snoc c s)
  have c: "digit_char (digit_val c) = c" "digit_val c < 10"
    using digit_char_digit_val [of c] snoc.prems(1) by (auto simp: is_number_def)
  show ?case
  proof (cases "s = []")
    case True
    then have "digit_val c \<noteq> 0" using c(1) snoc.prems(2) by (cases "digit_val c = 0") auto
    then show ?thesis using True c by (subst dec.simps) (simp add: undec_def)
  next
    case False
    then have s: "dec (undec s) = s" "0 < undec s" using snoc by (auto simp: is_number_def)
    then show ?thesis using c by (subst dec.simps) (simp add: undec_snoc)
  qed
qed (simp add: is_number_def)

lemma dec_head: "0 < n \<Longrightarrow> hd (dec n) \<noteq> CHR ''0''"
proof (induction n rule: dec.induct)
  case (1 n)
  show ?case
  proof (cases "n < 10")
    case True
    then have "digit_val (digit_char n) \<noteq> digit_val (digit_char 0)" using "1.prems" by (simp del: digit_char_0)
    then have "digit_char n \<noteq> CHR ''0''" by auto
    then show ?thesis using True by (subst dec.simps) auto
  next
    case False
    have "dec (n div 10) \<noteq> []" using is_number_dec [of "n div 10"] by (simp add: is_number_def)
    then show ?thesis using "1.IH" [OF False] False by (subst dec.simps) auto
  qed
qed

lemma is_octet_iff: "is_octet s \<longleftrightarrow> (\<exists>n < 256. s = dec n)"
proof
  assume o: "is_octet s"
  show "\<exists>n < 256. s = dec n"
  proof (cases "s = ''0''")
    case True
    then show ?thesis by (intro exI [of _ 0]) (simp add: dec.simps)
  next
    case False
    then have "dec (undec s) = s" using o dec_undec by (auto simp: is_octet_def)
    then show ?thesis using o by (intro exI [of _ "undec s"]) (simp add: is_octet_def)
  qed
next
  assume "\<exists>n < 256. s = dec n"
  then obtain n where n: "n < 256" "s = dec n" by blast
  have "length (dec n) \<le> 3" using n(1) by (intro dec_length) auto
  moreover have "dec n = ''0'' \<or> hd (dec n) \<noteq> CHR ''0''"
    using dec_head [of n] by (cases "n = 0") (auto simp: dec.simps)
  ultimately show "is_octet s" using n by (auto simp: is_octet_def is_number_dec)
qed

text \<open>The texts that are IPv4 addresses are the ones four bytes print as, joined by dots.\<close>

lemma is_ipv4_address_iff:
  "is_ipv4_address s \<longleftrightarrow> (\<exists>ns. length ns = 4 \<and> (\<forall>n \<in> set ns. n < 256) \<and> s = join ''.'' (map dec ns))"
proof
  assume s: "is_ipv4_address s"
  let ?o = "split_on (CHR ''.'') s"
  have o: "length ?o = 4" "\<forall>p \<in> set ?o. is_octet p" using s by (auto simp: is_ipv4_address_def Let_def list_all_iff)
  have "\<forall>p \<in> set ?o. dec (undec p) = p \<and> undec p < 256" using o(2) by (auto simp: is_octet_iff)
  then have "map dec (map undec ?o) = ?o" "\<forall>n \<in> set (map undec ?o). n < 256" by (auto intro: map_idI)
  then show "\<exists>ns. length ns = 4 \<and> (\<forall>n \<in> set ns. n < 256) \<and> s = join ''.'' (map dec ns)"
    using o(1) join_split_on [of "CHR ''.''" s] by (intro exI [of _ "map undec ?o"]) auto
next
  assume "\<exists>ns. length ns = 4 \<and> (\<forall>n \<in> set ns. n < 256) \<and> s = join ''.'' (map dec ns)"
  then obtain ns where ns: "length ns = 4" "\<forall>n \<in> set ns. n < 256" "s = join ''.'' (map dec ns)" by blast
  have "CHR ''.'' \<notin> set (dec n)" for n using is_number_dec [of n] by (auto simp: is_number_def list_all_iff is_digit_def)
  then have "split_on (CHR ''.'') s = map dec ns" unfolding ns(3) using ns(1) by (intro split_on_join) auto
  then show "is_ipv4_address s" using ns(1,2) is_octet_iff by (auto simp: is_ipv4_address_def Let_def list_all_iff)
qed

end
