(* ===== verification/CheckNetwork.thy ===== *)
theory CheckNetwork
  imports CheckTopology TopologyProps PyNet
begin

text \<open>
  The rules of \<open>synqt check\<close> over what an entity may call, who may call it and which addresses it binds, from
  \<open>synqt/check.py\<close>: the \<open>network:\<close> block, the proxies whose word about a caller's address is taken, and the
  places where a host has to be an address.
\<close>

section \<open>Outbound\<close>

text \<open>\<open>str(entity.get("name") or "?")\<close>, and the shape most refusals have.\<close>

definition shown_name :: "pydict \<Rightarrow> string" where
  "shown_name e = (if truthy (get e ''name'') then py_str (get e ''name'') else ''?'')"

definition entity_message :: "string \<Rightarrow> string \<Rightarrow> string" where
  "entity_message name what = ''error: entity '' @ quoted name @ what"

definition entity_warning :: "string \<Rightarrow> string \<Rightarrow> string" where
  "entity_warning name what = ''warn: entity '' @ quoted name @ what"

definition client_message :: "string \<Rightarrow> string \<Rightarrow> string" where
  "client_message name what = ''error: client '' @ quoted name @ what"

definition web_edge_message :: "string \<Rightarrow> string \<Rightarrow> string" where
  "web_edge_message name what = ''error: web edge '' @ quoted name @ what"

definition TRANSPORT_HEADERS :: "string list" where
  "TRANSPORT_HEADERS =
     [''host'', ''content-length'', ''connection'', ''keep-alive'', ''transfer-encoding'', ''te'', ''trailer'', ''upgrade'']"

definition CREDENTIAL_HEADERS :: "string list" where
  "CREDENTIAL_HEADERS = [''authorization'', ''api-key'', ''apikey'', ''token'', ''secret'', ''cookie'', ''password'']"

definition credential_header :: "string \<Rightarrow> bool" where
  "credential_header header \<longleftrightarrow> list_ex (\<lambda>word. contains_sub word (map to_lower header)) CREDENTIAL_HEADERS"

definition header_messages :: "string \<Rightarrow> string \<Rightarrow> string \<times> yval \<Rightarrow> string list" where
  "header_messages name url h =
     (let (header, value) = h in
      if map to_lower header \<in> set TRANSPORT_HEADERS
      then [entity_message name ('' sets the '' @ quoted header @ '' header on network.outbound '' @ quoted url
              @ ''; the transport owns that one and derives it from the request'')]
      else if credential_header header \<and> \<not> startswith (py_str value) ''env:''
      then [entity_message name ('' has a literal '' @ quoted header @ '' header on network.outbound '' @ quoted url
              @ ''; a credential must be an env: reference (e.g. env:LTD2_API_KEY) so it lives in the entity environment and never in synqt.yaml (https://synqt.org/security/)'')]
      else [])"

definition headers_messages :: "string \<Rightarrow> string \<Rightarrow> yval \<Rightarrow> string list" where
  "headers_messages name url headers =
     (case headers of
        YNull \<Rightarrow> []
      | YMap m \<Rightarrow> concat (map (header_messages name url) m)
      | _ \<Rightarrow> [entity_message name ('' has network.outbound '' @ quoted url @ '' with headers: that is not a mapping; it is header names to values'')])"

definition prefix_messages :: "string \<Rightarrow> string \<Rightarrow> string list" where
  "prefix_messages name url =
     (if \<not> startswith url ''http://'' \<and> \<not> startswith url ''https://''
      then [entity_message name ('' has network.outbound entry '' @ quoted url
              @ '', which is not an absolute http(s) URL prefix; a prefix is matched against the whole URL, so it has to start at the scheme'')]
      else if startswith url ''http://''
      then [entity_warning name ('' allows the plaintext prefix '' @ quoted url
              @ ''. The runtime refuses a plaintext outbound call in a release build, so this works in development and stops working when you ship'')]
      else [])"

definition outbound_entry_messages :: "string \<Rightarrow> yval \<Rightarrow> string list" where
  "outbound_entry_messages name entry =
     (case entry of
        YMap m \<Rightarrow>
          (let url = strip (text_or_empty (get m ''url'')) in
           if url = []
           then [entity_message name '' has a network.outbound entry with no url:; a named endpoint is a url: to call and, optionally, a name: to call it by and the headers: to send'']
           else headers_messages name url (get m ''headers'') @ prefix_messages name url)
      | _ \<Rightarrow> prefix_messages name (strip (py_str entry)))"

section \<open>Inbound\<close>

definition port_number_messages :: "string \<Rightarrow> yval \<Rightarrow> string list" where
  "port_number_messages name port =
     (let wrong = entity_message name ('' has network.inbound.port '' @ py_repr port @ ''; it must be a whole number between 1 and 65535'') in
      case port of
        YNull \<Rightarrow> [entity_message name '' has network.inbound with no port; a public surface has to name the port it occupies'']
      | YInt i \<Rightarrow> if 1 \<le> i \<and> i \<le> 65535 then [] else [wrong]
      | _ \<Rightarrow> [wrong])"

definition api_key_messages :: "string \<Rightarrow> pydict \<Rightarrow> string list" where
  "api_key_messages name inbound =
     (let keys = get inbound ''api_keys'' in
      if get inbound ''public'' = YBool True
      then if truthy keys then [entity_warning name '' sets network.inbound.public and also names api_keys; public means no key is checked, so the keys do nothing''] else []
      else if \<not> truthy keys
      then [entity_message name ('' has network.inbound with no api_keys; a public API that checks nothing is open to the internet. Name an env: variable holding the keys, or write ''
              @ quoted ''public: true'' @ '' to say you meant it'')]
      else if \<not> startswith (py_str keys) ''env:''
      then [entity_message name ('' has network.inbound.api_keys that is not an env: reference; a key written here is a secret in a file you commit. Write ''
              @ quoted ''api_keys: env:<VARIABLE>'' @ '' and put the value in that entity'' @ CHR 0x27 # ''s .env'')]
      else [])"

definition has_certificate :: "yval \<Rightarrow> bool" where
  "has_certificate tls \<longleftrightarrow> is_dict tls \<and> truthy (get (block_of tls) ''cert_file'') \<and> truthy (get (block_of tls) ''key_file'')"

definition plaintext_messages :: "string \<Rightarrow> pydict \<Rightarrow> string list" where
  "plaintext_messages name inbound =
     (if \<not> has_certificate (get inbound ''tls'') \<and> get inbound ''tls_terminated_upstream'' \<noteq> YBool True
      then [entity_warning name '' serves network.inbound over plaintext. An API key travels in a header, so anyone on the path reads it. Give it a tls: block with cert_file and key_file, or write tls_terminated_upstream: true if a proxy in front of it terminates TLS'']
      else [])"

definition origins_list_messages :: "string \<Rightarrow> yval \<Rightarrow> string list" where
  "origins_list_messages name origins =
     (if origins \<noteq> YNull \<and> \<not> is_list origins
      then [entity_message name '' has network.inbound.allowed_origins that is not a list; it is the browser origins allowed to call in, and [] (the default) means none'']
      else [])"

text \<open>A limit has to be above zero; a ceiling of zero is none at all, and so is a deadline of zero.\<close>

definition limit_messages :: "string \<Rightarrow> string \<Rightarrow> yval \<Rightarrow> string list" where
  "limit_messages name key value =
     (case value of
        YNull \<Rightarrow> []
      | YInt i \<Rightarrow>
          if i \<le> 0
          then [entity_message name ('' has network.inbound.'' @ key @ '' '' @ dec_int i
                  @ ''; a limit of zero or less would refuse every request rather than disable the limit'')]
          else []
      | _ \<Rightarrow> [entity_message name ('' has network.inbound.'' @ key @ '' '' @ py_repr value @ ''; it must be a whole number'')])"

definition ceiling_messages :: "string \<Rightarrow> string \<Rightarrow> yval \<Rightarrow> string list" where
  "ceiling_messages name key value =
     (let wrong = entity_message name ('' has network.inbound.'' @ key @ '' '' @ py_repr value @ ''; it must be a whole number, and 0 disables that ceiling'') in
      case value of YNull \<Rightarrow> [] | YInt i \<Rightarrow> if i < 0 then [wrong] else [] | _ \<Rightarrow> [wrong])"

definition timeout_messages :: "string \<Rightarrow> yval \<Rightarrow> string list" where
  "timeout_messages name timeout =
     (let wrong = entity_message name ('' has network.inbound.reply_timeout_ms '' @ py_repr timeout
            @ ''; it is milliseconds, as a whole number, and 0 means wait with no deadline'') in
      case timeout of
        YNull \<Rightarrow> []
      | YInt i \<Rightarrow>
          if i < 0 then [wrong]
          else if i = 0
          then [entity_warning name '' sets network.inbound.reply_timeout_ms to 0, so a handler that never answers holds its connection open for as long as the entity runs'']
          else []
      | _ \<Rightarrow> [wrong])"

definition inbound_messages :: "string \<Rightarrow> pydict \<Rightarrow> pydict \<Rightarrow> string list" where
  "inbound_messages name entity inbound =
     (if is_client entity
      then [client_message name '' declares network.inbound; a browser cannot listen (https://synqt.org/entities/)'']
      else if is_edge entity
      then [web_edge_message name '' declares network.inbound, but a web edge already serves the public: its port, TLS and headers are its `public:` and `tls:` blocks. Two listeners in one entity would be two policies to keep in step. Put the API on an entity of its own: https://synqt.org/entities/'']
      else
        port_number_messages name (get inbound ''port'')
        @ api_key_messages name inbound
        @ plaintext_messages name inbound
        @ origins_list_messages name (get inbound ''allowed_origins'')
        @ concat (map (\<lambda>key. limit_messages name key (get inbound key)) [''max_body_bytes'', ''rate_per_minute''])
        @ concat (map (\<lambda>key. ceiling_messages name key (get inbound key)) [''max_connections'', ''max_connections_per_ip''])
        @ timeout_messages name (get inbound ''reply_timeout_ms''))"

definition outbound_messages :: "string \<Rightarrow> pydict \<Rightarrow> yval \<Rightarrow> string list" where
  "outbound_messages name entity outbound =
     (case outbound of
        YNull \<Rightarrow> []
      | YList entries \<Rightarrow>
          (if is_client entity \<and> entries \<noteq> []
           then [client_message name '' declares network.outbound; a browser client calls nothing but its own edge, and a prefix list here would be a rule nothing enforces (https://synqt.org/entities/)'']
           else [])
          @ concat (map (outbound_entry_messages name) entries)
      | _ \<Rightarrow> [entity_message name '' has network.outbound that is not a list; it is the URL prefixes this entity may call, as a list''])"

definition entity_network_messages :: "pydict \<Rightarrow> string list" where
  "entity_network_messages entity =
     (let name = shown_name entity in
      case get entity ''network'' of
        YNull \<Rightarrow> []
      | YMap block \<Rightarrow>
          outbound_messages name entity (get block ''outbound'')
          @ (case get block ''inbound'' of
               YNull \<Rightarrow> []
             | YMap inbound \<Rightarrow> inbound_messages name entity inbound
             | _ \<Rightarrow> [entity_message name '' has a network.inbound that is not a mapping; it holds at least a port, and the API keys that admit a caller''])
      | _ \<Rightarrow> [entity_message name ('' has a network: that is not a mapping; it holds '' @ quoted ''outbound'' @ '' (where this entity may call) and ''
                @ quoted ''inbound'' @ '' (who may call it)'')])"

definition network_messages :: "pydict list \<Rightarrow> string list" where
  "network_messages es = concat (map entity_network_messages es)"

section \<open>Proxies\<close>

definition proxies_quietly :: "(pydict \<Rightarrow> string list app) \<Rightarrow> pydict \<Rightarrow> string list app" where
  "proxies_quietly reader entity = (case reader entity of Inl (AppGenError _) \<Rightarrow> Inr [] | r \<Rightarrow> r)"

text \<open>
  \<open>s.isdigit() and int(s) <= bound\<close>: the superscripts are digits to the one and not to the other.
\<close>

definition digits_at_most :: "int \<Rightarrow> string \<Rightarrow> bool app" where
  "digits_at_most bound s =
     (if s = [] \<or> \<not> list_all py_digit s then Inr False else bindr (int_of_str s) (\<lambda>i. Inr (i \<le> bound)))"

fun all_octets :: "string list \<Rightarrow> bool app" where
  "all_octets [] = Inr True"
| "all_octets (part # parts) = bindr (digits_at_most 255 part) (\<lambda>ok. if ok then all_octets parts else Inr False)"

definition proxy_entry_is_readable :: "string \<Rightarrow> bool app" where
  "proxy_entry_is_readable entry =
     (let (address, _, mask) = cut (CHR ''/'') entry;
          parts = split_on (CHR ''.'') (rstrip_chars ''.'' address) in
      if CHR '':'' \<in> set address
      then if \<not> is_ipv6_address address then Inr False else if mask = [] then Inr True else digits_at_most 128 mask
      else if 4 < length parts then Inr False
      else bindr (all_octets parts) (\<lambda>ok.
        if \<not> ok then Inr False
        else if mask = [] then Inr True
        else if CHR ''.'' \<in> set mask then Inr (is_ipv4_address mask)
        else digits_at_most 32 mask))"

definition proxy_entry_message :: "string \<Rightarrow> string \<Rightarrow> string \<Rightarrow> string" where
  "proxy_entry_message name surface entry =
     entity_message name ('' has '' @ surface @ '' entry '' @ quoted entry @ '', which is not an address or a CIDR range. Write the proxy'' @ CHR 0x27 # ''s address (''
       @ quoted ''10.0.0.1'' @ '') or the range it comes from ('' @ quoted ''10.0.0.0/24''
       @ ''); a name is resolved by nobody at the point this is read, so the entry would be dropped and every caller would count as the proxy'')"

definition proxy_list_messages :: "string \<Rightarrow> pydict \<Rightarrow> (pydict \<Rightarrow> string list app) \<times> string \<Rightarrow> string list app" where
  "proxy_list_messages name entity r =
     (let (reader, surface) = r in
      case reader entity of
        Inl (AppGenError failure) \<Rightarrow> Inr [entity_message name ('': '' @ failure)]
      | Inl e \<Rightarrow> Inl e
      | Inr entries \<Rightarrow>
          concatr (map (\<lambda>entry. bindr (proxy_entry_is_readable (strip entry)) (\<lambda>ok.
            Inr (if ok then [] else [proxy_entry_message name surface entry]))) entries))"

definition proxy_readers :: "((pydict \<Rightarrow> string list app) \<times> string) list" where
  "proxy_readers = [(trusted_proxies, ''public.trusted_proxies''), (inbound_trusted_proxies, ''network.inbound.trusted_proxies'')]"

definition one_list_messages :: "string \<Rightarrow> pydict \<Rightarrow> string list app" where
  "one_list_messages name entity =
     (if \<not> serves_inbound entity then Inr []
      else bindr (proxies_quietly trusted_proxies entity) (\<lambda>named.
        if named = [] then Inr []
        else bindr (proxies_quietly inbound_trusted_proxies entity) (\<lambda>inner.
          Inr (if inner \<noteq> [] then []
               else [entity_warning name '' names public.trusted_proxies but its network.inbound names none, so the API surface counts the peer it is connected to. Behind the same proxy that is one budget for every caller at once; add network.inbound.trusted_proxies, or leave it out if that port is reached directly'']))))"

definition trusted_proxy_messages :: "pydict list \<Rightarrow> string list app" where
  "trusted_proxy_messages es =
     concatr (map (\<lambda>entity.
       let name = shown_name entity in
       bindr (concatr (map (proxy_list_messages name entity) proxy_readers)) (\<lambda>ms.
       bindr (one_list_messages name entity) (\<lambda>ns. Inr (ms @ ns)))) es)"

section \<open>Addresses\<close>

definition is_literal_address :: "string \<Rightarrow> bool" where
  "is_literal_address value =
     (let text = strip value in
      is_ip_address (if startswith text ''['' \<and> endswith text '']'' then butlast (drop 1 text) else text))"

definition bind_address_message :: "string \<Rightarrow> string \<Rightarrow> yval \<Rightarrow> string" where
  "bind_address_message name surface value =
     entity_message name ('' has '' @ surface @ '': '' @ quoted (py_str value)
       @ '', which is a name and not an address. It is read into a QHostAddress, which resolves nothing, so a name binds nothing and dials nothing; write the address (127.0.0.1 for this machine, 0.0.0.0 for every interface)'')"

text \<open>A host that is written, is not blank, and is no address.\<close>

definition names_a_host :: "yval \<Rightarrow> bool" where
  "names_a_host value \<longleftrightarrow> value \<noteq> YNull \<and> strip (py_str value) \<noteq> [] \<and> \<not> is_literal_address (py_str value)"

definition bind_block_messages :: "string \<Rightarrow> yval \<times> string \<times> string \<Rightarrow> string list" where
  "bind_block_messages name b =
     (let (block, surface, key) = b; value = get (block_of block) key in
      if is_dict block \<and> names_a_host value then [bind_address_message name surface value] else [])"

definition bind_blocks :: "pydict \<Rightarrow> (yval \<times> string \<times> string) list" where
  "bind_blocks e =
     [(get e ''mesh'', ''mesh.host'', ''host''),
      (YMap (public_settings e), ''public.host'', ''host''),
      (get (network_settings e) ''inbound'', ''network.inbound.bind'', ''bind'')]"

definition point_host_messages :: "pydict \<Rightarrow> string list" where
  "point_host_messages point =
     (let name = (if point_name point \<noteq> [] then point_name point else ''<no owner>''); value = get point ''host'' in
      if names_a_host value
      then [point_message name ('' has host: '' @ quoted (py_str value)
              @ '', which is a name and not an address. A mesh endpoint is read into a QHostAddress, which resolves nothing, so the owner binds nothing and every consumer dials nothing'')]
      else [])"

definition bind_address_messages :: "pydict list \<Rightarrow> pydict list \<Rightarrow> string list" where
  "bind_address_messages es points =
     concat (map (\<lambda>e. concat (map (bind_block_messages (shown_name e)) (bind_blocks e))) es)
     @ concat (map point_host_messages points)"

section \<open>What a clean network block promises\<close>

lemma network_errors [simp]:
  "is_error (entity_message name what)" "is_error (client_message name what)" "is_error (web_edge_message name what)" "\<not> is_error (entity_warning name what)"
  by (simp_all add: is_error_def entity_message_def client_message_def web_edge_message_def entity_warning_def)

lemma prefix_messages_clean: "clean (prefix_messages name url) \<Longrightarrow> startswith url ''http://'' \<or> startswith url ''https://''"
  by (simp add: prefix_messages_def split: if_splits)

lemma headers_messages_clean:
  assumes "clean (headers_messages name url headers)" "(h, v) \<in> set (block_of headers)" "credential_header h"
  shows "startswith (py_str v) ''env:''"
proof -
  have "clean (header_messages name url (h, v))"
    using assms(1,2) by (auto simp: headers_messages_def block_of_def split: yval.splits)
  then show ?thesis using assms(3) by (simp add: header_messages_def split: if_splits)
qed

lemma block_of_header_fields: "get (header_fields headers) ''headers'' = YMap (map (\<lambda>(k, v). (k, YStr (py_str v))) (block_of headers)) \<or>
    header_fields headers = []"
  by (auto simp: header_fields_def block_of_def split: yval.splits)

text \<open>An endpoint the build writes was an entry of the list, with the headers as text.\<close>

lemma outbound_endpoint_clean:
  assumes "ep \<in> set (outbound_endpoint entry)" "clean (outbound_entry_messages name entry)"
  shows "(startswith (py_str (get ep ''url'')) ''http://'' \<or> startswith (py_str (get ep ''url'')) ''https://'') \<and>
    (\<forall>(h, v) \<in> set (block_of (get ep ''headers'')). credential_header h \<longrightarrow> startswith (py_str v) ''env:'')"
proof (cases entry)
  case (YMap m)
  let ?url = "strip (text_or_empty (get m ''url''))"
  have ne: "?url \<noteq> []" using assms(1) YMap by (auto simp: outbound_endpoint_def Let_def split: if_splits)
  then have c: "clean (headers_messages name ?url (get m ''headers''))" "clean (prefix_messages name ?url)"
    using assms(2) YMap by (auto simp: outbound_entry_messages_def Let_def)
  have url: "get ep ''url'' = YStr ?url" using assms(1) YMap ne by (auto simp: outbound_endpoint_def Let_def)
  have "get ep ''headers'' = get (header_fields (get m ''headers'')) ''headers''"
    using assms(1) YMap ne by (auto simp: outbound_endpoint_def Let_def split: if_splits)
  then have "\<exists>w. (h, w) \<in> set (block_of (get m ''headers'')) \<and> py_str v = py_str w" if "(h, v) \<in> set (block_of (get ep ''headers''))" for h v
    using that block_of_header_fields [of "get m ''headers''"] by (auto simp: block_of_def [of "YMap _"] block_of_def [of YNull] py_str_def [of "YStr _"]) blast
  then show ?thesis using headers_messages_clean [OF c(1)] prefix_messages_clean [OF c(2)] url by (fastforce simp: py_str_def [of "YStr _"])
qed (use assms prefix_messages_clean in \<open>auto simp: outbound_endpoint_def outbound_entry_messages_def Let_def py_str_def [of "YStr _"] block_of_def split: if_splits\<close>)

lemma inbound_messages_clean:
  assumes "clean (inbound_messages name entity inbound)"
  shows "\<not> is_client entity \<and> \<not> is_edge entity \<and> (\<exists>p. get inbound ''port'' = YInt p \<and> 1 \<le> p \<and> p \<le> 65535) \<and>
    (get inbound ''public'' = YBool True \<or> startswith (py_str (get inbound ''api_keys'')) ''env:'')"
proof -
  have inner: "\<not> is_client entity" "\<not> is_edge entity" using assms by (simp_all add: inbound_messages_def split: if_splits)
  then have "clean (port_number_messages name (get inbound ''port''))" "clean (api_key_messages name inbound)"
    using assms by (auto simp: inbound_messages_def)
  then show ?thesis using inner
    by (auto simp: port_number_messages_def api_key_messages_def Let_def split: yval.splits if_splits)
qed

text \<open>
  C15. What a project whose \<open>network:\<close> blocks pass the check may do: every endpoint the build gives an entity to call starts at
  \<open>http://\<close> or \<open>https://\<close>, and a header that carries a credential is a reference to the environment and never the credential; an entity with a
  public API is neither a client nor a web edge, has a port a socket can have, and says that it is public or names keys in
  the environment.
\<close>

theorem clean_network_sound:
  assumes "clean (network_messages es)" "e \<in> set es"
  shows "(\<forall>ep \<in> set (outbound_endpoints e).
      (startswith (py_str (get ep ''url'')) ''http://'' \<or> startswith (py_str (get ep ''url'')) ''https://'') \<and>
      (\<forall>(h, v) \<in> set (block_of (get ep ''headers'')). credential_header h \<longrightarrow> startswith (py_str v) ''env:'')) \<and>
    (serves_inbound e \<longrightarrow> \<not> is_client e \<and> \<not> is_edge e \<and>
      (\<exists>p. get (inbound_settings e) ''port'' = YInt p \<and> 1 \<le> p \<and> p \<le> 65535) \<and>
      (get (inbound_settings e) ''public'' = YBool True \<or> startswith (py_str (get (inbound_settings e) ''api_keys'')) ''env:''))"
proof -
  have c: "clean (entity_network_messages e)" using assms by (auto simp: network_messages_def)
  have out: "clean (outbound_entry_messages (shown_name e) entry)" if "get (network_settings e) ''outbound'' = YList entries" "entry \<in> set entries" for entries entry
    using c that by (cases "get e ''network''") (auto simp: entity_network_messages_def outbound_messages_def network_settings_def block_of_def Let_def)
  have "clean (inbound_messages (shown_name e) e (inbound_settings e))" if "serves_inbound e"
    using c that by (auto simp: entity_network_messages_def serves_inbound_def inbound_settings_def network_settings_def block_of_def Let_def split: yval.splits)
  then have inb: "serves_inbound e \<Longrightarrow> \<not> is_client e \<and> \<not> is_edge e \<and> (\<exists>p. get (inbound_settings e) ''port'' = YInt p \<and> 1 \<le> p \<and> p \<le> 65535) \<and>
      (get (inbound_settings e) ''public'' = YBool True \<or> startswith (py_str (get (inbound_settings e) ''api_keys'')) ''env:'')"
    by (rule inbound_messages_clean)
  have entry: "\<exists>entries entry. get (network_settings e) ''outbound'' = YList entries \<and> entry \<in> set entries \<and> ep \<in> set (outbound_endpoint entry)"
    if "ep \<in> set (outbound_endpoints e)" for ep
    using that by (cases "get (network_settings e) ''outbound''") (auto simp: outbound_endpoints_def)
  show ?thesis
  proof (intro conjI ballI)
    fix ep
    assume "ep \<in> set (outbound_endpoints e)"
    then obtain entries entry where "get (network_settings e) ''outbound'' = YList entries" "entry \<in> set entries" "ep \<in> set (outbound_endpoint entry)"
      using entry by blast
    then have o: "(startswith (py_str (get ep ''url'')) ''http://'' \<or> startswith (py_str (get ep ''url'')) ''https://'') \<and>
        (\<forall>(h, v) \<in> set (block_of (get ep ''headers'')). credential_header h \<longrightarrow> startswith (py_str v) ''env:'')"
      using outbound_endpoint_clean out by blast
    then show "startswith (py_str (get ep ''url'')) ''http://'' \<or> startswith (py_str (get ep ''url'')) ''https://''" by (rule conjunct1)
    fix h
    assume "h \<in> set (block_of (get ep ''headers''))"
    with conjunct2 [OF o] show "case h of (h, v) \<Rightarrow> credential_header h \<longrightarrow> startswith (py_str v) ''env:''" by (rule bspec)
  qed (use inb in blast)
qed

section \<open>Where links lead\<close>

lemma names_no_host: "value \<noteq> YNull \<Longrightarrow> \<not> names_a_host value \<Longrightarrow> strip (py_str value) = [] \<or> is_literal_address (py_str value)"
  by (auto simp: names_a_host_def)

lemma owner_entity_member: "is_dict (get (owner_entity es point) ''mesh'') \<Longrightarrow> owner_entity es point \<in> set es"
proof (cases "List.find (\<lambda>e. py_eq (get e ''name'') (get point ''owner'')) es")
  case (Some e)
  then have "e \<in> set es" by (auto simp: find_Some_iff)
  then show ?thesis using Some by (simp add: owner_entity_def)
qed (simp add: owner_entity_def is_dict_def)

lemma mesh_host:
  assumes "get (mesh_settings es point) ''host'' = v" "v \<noteq> YNull"
  shows "get point ''host'' = v \<or> (\<exists>e \<in> set es. is_dict (get e ''mesh'') \<and> get (block_of (get e ''mesh'')) ''host'' = v)"
proof -
  let ?mesh = "get (owner_entity es point) ''mesh''"
  have v: "get_or point ''host'' (get (block_of ?mesh) ''host'') = v"
    using assms by (auto simp: mesh_settings_def Let_def split: if_splits)
  show ?thesis
  proof (cases "map_of point ''host''")
    case None
    then have m: "get (block_of ?mesh) ''host'' = v" using v by (simp add: get_or_def)
    then have "is_dict ?mesh" using assms(2) by (auto simp: block_of_def is_dict_def split: yval.splits)
    moreover have "owner_entity es point \<in> set es"
      using calculation by (rule owner_entity_member)
    ultimately show ?thesis using m by blast
  qed (use v in \<open>simp add: get_def get_or_def\<close>)
qed

lemma bind_address_messages_clean:
  assumes "clean (bind_address_messages es points)"
  shows "e \<in> set es \<Longrightarrow> is_dict (get e ''mesh'') \<Longrightarrow> \<not> names_a_host (get (block_of (get e ''mesh'')) ''host'')"
    and "p \<in> set points \<Longrightarrow> \<not> names_a_host (get p ''host'')"
proof -
  assume "e \<in> set es" "is_dict (get e ''mesh'')"
  then have "clean (bind_block_messages (shown_name e) (get e ''mesh'', ''mesh.host'', ''host''))"
    using assms by (auto simp: bind_address_messages_def bind_blocks_def)
  then show "\<not> names_a_host (get (block_of (get e ''mesh'')) ''host'')"
    using \<open>is_dict (get e ''mesh'')\<close> by (auto simp: bind_block_messages_def bind_address_message_def Let_def split: if_splits)
next
  assume "p \<in> set points"
  then have "clean (point_host_messages p)" using assms by (auto simp: bind_address_messages_def)
  then show "\<not> names_a_host (get p ''host'')" by (auto simp: point_host_messages_def Let_def split: if_splits)
qed

text \<open>
  C16. In a project whose addresses pass the check, the host the build writes into the topology of a link over mutual TLS is an address,
  wherever it came from, or is blank: a name never reaches the runtime, which resolves none.
\<close>

theorem endpoint_hosts_are_addresses:
  assumes "clean (bind_address_messages es cps)" "resolve_endpoints es cps pn = Inr eps" "map_of eps name = Some (MtlsEndpoint host port)"
  shows "strip host = [] \<or> is_literal_address host"
proof -
  obtain rs where rs: "mapr (\<lambda>(index, cp). resolve_endpoint es pn (int index) cp) (enumerate 0 (ordered_points cps)) = Inr rs"
    and eps: "eps = foldl (\<lambda>d (name, ep). AList.update name ep d) [] rs"
    using assms(2) by (auto simp: resolve_endpoints_def bindr_eq_Inr)
  have "map_of (rev rs) name = Some (MtlsEndpoint host port)" using assms(3) by (simp add: eps case_prod_beta' map_of_foldl_update map_add_def)
  then obtain i where i: "i < length rs" "rs ! i = (name, MtlsEndpoint host port)" by (auto dest!: map_of_SomeD simp: in_set_conv_nth)
  let ?cp = "ordered_points cps ! i"
  have len: "length rs = length (ordered_points cps)" using mapr_length [OF rs] by simp
  have r: "resolve_endpoint es pn (int i) ?cp = Inr (name, MtlsEndpoint host port)"
    using mapr_nth [OF rs, of i] i len by (simp add: nth_enumerate_eq)
  have "?cp \<in> set cps" using nth_mem [of i "ordered_points cps"] i(1) len by (auto simp: ordered_points_def)
  show ?thesis
  proof (cases "get (mesh_settings es ?cp) ''host'' = YNull")
    case True
    then have "host = ''127.0.0.1''"
      using r by (auto simp: resolve_endpoint_def Let_def bindr_eq_Inr mesh_settings_def py_str_def split: if_splits)
    moreover have "is_literal_address ''127.0.0.1''" by code_simp
    ultimately show ?thesis by simp
  next
    case False
    then have "host = py_str (get (mesh_settings es ?cp) ''host'')"
      using r by (auto simp: resolve_endpoint_def Let_def bindr_eq_Inr get_def get_or_def split: if_splits option.splits)
    then show ?thesis
      using mesh_host [OF refl False] bind_address_messages_clean [OF assms(1)] \<open>?cp \<in> set cps\<close> names_no_host [OF False] by metis
  qed
qed

section \<open>Examples\<close>

definition api_entity :: pydict where
  "api_entity =
     [(''name'', YStr ''api''), (''network'', YMap
       [(''outbound'', YList [YMap [(''url'', YStr ''https://x.io/''), (''headers'', YMap [(''X-Api-Key'', YStr ''env:KEY''), (''Accept'', YStr ''text'')])]]),
        (''inbound'', YMap [(''port'', YInt 90), (''api_keys'', YStr ''env:KEYS'')])])]"

theorem clean_network_sound_witness:
  "serves_inbound api_entity \<and> (\<exists>p. get (inbound_settings api_entity) ''port'' = YInt p \<and> 1 \<le> p \<and> p \<le> 65535)"
proof -
  have "filter is_error (network_messages [api_entity]) = []" by code_simp
  then have "clean (network_messages [api_entity])" by (simp add: filter_empty_conv)
  moreover have "serves_inbound api_entity" by code_simp
  ultimately show ?thesis using clean_network_sound [of "[api_entity]" api_entity] by simp
qed

definition far_entity :: pydict where
  "far_entity = [(''name'', YStr ''db''), (''mesh'', YMap [(''host'', YStr ''10.0.0.9''), (''port'', YInt 90)])]"

definition far_point :: pydict where
  "far_point = [(''owner'', YStr ''db'')]"

theorem endpoint_hosts_are_addresses_witness:
  "resolve_endpoints [far_entity] [far_point] (YStr ''app'') = Inr [(''db'', MtlsEndpoint ''10.0.0.9'' 90)] \<and> is_literal_address ''10.0.0.9''"
proof -
  have r: "resolve_endpoints [far_entity] [far_point] (YStr ''app'') = Inr [(''db'', MtlsEndpoint ''10.0.0.9'' 90)]" by code_simp
  have "bind_address_messages [far_entity] [far_point] = []" by code_simp
  then have "strip ''10.0.0.9'' = [] \<or> is_literal_address ''10.0.0.9''"
    using endpoint_hosts_are_addresses [OF _ r, of "''db''" "''10.0.0.9''" 90] by simp
  moreover have "strip ''10.0.0.9'' \<noteq> []" by code_simp
  ultimately show ?thesis using r by blast
qed

text \<open>
  The rule lets a blank host through, and the build writes it as it is: no default takes its place. And a superscript, which counts as
  a digit and is no number, ends the check with an exception.
\<close>

definition blank_entity :: pydict where
  "blank_entity = [(''name'', YStr ''db''), (''mesh'', YMap [(''host'', YStr []), (''port'', YInt 90)])]"

lemma blank_host_passes: "bind_address_messages [blank_entity] [far_point] = []"
  by code_simp

lemma blank_host_written: "resolve_endpoints [blank_entity] [far_point] (YStr ''app'') = Inr [(''db'', MtlsEndpoint [] 90)]"
  by code_simp

lemma superscript_proxy_raises:
  "trusted_proxy_messages [[(''name'', YStr ''edge''), (''public'', YMap [(''trusted_proxies'', YList [YStr [CHR 0xB2]])])]] = Inl ValueError"
  by code_simp

end
