(* ===== verification/CheckIdentity.thy ===== *)
theory CheckIdentity
  imports CheckTopology PyNet
begin

text \<open>
  The rules of \<open>synqt check\<close> over who proves who they are, from \<open>synqt/check.py\<close>: the mesh policy, the TLS
  of a release edge, where a desktop client finds its edge, and the whole \<open>identity:\<close> block, with the
  development sign-in, replicated edges and device sessions.
\<close>

section \<open>Values\<close>

text \<open>\<open>except appmodel.AppGenError as failure\<close>, with what is done where nothing is raised.\<close>

definition caught :: "'a app \<Rightarrow> (string \<Rightarrow> 'b app) \<Rightarrow> ('a \<Rightarrow> 'b app) \<Rightarrow> 'b app" where
  "caught r handle ok = (case r of Inl (AppGenError m) \<Rightarrow> handle m | Inl e \<Rightarrow> Inl e | Inr x \<Rightarrow> ok x)"

text \<open>\<open>v or {}\<close>, and \<open>entities.items()\<close>.\<close>

definition or_mapping :: "yval \<Rightarrow> yval" where
  "or_mapping v = (if truthy v then v else YMap [])"

definition entity_items :: "pydict list \<Rightarrow> (yval \<times> pydict) list app" where
  "entity_items es =
     bindr (entity_keys es) (\<lambda>ks. Inr (map (\<lambda>k. (k, case entity_at es k of Some e \<Rightarrow> e | None \<Rightarrow> [])) ks))"

definition complaint :: "string \<Rightarrow> string" where
  "complaint what = ''error: '' @ what"

definition caution :: "string \<Rightarrow> string" where
  "caution what = ''warn: '' @ what"

section \<open>The mesh policy\<close>

definition link_host :: "pydict list \<Rightarrow> pydict list \<Rightarrow> string \<Rightarrow> yval" where
  "link_host es cps name =
     (case List.find (\<lambda>cp. point_name cp = name) cps of Some cp \<Rightarrow> get (mesh_settings es cp) ''host'' | None \<Rightarrow> YNull)"

definition local_host_messages :: "pydict list \<Rightarrow> pydict list \<Rightarrow> string \<times> endpoint \<Rightarrow> string list" where
  "local_host_messages es cps link =
     (case link of
        (name, LocalEndpoint _) \<Rightarrow>
          (let host = map to_lower (strip (text_or_empty (link_host es cps name))) in
           if host \<noteq> [] \<and> host \<notin> set LOOPBACK_HOSTS
           then [point_message name ('' uses transport local with host '' @ quoted host
                   @ '': a local socket cannot leave the machine, so either drop the host or use transport mtls'')]
           else [])
      | _ \<Rightarrow> [])"

definition mesh_policy_messages :: "pydict \<Rightarrow> pydict list \<Rightarrow> pydict list \<Rightarrow> (string \<times> endpoint) list \<Rightarrow> bool \<Rightarrow> string list" where
  "mesh_policy_messages config es cps endpoints release =
     (if get_or (block_of (get config ''mesh'')) ''require_mtls_cross_host'' (YBool True) = YBool False \<and> release
      then [complaint ''mesh.require_mtls_cross_host is false, which a release build does not allow: a cross-host link without mutual TLS puts entity identity on a wire anyone who can reach the port can speak on (see https://synqt.org/security/)'']
      else [])
     @ concat (map (local_host_messages es cps) (sort_key fst endpoints))"

section \<open>Reaching the browser and the desktop\<close>

definition web_edge_error :: "yval \<Rightarrow> string \<Rightarrow> string" where
  "web_edge_error name what = ''error: web edge '' @ quoted (py_str name) @ what"

definition one_edge_tls_messages :: "yval \<Rightarrow> pydict \<Rightarrow> string list app" where
  "one_edge_tls_messages name e =
     bindr (get_attr (or_mapping (get e ''public'')) ''tls_terminated_upstream'' YNull) (\<lambda>upstream.
       if truthy upstream then Inr []
       else case get e ''tls'' of
         YMap tls \<Rightarrow>
           (let missing = filter (\<lambda>key. \<not> truthy (get tls key)) [''cert_file'', ''key_file''] in
            Inr (if missing = [] then []
                 else [web_edge_error name ('' tls is missing '' @ join '' and '' missing @ '', so a release build has nothing to terminate TLS with'')]))
       | _ \<Rightarrow> Inr [web_edge_error name '' has no tls section, so a release build would serve the browser over plaintext; give it tls.cert_file and tls.key_file, or set public.tls_terminated_upstream: true if a reverse proxy in front of it terminates TLS''])"

text \<open>The names of the entities a test holds for, sorted.\<close>

definition names_sorted :: "(pydict \<Rightarrow> bool) \<Rightarrow> pydict list \<Rightarrow> (yval \<times> pydict) list app" where
  "names_sorted p es =
     bindr (entity_keys es) (\<lambda>ks.
     bindr (sort_names (filter (\<lambda>k. case entity_at es k of Some e \<Rightarrow> p e | None \<Rightarrow> False) ks)) (\<lambda>ns.
       Inr (map (\<lambda>k. (k, case entity_at es k of Some e \<Rightarrow> e | None \<Rightarrow> [])) ns)))"

definition edge_tls_messages :: "pydict list \<Rightarrow> bool \<Rightarrow> string list app" where
  "edge_tls_messages es release =
     (if \<not> release then Inr []
      else bindr (names_sorted is_edge es) (\<lambda>edges. concatr (map (\<lambda>(name, e). one_edge_tls_messages name e) edges)))"

definition one_desktop_messages :: "string \<Rightarrow> bool \<Rightarrow> yval \<Rightarrow> pydict \<Rightarrow> string list app" where
  "one_desktop_messages url release name e =
     (let targets = (if truthy (get e ''targets'') then get e ''targets'' else YList [YStr ''wasm'']) in
      bindr (str_in ''desktop'' targets) (\<lambda>desktop.
        Inr (if \<not> desktop then []
             else if url = []
             then [''error: client '' @ quoted (py_str name) @ '' lists the desktop target but there is no build.desktop.edge_url; a native client cannot discover its edge'']
             else if release \<and> \<not> startswith url ''wss://''
             then [complaint (''build.desktop.edge_url '' @ quoted url @ '' is not wss://, which a release desktop client does not allow (plaintext is for a dev edge on localhost)'')]
             else [])))"

definition desktop_client_messages :: "pydict \<Rightarrow> pydict list \<Rightarrow> bool \<Rightarrow> string list app" where
  "desktop_client_messages config es release =
     bindr (get_attr (or_mapping (get config ''build'')) ''desktop'' YNull) (\<lambda>desktop.
     bindr (get_attr (or_mapping desktop) ''edge_url'' YNull) (\<lambda>url.
     bindr (names_sorted is_client es) (\<lambda>clients.
       concatr (map (\<lambda>(name, e). one_desktop_messages (strip (text_or_empty url)) release name e) clients))))"

section \<open>Providers of identity\<close>

definition identity_message :: "yval \<Rightarrow> string \<Rightarrow> string" where
  "identity_message name what = ''error: identity provider '' @ quoted (py_str name) @ what"

definition IDENTITY_ENDPOINTS :: "(string \<times> string) list" where
  "IDENTITY_ENDPOINTS =
     [(''authorize_url'', ''the browser is sent there to sign in''),
      (''token_url'', ''the client secret and the tokens travel over it''),
      (''userinfo_url'', ''the access token is sent as a bearer header''),
      (''emails_url'', ''the access token is sent as a bearer header''),
      (''jwks_url'', ''every ID token is trusted against the keys it returns'')]"

text \<open>\<open>url.split("://", 1)[-1].split("/", 1)[0].split(":", 1)[0]\<close>.\<close>

definition host_text :: "string \<Rightarrow> string" where
  "host_text url =
     (let rest = (case partition_at ''://'' url of Some (_, tail) \<Rightarrow> tail | None \<Rightarrow> url) in
      takeWhile (\<lambda>c. c \<noteq> CHR '':'') (takeWhile (\<lambda>c. c \<noteq> CHR ''/'') rest))"

definition insecure_endpoint :: "string \<Rightarrow> bool" where
  "insecure_endpoint url \<longleftrightarrow>
     url \<noteq> [] \<and> \<not> startswith url ''https://'' \<and>
     \<not> (startswith url ''http://'' \<and> host_text url \<in> set [''localhost'', ''127.0.0.1'', ''[::1]''])"

definition insecure_endpoint_messages :: "yval \<Rightarrow> pydict \<Rightarrow> string list" where
  "insecure_endpoint_messages name provider =
     concat (map (\<lambda>(key, why).
       let url = strip (text_or_empty (get provider key)) in
       if insecure_endpoint url
       then [identity_message name ('' has a non-https '' @ key @ '' ('' @ url @ ''): '' @ why
               @ '', so the edge refuses to use it (see https://synqt.org/authentication/)'')]
       else []) IDENTITY_ENDPOINTS)"

definition id_token_messages :: "yval \<Rightarrow> pydict \<Rightarrow> string list" where
  "id_token_messages name provider =
     (if \<not> truthy (get provider ''use_id_token'') then []
      else (if strip (text_or_empty (get provider ''issuer'')) = []
            then [identity_message name '' sets use_id_token but names no issuer; the iss claim would not be checked at all, so the edge refuses the login (see https://synqt.org/authentication/)''] else [])
           @ (if strip (text_or_empty (get provider ''jwks_url'')) = []
              then [identity_message name (('' sets use_id_token but names no jwks_url; there would be no key set to verify the token'' @ CHR 0x27 # ''s signature against''))]
              else []))"

definition provider_entry_messages :: "pydict \<Rightarrow> string list" where
  "provider_entry_messages provider =
     (let name = get_or provider ''name'' (YStr ''<unnamed>''); secret = strip (text_or_empty (get provider ''client_secret'')) in
      (if secret = []
       then [identity_message name '' has no client_secret; the token exchange would fail at the first login, not at startup'']
       else if \<not> startswith secret ''env:''
       then [identity_message name '' has a literal client_secret; it must be an env: reference so the value stays out of synqt.yaml'']
       else [])
      @ (if strip (text_or_empty (get provider ''client_id'')) = [] then [identity_message name '' has no client_id''] else [])
      @ insecure_endpoint_messages name provider @ id_token_messages name provider)"

section \<open>Sessions on a device\<close>

text \<open>What a level is out of reach of; the highest one is reached by nothing yet.\<close>

definition DEVICE_BINDING_REACH :: "(string \<times> string) list" where
  "DEVICE_BINDING_REACH =
     [(''user'', []), (''application'', ''only a signed macOS build reaches it, so a Windows or Linux client persists nothing'')]"

definition DEVICE_BINDING_UNBUILT :: string where
  "DEVICE_BINDING_UNBUILT = ''hardware''"

definition binding_floor_messages :: "string \<Rightarrow> string list" where
  "binding_floor_messages floor =
     (if floor = DEVICE_BINDING_UNBUILT
      then [complaint (''identity.device.min_binding is '' @ quoted ''hardware'' @ '', and no secure store SynQt ships reports that level yet (macOS reports ''
              @ quoted ''application'' @ '' on a signed build, Windows and Linux report '' @ quoted ''user''
              @ ''), so every client on every platform would fail the floor and persist nothing. Use '' @ quoted ''application'' @ '' or '' @ quoted ''user'')]
      else case map_of DEVICE_BINDING_REACH floor of
        Some (c # cs) \<Rightarrow> [caution (''identity.device.min_binding is '' @ quoted floor @ '': '' @ (c # cs)
          @ ''. Those clients still build and still sign in, once per launch, exactly as they would under desktop_session: memory'')]
      | _ \<Rightarrow> [])"

definition device_session_messages :: "pydict \<Rightarrow> string list app" where
  "device_session_messages config =
     caught (desktop_session config) (\<lambda>failure. Inr [complaint failure]) (\<lambda>session.
       if session \<noteq> ''device'' then Inr []
       else bindr (has_desktop_client config) (\<lambda>desktop.
         let ms = (if desktop then [] else [complaint (''identity.desktop_session is '' @ quoted ''device''
                     @ '' but no client entity lists the desktop target, so nothing would ever enrol a device credential'')])
               @ (if strip (text_or_empty (get (device_store config) ''name'')) = []
                  then [complaint (''identity.desktop_session is '' @ quoted ''device''
                     @ '' but identity.device.store names no provider, so there is nowhere to keep the credentials it would issue'')] else []) in
         caught (device_min_binding config) (\<lambda>failure. Inr (ms @ [complaint failure])) (\<lambda>floor. Inr (ms @ binding_floor_messages floor))))"

section \<open>The development sign-in\<close>

definition user_field_messages :: "nat \<Rightarrow> string \<Rightarrow> string list" where
  "user_field_messages index key =
     (if key \<in> set DEV_STUB_USER_FIELDS then []
      else [complaint (''identity.dev_stub.users['' @ dec index @ '']: unknown field '' @ quoted key @ '' (want '' @ join '', '' DEV_STUB_USER_FIELDS
              @ ''). These are the fields of the identity object, so what the mapping hook reads here is what it reads from a real provider'')])"

definition stub_user_messages :: "nat \<times> yval \<Rightarrow> string list" where
  "stub_user_messages entry =
     (case entry of
        (index, YMap user) \<Rightarrow>
          concat (map (user_field_messages index) (map fst user))
          @ (if strip (text_or_empty (get user ''sub'')) = []
             then [complaint (''identity.dev_stub.users['' @ dec index
                     @ ''] has no sub; that is what an identity is keyed on, so a mapping hook would answer the default scope for this one and the sign-in would look broken'')]
             else [])
      | (index, _) \<Rightarrow> [complaint (''identity.dev_stub.users['' @ dec index @ ''] must be a block naming an identity (sub, login, name, email)'')])"

definition stub_users_messages :: "yval \<Rightarrow> string list" where
  "stub_users_messages users =
     (case users of
        YNull \<Rightarrow> []
      | YList us \<Rightarrow> concat (map stub_user_messages (enumerate 0 us))
      | _ \<Rightarrow> [complaint ''identity.dev_stub.users must be a sequence of identities, each with a sub and whatever else your mapping hook reads''])"

definition stub_port_messages :: "yval \<Rightarrow> string list app" where
  "stub_port_messages declared =
     (let bad = [complaint (''identity.dev_stub.port must be a port number, not '' @ py_repr declared)] in
      if declared = YNull then Inr []
      else case py_int declared of
        Inr port \<Rightarrow> Inr (if 1 \<le> port \<and> port \<le> 65535 then [] else bad)
      | Inl TypeError \<Rightarrow> Inr bad
      | Inl ValueError \<Rightarrow> Inr bad
      | Inl e \<Rightarrow> Inl e)"

text \<open>An entity that writes the port of the sign-in down as its own.\<close>

definition stub_clash_messages :: "int \<Rightarrow> pydict \<Rightarrow> string list app" where
  "stub_clash_messages port e =
     (case py_int (get (public_settings e) ''port'') of
        Inr served \<Rightarrow>
          Inr (if served = port
               then [complaint (''identity.dev_stub.port '' @ dec_int port @ '' is the port entity '' @ quoted (py_str (get e ''name''))
                       @ '' serves on; the development sign-in binds it too, so one of the two would not come up'')]
               else [])
      | Inl TypeError \<Rightarrow> Inr []
      | Inl ValueError \<Rightarrow> Inr []
      | Inl e \<Rightarrow> Inl e)"

definition dev_stub_messages :: "pydict \<Rightarrow> bool \<Rightarrow> string list app" where
  "dev_stub_messages config release =
     (let block = get (identity_settings config) ''dev_stub''; settings = identity_dev_stub config in
      if \<not> has_dev_stub config then Inr []
      else if \<not> is_dict block \<and> block \<noteq> YBool True
      then Inr [complaint (''identity.dev_stub must be a block or true, e.g. '' @ quoted ''dev_stub: {users: [{sub: dev, login: dev, email: dev@localhost}]}'')]
      else bindr (stub_port_messages (get settings ''port'')) (\<lambda>ports.
        bindr (dev_stub_port config) (\<lambda>port.
        bindr (entities config) (\<lambda>es.
        bindr (concatr (map (stub_clash_messages port) es)) (\<lambda>clashes.
          Inr (map (\<lambda>key. complaint (''identity.dev_stub: unknown key '' @ quoted key @ '' (want port or users)''))
                 (filter (\<lambda>key. key \<notin> {''port'', ''users''}) (map fst settings))
               @ ports @ stub_users_messages (get settings ''users'') @ clashes
               @ (if release
                  then [caution (''identity.dev_stub configures a development sign-in, which a release build does not run: the server starts only under ''
                          @ quoted ''synqt dev'' @ '' and the runtime refuses the provider beside it without the same flag. Nothing here ships, and nothing here signs anybody in once it has shipped'')]
                  else [])))))))"

definition identity_messages :: "pydict \<Rightarrow> bool \<Rightarrow> string list app" where
  "identity_messages config release =
     (case get config ''identity'' of
        YMap identity \<Rightarrow>
          (let providers = (case get identity ''providers'' of YList ps \<Rightarrow> dicts ps | _ \<Rightarrow> []) in
           bindr (device_session_messages config) (\<lambda>device.
           bindr (dev_stub_messages config release) (\<lambda>stub.
             Inr (concat (map provider_entry_messages providers) @ device @ stub))))
      | _ \<Rightarrow> Inr [])"

section \<open>Replicas and threads\<close>

definition EMBEDDED_STORES :: "string list" where
  "EMBEDDED_STORES = [''sqlite'', ''memory'']"

definition replicated :: "yval \<Rightarrow> int \<Rightarrow> string" where
  "replicated name count = ''edge '' @ quoted (py_str name) @ '' declares '' @ quoted (''replicas: '' @ dec_int count)"

definition replicated_device_store_messages :: "pydict \<Rightarrow> string \<Rightarrow> string list app" where
  "replicated_device_store_messages config surface =
     caught (desktop_session config) (\<lambda>_. Inr []) (\<lambda>session.
       let engine = strip (text_or_empty (get (device_store config) ''name'')) in
       Inr (if session \<noteq> ''device'' \<or> engine \<notin> set EMBEDDED_STORES then []
            else [complaint (surface @ '' and keeps device credentials in an embedded '' @ quoted engine
              @ '' store. That belongs to one process, so a device credential enrolled through one replica cannot be redeemed through another and the visitor is signed out at the next launch on whichever replica they reach. Point ''
              @ quoted ''identity.device.store'' @ '' at an engine every replica can read'')]))"

definition own_point_message :: "string \<Rightarrow> string" where
  "own_point_message surface =
     complaint (surface @ '' and owns a connect point with no '' @ quoted ''behind:''
       @ ''. A replicated edge is a front: it carries the session and hands each caller to the entity that answers for them. A point it implements itself holds its props and rows in one process, so two tabs of one session that land on different replicas disagree with nothing to say why'')"

definition replicated_edge_messages :: "pydict \<Rightarrow> yval \<Rightarrow> pydict \<Rightarrow> int \<Rightarrow> string list app" where
  "replicated_edge_messages config name entity count =
     (let surface = replicated name count; identity = identity_settings config;
          owned = (if identity \<noteq> [] \<and> strip (text_or_empty (get identity ''provider_entity'')) = []
            then [complaint (surface @ '' and configures identity in process. Sessions would then live in whichever process minted them, so a visitor is signed in on one replica and anonymous on the next. Set ''
                    @ quoted ''identity.provider_entity'' @ '' to a service entity that owns them'')] else []);
          reached = (if strip (text_or_empty (get (public_settings entity) ''origin'')) = []
            then [complaint (surface @ '' and names no '' @ quoted ''public.origin''
                    @ ''. Each replica is reached at the balancer'' @ CHR 0x27 # ''s origin and not at its own, and nothing else can work that out'')] else []) in
      caught (trusted_proxies entity) (\<lambda>failure. Inr (owned @ reached @ [complaint (''entity '' @ quoted (py_str name) @ '': '' @ failure)])) (\<lambda>proxies.
        bindr (connect_points config) (\<lambda>cps.
        bindr (replicated_device_store_messages config surface) (\<lambda>stores.
          Inr (owned @ reached
               @ (if proxies = []
                  then [caution (surface @ '' and names no '' @ quoted ''public.trusted_proxies''
                          @ ''. Every per-IP cap and rate limit will see the balancer instead of the visitor, so they will count every visitor as one'')] else [])
               @ map (\<lambda>_. own_point_message surface) (filter (\<lambda>p. py_eq (get p ''owner'') name \<and> \<not> is_front p) cps)
               @ stores)))))"

definition one_replica_messages :: "pydict \<Rightarrow> yval \<times> pydict \<Rightarrow> string list app" where
  "one_replica_messages config item =
     (let (name, entity) = item in
      caught (replicas entity) (\<lambda>failure. Inr [complaint (''entity '' @ quoted (py_str name) @ '': '' @ failure)]) (\<lambda>count.
        if count = 1 then Inr []
        else if \<not> is_edge entity
        then Inr [complaint (''entity '' @ quoted (py_str name) @ '' declares '' @ quoted (''replicas: '' @ dec_int count)
                    @ '', which is the web edge'' @ CHR 0x27 # ''s key. A service is reached at one address from the mesh, and N of them behind one address is a different feature than this one'')]
        else replicated_edge_messages config name entity count))"

definition replica_messages :: "pydict \<Rightarrow> pydict list \<Rightarrow> string list app" where
  "replica_messages config es = bindr (entity_items es) (\<lambda>items. concatr (map (one_replica_messages config) items))"

definition one_thread_messages :: "yval \<times> pydict \<Rightarrow> string list app" where
  "one_thread_messages item =
     (let (name, entity) = item in
      if map_of entity ''threads'' = None then Inr []
      else caught (threads entity) (\<lambda>failure. Inr [complaint (''entity '' @ quoted (py_str name) @ '': '' @ failure)]) (\<lambda>count.
        Inr (if 1 < count \<and> \<not> is_edge entity
             then [complaint (''entity '' @ quoted (py_str name) @ '' declares '' @ quoted (''threads: '' @ dec_int count)
                     @ '', which is the web edge'' @ CHR 0x27 # ''s key: it spreads accepted browser sockets across threads. A service is reached over the mesh, whose links this does not touch'')]
             else [])))"

definition thread_messages :: "pydict list \<Rightarrow> string list app" where
  "thread_messages es = bindr (entity_items es) (\<lambda>items. concatr (map one_thread_messages items))"

section \<open>An entity that runs identity\<close>

definition collision_message :: "string \<Rightarrow> string \<Rightarrow> string" where
  "collision_message owner name =
     point_message name ('' collides with the one identity.provider_entity implies; rename it, because the auth entity '' @ quoted owner
       @ '' owns '' @ quoted (fst (AUTH_POINTS ! 0)) @ '' and '' @ quoted (fst (AUTH_POINTS ! 1)))"

definition provider_entity_messages :: "pydict \<Rightarrow> pydict list \<Rightarrow> string list app" where
  "provider_entity_messages config es =
     (let owner = provider_entity config in
      if owner = [] then Inr []
      else case entity_at es (YStr owner) of
        None \<Rightarrow> Inr [complaint (''identity.provider_entity names '' @ quoted owner
          @ '', which is not a declared entity; add it (type: service) or leave provider_entity empty to run identity in process on the edge'')]
      | Some entity \<Rightarrow>
          bindr (identity_providers config) (\<lambda>providers.
          bindr (connect_points config) (\<lambda>cps.
            Inr ((if is_client entity
                  then [complaint (''identity.provider_entity names the client entity '' @ quoted owner
                          @ ''; the client holds no secret and no mesh certificate, so it can never run identity'')]
                  else if is_edge entity
                  then [complaint (''identity.provider_entity names the web edge '' @ quoted owner
                          @ ''; that is what leaving it empty already means (identity in process on the edge)'')]
                  else [])
                 @ (if providers = []
                    then [caution (''identity.provider_entity names '' @ quoted owner
                            @ '' but no identity provider is configured, so no auth entity is wired and nothing signs users in'')] else [])
                 @ map (collision_message owner) (filter (\<lambda>name. name \<in> point_name ` set cps) (map fst AUTH_POINTS))))))"

section \<open>What a clean identity block promises\<close>

lemma identity_errors [simp]:
  "is_error (complaint what)" "is_error (web_edge_error name what)" "is_error (identity_message name what)" "\<not> is_error (caution what)"
  by (simp_all add: is_error_def complaint_def web_edge_error_def identity_message_def caution_def)

lemma named_among:
  assumes "names_sorted p es = Inr items" "entity_at es (YStr n) = Some e" "p e"
  shows "(YStr n, e) \<in> set items"
proof -
  obtain ks ns where k: "entity_keys es = Inr ks"
    and n: "sort_names (filter (\<lambda>k. case entity_at es k of Some e \<Rightarrow> p e | None \<Rightarrow> False) ks) = Inr ns"
    and items: "items = map (\<lambda>k. (k, case entity_at es k of Some e \<Rightarrow> e | None \<Rightarrow> [])) ns"
    using assms(1) by (auto simp: names_sorted_def bindr_eq_Inr)
  have "YStr n \<in> set ns" using assms(2,3) entity_key_among [OF k] by (intro sort_names_set [OF n]) simp
  then show ?thesis unfolding items using assms(2) by force
qed

lemma one_edge_tls_clean:
  assumes "one_edge_tls_messages name e = Inr ms" "clean ms"
  shows "truthy (get (public_settings e) ''tls_terminated_upstream'') \<or>
    (truthy (get (tls_settings e) ''cert_file'') \<and> truthy (get (tls_settings e) ''key_file''))"
proof -
  obtain up where up: "get_attr (or_mapping (get e ''public'')) ''tls_terminated_upstream'' YNull = Inr up"
    using assms(1) by (auto simp: one_edge_tls_messages_def bindr_eq_Inr)
  show ?thesis
  proof (cases "truthy up")
    case True
    then have "get (public_settings e) ''tls_terminated_upstream'' = up"
      using up by (auto simp: get_attr_def or_mapping_def public_settings_def block_of_def get_def split: yval.splits if_splits)
    then show ?thesis using True by simp
  next
    case False
    then show ?thesis using assms up
      by (cases "get e ''tls''") (auto simp: one_edge_tls_messages_def tls_settings_def block_of_def Let_def split: if_splits)
  qed
qed

lemma edge_tls_clean:
  assumes "edge_tls_messages es True = Inr ms" "clean ms" "entity_at es (YStr n) = Some e" "is_edge e"
  shows "truthy (get (public_settings e) ''tls_terminated_upstream'') \<or>
    (truthy (get (tls_settings e) ''cert_file'') \<and> truthy (get (tls_settings e) ''key_file''))"
proof -
  obtain edges where edges: "names_sorted is_edge es = Inr edges" "concatr (map (\<lambda>(name, e). one_edge_tls_messages name e) edges) = Inr ms"
    using assms(1) by (auto simp: edge_tls_messages_def bindr_eq_Inr)
  obtain fs where "one_edge_tls_messages (YStr n) e = Inr fs" "clean fs"
    using concatr_clean [OF edges(2) assms(2) named_among [OF edges(1) assms(3,4)]] by auto
  then show ?thesis by (rule one_edge_tls_clean)
qed

text \<open>
  In a project that passes the TLS rule of a release build, every web edge either names a certificate and a key of its
  own, or says that something in front of it terminates TLS.
\<close>

theorem release_edges_terminate_tls:
  assumes "edge_tls_messages es True = Inr ms" "clean ms" "entity_at es (YStr n) = Some e" "is_edge e"
  shows "truthy (get (public_settings e) ''tls_terminated_upstream'') \<or>
    (truthy (get (tls_settings e) ''cert_file'') \<and> truthy (get (tls_settings e) ''key_file''))"
  using assms by (rule edge_tls_clean)

text \<open>What the rules ask of a provider: a secret and an identifier, endpoints that are not plaintext, a token that can be verified.\<close>

definition secure_endpoints :: "pydict \<Rightarrow> bool" where
  "secure_endpoints p \<longleftrightarrow> (\<forall>key \<in> set (map fst IDENTITY_ENDPOINTS). \<not> insecure_endpoint (strip (text_or_empty (get p key))))"

definition guarded_provider :: "pydict \<Rightarrow> bool" where
  "guarded_provider p \<longleftrightarrow>
     startswith (strip (text_or_empty (get p ''client_secret''))) ''env:'' \<and> strip (text_or_empty (get p ''client_id'')) \<noteq> [] \<and>
     secure_endpoints p"

definition verifiable_token :: "pydict \<Rightarrow> bool" where
  "verifiable_token p \<longleftrightarrow>
     (truthy (get p ''use_id_token'') \<longrightarrow> strip (text_or_empty (get p ''issuer'')) \<noteq> [] \<and> strip (text_or_empty (get p ''jwks_url'')) \<noteq> [])"

lemma insecure_endpoint_clean:
  assumes "clean (insecure_endpoint_messages name p)"
  shows "secure_endpoints p"
proof -
  have "\<not> insecure_endpoint (strip (text_or_empty (get p key)))" if "(key, why) \<in> set IDENTITY_ENDPOINTS" for key why
    using assms that unfolding insecure_endpoint_messages_def by (force simp: Let_def split: if_splits)
  then show ?thesis by (auto simp: secure_endpoints_def)
qed

lemma provider_entry_clean:
  assumes "clean (provider_entry_messages p)"
  shows "guarded_provider p \<and> verifiable_token p"
proof -
  let ?name = "get_or p ''name'' (YStr ''<unnamed>'')"
  have c: "clean (insecure_endpoint_messages ?name p)" "clean (id_token_messages ?name p)"
    using assms by (auto simp: provider_entry_messages_def Let_def)
  have "startswith (strip (text_or_empty (get p ''client_secret''))) ''env:''"
    by (rule ccontr) (use assms in \<open>auto simp: provider_entry_messages_def Let_def split: if_splits\<close>)
  moreover have "strip (text_or_empty (get p ''client_id'')) \<noteq> []"
    by (rule ccontr) (use assms in \<open>auto simp: provider_entry_messages_def Let_def split: if_splits\<close>)
  ultimately show ?thesis using insecure_endpoint_clean [OF c(1)] c(2)
    by (auto simp: guarded_provider_def verifiable_token_def id_token_messages_def split: if_splits)
qed

lemma get_dict_update: "distinct (map fst e) \<Longrightarrow> get (dict_update d e) k = (if k \<in> fst ` set e then get e k else get d k)"
proof (induction e arbitrary: d)
  case (Cons a e)
  have "dict_update d (a # e) = dict_update (AList.update (fst a) (snd a) d) e" by (simp add: dict_update_def case_prod_beta)
  then show ?case using Cons by (cases a) (auto simp: image_iff)
qed (simp add: dict_update_def)

lemma get_absent: "k \<notin> fst ` set e \<Longrightarrow> get e k = YNull"
  by (simp add: get_def get_or_def map_of_eq_None_iff [THEN iffD2])

lemma template_endpoints: "name \<in> set TEMPLATED_PROVIDERS \<Longrightarrow> secure_endpoints (provider_template name)"
proof -
  have "list_all (\<lambda>name. secure_endpoints (provider_template name)) TEMPLATED_PROVIDERS" by code_simp
  then show "name \<in> set TEMPLATED_PROVIDERS \<Longrightarrow> secure_endpoints (provider_template name)" by (simp only: list_all_iff)
qed

lemma resolved_provider_guarded:
  assumes "guarded_provider p" "distinct (map fst p)"
  shows "guarded_provider (resolved_provider p)"
proof (cases "\<exists>name. get p ''name'' = YStr name \<and> name \<in> set TEMPLATED_PROVIDERS")
  case True
  then obtain name where name: "resolved_provider p = dict_update (provider_template name) p" "name \<in> set TEMPLATED_PROVIDERS"
    by (auto simp: resolved_provider_def)
  have "''client_secret'' \<in> fst ` set p"
    by (rule ccontr) (use assms(1) get_absent in \<open>auto simp: guarded_provider_def text_or_empty_def strip_def lstrip_def rstrip_def\<close>)
  moreover have "''client_id'' \<in> fst ` set p"
    by (rule ccontr) (use assms(1) get_absent in \<open>auto simp: guarded_provider_def text_or_empty_def strip_def lstrip_def rstrip_def\<close>)
  ultimately show ?thesis using assms name(1) template_endpoints [OF name(2)]
    by (auto simp: guarded_provider_def secure_endpoints_def get_dict_update)
qed (use assms(1) in \<open>auto simp: resolved_provider_def split: yval.splits\<close>)

lemma strip_ends:
  assumes "s \<noteq> []" "\<not> py_space (hd s)" "\<not> py_space (last s)"
  shows "strip s = s"
proof -
  have "lstrip s = s" using assms(1,2) by (cases s) (auto simp: lstrip_def)
  moreover have "dropWhile py_space (rev s) = rev s" using assms(1,3) by (cases s rule: rev_cases) auto
  ultimately show ?thesis by (simp add: strip_def rstrip_def)
qed

lemma stub_endpoint: "host_text (''http://127.0.0.1:'' @ tail) = ''127.0.0.1'' \<and> startswith (''http://127.0.0.1:'' @ tail) ''http://''"
  by (simp add: host_text_def partition_at_def)

lemma stub_url:
  assumes "tail \<noteq> []" "\<not> py_space (last tail)"
  shows "\<not> insecure_endpoint (strip (''http://127.0.0.1:'' @ tail))"
proof -
  have "strip (''http://127.0.0.1:'' @ tail) = ''http://127.0.0.1:'' @ tail"
    using assms by (intro strip_ends) (auto simp: py_space_def)
  then show ?thesis using stub_endpoint [of tail] by (simp add: insecure_endpoint_def)
qed

lemma dev_stub_guarded:
  assumes "dev_stub_provider config = Inr p"
  shows "guarded_provider p"
proof -
  obtain port where p: "dev_stub_port config = Inr port" using assms by (auto simp: dev_stub_provider_def bindr_eq_Inr)
  let ?url = "\<lambda>e. YStr (''http://127.0.0.1:'' @ dec_int port @ e)"
  have f: "get p ''client_secret'' = YStr (''env:'' @ DEV_STUB_SECRET_VARIABLE)" "get p ''client_id'' = YStr ''synqt-dev''" "get p ''emails_url'' = YNull"
    "get p ''authorize_url'' = ?url ''/authorize''" "get p ''token_url'' = ?url ''/token''" "get p ''userinfo_url'' = ?url ''/userinfo''" "get p ''jwks_url'' = ?url ''/jwks''"
    using assms p by (auto simp: dev_stub_provider_def Let_def)
  have t: "startswith (strip (text_or_empty (YStr (''env:'' @ DEV_STUB_SECRET_VARIABLE)))) ''env:''" "strip (text_or_empty (YStr ''synqt-dev'')) \<noteq> []"
    "\<not> insecure_endpoint (strip (text_or_empty YNull))" by code_simp+
  have u: "\<not> insecure_endpoint (strip (text_or_empty (?url e)))" if "e \<noteq> []" "\<not> py_space (last e)" for e
    using stub_url [of "dec_int port @ e"] that by (simp add: text_or_empty_def py_str_def)
  have us: "\<not> insecure_endpoint (strip (text_or_empty (?url ''/authorize'')))" "\<not> insecure_endpoint (strip (text_or_empty (?url ''/token'')))"
    "\<not> insecure_endpoint (strip (text_or_empty (?url ''/userinfo'')))" "\<not> insecure_endpoint (strip (text_or_empty (?url ''/jwks'')))"
    by (rule u; simp add: py_space_def)+
  have "secure_endpoints p"
    unfolding secure_endpoints_def IDENTITY_ENDPOINTS_def by (simp only: list.map fst_conv list.set ball_simps f t(3) us simp_thms not_False_eq_True)
  then show ?thesis using t f(1,2) by (simp add: guarded_provider_def)
qed


section \<open>Examples\<close>

definition login_entry :: pydict where
  "login_entry = [(''name'', YStr ''github''), (''client_id'', YStr ''me''), (''client_secret'', YStr ''env:S'')]"

definition login_config :: pydict where
  "login_config = [(''identity'', YMap [(''providers'', YList [YMap login_entry])])]"


definition tls_edge :: pydict where
  "tls_edge = [(''name'', YStr ''edge''), (''type'', YStr ''web_edge''), (''tls'', YMap [(''cert_file'', YStr ''c''), (''key_file'', YStr ''k'')])]"

theorem release_edges_terminate_tls_witness:
  "truthy (get (public_settings tls_edge) ''tls_terminated_upstream'') \<or>
   (truthy (get (tls_settings tls_edge) ''cert_file'') \<and> truthy (get (tls_settings tls_edge) ''key_file''))"
proof -
  have "edge_tls_messages [tls_edge] True = Inr []" "entity_at [tls_edge] (YStr ''edge'') = Some tls_edge" "is_edge tls_edge" by code_simp+
  then show ?thesis using release_edges_terminate_tls [of "[tls_edge]" "[]"] by simp
qed

text \<open>
  What the rules miss. The host is cut at the first colon, so the IPv6 loopback the rule lists is always refused, and a user name before
  the host is taken for it. The port of an entity is compared only where it is written, and not where it is the default. And the entries are read without
  their templates, so an issuer blanked over the one of the template goes unnoticed.
\<close>

lemma ipv6_loopback_refused: "insecure_endpoint ''http://[::1]:8789/token''"
  by code_simp

lemma userinfo_taken_for_host:
  "\<not> insecure_endpoint ''http://localhost:p@evil.com/token'' \<and>
   (case urlsplit ''http://localhost:p@evil.com/token'' of Inr parts \<Rightarrow> url_hostname parts | _ \<Rightarrow> []) = ''evil.com''"
  by code_simp

definition stub_on_default_port :: pydict where
  "stub_on_default_port =
     [(''entities'', YList [YMap [(''name'', YStr ''edge''), (''type'', YStr ''web_edge'')]]),
      (''identity'', YMap [(''dev_stub'', YMap [(''port'', YInt 8443)])])]"

lemma default_port_clash_missed:
  "dev_stub_messages stub_on_default_port False = Inr [] \<and> dev_stub_port stub_on_default_port = Inr 8443 \<and>
   public_port [(''name'', YStr ''edge''), (''type'', YStr ''web_edge'')] = Inr 8443"
  by (simp add: dev_stub_messages_def stub_on_default_port_def identity_settings_def identity_dev_stub_def block_of_def has_dev_stub_def is_dict_def
      stub_port_messages_def dev_stub_port_def entities_def stub_clash_messages_def public_settings_def stub_users_messages_def public_port_def
      DEFAULT_PUBLIC_PORT_def concatr.simps)

definition blank_issuer :: pydict where
  "blank_issuer = [(''name'', YStr ''google''), (''client_id'', YStr ''me''), (''client_secret'', YStr ''env:S''), (''issuer'', YStr [])]"

lemma blank_issuer_missed: "provider_entry_messages blank_issuer = [] \<and> \<not> verifiable_token (resolved_provider blank_issuer)"
  by code_simp

end
