(* ===== verification/CheckProviders.thy ===== *)
theory CheckProviders
  imports CheckIdentity
begin

text \<open>
  The rules of \<open>synqt check\<close> over what a project must not give away and what its providers are, from
  \<open>synqt/check.py\<close> and the families of \<open>synqt/addentity.py\<close>: references to the environment below a client,
  credentials written down, engines of the wrong family, and the certificates links over mutual TLS need.
\<close>

section \<open>References below a client\<close>

text \<open>Every string below a value that starts with \<open>env:\<close>, with the path that reaches it.\<close>

function env_references :: "string \<Rightarrow> yval \<Rightarrow> string list" where
  "env_references path (YMap m) = concat (map (\<lambda>kv. env_references (if path \<noteq> [] then path @ ''.'' @ fst kv else fst kv) (snd kv)) m)"
| "env_references path (YList vs) = concat (map (\<lambda>iv. env_references (path @ ''['' @ dec (fst iv) @ '']'') (snd iv)) (enumerate 0 vs))"
| "env_references path (YStr s) =
     (if startswith s ''env:'' then [(if path \<noteq> [] then path else ''<root>'') @ '' ('' @ s @ '')''] else [])"
| "env_references path YNull = []"
| "env_references path (YBool _) = []"
| "env_references path (YInt _) = []"
| "env_references path (YFloat _ _) = []"
| "env_references path (YOther _ _ _) = []"
  by pat_completeness auto
termination
proof (relation "measure (size \<circ> snd)")
  fix path :: string and m :: pydict and kv
  assume "kv \<in> set m"
  then have "size_prod (\<lambda>_. 0) size kv < size_list (size_prod (\<lambda>_. 0) size) m + 1"
    using size_list_estimation' [of kv m _ "size_prod (\<lambda>_. 0) size"] by fastforce
  then show "((if path \<noteq> [] then path @ ''.'' @ fst kv else fst kv, snd kv), (path, YMap m)) \<in> measure (size \<circ> snd)"
    by (cases kv) simp
next
  fix path :: string and vs :: "yval list" and iv
  assume "iv \<in> set (enumerate 0 vs)"
  then have "snd iv \<in> set vs" by (metis in_set_enumerate_eq le_add_diff_inverse2 add.commute nth_mem diff_zero less_imp_diff_less add_0)
  then show "((path @ ''['' @ dec (fst iv) @ '']'', snd iv), (path, YList vs)) \<in> measure (size \<circ> snd)"
    using size_list_estimation' [of "snd iv" vs _ size] by fastforce
qed simp

definition client_env_messages :: "yval \<Rightarrow> pydict \<Rightarrow> string list" where
  "client_env_messages name e =
     (let hits = sort (remdups (env_references [] (YMap e))) in
      if hits = [] then []
      else [''error: client '' @ quoted (py_str name) @ '' references '' @ join '', '' hits
            @ '': an env: reference on a client target would be resolved into an artifact served to every visitor''])"

section \<open>Data providers\<close>

definition PROVIDERS :: "(string \<times> string list) list" where
  "PROVIDERS =
     [(''relational'', [''sqlite'', ''postgres'', ''mysql'']), (''cache'', [''memory'', ''redis'']), (''document'', [''memory'', ''mongodb''])]"

definition CUSTOM_PREFIX :: string where
  "CUSTOM_PREFIX = ''custom:''"

definition TYPES :: "(string \<times> string option) list" where
  "TYPES =
     [(''relational'', Some ''relational''), (''cache'', Some ''cache''), (''document'', Some ''document''),
      (''api'', None), (''jobs'', None), (''monitor'', None), (''service'', None)]"

definition PROVIDER_SECRET_KEYS :: "string list" where
  "PROVIDER_SECRET_KEYS = [''password'', ''uri'', ''connection_string'']"

definition literal_credential :: "string \<Rightarrow> yval \<Rightarrow> bool" where
  "literal_credential key value =
     (case value of
        YStr s \<Rightarrow> strip s \<noteq> [] \<and> \<not> startswith s ''env:'' \<and> (key = ''password'' \<or> CHR ''@'' \<in> set s)
      | _ \<Rightarrow> False)"

definition literal_message :: "yval \<Rightarrow> string \<Rightarrow> string" where
  "literal_message name key =
     ''error: entity '' @ quoted (py_str name) @ '' sets provider.'' @ key @ '' to a literal value; it must be an env: reference (for example ''
     @ quoted ''env:DB_PASSWORD'' @ '') so the credential lives in the entity environment and never in synqt.yaml''"

definition provider_secret_messages :: "yval \<Rightarrow> pydict \<Rightarrow> string list" where
  "provider_secret_messages name e =
     (case get e ''provider'' of
        YMap p \<Rightarrow> map (literal_message name) (filter (\<lambda>key. literal_credential key (get p key)) PROVIDER_SECRET_KEYS)
      | _ \<Rightarrow> [])"

definition no_family_message :: "yval \<Rightarrow> string \<Rightarrow> string \<Rightarrow> string" where
  "no_family_message name selected t =
     ''error: entity '' @ quoted (py_str name) @ '' sets provider.name '' @ quoted selected @ '' but its type ('' @ quoted t @ '') takes no data provider''"

definition no_custom_message :: "yval \<Rightarrow> string" where
  "no_custom_message name =
     ''error: entity '' @ quoted (py_str name) @ '' has a malformed provider.name '' @ quoted ''custom:''
     @ '': custom: must be followed by the name the provider is registered under''"

definition no_provider_message :: "yval \<Rightarrow> string \<Rightarrow> string \<Rightarrow> string list \<Rightarrow> string" where
  "no_provider_message name selected family bundled =
     ''error: entity '' @ quoted (py_str name) @ '' selects provider.name '' @ quoted selected @ '', which is not a '' @ family @ '' provider; the bundled ''
     @ family @ '' providers are '' @ join '', '' bundled @ '', or write your own and select it with custom:<Name> (see https://synqt.org/providers/)''"

definition provider_messages :: "yval \<Rightarrow> pydict \<Rightarrow> string list" where
  "provider_messages name e =
     (case get e ''provider'' of
        YMap p \<Rightarrow>
          (let declared = get p ''name''; selected = py_str declared in
           if declared = YNull \<or> strip selected = [] then []
           else case map_of TYPES (entity_type e) of
             Some (Some family) \<Rightarrow>
               (let bundled = (case map_of PROVIDERS family of Some ps \<Rightarrow> ps | None \<Rightarrow> []) in
                if startswith selected CUSTOM_PREFIX
                then if drop (length CUSTOM_PREFIX) selected = [] then [no_custom_message name] else []
                else if selected \<notin> set bundled then [no_provider_message name selected family bundled] else [])
           | _ \<Rightarrow> [no_family_message name selected (entity_type e)])
      | _ \<Rightarrow> [])"

section \<open>Certificates\<close>

text \<open>What is on the disk below \<open>synqt/mesh\<close> is an argument. The parties to a link are its owner and its consumers.\<close>

definition parties :: "pydict \<Rightarrow> yval list app" where
  "parties point = bindr (py_iter (or_empty (get point ''consumers''))) (\<lambda>cs. Inr (get point ''owner'' # cs))"

definition certified_party :: "pydict list \<Rightarrow> yval \<Rightarrow> string list app" where
  "certified_party es party = bindr (among_entities is_service es party) (\<lambda>needs. Inr (if needs then [py_str party] else []))"

definition link_needs :: "pydict list \<Rightarrow> pydict list \<Rightarrow> string \<times> endpoint \<Rightarrow> string list app" where
  "link_needs es cps link =
     (case link of
        (name, MtlsEndpoint _ _) \<Rightarrow>
          concatr (map (\<lambda>cp. bindr (parties cp) (\<lambda>ps. concatr (map (certified_party es) ps))) (filter (\<lambda>cp. point_name cp = name) cps))
      | _ \<Rightarrow> Inr [])"

definition certificate_message :: "bool \<Rightarrow> string \<Rightarrow> string" where
  "certificate_message starting name =
     (if starting then ''error'' else ''warn'') @ '': entity '' @ quoted name
     @ '' is on a mutual-TLS link with no certificate in synqt/mesh/; run '' @ quoted (''synqt mesh cert '' @ name)
     @ '' (synqt dev issues development certificates itself)''"

definition certificate_there :: "(string \<Rightarrow> bool) \<Rightarrow> bool \<Rightarrow> string \<Rightarrow> bool" where
  "certificate_there on_disk starting name \<longleftrightarrow> on_disk (name @ ''.crt'') \<or> (\<not> starting \<and> on_disk (''dev/'' @ name @ ''.crt''))"

definition mesh_certificate_messages ::
  "(string \<Rightarrow> bool) \<Rightarrow> pydict list \<Rightarrow> pydict list \<Rightarrow> (string \<times> endpoint) list \<Rightarrow> bool \<Rightarrow> string list app" where
  "mesh_certificate_messages on_disk es cps endpoints starting =
     bindr (concatr (map (link_needs es cps) endpoints)) (\<lambda>needs.
       Inr (map (certificate_message starting) (filter (\<lambda>n. \<not> certificate_there on_disk starting n) (sort (remdups needs)))))"

section \<open>What clean rules promise\<close>

text \<open>A string below a value, as a relation.\<close>

inductive inside :: "string \<Rightarrow> yval \<Rightarrow> bool" where
  inside_self: "inside s (YStr s)"
| inside_list: "v \<in> set vs \<Longrightarrow> inside s v \<Longrightarrow> inside s (YList vs)"
| inside_map: "(k, v) \<in> set m \<Longrightarrow> inside s v \<Longrightarrow> inside s (YMap m)"

inductive_simps inside_simps [simp]:
  "inside s YNull" "inside s (YBool b)" "inside s (YInt i)" "inside s (YFloat r n)" "inside s (YOther a b c)" "inside s (YStr t)" "inside s (YList vs)" "inside s (YMap m)"

lemma ball_enumerate: "(\<forall>iv \<in> set (enumerate n vs). P (snd iv)) \<longleftrightarrow> (\<forall>v \<in> set vs. P v)"
  by (induction vs arbitrary: n) auto

lemma sort_Nil [simp]: "sort xs = [] \<longleftrightarrow> xs = []"
  by (metis set_empty set_sort)

lemma env_references_inside: "env_references path v = [] \<longleftrightarrow> \<not> (\<exists>s. inside s v \<and> startswith s ''env:'')"
proof (induction path v rule: env_references.induct)
  case (1 path m)
  then show ?case by (fastforce simp: concat_eq_Nil_conv)
next
  case (2 path vs)
  have "(\<forall>iv \<in> set (enumerate 0 vs). \<not> (\<exists>s. inside s (snd iv) \<and> startswith s ''env:'')) \<longleftrightarrow> (\<forall>v \<in> set vs. \<not> (\<exists>s. inside s v \<and> startswith s ''env:''))"
    by (rule ball_enumerate)
  then show ?case using 2 by auto
qed auto

text \<open>
  C18. The rule for a client is silent exactly where no string anywhere below the client, at any depth of lists and
  mappings, is a reference to the environment.
\<close>

theorem client_env_messages_exact:
  "client_env_messages name e = [] \<longleftrightarrow> \<not> (\<exists>s. inside s (YMap e) \<and> startswith s ''env:'')"
  using env_references_inside [of "[]" "YMap e"] by (simp add: client_env_messages_def Let_def del: inside_simps env_references.simps)

lemma provider_errors [simp]:
  "is_error (literal_message name key)" "is_error (no_family_message name selected t)" "is_error (no_custom_message name)"
  "is_error (no_provider_message name selected family bundled)" "is_error (certificate_message starting who) \<longleftrightarrow> starting"
  by (simp_all add: is_error_def literal_message_def no_family_message_def no_custom_message_def no_provider_message_def certificate_message_def)

lemma families: "map_of TYPES t = Some (Some family) \<Longrightarrow> \<exists>bundled. map_of PROVIDERS family = Some bundled"
  by (auto simp: TYPES_def PROVIDERS_def split: if_splits)

text \<open>
  An entity whose provider passes the check selects an engine of the family its type has, or a provider of its own by a
  name; and no password it gives is written down.
\<close>

theorem clean_provider_known:
  assumes "clean (provider_messages name e @ provider_secret_messages name e)" "get e ''provider'' = YMap p"
  shows "(get p ''name'' = YStr s \<and> strip s \<noteq> [] \<longrightarrow>
      (\<exists>family bundled. map_of TYPES (entity_type e) = Some (Some family) \<and> map_of PROVIDERS family = Some bundled \<and>
         (s \<in> set bundled \<or> (\<exists>own. own \<noteq> [] \<and> s = CUSTOM_PREFIX @ own)))) \<and>
    (get p ''password'' = YStr s \<and> strip s \<noteq> [] \<longrightarrow> startswith s ''env:'')"
proof (intro conjI impI)
  assume s: "get p ''name'' = YStr s \<and> strip s \<noteq> []"
  have str: "py_str (YStr s) = s" by (simp add: py_str_def)
  obtain family where f: "map_of TYPES (entity_type e) = Some (Some family)"
    using assms s str by (auto simp: provider_messages_def Let_def split: option.splits)
  then obtain bundled where b: "map_of PROVIDERS family = Some bundled" using families by blast
  have "s \<in> set bundled \<or> (\<exists>own. own \<noteq> [] \<and> s = CUSTOM_PREFIX @ own)"
  proof (cases "startswith s CUSTOM_PREFIX")
    case True
    then obtain own where "s = CUSTOM_PREFIX @ own" unfolding startswith_def by (metis append_take_drop_id)
    then show ?thesis using assms s str f b True by (auto simp: provider_messages_def Let_def split: if_splits)
  next
    case False
    have "s \<in> set bundled" by (rule ccontr) (use assms s str f b False in \<open>auto simp: provider_messages_def Let_def split: if_splits\<close>)
    then show ?thesis by blast
  qed
  then show "\<exists>family bundled. map_of TYPES (entity_type e) = Some (Some family) \<and> map_of PROVIDERS family = Some bundled \<and>
      (s \<in> set bundled \<or> (\<exists>own. own \<noteq> [] \<and> s = CUSTOM_PREFIX @ own))" using f b by blast
next
  assume "get p ''password'' = YStr s \<and> strip s \<noteq> []"
  then show "startswith s ''env:''"
    using assms by (auto simp: provider_secret_messages_def literal_credential_def PROVIDER_SECRET_KEYS_def split: if_splits)
qed

lemma link_party_needs:
  assumes "link_needs es cps (point_name cp, MtlsEndpoint h k) = Inr needs" "cp \<in> set cps" "parties cp = Inr ps" "YStr n \<in> set ps"
    and "entity_at es (YStr n) = Some e" "is_service e"
  shows "n \<in> set needs"
proof -
  have "concatr (map (\<lambda>cp. bindr (parties cp) (\<lambda>ps. concatr (map (certified_party es) ps))) (filter (\<lambda>q. point_name q = point_name cp) cps)) = Inr needs"
    using assms(1) by (simp add: link_needs_def)
  from concatr_member [OF this, of cp] obtain fs where fs: "concatr (map (certified_party es) ps) = Inr fs" "set fs \<subseteq> set needs"
    using assms(2,3) by auto
  from concatr_member [OF fs(1) assms(4)] show ?thesis
    using fs(2) assms(5,6) by (auto simp: certified_party_def among_entities_def hashable_def is_list_def is_dict_def py_str_def)
qed

text \<open>
  C19. Where the check passes at the moment entities are started, every entity other than a client that takes part in a link over
  mutual TLS, as its owner or a consumer, has its certificate on the disk.
\<close>

theorem started_links_certified:
  assumes "mesh_certificate_messages on_disk es cps endpoints True = Inr ms" "clean ms"
    and "(point_name cp, MtlsEndpoint h k) \<in> set endpoints" "cp \<in> set cps" "parties cp = Inr ps" "YStr n \<in> set ps"
    and "entity_at es (YStr n) = Some e" "is_service e"
  shows "on_disk (n @ ''.crt'')"
proof -
  obtain needs where needs: "concatr (map (link_needs es cps) endpoints) = Inr needs"
    "ms = map (certificate_message True) (filter (\<lambda>n. \<not> certificate_there on_disk True n) (sort (remdups needs)))"
    using assms(1) by (auto simp: mesh_certificate_messages_def bindr_eq_Inr)
  obtain fs where "link_needs es cps (point_name cp, MtlsEndpoint h k) = Inr fs" "set fs \<subseteq> set needs"
    using concatr_member [OF needs(1) assms(3)] by blast
  then have "n \<in> set needs" using link_party_needs assms(4-8) by blast
  then show ?thesis using assms(2) needs(2) by (auto simp: certificate_there_def)
qed

section \<open>Examples\<close>

definition store_entity :: pydict where
  "store_entity = [(''name'', YStr ''db''), (''type'', YStr ''relational''), (''provider'', YMap [(''name'', YStr ''postgres''), (''password'', YStr ''env:P'')])]"

theorem clean_provider_known_witness:
  "\<exists>family bundled. map_of TYPES (entity_type store_entity) = Some (Some family) \<and> map_of PROVIDERS family = Some bundled \<and>
     (''postgres'' \<in> set bundled \<or> (\<exists>own. own \<noteq> [] \<and> ''postgres'' = CUSTOM_PREFIX @ own))"
proof -
  have c: "provider_messages (YStr ''db'') store_entity @ provider_secret_messages (YStr ''db'') store_entity = []" by code_simp
  have p: "get store_entity ''provider'' = YMap [(''name'', YStr ''postgres''), (''password'', YStr ''env:P'')]" by (simp add: store_entity_def)
  have "strip ''postgres'' \<noteq> []" by code_simp
  then show ?thesis using clean_provider_known [of "YStr ''db''" store_entity, OF _ p, of "''postgres''"] c by simp
qed

definition store_point :: pydict where
  "store_point = [(''owner'', YStr ''db''), (''consumers'', YList [YStr ''api''])]"

theorem started_links_certified_witness: "(\<lambda>f. f = ''db.crt'') (''db'' @ ''.crt'')"
proof -
  have m: "mesh_certificate_messages (\<lambda>f. f = ''db.crt'') [store_entity] [store_point] [(''db'', MtlsEndpoint ''127.0.0.1'' 1)] True = Inr []"
    by code_simp
  have f: "point_name store_point = ''db''" "parties store_point = Inr [YStr ''db'', YStr ''api'']"
    "entity_at [store_entity] (YStr ''db'') = Some store_entity" "is_service store_entity" by code_simp+
  show ?thesis by (rule started_links_certified [OF m, of store_point "''127.0.0.1''" 1 "[YStr ''db'', YStr ''api'']" "''db''" store_entity]) (simp_all add: f)
qed

end
