(* ===== verification/CheckMonitor.thy ===== *)
theory CheckMonitor
  imports CheckIdentity
begin

text \<open>
  The rules of \<open>synqt check\<close> over the monitor, from \<open>synqt/check.py\<close>: which entity it is, what it records and
  exports, where its console can be reached from and who is handed it, and the request limit behind a
  balancer.
\<close>

section \<open>The console\<close>

definition MONITOR_SCOPE :: string where
  "MONITOR_SCOPE = ''operator''"

definition MONITOR_POINT :: string where
  "MONITOR_POINT = ''ingest''"

definition or_default :: "pydict \<Rightarrow> string" where
  "or_default config = (if default_scope config \<noteq> [] then default_scope config else ''anonymous'')"

definition console_message :: "yval \<Rightarrow> string \<Rightarrow> string \<Rightarrow> string" where
  "console_message name scope client =
     ''error: entity '' @ quoted (py_str name) @ '' serves the console client '' @ quoted client @ '' to scope '' @ quoted scope
     @ ''. The console shows every request the system has handled and every complaint, so it is addressable to '' @ quoted MONITOR_SCOPE @ '' and to nobody else''"

definition landing_message :: "pydict \<Rightarrow> string \<Rightarrow> string \<Rightarrow> string" where
  "landing_message e landing client =
     ''error: monitor '' @ quoted (py_str (get e ''name'')) @ '' ''
     @ (if block_of (get e ''bundles'') \<noteq> [] then ''maps scope '' @ quoted landing @ '' to the client '' @ quoted client
        else ''has no bundles: block, so it falls back to the project'' @ CHR 0x27 # ''s first client'')
     @ '', which puts a client bundle on the monitor'' @ CHR 0x27 # ''s own port for anyone who reaches it. Map '' @ quoted landing
     @ '' to a static sign-in directory instead, the way '' @ quoted (''synqt add entity '' @ py_str (get e ''name'') @ '' --type monitor'') @ '' writes it''"

definition served_messages :: "string list \<Rightarrow> yval \<Rightarrow> string \<times> bundle_ref \<Rightarrow> string list" where
  "served_messages consoles name b =
     (case b of
        (scope, BUNDLE_CLIENT c) \<Rightarrow> if c \<in> set consoles \<and> scope \<noteq> MONITOR_SCOPE then [console_message name scope c] else []
      | _ \<Rightarrow> [])"

definition one_console_messages :: "pydict \<Rightarrow> pydict list \<Rightarrow> pydict \<Rightarrow> string list app" where
  "one_console_messages config es e =
     (let landing = or_default config; consoles = map entity_name (filter (\<lambda>c. is_client c \<and> monitor_watches c) es) in
      if \<not> serves_browser e then Inr []
      else bindr (bundles_for config e) (\<lambda>served.
        Inr (concat (map (served_messages consoles (get e ''name'')) (sort_key fst served))
             @ (if entity_type e \<noteq> ''monitor'' then []
                else case map_of served landing of Some (BUNDLE_CLIENT c) \<Rightarrow> [landing_message e landing c] | _ \<Rightarrow> []))))"

definition console_delivery_messages :: "pydict \<Rightarrow> string list app" where
  "console_delivery_messages config = bindr (entities config) (\<lambda>es. concatr (map (one_console_messages config es) es))"

section \<open>Who consumes and who owns\<close>

definition monitor_consumer_message :: "string \<Rightarrow> yval \<Rightarrow> string" where
  "monitor_consumer_message name consumer =
     point_message name ('' lists '' @ quoted (py_str consumer)
       @ '' as a consumer, and it is a monitor. Entities report to a monitor and a monitor reaches none of them, so nothing would open this link; what it asks for is application data in the operations record, which keeps the shape of what happened rather than the substance. Take the consumer out'')"

definition shown_point :: "pydict \<Rightarrow> string" where
  "shown_point cp = (if point_name cp \<noteq> [] then point_name cp else ''<unnamed>'')"

definition monitor_as_consumer_messages :: "pydict \<Rightarrow> pydict list \<Rightarrow> string list app" where
  "monitor_as_consumer_messages config es =
     bindr (entity_items es) (\<lambda>items.
       let monitors = map fst (filter (\<lambda>(_, e). entity_type e = ''monitor'') items) in
       if monitors = [] then Inr []
       else bindr (connect_points config) (\<lambda>cps. concatr (map (\<lambda>cp.
         bindr (py_iter (consumers_of cp)) (\<lambda>cs.
           Inr (map (monitor_consumer_message (shown_point cp)) (filter (\<lambda>c. YStr (py_str c) \<in> set monitors) cs)))) cps)))"

definition unreported_message :: "string \<Rightarrow> yval \<Rightarrow> string" where
  "unreported_message owner name =
     ''warn: entity '' @ quoted (py_str name) @ '' has '' @ quoted ''type: monitor'' @ '' and ''
     @ (if owner \<noteq> [] then ''monitoring.entity names '' @ quoted owner @ '' instead'' else ''the project declares no monitoring.entity'')
     @ '', so nothing reports to it and its history stays empty; write '' @ quoted (''monitoring: {entity: '' @ py_str name @ ''}'') @ '' or take the entity out''"

definition unreported_monitor_messages :: "string \<Rightarrow> pydict list \<Rightarrow> string list app" where
  "unreported_monitor_messages owner es =
     bindr (entity_items es) (\<lambda>items.
       Inr (map (\<lambda>(name, _). unreported_message owner name) (filter (\<lambda>(name, e). entity_type e = ''monitor'' \<and> name \<noteq> YStr owner) items)))"

definition monitor_client_message :: "string \<Rightarrow> string \<Rightarrow> yval \<Rightarrow> string" where
  "monitor_client_message owner name consumer =
     ''error: client '' @ quoted (py_str consumer) @ '' consumes '' @ quoted name @ '', which the monitor '' @ quoted owner
     @ '' owns; a monitor holds every entity'' @ CHR 0x27 # ''s record, and the only client that may read one is its console (mark it '' @ quoted ''console: true''
     @ '', which makes the monitor deliver it behind the operator gate)''"

definition monitor_consumer_messages :: "pydict \<Rightarrow> string \<Rightarrow> pydict list \<Rightarrow> string list app" where
  "monitor_consumer_messages config owner es =
     bindr (connect_points config) (\<lambda>cps. concatr (map (\<lambda>cp.
       if get cp ''owner'' \<noteq> YStr owner then Inr []
       else bindr (py_iter (consumers_of cp)) (\<lambda>cs.
         Inr (map (monitor_client_message owner (shown_point cp))
           (filter (\<lambda>c. case entity_at es (YStr (py_str c)) of Some w \<Rightarrow> is_client w \<and> \<not> monitor_watches w | None \<Rightarrow> False) cs)))) cps))"

section \<open>What is recorded and exported\<close>

definition trace_level_messages :: "yval \<Rightarrow> string list" where
  "trace_level_messages levels =
     (case levels of
        YNull \<Rightarrow> []
      | YMap m \<Rightarrow> concat (map (\<lambda>(category, level).
          (if category \<notin> set TRACE_CATEGORIES
           then [complaint (''monitoring.levels: unknown category '' @ quoted category @ '' (want '' @ join '', '' TRACE_CATEGORIES @ '')'')] else [])
          @ (if py_str level \<notin> set TRACE_SEVERITIES
             then [complaint (''monitoring.levels.'' @ category @ '': unknown level '' @ quoted (py_str level) @ '' (want '' @ join '', '' TRACE_SEVERITIES @ '')'')]
             else [])) m)
      | _ \<Rightarrow> [complaint (''monitoring.levels must be a block of category: level, e.g. '' @ quoted ''levels: {call: debug}'')])"

definition is_loopback_url :: "string \<Rightarrow> bool app" where
  "is_loopback_url url =
     bindr (urlsplit url) (\<lambda>parts. Inr (map to_lower (url_hostname parts) \<in> {''127.0.0.1'', ''localhost'', ''::1''}))"

definition export_message :: "string \<Rightarrow> string \<Rightarrow> string" where
  "export_message owner what = ''error: entity '' @ quoted owner @ '': '' @ what"

definition export_warning :: "string \<Rightarrow> string \<Rightarrow> string" where
  "export_warning owner what = ''warn: entity '' @ quoted owner @ '': '' @ what"

definition plaintext_text :: "string \<Rightarrow> string" where
  "plaintext_text endpoint =
     ''export.otlp.endpoint '' @ quoted endpoint @ '' is plaintext to a host that is not loopback, so every event and the API key with it cross the network in the clear; use https, or a collector on this machine''"

definition otlp_messages :: "string \<Rightarrow> bool \<Rightarrow> yval \<Rightarrow> string list app" where
  "otlp_messages owner release otlp =
     (case otlp of
        YNull \<Rightarrow> Inr []
      | YMap m \<Rightarrow>
          (let endpoint = strip (text_or_empty (get m ''endpoint'')) in
           if endpoint = []
           then Inr [export_message owner (''export.otlp names no endpoint, so nothing is exported and nothing says so; give it the collector'' @ CHR 0x27 # ''s base URL (http://127.0.0.1:4318) or drop the block'')]
           else if startswith endpoint ''https://'' then Inr []
           else if \<not> startswith endpoint ''http://''
           then Inr [export_message owner (''export.otlp.endpoint '' @ quoted endpoint @ '' is not an http(s) URL; OTLP over HTTP is what this exports, and the endpoint is the collector'' @ CHR 0x27 # ''s base URL with no signal path on it'')]
           else bindr (is_loopback_url endpoint) (\<lambda>here.
             Inr (if here then [] else [(if release then export_message else export_warning) owner (plaintext_text endpoint)])))
      | _ \<Rightarrow> Inr [export_message owner (''export.otlp must be a block naming the collector, e.g. '' @ quoted ''endpoint: http://127.0.0.1:4318'')])"

text \<open>\<open>int(v or 0)\<close>.\<close>

definition int_or_zero :: "yval \<Rightarrow> int app" where
  "int_or_zero v = py_int (if truthy v then v else YInt 0)"

definition jsonl_messages :: "string \<Rightarrow> yval \<Rightarrow> string list app" where
  "jsonl_messages owner jsonl =
     (case jsonl of
        YNull \<Rightarrow> Inr []
      | YMap m \<Rightarrow>
          bindr (int_or_zero (get_or m ''max_bytes'' (YInt (64 * 1024 * 1024)))) (\<lambda>cap.
          bindr (int_or_zero (get_or m ''keep'' (YInt 5))) (\<lambda>keep.
            Inr ((if strip (text_or_empty (get m ''path'')) = []
                  then [export_message owner ''export.jsonl names no path, so nothing is written and nothing says so; give it a file or drop the block''] else [])
                 @ (if cap \<le> 0
                    then [export_warning owner ''export.jsonl sets no max_bytes, so the file grows without a bound; the monitor then fills the disk of the machine it is watching unless something else is rotating that file''] else [])
                 @ (if keep < 1
                    then [export_message owner (''export.jsonl keeps '' @ py_str (get m ''keep'')
                            @ '' rotations, so rotating deletes the history instead of keeping it; keep at least 1'')] else []))))
      | _ \<Rightarrow> Inr [export_message owner (''export.jsonl must be a block naming the file, e.g. '' @ quoted ''path: build/ops/state/events.jsonl'')])"

definition monitor_export_messages :: "string \<Rightarrow> pydict \<Rightarrow> bool \<Rightarrow> string list app" where
  "monitor_export_messages owner e release =
     (case get e ''export'' of
        YNull \<Rightarrow> Inr []
      | YMap settings \<Rightarrow>
          bindr (otlp_messages owner release (get settings ''otlp'')) (\<lambda>otlp.
          bindr (jsonl_messages owner (get settings ''jsonl'')) (\<lambda>jsonl.
            Inr (map (\<lambda>key. export_message owner (''export: unknown key '' @ quoted key @ '' (want otlp or jsonl)''))
                   (filter (\<lambda>key. key \<notin> {''otlp'', ''jsonl''}) (map fst settings))
                 @ otlp @ jsonl)))
      | _ \<Rightarrow> Inr [export_message owner (''export must be a block, e.g. '' @ quoted ''export: {otlp: {endpoint: http://127.0.0.1:4318}}'')])"

section \<open>The monitor itself\<close>

definition reach_message :: "string \<Rightarrow> string \<Rightarrow> string" where
  "reach_message owner host =
     ''error: monitor '' @ quoted owner @ '' binds public.host '' @ quoted host
     @ '', so its console is reachable from off this machine. It shows every request the system has served and every complaint, behind one password and no second factor. Leave the host at 127.0.0.1 and reach it through a VPN or an SSH tunnel, or write ''
     @ quoted ''monitoring: {public: acknowledged}'' @ '' to say this deployment means it''"

definition bound_host :: "pydict \<Rightarrow> string" where
  "bound_host e = (let host = get (public_settings e) ''host'' in strip (if truthy host then py_str host else ''127.0.0.1''))"

definition acknowledged :: "pydict \<Rightarrow> bool" where
  "acknowledged config \<longleftrightarrow> text_or_empty (get (block_of (get config ''monitoring'')) ''public'') = ''acknowledged''"

definition monitor_reach_messages :: "pydict \<Rightarrow> string \<Rightarrow> pydict \<Rightarrow> string list" where
  "monitor_reach_messages config owner e =
     (if bound_host e \<in> {''127.0.0.1'', ''localhost'', ''::1''} \<or> acknowledged config then [] else [reach_message owner (bound_host e)])"

definition MONITORING_KEYS :: "string list" where
  "MONITORING_KEYS = [''entity'', ''capture_identity'', ''levels'', ''public'']"

definition wired_monitor_messages :: "pydict \<Rightarrow> pydict list \<Rightarrow> bool \<Rightarrow> string \<Rightarrow> pydict \<Rightarrow> string list app" where
  "wired_monitor_messages config es release owner e =
     bindr (connect_points config) (\<lambda>cps.
     bindr (monitor_export_messages owner e release) (\<lambda>export.
     bindr (monitor_consumer_messages config owner es) (\<lambda>consumers.
       Inr ((if entity_type e \<noteq> ''monitor''
             then [complaint (''monitoring.entity names '' @ quoted owner @ '', which is a '' @ quoted (entity_type e) @ '' entity. The monitor holds every entity''
                     @ CHR 0x27 # ''s record and serves the operator console, so it is its own entity with its own type; give it '' @ quoted ''type: monitor''
                     @ '' or point monitoring.entity at one that has it'')] else [])
            @ (if MONITOR_POINT \<in> point_name ` set cps
               then [point_message MONITOR_POINT ('' collides with the one monitoring.entity implies; rename it, because the monitor '' @ quoted owner @ '' owns ''
                       @ quoted MONITOR_POINT @ '' and every service consumes it'')] else [])
            @ export @ monitor_reach_messages config owner e @ consumers))))"

definition named_monitor_messages :: "pydict \<Rightarrow> pydict list \<Rightarrow> bool \<Rightarrow> string list app" where
  "named_monitor_messages config es release =
     (let owner = monitor_entity config in
      bindr (unreported_monitor_messages owner es) (\<lambda>unreported.
        if owner = [] then Inr unreported
        else case entity_at es (YStr owner) of
          None \<Rightarrow> Inr (unreported @ [complaint (''monitoring.entity names '' @ quoted owner
            @ '', which is not a declared entity; add it (type: monitor) or drop monitoring.entity to run without a monitor'')])
        | Some e \<Rightarrow> bindr (wired_monitor_messages config es release owner e) (\<lambda>ms. Inr (unreported @ ms))))"

definition monitor_entity_messages :: "pydict \<Rightarrow> pydict list \<Rightarrow> bool \<Rightarrow> string list app" where
  "monitor_entity_messages config es release =
     (case get config ''monitoring'' of
        YNull \<Rightarrow> named_monitor_messages config es release
      | YMap monitoring \<Rightarrow>
          (case filter (\<lambda>key. key \<notin> set MONITORING_KEYS) (map fst monitoring) of
             key # _ \<Rightarrow> Inr [complaint (''monitoring: unknown key '' @ quoted key @ '' (want entity, capture_identity, levels or public)'')]
           | [] \<Rightarrow>
               (let levels = trace_level_messages (get monitoring ''levels'') in
                if levels \<noteq> [] then Inr levels else named_monitor_messages config es release))
      | _ \<Rightarrow> Inr [complaint (''monitoring: must be a block, e.g. '' @ quoted ''monitoring: {entity: ops}'')])"

section \<open>Limits behind a balancer\<close>

definition shared_budget_message :: "int \<Rightarrow> pydict \<Rightarrow> string" where
  "shared_budget_message rate e =
     ''error: security.max_requests_per_second is '' @ dec_int rate @ '' and entity '' @ quoted (if truthy (get e ''name'') then py_str (get e ''name'') else ''?'')
     @ '' names '' @ quoted ''public.trusted_proxies''
     @ ''. Qt counts the peer, which is the balancer, so every visitor shares one budget and the limit refuses the site rather than the flood. Rate-limit at the balancer instead, or drop ''
     @ quoted ''public.trusted_proxies'' @ '' if nothing is in front''"

definition rate_limit_messages :: "pydict \<Rightarrow> pydict \<Rightarrow> string list app" where
  "rate_limit_messages config security =
     (case get security ''max_requests_per_second'' of
        YInt rate \<Rightarrow>
          if rate \<le> 0 then Inr []
          else bindr (entities config) (\<lambda>es. concatr (map (\<lambda>e.
            if \<not> serves_browser e then Inr []
            else caught (trusted_proxies e) (\<lambda>_. Inr []) (\<lambda>proxies. Inr (if proxies = [] then [] else [shared_budget_message rate e]))) es))
      | _ \<Rightarrow> Inr [])"

section \<open>What clean rules promise of the record\<close>

lemma monitor_errors [simp]:
  "is_error (console_message n scope c)" "is_error (landing_message e scope c)" "is_error (monitor_client_message owner point n)"
  "is_error (reach_message owner host)" "is_error (export_message owner what)" "\<not> is_error (export_warning owner what)"
  "\<not> is_error (unreported_message owner n)"
  by (simp_all add: is_error_def console_message_def landing_message_def monitor_client_message_def reach_message_def export_message_def
      export_warning_def unreported_message_def)

lemma trace_level_errors: "clean (trace_level_messages levels) \<Longrightarrow> trace_level_messages levels = []"
  by (cases levels) (auto simp: trace_level_messages_def filter_empty_conv)

lemma wired_monitor:
  assumes "monitor_entity_messages config es release = Inr ms" "clean ms" "monitor_entity config \<noteq> []"
  obtains e ws where "entity_at es (YStr (monitor_entity config)) = Some e"
    "wired_monitor_messages config es release (monitor_entity config) e = Inr ws" "clean ws"
proof -
  have named: "named_monitor_messages config es release = Inr ms"
  proof (cases "get config ''monitoring''")
    case (YMap m)
    show ?thesis
    proof (cases "filter (\<lambda>key. key \<notin> set MONITORING_KEYS) (map fst m)")
      case Nil
      then show ?thesis using assms(1,2) YMap trace_level_errors by (fastforce simp: monitor_entity_messages_def Let_def split: if_splits)
    qed (use assms YMap in \<open>auto simp: monitor_entity_messages_def\<close>)
  qed (use assms in \<open>auto simp: monitor_entity_messages_def\<close>)
  then obtain us where us: "unreported_monitor_messages (monitor_entity config) es = Inr us"
    by (auto simp: named_monitor_messages_def Let_def bindr_eq_Inr)
  show thesis
  proof (cases "entity_at es (YStr (monitor_entity config))")
    case None
    then show thesis using named us assms(2,3) by (auto simp: named_monitor_messages_def Let_def)
  next
    case (Some e)
    then show thesis using named us assms(2,3) that by (auto simp: named_monitor_messages_def Let_def bindr_eq_Inr)
  qed
qed

lemma monitor_consumers_clean:
  assumes "monitor_consumer_messages config owner es = Inr ms" "clean ms" "connect_points config = Inr cps" "cp \<in> set cps"
    and "get cp ''owner'' = YStr owner" "py_iter (consumers_of cp) = Inr cs" "c \<in> set cs" "entity_at es (YStr (py_str c)) = Some w" "is_client w"
  shows "monitor_watches w"
proof (rule ccontr)
  assume "\<not> monitor_watches w"
  have c: "concatr (map (\<lambda>cp.
       if get cp ''owner'' \<noteq> YStr owner then Inr []
       else bindr (py_iter (consumers_of cp)) (\<lambda>cs.
         Inr (map (monitor_client_message owner (shown_point cp))
           (filter (\<lambda>c. case entity_at es (YStr (py_str c)) of Some w \<Rightarrow> is_client w \<and> \<not> monitor_watches w | None \<Rightarrow> False) cs)))) cps) = Inr ms"
    using assms(1,3) by (simp add: monitor_consumer_messages_def)
  have "monitor_client_message owner (shown_point cp) c \<in> set ms"
    using concatr_member [OF c assms(4)] assms(5-9) \<open>\<not> monitor_watches w\<close> by auto
  then show False using assms(2) by auto
qed

lemma console_delivery_clean:
  assumes "console_delivery_messages config = Inr ms" "clean ms" "entities config = Inr es" "f \<in> set es" "serves_browser f"
    and "bundles_for config f = Inr served" "(scope, BUNDLE_CLIENT (entity_name w)) \<in> set served" "w \<in> set es" "is_client w" "monitor_watches w"
  shows "scope = MONITOR_SCOPE"
proof (rule ccontr)
  assume ne: "scope \<noteq> MONITOR_SCOPE"
  have c: "concatr (map (one_console_messages config es) es) = Inr ms" using assms(1,3) by (simp add: console_delivery_messages_def)
  obtain fs where fs: "one_console_messages config es f = Inr fs" "set fs \<subseteq> set ms" using concatr_member [OF c assms(4)] by blast
  let ?consoles = "map entity_name (filter (\<lambda>c. is_client c \<and> monitor_watches c) es)"
  have "entity_name w \<in> set ?consoles" using assms(8-10) by auto
  then have "console_message (get f ''name'') scope (entity_name w) \<in> set (served_messages ?consoles (get f ''name'') (scope, BUNDLE_CLIENT (entity_name w)))"
    using ne by (simp add: served_messages_def)
  moreover have "\<exists>rest. fs = concat (map (served_messages ?consoles (get f ''name'')) (sort_key fst served)) @ rest"
    using fs(1) assms(5,6) by (simp add: one_console_messages_def Let_def eq_commute)
  ultimately have "console_message (get f ''name'') scope (entity_name w) \<in> set fs" using assms(7) by fastforce
  then show False using assms(2) fs(2) monitor_errors(1) by blast
qed

text \<open>
  C20. Who can read the record of a monitor in a project that passes the check: the entity named is a monitor; it binds this machine,
  or the project says in words that it does not; of its connect points no client but a console consumes one; and whatever
  entity hands out the console hands it to the operator scope and to no other.
\<close>

theorem record_stays_with_operators:
  assumes "monitor_entity_messages config es release = Inr ms" "clean ms" "console_delivery_messages config = Inr ns" "clean ns"
    and "entities config = Inr es" "monitor_entity config \<noteq> []"
  shows "\<exists>e. entity_at es (YStr (monitor_entity config)) = Some e \<and> entity_type e = ''monitor'' \<and>
    (bound_host e \<in> {''127.0.0.1'', ''localhost'', ''::1''} \<or> acknowledged config) \<and>
    (\<forall>cps cp cs c w. connect_points config = Inr cps \<and> cp \<in> set cps \<and> get cp ''owner'' = YStr (monitor_entity config) \<and>
       py_iter (consumers_of cp) = Inr cs \<and> c \<in> set cs \<and> entity_at es (YStr (py_str c)) = Some w \<and> is_client w \<longrightarrow> monitor_watches w) \<and>
    (\<forall>f served scope w. f \<in> set es \<and> serves_browser f \<and> bundles_for config f = Inr served \<and>
       (scope, BUNDLE_CLIENT (entity_name w)) \<in> set served \<and> w \<in> set es \<and> is_client w \<and> monitor_watches w \<longrightarrow> scope = MONITOR_SCOPE)"
proof -
  let ?owner = "monitor_entity config"
  obtain e ws where e: "entity_at es (YStr ?owner) = Some e" "wired_monitor_messages config es release ?owner e = Inr ws" "clean ws"
    using wired_monitor [OF assms(1,2,6)] by blast
  then obtain cs where cs: "monitor_consumer_messages config ?owner es = Inr cs" "clean cs" "clean (monitor_reach_messages config ?owner e)"
    by (auto simp: wired_monitor_messages_def bindr_eq_Inr)
  have "entity_type e = ''monitor''"
    by (rule ccontr) (use e(2,3) in \<open>auto simp: wired_monitor_messages_def bindr_eq_Inr\<close>)
  moreover have "bound_host e \<in> {''127.0.0.1'', ''localhost'', ''::1''} \<or> acknowledged config"
  proof (rule ccontr)
    assume "\<not> (bound_host e \<in> {''127.0.0.1'', ''localhost'', ''::1''} \<or> acknowledged config)"
    then have "monitor_reach_messages config ?owner e = [reach_message ?owner (bound_host e)]"
      unfolding monitor_reach_messages_def by (rule if_not_P)
    then show False using cs(3) monitor_errors(4) by (metis list.set_intros(1))
  qed
  ultimately show ?thesis
    using e(1) monitor_consumers_clean [OF cs(1,2)] console_delivery_clean [OF assms(3,4,5)] by (intro exI [of _ e] conjI allI impI) blast+
qed

text \<open>
  C21. Under the rules of a release, the collector a monitor exports to is reached over https or is on this machine: plaintext
  with the record in it never leaves the host.
\<close>

theorem release_export_is_private:
  assumes "monitor_export_messages owner e True = Inr ms" "clean ms" "get e ''export'' = YMap settings" "get settings ''otlp'' = YMap otlp"
  shows "startswith (strip (text_or_empty (get otlp ''endpoint''))) ''https://'' \<or>
    (startswith (strip (text_or_empty (get otlp ''endpoint''))) ''http://'' \<and> is_loopback_url (strip (text_or_empty (get otlp ''endpoint''))) = Inr True)"
proof -
  let ?endpoint = "strip (text_or_empty (get otlp ''endpoint''))"
  obtain os where os: "otlp_messages owner True (YMap otlp) = Inr os" "clean os"
    using assms by (auto simp: monitor_export_messages_def bindr_eq_Inr)
  show ?thesis
  proof (cases "startswith ?endpoint ''https://''")
    case False
    have "?endpoint \<noteq> []" "startswith ?endpoint ''http://''"
      using os False by (auto simp: otlp_messages_def Let_def split: if_splits)
    moreover from this have "is_loopback_url ?endpoint = Inr True"
      using os False by (auto simp: otlp_messages_def Let_def bindr_eq_Inr split: if_splits)
    ultimately show ?thesis by blast
  qed blast
qed

section \<open>Examples\<close>

definition ops_entity :: pydict where
  "ops_entity =
     [(''name'', YStr ''ops''), (''type'', YStr ''monitor''), (''bundles'', YMap [(''operator'', YStr ''deck''), (''anonymous'', YStr ''ops/door'')]),
      (''export'', YMap [(''otlp'', YMap [(''endpoint'', YStr ''http://[::1]:4318'')])])]"

definition watched_entities :: "pydict list" where
  "watched_entities = [ops_entity, [(''name'', YStr ''deck''), (''type'', YStr ''client''), (''console'', YBool True)]]"

definition watched_project :: pydict where
  "watched_project = [(''entities'', YList (map YMap watched_entities)), (''monitoring'', YMap [(''entity'', YStr ''ops'')])]"

theorem record_stays_with_operators_witness:
  "\<exists>e. entity_at watched_entities (YStr (monitor_entity watched_project)) = Some e \<and> entity_type e = ''monitor'' \<and>
    (bound_host e \<in> {''127.0.0.1'', ''localhost'', ''::1''} \<or> acknowledged watched_project)"
proof -
  have m: "monitor_entity_messages watched_project watched_entities True = Inr []" by code_simp
  have c: "console_delivery_messages watched_project = Inr []" by code_simp
  have e: "entities watched_project = Inr watched_entities" by code_simp
  have o: "monitor_entity watched_project \<noteq> []" by code_simp
  show ?thesis using record_stays_with_operators [OF m _ c _ e o] by auto
qed

theorem release_export_is_private_witness:
  "startswith ''http://[::1]:4318'' ''https://'' \<or> (startswith ''http://[::1]:4318'' ''http://'' \<and> is_loopback_url ''http://[::1]:4318'' = Inr True)"
proof -
  have m: "monitor_export_messages ''ops'' ops_entity True = Inr []" by code_simp
  have s: "strip (text_or_empty (YStr ''http://[::1]:4318'')) = ''http://[::1]:4318''" by code_simp
  show ?thesis
    using release_export_is_private [OF m, of "[(''otlp'', YMap [(''endpoint'', YStr ''http://[::1]:4318'')])]" "[(''endpoint'', YStr ''http://[::1]:4318'')]"]
    by (simp add: ops_entity_def s)
qed

text \<open>A host that opens a bracket and does not close it ends the check with an exception instead of a message.\<close>

lemma bad_bracket_raises:
  "monitor_export_messages ''ops'' [(''export'', YMap [(''otlp'', YMap [(''endpoint'', YStr ''http://[::1'')])])] True = Inl ValueError"
  by code_simp

end
