(* ===== verification/CheckBrowser.thy ===== *)
theory CheckBrowser
  imports CheckMonitor
begin

text \<open>
  The rules of \<open>synqt check\<close> over what the browser is given, from \<open>synqt/check.py\<close>: the origin of an edge, delivery
  from elsewhere, the limits of the \<open>security:\<close> block, the \<open>privacy:\<close> block, and the choices of the \<open>build:\<close> block.
\<close>

section \<open>Origins\<close>

definition edge_message :: "yval \<Rightarrow> string \<Rightarrow> string" where
  "edge_message name what = ''error: edge '' @ quoted (py_str name) @ what"

definition origin_messages :: "pydict \<Rightarrow> string list app" where
  "origin_messages e =
     (let declared = get (public_settings e) ''origin''; name = get_or e ''name'' (YStr ''<unnamed>'');
          says = (\<lambda>what. edge_message name ('' declares public.origin: '' @ py_repr declared @ what)) in
      if stripped_text declared = [] then Inr []
      else bindr (urlsplit (rstrip_chars ''/'' (stripped_text declared))) (\<lambda>parts.
        if url_scheme parts \<notin> {''http'', ''https''} \<or> url_netloc parts = []
        then Inr [says ('', which is not an origin; write the scheme, the host and the port a browser types, as in '' @ quoted ''https://example.com''
                    @ '' or '' @ quoted ''https://localhost:8443'')]
        else Inr ((if url_path parts \<noteq> [] \<or> url_query parts \<noteq> [] \<or> url_fragment parts \<noteq> []
                   then [says ('', which carries a path; an origin is the scheme, host and port and nothing after them, so write ''
                           @ quoted (url_scheme parts @ ''://'' @ url_netloc parts))] else [])
                  @ (if url_scheme parts = ''http'' \<and> tls_settings e \<noteq> []
                     then [edge_message name '' terminates TLS but declares public.origin over http; the session cookie is issued Secure on a TLS edge and a browser drops it on an http origin, so nobody could stay signed in'']
                     else []))))"

definition derived_origin_message :: "pydict \<Rightarrow> string" where
  "derived_origin_message e =
     ''warn: edge '' @ quoted (py_str (get_or e ''name'' (YStr ''<unnamed>'')))
     @ '' signs people in but declares no public.origin, so it derives one from its bind address and a release build would tell the identity provider to send the browser back to localhost; declare the origin visitors reach it at''"

definition derived_origin_messages :: "pydict \<Rightarrow> bool \<Rightarrow> string list app" where
  "derived_origin_messages config release =
     (if \<not> release then Inr []
      else bindr (identity_providers config) (\<lambda>ps.
        if filter (\<lambda>p. \<not> truthy (get p ''dev_stub'')) ps = [] then Inr []
        else bindr (web_edges config) (\<lambda>edges.
        bindr (filterr (identity_enabled config) edges) (\<lambda>signing.
          Inr (map derived_origin_message (filter (\<lambda>e. stripped_text (get (public_settings e) ''origin'') = []) signing))))))"

definition public_origin_messages :: "pydict \<Rightarrow> bool \<Rightarrow> string list app" where
  "public_origin_messages config release =
     bindr (web_edges config) (\<lambda>edges.
     bindr (concatr (map origin_messages edges)) (\<lambda>ms.
     bindr (derived_origin_messages config release) (\<lambda>ds. Inr (ms @ ds))))"

section \<open>Delivery from elsewhere\<close>

definition cdn_message :: "yval \<Rightarrow> string \<Rightarrow> string" where
  "cdn_message name what = edge_message name ('' sets public.serve_client: false'' @ what)"

definition cdn_delivery_messages :: "pydict \<Rightarrow> string list app" where
  "cdn_delivery_messages config =
     bindr (web_edges config) (\<lambda>es.
       case filter (\<lambda>e. get (public_settings e) ''serve_client'' = YBool False) es of
         [] \<Rightarrow> Inr []
       | edge # _ \<Rightarrow> bindr (public_origin config) (\<lambda>origin.
           let name = get_or edge ''name'' (YStr ''<unnamed>'');
               origins = (case get (security_settings config) ''allowed_origins'' of YList vs \<Rightarrow> vs | _ \<Rightarrow> []) in
           Inr ((if origin_model config \<noteq> ''split_origin''
                 then [cdn_message name ('', so the client is delivered from another origin; project.origin_model must be '' @ quoted ''split_origin''
                         @ '' or the session cookie is issued SameSite=Lax and never reaches the upgrade'')] else [])
                @ (if origin = []
                   then [cdn_message name '' but declares no public.origin; the bundle is served from elsewhere, so the app cannot read the edge from its own page and has nothing to connect to''] else [])
                @ (if list_all (\<lambda>v. strip (py_str v) = ''self'') origins
                   then [cdn_message name ('' but security.allowed_origins names no origin other than '' @ quoted ''self''
                           @ ''; the upgrade'' @ CHR 0x27 # ''s origin check would refuse the very client this edge is for'')] else []))))"

section \<open>Limits and choices\<close>

definition raised_message :: "'a app \<Rightarrow> string list app" where
  "raised_message r = caught r (\<lambda>failure. Inr [complaint failure]) (\<lambda>_. Inr [])"

definition LIMIT_KEYS :: "string list" where
  "LIMIT_KEYS =
     [''handshake_timeout_ms'', ''max_connections_per_ip'', ''max_connections_global'', ''max_message_bytes'', ''keep_alive_timeout_s'', ''max_body_bytes'']"

definition whole_number_message :: "string \<Rightarrow> yval \<Rightarrow> string" where
  "whole_number_message key value = complaint (key @ '' must be a whole number, not '' @ py_repr value)"

definition security_limit_messages :: "string \<Rightarrow> yval \<Rightarrow> string list" where
  "security_limit_messages key value =
     (case value of
        YNull \<Rightarrow> []
      | YInt i \<Rightarrow>
          if i \<le> 0
          then [complaint (''security.'' @ key @ '' is '' @ dec_int i @ ''; a limit of zero or less would refuse every connection rather than disable the limit'')]
          else []
      | _ \<Rightarrow> [whole_number_message (''security.'' @ key) value])"

definition session_ceiling_messages :: "yval \<Rightarrow> bool \<Rightarrow> string list" where
  "session_ceiling_messages sessions release =
     (case sessions of
        YNull \<Rightarrow> []
      | YInt i \<Rightarrow>
          if i < 0 then [complaint (''security.max_sessions is '' @ dec_int i @ ''; use 0 to disable the ceiling'')]
          else if i = 0 \<and> release
          then [caution ''security.max_sessions is 0, so the session table has no ceiling: anyone who can load the page can grow it for as long as the TTL lasts'']
          else []
      | _ \<Rightarrow> [whole_number_message ''security.max_sessions'' sessions])"

definition rate_messages :: "yval \<Rightarrow> string list" where
  "rate_messages rate =
     (case rate of
        YNull \<Rightarrow> []
      | YInt i \<Rightarrow>
          if i < 0
          then [complaint (''security.max_requests_per_second is '' @ dec_int i
                  @ ''; zero turns the limit off and anything above it is the limit, so a negative one says nothing'')]
          else []
      | _ \<Rightarrow> [whole_number_message ''security.max_requests_per_second'' rate])"

definition ttl_messages :: "yval \<Rightarrow> string list" where
  "ttl_messages ttl =
     (case ttl of YNull \<Rightarrow> [] | YInt _ \<Rightarrow> [] | _ \<Rightarrow> [whole_number_message ''identity.session.ttl_minutes'' ttl])"

definition default_scope_messages :: "pydict \<Rightarrow> string list \<Rightarrow> string list" where
  "default_scope_messages config order =
     (let scope = default_scope config in
      if scope \<noteq> [] \<and> order \<noteq> [] \<and> scope \<notin> set order
      then [complaint (''scopes.default is '' @ quoted scope @ '', which is not in scopes.order ('' @ join '', '' order
              @ ''); every new session would start with a scope that matches nothing'')]
      else [])"

definition split_origin_messages :: "pydict \<Rightarrow> string list" where
  "split_origin_messages config =
     (if origin_model config = ''split_origin''
      then [caution (''project.origin_model '' @ quoted ''split_origin''
              @ '' is deprecated. Its session cookie is a third-party cookie, so the app loads and never connects wherever third-party cookies are restricted (Safari today), and Partitioned is not a fix. Serve the client and the edge from one origin, with a node near the user that does both; see the ''
              @ quoted ''Serving the client from another origin'' @ '' section of https://synqt.org/project-layout-and-config/'')]
      else [])"

definition allowed_origins_messages :: "yval \<Rightarrow> string list" where
  "allowed_origins_messages origins =
     (if origins \<noteq> YNull \<and> \<not> is_list origins
      then [complaint (''security.allowed_origins must be a list of origins, not '' @ py_repr origins)] else [])"

definition browser_policy_messages :: "pydict \<Rightarrow> string list \<Rightarrow> bool \<Rightarrow> string list app" where
  "browser_policy_messages config order release =
     (let security = security_settings config in
      bindr (raised_message (session_transport config)) (\<lambda>transport.
      bindr (raised_message (identity_flow config)) (\<lambda>flow.
      bindr (rate_limit_messages config security) (\<lambda>balancer.
        Inr (split_origin_messages config @ transport @ flow @ allowed_origins_messages (get security ''allowed_origins'')
             @ concat (map (\<lambda>key. security_limit_messages key (get security key)) LIMIT_KEYS)
             @ session_ceiling_messages (get security ''max_sessions'') release
             @ rate_messages (get security ''max_requests_per_second'')
             @ balancer
             @ ttl_messages (get (identity_session config) ''ttl_minutes'')
             @ default_scope_messages config order)))))"

section \<open>Privacy\<close>

text \<open>\<open>any(is_client(entity) for entity in config.get("entities") or [])\<close>, where an entry may be no entity.\<close>

definition any_client :: "pydict \<Rightarrow> bool app" where
  "any_client config =
     bindr (py_iter (or_empty (get config ''entities''))) (anyr (\<lambda>v. bindr (as_dict v) (\<lambda>e. Inr (is_client e))))"

definition no_privacy_message :: string where
  "no_privacy_message =
     ''warn: this project declares no `privacy:` block, so its client has no privacy policy link, no legal notice and no retention period of its own (it inherits ''
     @ dec_int DEFAULT_RETENTION_DAYS @ '' days). See docs/privacy.md''"

definition blank_message :: "string list \<Rightarrow> string" where
  "blank_message blank =
     ''warn: privacy.'' @ join '', privacy.'' blank @ '' '' @ (if length blank = 1 then ''is'' else ''are'') @ '' blank, so LegalFooter leaves ''
     @ (if length blank = 1 then ''that link'' else ''those entries'') @ '' out. See docs/privacy.md''"

definition PRIVACY_TEXTS :: "string list" where
  "PRIVACY_TEXTS = [''policy'', ''legal_notice'', ''contact'']"

definition text_key_messages :: "pydict \<Rightarrow> string \<Rightarrow> string list" where
  "text_key_messages privacy key =
     (case get privacy key of
        YNull \<Rightarrow> [] | YStr _ \<Rightarrow> [] | value \<Rightarrow> [complaint (''privacy.'' @ key @ '' must be text, not '' @ py_repr value)])"

definition is_blank_text :: "yval \<Rightarrow> bool" where
  "is_blank_text value = (case value of YNull \<Rightarrow> True | YStr s \<Rightarrow> strip s = [] | _ \<Rightarrow> False)"

definition retention_period_message :: "int \<Rightarrow> string" where
  "retention_period_message days =
     complaint (''privacy.retention_days is '' @ dec_int days @ '', which is not a period; leave it out to inherit the default of ''
       @ dec_int DEFAULT_RETENTION_DAYS @ '' days, or name the period this project actually keeps personal data for'')"

definition retention_messages :: "yval \<Rightarrow> string list" where
  "retention_messages retention =
     (case retention of
        YNull \<Rightarrow> []
      | YInt i \<Rightarrow> if i \<le> 0 then [retention_period_message i] else []
      | _ \<Rightarrow> [complaint (''privacy.retention_days must be a whole number of days, not '' @ py_repr retention)])"

definition cookie_messages :: "yval \<Rightarrow> string list" where
  "cookie_messages cookies =
     (case cookies of
        YNull \<Rightarrow> []
      | YList items \<Rightarrow> concat (map (\<lambda>item. if stripped_text item = []
          then [complaint (''privacy.cookies holds '' @ py_repr item @ '', which is not a category name'')] else []) items)
      | _ \<Rightarrow> [complaint (''privacy.cookies must be a list of category names, not '' @ py_repr cookies)])"

definition erasure_messages :: "pydict \<Rightarrow> yval \<Rightarrow> string list" where
  "erasure_messages config erasure =
     (case erasure of
        YNull \<Rightarrow> []
      | YBool b \<Rightarrow>
          if b \<and> identity_settings config = []
          then [complaint ''privacy.erasure is on, but this project configures no identity, so no visitor is ever signed in and DataErasureRequest would never appear. Configure `identity:`, or take the key out'']
          else []
      | _ \<Rightarrow> [complaint (''privacy.erasure must be true or false, not '' @ py_repr erasure)])"

definition privacy_messages :: "pydict \<Rightarrow> string list app" where
  "privacy_messages config =
     (case get config ''privacy'' of
        YNull \<Rightarrow> bindr (any_client config) (\<lambda>client. Inr (if client then [no_privacy_message] else []))
      | YMap privacy \<Rightarrow>
          (let blank = filter (\<lambda>key. is_blank_text (get privacy key)) PRIVACY_TEXTS in
           bindr (if blank = [] then Inr False else any_client config) (\<lambda>client.
             Inr (concat (map (text_key_messages privacy) PRIVACY_TEXTS)
                  @ (if client then [blank_message blank] else [])
                  @ retention_messages (get privacy ''retention_days'')
                  @ cookie_messages (get privacy ''cookies'')
                  @ erasure_messages config (get privacy ''erasure''))))
      | value \<Rightarrow> Inr [complaint (''privacy must be a map, not '' @ type_name value)])"

section \<open>The build block\<close>

definition LOADING_KEYS :: "string list" where
  "LOADING_KEYS = [''logo'', ''icon'', ''background'', ''title'', ''html'']"

definition loading_value_messages :: "string \<times> yval \<Rightarrow> string list" where
  "loading_value_messages kv =
     (let (key, value) = kv in
      if key \<notin> set LOADING_KEYS
      then [complaint (''build.loading: unknown key '' @ quoted key @ '' (expected one of '' @ join '', '' LOADING_KEYS @ '')'')]
      else if stripped_text value = [] then [complaint (''build.loading.'' @ key @ '' must be a non-empty string'')]
      else [])"

definition loading_messages :: "pydict \<Rightarrow> string list app" where
  "loading_messages config =
     bindr (get_attr (or_mapping (get config ''build'')) ''loading'' YNull) (\<lambda>loading.
       Inr (case loading of
         YNull \<Rightarrow> []
       | YMap m \<Rightarrow>
           (let ignored = sort (filter (\<lambda>key. key \<in> fst ` set m) [''logo'', ''icon'', ''background'', ''title'']) in
            concat (map loading_value_messages (sort_key fst m))
            @ (if ''html'' \<in> fst ` set m \<and> ignored \<noteq> []
               then [complaint (''build.loading.html replaces the whole page, so '' @ join '', '' ignored @ '' would be ignored; remove either html or those keys'')]
               else []))
       | _ \<Rightarrow> [complaint ''build.loading must be a map'']))"

definition thread_mode_messages :: "pydict \<Rightarrow> string list app" where
  "thread_mode_messages config =
     bindr (get_attr (or_mapping (get config ''build'')) ''client_threads'' (YStr ''single'')) (\<lambda>v.
     bindr (get_attr (or_mapping (get config ''security'')) ''cross_origin_isolation'' YNull) (\<lambda>isolation.
       let threads = map to_lower (py_str v) in
       Inr ((if threads \<notin> {''single'', ''multi''}
             then [complaint (''build.client_threads must be '' @ quoted ''single'' @ '' or '' @ quoted ''multi'' @ '', not '' @ quoted threads)] else [])
            @ (if threads = ''multi'' \<and> isolation = YBool False
               then [caution (''build.client_threads is '' @ quoted ''multi''
                       @ '', which forces cross-origin isolation on; security.cross_origin_isolation: false is overridden to true'')] else []))))"

definition asyncify_messages :: "pydict \<Rightarrow> string list app" where
  "asyncify_messages config =
     bindr (get_attr (or_mapping (get config ''build'')) ''client_asyncify'' YNull) (\<lambda>asyncify.
       Inr (case asyncify of
         YNull \<Rightarrow> []
       | YBool b \<Rightarrow>
           if b
           then [caution ''build.client_asyncify is on; the client links with asyncify, which costs roughly a third more bundle over the wire and instruments every call that can suspend. SynQt does not need it (see https://synqt.org/project-layout-and-config/)'']
           else []
       | _ \<Rightarrow> [complaint (''build.client_asyncify must be true or false, not '' @ quoted (py_str asyncify))]))"

text \<open>A choice of the build block: absent, or one of some words whatever their case.\<close>

definition choice_messages :: "string \<Rightarrow> string list \<Rightarrow> string \<Rightarrow> pydict \<Rightarrow> string list app" where
  "choice_messages key words spelled config =
     bindr (get_attr (or_mapping (get config ''build'')) key YNull) (\<lambda>v.
       Inr (if v = YNull \<or> map to_lower (py_str v) \<in> set words then []
            else [complaint (''build.'' @ key @ '' must be '' @ spelled @ '', not '' @ quoted (py_str v))]))"

definition logging_messages :: "pydict \<Rightarrow> string list app" where
  "logging_messages =
     choice_messages ''client_logging'' [''console'', ''qt'', ''none''] (quoted ''console'' @ '', '' @ quoted ''qt'' @ '', or '' @ quoted ''none'')"

definition CACHE_MODES :: "string list" where
  "CACHE_MODES = [''service_worker'', ''http'']"

definition cache_messages :: "pydict \<Rightarrow> string list app" where
  "cache_messages = choice_messages ''client_cache'' CACHE_MODES (quoted ''service_worker'' @ '' or '' @ quoted ''http'')"

definition hierarchical_messages :: "pydict \<Rightarrow> string list" where
  "hierarchical_messages config =
     (case map_of (block_of (get config ''scopes'')) ''hierarchical'' of
        None \<Rightarrow> []
      | Some (YBool _) \<Rightarrow> []
      | Some v \<Rightarrow> [complaint (''scopes.hierarchical must be true or false, not '' @ py_repr v)])"

section \<open>What a clean origin is\<close>

lemma edge_errors [simp]: "is_error (edge_message name what)"
  by (simp add: is_error_def edge_message_def)

lemma first_public_edge:
  assumes "first_public key edges = Some t"
  shows "\<exists>e \<in> set edges. stripped_text (get (public_settings e) key) = t \<and> t \<noteq> []"
proof -
  have "t \<in> (\<lambda>e. stripped_text (get (public_settings e) key)) ` set edges" "t \<noteq> []"
    using assms by (auto simp: first_public_def find_Some_iff)
  then show ?thesis by blast
qed

lemma origin_messages_clean:
  assumes "origin_messages e = Inr ms" "clean ms" "stripped_text (get (public_settings e) ''origin'') \<noteq> []"
  shows "\<exists>parts. urlsplit (rstrip_chars ''/'' (stripped_text (get (public_settings e) ''origin''))) = Inr parts \<and>
    url_scheme parts \<in> {''http'', ''https''} \<and> url_netloc parts \<noteq> [] \<and> url_path parts = [] \<and> url_query parts = [] \<and> url_fragment parts = [] \<and>
    (url_scheme parts = ''http'' \<longrightarrow> tls_settings e = [])"
proof -
  obtain parts where p: "urlsplit (rstrip_chars ''/'' (stripped_text (get (public_settings e) ''origin''))) = Inr parts"
    using assms(1,3) by (auto simp: origin_messages_def Let_def bindr_eq_Inr)
  show ?thesis
  proof (cases "url_scheme parts \<notin> {''http'', ''https''} \<or> url_netloc parts = []")
    case True
    then show ?thesis using assms p by (auto simp: origin_messages_def Let_def)
  next
    case False
    then show ?thesis using assms p by (cases "url_scheme parts = ''http''") (auto simp: origin_messages_def Let_def split: if_splits)
  qed
qed

text \<open>
  The origin the build takes from the edges, where the project passes the rule for it and one is declared, splits as a URL into http
  or https and a host, with no path, query or fragment behind it.
\<close>

theorem public_origin_is_an_origin:
  assumes "public_origin_messages config release = Inr ms" "clean ms" "public_origin config = Inr origin" "origin \<noteq> []"
  shows "\<exists>parts. urlsplit origin = Inr parts \<and> url_scheme parts \<in> {''http'', ''https''} \<and> url_netloc parts \<noteq> [] \<and>
    url_path parts = [] \<and> url_query parts = [] \<and> url_fragment parts = []"
proof -
  obtain edges os where edges: "web_edges config = Inr edges" "concatr (map origin_messages edges) = Inr os" "clean os"
    using assms(1,2) by (auto simp: public_origin_messages_def bindr_eq_Inr)
  obtain t where t: "first_public ''origin'' edges = Some t" "origin = rstrip_chars ''/'' t"
    using assms(3,4) edges(1) by (auto simp: public_origin_def split: option.splits)
  obtain e where e: "e \<in> set edges" "stripped_text (get (public_settings e) ''origin'') = t" "t \<noteq> []" using first_public_edge [OF t(1)] by blast
  obtain fs where "origin_messages e = Inr fs" "clean fs" using concatr_clean [OF edges(2,3) e(1)] by blast
  then show ?thesis using origin_messages_clean e(2,3) t(2) by blast
qed

section \<open>Examples\<close>

definition origin_config :: "string \<Rightarrow> pydict" where
  "origin_config origin = [(''entities'', YList [YMap [(''name'', YStr ''edge''), (''type'', YStr ''web_edge''), (''public'', YMap [(''origin'', YStr origin)])]])]"

theorem public_origin_is_an_origin_witness:
  "\<exists>parts. urlsplit ''https://a.io'' = Inr parts \<and> url_scheme parts \<in> {''http'', ''https''} \<and> url_netloc parts \<noteq> [] \<and>
    url_path parts = [] \<and> url_query parts = [] \<and> url_fragment parts = []"
proof -
  have m: "public_origin_messages (origin_config ''https://a.io/'') False = Inr []" by code_simp
  have o: "public_origin (origin_config ''https://a.io/'') = Inr ''https://a.io''" by code_simp
  show ?thesis by (rule public_origin_is_an_origin [OF m _ o]) simp_all
qed

text \<open>
  What is compared whole and not noticed: an empty query, letters in capitals, a port a browser leaves out. And a bracket that is not
  closed ends the check with an exception.
\<close>

lemma empty_query_passes: "public_origin_messages (origin_config ''https://a.io?'') False = Inr [] \<and> public_origin (origin_config ''https://a.io?'') = Inr ''https://a.io?''"
  by code_simp

lemma capitals_and_default_port_pass: "public_origin_messages (origin_config ''HTTPS://A.io:443'') False = Inr []"
  by code_simp

lemma open_bracket_raises: "public_origin_messages (origin_config ''https://[a'') False = Inl ValueError"
  by code_simp

end
