(* ===== verification/CheckProject.thy ===== *)
theory CheckProject
  imports CheckFronts CheckNetwork CheckProviders CheckBrowser
begin

text \<open>
  \<open>validate\<close> of \<open>synqt/check.py\<close>: every rule over the resolved configuration in the order the check runs them, before and
  after the links the framework implies are added, and what a project that passes is known to be. The rules over QML
  and over the files of the project are separate entries of the check and not part of it.
\<close>

section \<open>The rules in order\<close>

text \<open>A browser has to have something to reach, except for a client that is built for no browser.\<close>

definition no_edge_messages :: "yval \<times> pydict \<Rightarrow> string list app" where
  "no_edge_messages client =
     (let (name, e) = client; targets = (if truthy (get e ''targets'') then get e ''targets'' else YList [YStr ''wasm'']) in
      bindr (str_in ''wasm'' targets) (\<lambda>wasm.
        Inr (if wasm
             then [''error: client '' @ quoted (py_str name) @ '' has no web_edge entity to reach; the browser can only reach a web edge (see https://synqt.org/entities/)'']
             else [])))"

definition unreachable_client_messages :: "pydict list \<Rightarrow> string list app" where
  "unreachable_client_messages es =
     bindr (entity_items es) (\<lambda>items.
       if list_ex (\<lambda>(_, e). serves_browser e) items then Inr []
       else bindr (names_sorted is_client es) (\<lambda>clients. concatr (map no_edge_messages clients)))"

text \<open>What a project that signs anybody in has to declare; \<open>identity_enabled\<close> is asked of the edges only.\<close>

definition signing_edges :: "pydict \<Rightarrow> pydict list app" where
  "signing_edges config = bindr (entities config) (\<lambda>es. filterr (identity_enabled config) (filter is_edge es))"

definition no_scopes_message :: "pydict \<Rightarrow> string" where
  "no_scopes_message e =
     entity_message (py_str (get e ''name'')) '' serves a sign-in but the project declares no scopes; add scopes.order to synqt.yaml, because the scope a session ends up holding has to be one of them''"

definition no_hook_message :: "pydict \<Rightarrow> string" where
  "no_hook_message e =
     entity_message (py_str (get e ''name'')) '' serves a sign-in but the project names no identity.mapping.hook; without it nothing decides what scope a session gets, so every login is refused''"

definition sign_in_messages :: "pydict \<Rightarrow> string list app" where
  "sign_in_messages config =
     bindr (if scope_order config = [] then bindr (signing_edges config) (\<lambda>es. Inr (map no_scopes_message es)) else Inr []) (\<lambda>scopes.
     bindr (if identity_mapping_hook config = [] then bindr (signing_edges config) (\<lambda>es. Inr (map no_hook_message es)) else Inr []) (\<lambda>hook.
       Inr (scopes @ hook)))"

definition client_block_messages :: "yval \<times> pydict \<Rightarrow> string list" where
  "client_block_messages client =
     (let (name, e) = client in
      (if truthy (get e ''provider'') \<or> truthy (get e ''settings'')
       then [client_message (py_str name) '' must not carry a provider/secret block''] else [])
      @ client_env_messages name e)"

text \<open>The rules the check writes out in place: over all points, all clients and all providers.\<close>

definition duplicate_point_messages :: "pydict \<Rightarrow> string list app" where
  "duplicate_point_messages config =
     bindr (py_iter (or_empty (get config ''connect_points''))) (\<lambda>vs. Inr (duplicate_messages (map (\<lambda>c. get c ''owner'') (dicts vs)) ''connect point owner''
       ''an entity has one connect point, so the later one wins and quietly replaces the consumer list and the export block of the earlier one; put every member on one point, and use per-member scope where they are for different audiences''))"

definition all_bind_messages :: "pydict \<Rightarrow> pydict list \<Rightarrow> string list app" where
  "all_bind_messages config es =
     bindr (py_iter (or_empty (get config ''connect_points''))) (\<lambda>vs. Inr (bind_address_messages es (dicts vs)))"

definition all_point_messages :: "pydict \<Rightarrow> pydict list \<Rightarrow> (string \<times> endpoint) list \<Rightarrow> string list app" where
  "all_point_messages config es endpoints =
     bindr (py_iter (get_or config ''connect_points'' (YList []))) (\<lambda>vs. concatr (map (connect_point_messages es (scope_order config) endpoints) vs))"

text \<open>The order in which a set of names is gone through is Python's own, so it is an argument.\<close>

definition all_client_messages :: "(yval list \<Rightarrow> yval list) \<Rightarrow> pydict list \<Rightarrow> string list app" where
  "all_client_messages iterate es =
     bindr (entity_keys es) (\<lambda>ks.
       let clients = filter (\<lambda>k. case entity_at es k of Some e \<Rightarrow> is_client e | None \<Rightarrow> False) ks in
       Inr (concat (map (\<lambda>k. client_block_messages (k, case entity_at es k of Some e \<Rightarrow> e | None \<Rightarrow> [])) (iterate clients))))"

definition all_provider_messages :: "pydict list \<Rightarrow> string list app" where
  "all_provider_messages es =
     bindr (names_sorted (\<lambda>_. True) es) (\<lambda>named.
       Inr (concat (map (\<lambda>(name, e). provider_messages name e @ provider_secret_messages name e) named)))"

definition certificate_rule ::
  "(string \<Rightarrow> bool) option \<Rightarrow> pydict list \<Rightarrow> pydict list \<Rightarrow> (string \<times> endpoint) list \<Rightarrow> bool \<Rightarrow> string list app" where
  "certificate_rule disk es cps endpoints starting =
     (case disk of None \<Rightarrow> Inr [] | Some on_disk \<Rightarrow> mesh_certificate_messages on_disk es cps endpoints starting)"

definition declared_rules :: "pydict \<Rightarrow> pydict list \<Rightarrow> bool \<Rightarrow> string list app list" where
  "declared_rules config es release =
     [Inr (entity_name_messages es),
      qml_uri_messages config es,
      Inr (duplicate_messages (map (\<lambda>e. get e ''name'') es) ''entity''
        ''the later one wins and the earlier one is never built, so part of this file describes an entity that does not exist''),
      duplicate_point_messages config,
      named_point_messages config,
      provider_entity_messages config es,
      monitor_entity_messages config es release,
      monitor_as_consumer_messages config es,
      console_delivery_messages config]"

definition reach_rules :: "pydict \<Rightarrow> pydict list \<Rightarrow> string list app list" where
  "reach_rules config es =
     [unreachable_client_messages es,
      public_port_messages es,
      Inr (entity_type_messages es),
      Inr (network_messages es),
      trusted_proxy_messages es,
      all_bind_messages config es,
      Inr (shared_messages es),
      orphan_messages config es,
      replica_messages config es,
      thread_messages es]"

text \<open>What is below \<open>synqt/mesh\<close> is an argument, where there is a project directory.\<close>

definition wired_rules ::
  "(yval list \<Rightarrow> yval list) \<Rightarrow> (string \<Rightarrow> bool) option \<Rightarrow> pydict \<Rightarrow> pydict list \<Rightarrow> pydict list \<Rightarrow> (string \<times> endpoint) list \<Rightarrow> bool \<Rightarrow> bool \<Rightarrow> string list app list" where
  "wired_rules iterate disk config es cps endpoints release starting =
     [sign_in_messages config,
      all_point_messages config es endpoints,
      Inr (mesh_policy_messages config es cps endpoints release),
      edge_tls_messages es release,
      desktop_client_messages config es release,
      identity_messages config release,
      certificate_rule disk es cps endpoints starting,
      all_client_messages iterate es,
      thread_mode_messages config,
      asyncify_messages config,
      logging_messages config,
      Inr (hierarchical_messages config),
      lint_member_scopes config,
      lint_fronts config,
      browser_policy_messages config (scope_order config) release,
      public_origin_messages config release,
      cdn_delivery_messages config,
      loading_messages config,
      privacy_messages config,
      all_provider_messages es,
      cache_messages config]"

definition verdict :: "string list \<Rightarrow> bool \<times> string list" where
  "verdict ms = (let ok = \<not> list_ex is_error ms in (ok, if ok \<and> ms = [] then [''ok: topology valid''] else ms))"

definition validate_project ::
  "(yval list \<Rightarrow> yval list) \<Rightarrow> (string \<Rightarrow> bool) option \<Rightarrow> pydict \<Rightarrow> bool \<Rightarrow> bool \<Rightarrow> (bool \<times> string list) app" where
  "validate_project iterate disk config release starting =
     bindr (entities config) (\<lambda>es.
     bindr (entity_keys es) (\<lambda>keys.
       if keys = [] then Inr (False, [''error: no entities declared''])
       else
         bindr (concatr (declared_rules config es release)) (\<lambda>declared.
         bindr (with_implied_points config) (\<lambda>whole.
         bindr (concatr (reach_rules whole es)) (\<lambda>reach.
         bindr (get_attr (or_mapping (get whole ''project'')) ''name'' (YStr ''app'')) (\<lambda>project_name.
         bindr (connect_points whole) (\<lambda>cps.
         bindr (resolve_endpoints es cps project_name) (\<lambda>endpoints.
         bindr (concatr (wired_rules iterate disk whole es cps endpoints release starting)) (\<lambda>wired.
           Inr (verdict (declared @ reach @ wired)))))))))))"

section \<open>What passing means\<close>

lemma concatr_rule:
  assumes "concatr rules = Inr ms" "clean ms" "rule \<in> set rules"
  obtains rs where "rule = Inr rs" "clean rs"
  using concatr_clean [of id rules ms rule] assms that by auto

lemma verdict_ok: "verdict ms = (True, shown) \<Longrightarrow> clean ms"
  by (auto simp: verdict_def Let_def list_ex_iff)

lemma validate_project_ok:
  assumes "validate_project iterate disk config release starting = Inr (True, ms)"
  obtains es whole cps project_name endpoints declared reach wired where
    "entities config = Inr es" "with_implied_points config = Inr whole" "connect_points whole = Inr cps"
    "resolve_endpoints es cps project_name = Inr endpoints"
    "concatr (declared_rules config es release) = Inr declared" "clean declared"
    "concatr (reach_rules whole es) = Inr reach" "clean reach"
    "concatr (wired_rules iterate disk whole es cps endpoints release starting) = Inr wired" "clean wired"
proof -
  obtain es keys where e: "entities config = Inr es" "entity_keys es = Inr keys"
    using assms by (auto simp: validate_project_def bindr_eq_Inr)
  then have "keys \<noteq> []" using assms by (auto simp: validate_project_def)
  then obtain declared whole reach project_name cps endpoints wired where r:
    "with_implied_points config = Inr whole" "connect_points whole = Inr cps" "resolve_endpoints es cps project_name = Inr endpoints"
    "concatr (declared_rules config es release) = Inr declared" "concatr (reach_rules whole es) = Inr reach"
    "concatr (wired_rules iterate disk whole es cps endpoints release starting) = Inr wired" "verdict (declared @ reach @ wired) = (True, ms)"
    using assms e by (auto simp: validate_project_def bindr_eq_Inr)
  have "clean declared" "clean reach" "clean wired" using verdict_ok [OF r(7)] by auto
  then show thesis using that e(1) r(1-6) by blast
qed

lemma connect_point_owner:
  assumes "connect_point_messages es order endpoints (YMap point) = Inr ms" "clean ms"
  shows "\<exists>e. entity_at es (get point ''owner'') = Some e \<and> \<not> is_client e"
proof -
  obtain os where "owner_messages es (if point_name point \<noteq> [] then point_name point else ''<no owner>'') point = Inr os" "clean os"
    using assms by (auto simp: connect_point_messages_def as_dict_def Let_def bindr_eq_Inr)
  then show ?thesis using owner_messages_clean by blast
qed

lemma points_of_whole:
  assumes "connect_points whole = Inr cps"
  obtains vs where "py_iter (get_or whole ''connect_points'' (YList [])) = Inr vs" "cps = dicts vs"
  using assms by (auto simp: connect_points_def bindr_eq_Inr)

lemma wired_rule_points:
  assumes "concatr (wired_rules iterate disk whole es cps endpoints release starting) = Inr wired" "clean wired"
    and "connect_points whole = Inr cps" "cp \<in> set cps"
  shows "\<exists>e. entity_at es (get cp ''owner'') = Some e \<and> \<not> is_client e"
proof -
  obtain vs where vs: "py_iter (get_or whole ''connect_points'' (YList [])) = Inr vs" "cps = dicts vs" using points_of_whole [OF assms(3)] by blast
  obtain rs where "all_point_messages whole es endpoints = Inr rs" "clean rs"
    by (rule concatr_rule [OF assms(1,2), of "all_point_messages whole es endpoints"]) (auto simp: wired_rules_def)
  then have r: "concatr (map (connect_point_messages es (scope_order whole) endpoints) vs) = Inr rs" "clean rs"
    using vs(1) by (auto simp: all_point_messages_def)
  have "YMap cp \<in> set vs" using assms(4) vs(2) by (simp add: set_dicts)
  then obtain fs where "connect_point_messages es (scope_order whole) endpoints (YMap cp) = Inr fs" "clean fs"
    by (rule concatr_clean [OF r])
  then show ?thesis by (rule connect_point_owner)
qed

lemma wired_rule_clients:
  assumes "concatr (wired_rules iterate disk whole es cps endpoints release starting) = Inr wired" "clean wired"
    and "\<And>xs. set (iterate xs) = set xs" "entity_at es (YStr n) = Some e" "is_client e"
  shows "\<not> truthy (get e ''provider'') \<and> \<not> truthy (get e ''settings'') \<and> \<not> (\<exists>s. inside s (YMap e) \<and> startswith s ''env:'')"
proof -
  let ?rule = "\<lambda>ks. concat (map (\<lambda>k. client_block_messages (k, case entity_at es k of Some e \<Rightarrow> e | None \<Rightarrow> []))
     (iterate (filter (\<lambda>k. case entity_at es k of Some e \<Rightarrow> is_client e | None \<Rightarrow> False) ks)))"
  obtain rs where rs: "all_client_messages iterate es = Inr rs" "clean rs"
    by (rule concatr_rule [OF assms(1,2), of "all_client_messages iterate es"]) (auto simp: wired_rules_def)
  then obtain ks where ks: "entity_keys es = Inr ks" "clean (?rule ks)" by (auto simp: all_client_messages_def Let_def bindr_eq_Inr)
  have "YStr n \<in> set (iterate (filter (\<lambda>k. case entity_at es k of Some e \<Rightarrow> is_client e | None \<Rightarrow> False) ks))"
    using entity_key_among [OF ks(1) assms(4)] assms(3-5) by simp
  then have c: "clean (client_block_messages (YStr n, e))" using ks(2) assms(4) by fastforce
  then have "client_env_messages (YStr n) e = []"
    by (auto simp: client_block_messages_def client_env_messages_def Let_def is_error_def split: if_splits)
  then have "\<not> (\<exists>s. inside s (YMap e) \<and> startswith s ''env:'')"
    using env_references_inside [of "[]" "YMap e"] by (simp add: client_env_messages_def Let_def del: inside_simps env_references.simps split: if_splits)
  moreover have "\<not> truthy (get e ''provider'')" "\<not> truthy (get e ''settings'')"
    using c by (auto simp: client_block_messages_def split: if_splits)
  ultimately show ?thesis by blast
qed

section \<open>A release build asks for more\<close>

text \<open>Wherever the one answers without an error message, so does the other.\<close>

definition implies_clean :: "string list app \<Rightarrow> string list app \<Rightarrow> bool" where
  "implies_clean r s \<longleftrightarrow> (\<forall>ms. r = Inr ms \<and> clean ms \<longrightarrow> (\<exists>ns. s = Inr ns \<and> clean ns))"

lemma implies_clean_refl [simp]: "implies_clean r r"
  by (simp add: implies_clean_def)

lemma implies_cleanI: "(\<And>ms. r = Inr ms \<Longrightarrow> clean ms \<Longrightarrow> \<exists>ns. s = Inr ns \<and> clean ns) \<Longrightarrow> implies_clean r s"
  by (simp add: implies_clean_def)

lemma implies_cleanD: "implies_clean r s \<Longrightarrow> r = Inr ms \<Longrightarrow> clean ms \<Longrightarrow> \<exists>ns. s = Inr ns \<and> clean ns"
  by (simp add: implies_clean_def)

lemma concatr_implies: "list_all2 implies_clean rs ss \<Longrightarrow> implies_clean (concatr rs) (concatr ss)"
proof (induction rs ss rule: list_all2_induct)
  case (Cons r rs s ss)
  show ?case
  proof (rule implies_cleanI)
    fix ms
    assume m: "concatr (r # rs) = Inr ms" "clean ms"
    then obtain a b where "r = Inr a" "concatr rs = Inr b" "clean a" "clean b" by (auto simp: concatr.simps bindr_eq_Inr)
    moreover from this obtain c where "s = Inr c" "clean c" using implies_cleanD [OF Cons(1)] by blast
    moreover from calculation obtain d where "concatr ss = Inr d" "clean d" using implies_cleanD [OF Cons(3)] by blast
    ultimately show "\<exists>ns. concatr (s # ss) = Inr ns \<and> clean ns" by (auto simp: concatr.simps)
  qed
qed simp

lemma bindr_implies: "(\<And>x. r = Inr x \<Longrightarrow> implies_clean (f x) (g x)) \<Longrightarrow> implies_clean (bindr r f) (bindr r g)"
  by (cases r) simp_all

lemma bindr_append_implies:
  assumes "implies_clean r s"
  shows "implies_clean (bindr r (\<lambda>xs. Inr (us @ xs @ vs))) (bindr s (\<lambda>xs. Inr (us @ xs @ vs)))"
  using assms by (fastforce simp: implies_clean_def bindr_eq_Inr)

lemma bindr_between_implies:
  assumes "implies_clean r s"
  shows "implies_clean (bindr r (\<lambda>xs. bindr t (\<lambda>ys. Inr (us @ xs @ vs @ ys)))) (bindr s (\<lambda>xs. bindr t (\<lambda>ys. Inr (us @ xs @ vs @ ys))))"
proof (cases t)
  case (Inr ys)
  then show ?thesis using bindr_append_implies [OF assms, of us "vs @ ys"] by simp
qed (simp add: implies_clean_def bindr_eq_Inr)

lemma otlp_implies: "implies_clean (otlp_messages owner True otlp) (otlp_messages owner False otlp)"
  by (cases otlp) (auto simp: implies_clean_def otlp_messages_def Let_def bindr_eq_Inr split: if_splits)

lemma monitor_export_implies: "implies_clean (monitor_export_messages owner e True) (monitor_export_messages owner e False)"
proof (cases "get e ''export''")
  case (YMap settings)
  show ?thesis
    unfolding monitor_export_messages_def YMap yval.case
    by (rule bindr_between_implies [OF otlp_implies, where vs = "[]", simplified append_Nil])
qed (simp_all add: monitor_export_messages_def)

lemma wired_monitor_implies: "implies_clean (wired_monitor_messages config es True owner e) (wired_monitor_messages config es False owner e)"
  unfolding wired_monitor_messages_def append_assoc [symmetric]
  by (rule bindr_implies, rule bindr_between_implies [OF monitor_export_implies, unfolded append_assoc [symmetric]])

lemma named_monitor_implies: "implies_clean (named_monitor_messages config es True) (named_monitor_messages config es False)"
proof (cases "entity_at es (YStr (monitor_entity config))")
  case (Some e)
  have "implies_clean (bindr (wired_monitor_messages config es True owner e) (\<lambda>ms. Inr (us @ ms)))
      (bindr (wired_monitor_messages config es False owner e) (\<lambda>ms. Inr (us @ ms)))" for us owner
    using bindr_append_implies [OF wired_monitor_implies, where us = us and vs = "[]"] by simp
  then show ?thesis unfolding named_monitor_messages_def Let_def by (intro bindr_implies) (simp add: Some)
next
  case None
  then show ?thesis unfolding named_monitor_messages_def Let_def by (intro bindr_implies) simp
qed

lemma monitor_entity_implies: "implies_clean (monitor_entity_messages config es True) (monitor_entity_messages config es False)"
proof (cases "get config ''monitoring''")
  case (YMap m)
  then show ?thesis
    using named_monitor_implies by (cases "filter (\<lambda>key. key \<notin> set MONITORING_KEYS) (map fst m)") (auto simp: monitor_entity_messages_def Let_def)
qed (use named_monitor_implies in \<open>simp_all add: monitor_entity_messages_def\<close>)

lemma mesh_policy_implies: "implies_clean (Inr (mesh_policy_messages config es cps endpoints True)) (Inr (mesh_policy_messages config es cps endpoints False))"
  by (auto simp: implies_clean_def mesh_policy_messages_def)

lemma edge_tls_implies: "implies_clean (edge_tls_messages es True) (edge_tls_messages es False)"
  by (simp add: implies_clean_def edge_tls_messages_def)

lemma one_desktop_implies: "implies_clean (one_desktop_messages url True name e) (one_desktop_messages url False name e)"
  by (auto simp: implies_clean_def one_desktop_messages_def Let_def bindr_eq_Inr split: if_splits)

lemma desktop_implies: "implies_clean (desktop_client_messages config es True) (desktop_client_messages config es False)"
  unfolding desktop_client_messages_def
  by (intro bindr_implies concatr_implies) (auto simp: list_all2_map1 list_all2_map2 one_desktop_implies intro: list_all2_refl)

lemma dev_stub_implies: "implies_clean (dev_stub_messages config True) (dev_stub_messages config False)"
  unfolding dev_stub_messages_def Let_def
  by (auto intro!: bindr_implies) (auto simp: implies_clean_def)

lemma identity_implies: "implies_clean (identity_messages config True) (identity_messages config False)"
proof (cases "get config ''identity''")
  case (YMap m)
  have "implies_clean (bindr (dev_stub_messages config True) (\<lambda>stub. Inr (us @ ds @ stub))) (bindr (dev_stub_messages config False) (\<lambda>stub. Inr (us @ ds @ stub)))"
    for us ds using bindr_append_implies [OF dev_stub_implies, where us = "us @ ds" and vs = "[]"] by simp
  then show ?thesis using YMap by (auto simp: identity_messages_def intro!: bindr_implies)
qed (simp_all add: identity_messages_def)

lemma browser_policy_implies: "implies_clean (browser_policy_messages config order True) (browser_policy_messages config order False)"
proof -
  have "clean (session_ceiling_messages s True) \<Longrightarrow> clean (session_ceiling_messages s False)" for s
    by (cases s) (auto simp: session_ceiling_messages_def split: if_splits)
  then show ?thesis unfolding browser_policy_messages_def Let_def
    by (intro bindr_implies) (auto simp: implies_clean_def)
qed

lemma public_origin_implies: "implies_clean (public_origin_messages config True) (public_origin_messages config False)"
  unfolding public_origin_messages_def
  by (intro bindr_implies) (auto simp: implies_clean_def derived_origin_messages_def bindr_eq_Inr)

lemma declared_rules_implies: "list_all2 implies_clean (declared_rules config es True) (declared_rules config es False)"
  by (simp add: declared_rules_def monitor_entity_implies)

lemma wired_rules_implies:
  "list_all2 implies_clean (wired_rules iterate disk whole es cps endpoints True starting) (wired_rules iterate disk whole es cps endpoints False starting)"
  by (simp add: wired_rules_def mesh_policy_implies edge_tls_implies desktop_implies identity_implies browser_policy_implies public_origin_implies)

text \<open>
  C12. A project that passes the check of a release passes it for development too, with whatever is on the disk: a release only ever
  asks for more.
\<close>

theorem release_is_stricter:
  assumes "validate_project iterate disk config True starting = Inr (True, ms)"
  shows "\<exists>ns. validate_project iterate disk config False starting = Inr (True, ns)"
proof -
  obtain es keys where e: "entities config = Inr es" "entity_keys es = Inr keys" "keys \<noteq> []"
    using assms by (auto simp: validate_project_def bindr_eq_Inr split: if_splits)
  then obtain declared whole reach project_name cps endpoints wired where r:
    "concatr (declared_rules config es True) = Inr declared" "with_implied_points config = Inr whole" "concatr (reach_rules whole es) = Inr reach"
    "get_attr (or_mapping (get whole ''project'')) ''name'' (YStr ''app'') = Inr project_name"
    "connect_points whole = Inr cps" "resolve_endpoints es cps project_name = Inr endpoints"
    "concatr (wired_rules iterate disk whole es cps endpoints True starting) = Inr wired" "verdict (declared @ reach @ wired) = (True, ms)"
    using assms by (auto simp: validate_project_def bindr_eq_Inr)
  have c: "clean declared" "clean reach" "clean wired" using verdict_ok [OF r(8)] by auto
  obtain ds where ds: "concatr (declared_rules config es False) = Inr ds" "clean ds"
    using implies_cleanD [OF concatr_implies [OF declared_rules_implies] r(1) c(1)] by blast
  obtain ws where ws: "concatr (wired_rules iterate disk whole es cps endpoints False starting) = Inr ws" "clean ws"
    using implies_cleanD [OF concatr_implies [OF wired_rules_implies] r(7) c(3)] by blast
  have "fst (verdict (ds @ reach @ ws))" using ds(2) ws(2) c(2) by (auto simp: verdict_def Let_def list_ex_iff)
  then have "\<exists>ns. verdict (ds @ reach @ ws) = (True, ns)" by (metis prod.collapse)
  then show ?thesis using e r(2-6) ds(1) ws(1) by (simp add: validate_project_def)
qed


section \<open>Examples\<close>

definition checked_project :: pydict where
  "checked_project =
     [(''entities'', YList
       [YMap [(''name'', YStr ''app''), (''type'', YStr ''client'')],
        YMap [(''name'', YStr ''edge''), (''type'', YStr ''web_edge''), (''public'', YMap [(''port'', YInt 9), (''tls_terminated_upstream'', YBool True)])]]),
      (''connect_points'', YList [YMap [(''owner'', YStr ''edge''), (''consumers'', YList [YStr ''app'']), (''export'', YStr ''prop int n'')]]),
      (''privacy'', YMap [(''policy'', YStr ''p''), (''legal_notice'', YStr ''l''), (''contact'', YStr ''c'')])]"

lemma checked_project_passes: "validate_project id None checked_project True False = Inr (True, [''ok: topology valid''])"
  by code_simp

theorem release_is_stricter_witness: "\<exists>ns. validate_project id None checked_project False False = Inr (True, ns)"
  by (rule release_is_stricter [OF checked_project_passes])

definition checked_entities :: "pydict list" where
  "checked_entities = (case entities checked_project of Inr es \<Rightarrow> es | Inl _ \<Rightarrow> [])"

definition checked_points :: "pydict list" where
  "checked_points = (case connect_points checked_project of Inr cps \<Rightarrow> cps | Inl _ \<Rightarrow> [])"


end
