(* ===== verification/Spec2Isabelle.thy ===== *)
theory Spec2Isabelle
  imports EmitGuards CompilerProps DesignRoundtrip QmlRewrite QmlComments Graphics DesignPlan YamlProps
    AppFiles Licenses ConfigProps TopologyProps ScopeGen HotReload CheckDrift CheckProject
begin

text \<open>
  SynQt is a framework for applications made of entities (a browser client, web edges, services) that
  share state over connect points. Its tools are two Python programs: \<open>synqtc\<close>, which compiles a
  \<open>.syn\<close> contract to C++ (\<open>src/tools/synqtc/synqtc\<close>), and \<open>synqt\<close>, which reads the project file
  \<open>synqt.yaml\<close>, checks it, generates the application around the contracts, builds and runs it
  (\<open>src/tools/synqt/synqt\<close>). This development models the parts of both that carry rules, and proves
  what they promise. The C++ runtime is not part of it.

  \<^bold>\<open>How the parts meet.\<close> \<open>config.py\<close> merges the project file, a profile and the environment into one
  configuration. \<open>appmodel.py\<close> answers every question about it: what an entity is, where its files are,
  which points it owns and consumes, which links the auth entity and the monitor imply. \<open>check.py\<close>
  judges it. \<open>contractgen.py\<close> turns the \<open>export:\<close> block of a point into a contract, which \<open>synqtc\<close>
  compiles; \<open>designdoc.py\<close> reads and writes the same block for the editor, and \<open>designplan.py\<close> applies
  what the editor plans to the tree of files. \<open>topologywriter.py\<close> resolves every link to one endpoint
  and writes each entity its slice; \<open>run.py\<close> starts the entities, owners first, and watches the sources.

  \<^bold>\<open>The contract compiler.\<close> \<open>SynTypes\<close> (\<open>types.py\<close>, \<open>errors.py\<close>), \<open>SynModel\<close> (\<open>model.py\<close>),
  \<open>SynLexer\<close>, \<open>ParserLogic\<close> and \<open>SynParser\<close> (\<open>parser.py\<close>), \<open>EmitBase\<close>, \<open>EmitText\<close>, \<open>EmitSource\<close>,
  \<open>EmitConsumer\<close> (\<open>emit.py\<close>, the generated C++ line for line), \<open>TextStore\<close> and \<open>SynCompiler\<close>
  (\<open>cli.py\<close>, \<open>writer.py\<close>). \<open>SynParserProps\<close>: the parser accepts only well formed files and refuses with a
  position inside the text; validation decides typing. \<open>EmitProps\<close>: the emitters are total on what the parser
  accepts and include what they use. \<open>EmitGuards\<close>: the generated slot, signal, property and model bodies,
  executed by a small semantics of the C++ they are made of, never pass a shut gate or a value over its bound.
  \<open>EmitPlain\<close> and \<open>CompilerProps\<close>: what a run leaves on disk, and that a second run writes nothing.

  \<^bold>\<open>Contracts of a project.\<close> \<open>PyText\<close> (Python's string methods), \<open>ContractGen\<close> (\<open>contractgen.py\<close>), \<open>DesignDoc\<close>
  (\<open>designdoc.py\<close>), \<open>SynPrinter\<close>, \<open>Roundtrip\<close> and \<open>DesignRoundtrip\<close>: what the editor renders is read back as the same
  members, and a point's scope gates every member that names none. \<open>PlanTree\<close> and \<open>DesignPlan\<close>
  (\<open>designplan.py\<close>): a plan is applied as a whole or not at all, on a disk on which any change may break.

  \<^bold>\<open>QML.\<close> \<open>QmlScan\<close>, \<open>QmlComments\<close>, \<open>QmlRewrite\<close>, \<open>Graphics\<close> (\<open>qmlscan.py\<close>, \<open>qmlcomments.py\<close>,
  \<open>qmlrewrite.py\<close>, \<open>graphics.py\<close>): tokens are exact slices, commentary is stripped without touching code, the copy the engine
  loads differs from the source at most in its root type and pragma.

  \<^bold>\<open>The project file.\<close> \<open>PyValue\<close> is the type of a value read from YAML with Python's operations on it.
  \<open>ConfigLayers\<close> and \<open>ConfigProps\<close> (\<open>config.py\<close>), \<open>YamlEdit\<close> and \<open>YamlProps\<close> (\<open>yamledit.py\<close>), \<open>AppModel\<close>, \<open>AppIdentity\<close>,
  \<open>AppRoutes\<close>, \<open>AppProps\<close>, \<open>AppFiles\<close> (\<open>appmodel.py\<close>), \<open>Licenses\<close>, \<open>ScopeGen\<close> (\<open>scopegen.py\<close>, \<open>profiles.py\<close>). What is
  shown: a profile and the environment never remove a section, implied links are added once, a contract carries a session exactly where
  someone other than a client consumes it, the QML module of a client has exactly its files.

  \<^bold>\<open>Checking.\<close> The rules of \<open>check.py\<close> are functions from the configuration to their messages: \<open>CheckTopology\<close> (names, ports, connect
  points), \<open>CheckNetwork\<close> (what an entity calls and who calls it, addresses), \<open>CheckIdentity\<close> (TLS, providers of identity, device
  sessions, replicas), \<open>CheckProviders\<close> (secrets, engines, certificates), \<open>CheckMonitor\<close>, \<open>CheckBrowser\<close> (origins, limits, privacy),
  \<open>CheckContracts\<close>, \<open>CheckFronts\<close> and \<open>CheckDrift\<close> (what crosses a point, fronts, uses against the contract). \<open>PyNet\<close> is what they use of Python's
  \<open>ipaddress\<close> and \<open>urllib.parse\<close>. \<open>CheckProject\<close> composes them into \<open>validate\<close>, in its order. What is shown is what a project without an
  error message promises: links that can be dialled, hosts that are addresses, fronts behind which every caller finds what the front
  offers, calls that match the contract, no secret below a client, a record only operators read; and that the rules of a release
  only add to those of development.

  \<^bold>\<open>Running.\<close> \<open>Topology\<close> and \<open>TopologyProps\<close> (\<open>topologywriter.py\<close>): owner and consumer hold one record of a point. \<open>Startup\<close>, \<open>Launch\<close> and \<open>HotReload\<close>
  (\<open>run.py\<close>, \<open>devidentities.py\<close>): the order exists also where links run in a circle, owners come first where they do not, and a
  development session, a step relation over edits, failures and restarts, keeps the flags it was started with.

  \<^bold>\<open>Conventions.\<close> A string is a list of the 256 characters of HOL; text in the sources is taken to be in that range,
  and case mapping is that of ASCII. A dictionary is an association list with string keys. An exception is the left of a
  sum: \<open>exn\<close> in the compiler, \<open>app_error\<close> elsewhere. Integers are unbounded, as in Python. No definition needs
  fuel: loops are structural or have a measure. What is outside (PyYAML, \<open>float\<close>, \<open>json.dumps\<close>, absolute paths, the files of a
  directory, whether a process runs, what was read out of QML) is an argument of the definitions that use it.

  \<^bold>\<open>Not modelled.\<close> The generated \<open>main.cpp\<close>, CMake and HTML texts (\<open>maingen.py\<close>, \<open>cmakegen.py\<close>, \<open>clientshell.py\<close>, \<open>loadingpage.py\<close>)
  are templates without rules of their own; \<open>build.py\<close>, \<open>docker.py\<close>, \<open>deploy.py\<close>, \<open>toolchain.py\<close>, \<open>doctor.py\<close>, \<open>mesh.py\<close> drive
  external programs; \<open>infer.py\<close> and \<open>typebackend.py\<close> read QML heuristically; the \<open>add*\<close> commands copy templates.
  Of \<open>check.py\<close>, the rules over routes and bundles and those that read QML and other files of the project are left out.
\<close>

end
